(* ===== verification/Py_Prelude.thy ===== *)
theory Py_Prelude
  imports Complex_Main "HOL-Library.List_Lexorder" "HOL-Library.Char_ord"
    "HOL-Library.Product_Lexorder"
begin

text \<open>
  The prelude: the part of Python and of the relational store that every component of the
  program uses.

  \<^item> \<open>exc\<close> lists the exceptions the code raises, and \<open>'a res\<close> is the value of code that may
    raise. Exceptions that carry a machine-readable code or reason keep it; the display
    message (Chinese prose in the source) is not modelled.
  \<^item> \<open>pv\<close> is a JSON-like Python value. A string is its UTF-8 encoding, so that
    \<open>.encode("utf-8")\<close> is the identity and the order on strings is the order of the
    code points. A float is the shortest decimal that denotes it: \<open>PFloat m e\<close> is
    \<open>m * 10 ^ e\<close>; infinities and NaN are not values of the model.
  \<^item> The operators the source applies to such values: truth value, \<open>str\<close>, \<open>int\<close>,
    equality, \<open>dict.get\<close>, item assignment.
  \<^item> A table is the list of its rows in insertion order; \<open>upd_where\<close> is
    \<open>UPDATE ... WHERE\<close>, \<open>count_where\<close> its row count.
\<close>

named_theorems res_simps \<open>rules that take a chain of fallible calls apart\<close>

named_theorems table_simps \<open>rules about rows under an update of a table\<close>

subsection \<open>Exceptions and fallible values\<close>

datatype exc =
    KeyErr
  | ValueErr
  | TypeErr
  | AttrErr
  | StateErr string            \<comment> \<open>StreamingStateError\<close>
  | ConflictErr string         \<comment> \<open>StreamingConflictError\<close>
  | BusyErr                    \<comment> \<open>StreamingTaskBusyError\<close>
  | IncompleteErr string       \<comment> \<open>StreamingIncompleteError, by its \<open>reason\<close>\<close>
  | AgenticErr string int      \<comment> \<open>AgenticError: \<open>code\<close> and \<open>status_code\<close>\<close>
  | DatabaseErr string         \<comment> \<open>an integrity error of the store\<close>
  | StopErr                    \<comment> \<open>\<open>next\<close> of an empty iterator\<close>
  | CodedErr string string     \<comment> \<open>an error class of one component, and its \<open>code\<close>\<close>

type_synonym 'a res = "exc + 'a"

fun bind_res :: "'a res \<Rightarrow> ('a \<Rightarrow> 'b res) \<Rightarrow> 'b res" where
  "bind_res (Inl e) f = Inl e"
| "bind_res (Inr x) f = f x"

lemma bind_res_cong [fundef_cong]:
  "m = m' \<Longrightarrow> (\<And>x. m' = Inr x \<Longrightarrow> f x = g x) \<Longrightarrow> bind_res m f = bind_res m' g"
  by (cases m') auto

fun map_res :: "('a \<Rightarrow> 'b res) \<Rightarrow> 'a list \<Rightarrow> 'b list res" where
  "map_res f [] = Inr []"
| "map_res f (x # xs) = bind_res (f x) (\<lambda>y. bind_res (map_res f xs) (\<lambda>ys. Inr (y # ys)))"

lemma bind_res_Inr_iff [res_simps]: "bind_res m f = Inr y \<longleftrightarrow> (\<exists>x. m = Inr x \<and> f x = Inr y)"
  by (cases m) auto

lemma bind_res_Inl_iff [res_simps]:
  "bind_res m f = Inl e \<longleftrightarrow> m = Inl e \<or> (\<exists>x. m = Inr x \<and> f x = Inl e)"
  by (cases m) auto

lemma bind_res_assoc: "bind_res (bind_res m f) g = bind_res m (\<lambda>x. bind_res (f x) g)"
  by (cases m) simp_all

lemma res_witness: "(case m of Inl _ \<Rightarrow> False | Inr x \<Rightarrow> P x) \<longleftrightarrow> (\<exists>x. m = Inr x \<and> P x)"
  by (cases m) simp_all

lemma opt_witness: "(case m of None \<Rightarrow> False | Some x \<Rightarrow> P x) \<longleftrightarrow> (\<exists>x. m = Some x \<and> P x)"
  by (cases m) simp_all

lemma if_Inl_Inr_iff [res_simps]: "(if c then Inl e else m) = Inr y \<longleftrightarrow> \<not> c \<and> m = Inr y"
  by auto

lemma map_res_Inr_length: "map_res f xs = Inr ys \<Longrightarrow> length ys = length xs"
  by (induction xs arbitrary: ys) (auto simp: res_simps)

lemma map_res_Inr_set: "map_res f xs = Inr ys \<Longrightarrow> y \<in> set ys \<Longrightarrow> \<exists>x \<in> set xs. f x = Inr y"
  by (induction xs arbitrary: ys) (auto simp: res_simps)

lemma map_res_Inr_all:
  "map_res f xs = Inr ys \<Longrightarrow> (\<And>x y. f x = Inr y \<Longrightarrow> P y) \<Longrightarrow> list_all P ys"
  by (induction xs arbitrary: ys) (auto simp: res_simps)

subsection \<open>Python values\<close>

datatype pv =
    PNone
  | PBool bool
  | PInt int
  | PFloat int int
  | PStr string
  | PList "pv list"
  | PDict "(string \<times> pv) list"

text \<open>\<open>bool(v)\<close>.\<close>

fun truthy :: "pv \<Rightarrow> bool" where
  "truthy PNone = False"
| "truthy (PBool b) = b"
| "truthy (PInt i) = (i \<noteq> 0)"
| "truthy (PFloat m e) = (m \<noteq> 0)"
| "truthy (PStr s) = (s \<noteq> [])"
| "truthy (PList xs) = (xs \<noteq> [])"
| "truthy (PDict d) = (d \<noteq> [])"

text \<open>\<open>a or b\<close>.\<close>

definition py_or :: "pv \<Rightarrow> pv \<Rightarrow> pv" where
  "py_or a b = (if truthy a then a else b)"

text \<open>\<open>d.get(k)\<close>, with \<open>None\<close> for a missing key, and \<open>k in d\<close>.\<close>

definition dget :: "(string \<times> pv) list \<Rightarrow> string \<Rightarrow> pv" where
  "dget d k = (case map_of d k of None \<Rightarrow> PNone | Some v \<Rightarrow> v)"

definition dhas :: "(string \<times> pv) list \<Rightarrow> string \<Rightarrow> bool" where
  "dhas d k = (map_of d k \<noteq> None)"

text \<open>\<open>d[k] = v\<close>: a known key keeps its place, a new one goes to the end.\<close>

fun dset :: "(string \<times> pv) list \<Rightarrow> string \<Rightarrow> pv \<Rightarrow> (string \<times> pv) list" where
  "dset [] k v = [(k, v)]"
| "dset ((k', v') # d) k v = (if k' = k then (k, v) # d else (k', v') # dset d k v)"

lemma map_of_dset: "map_of (dset d k v) = (map_of d)(k \<mapsto> v)"
  by (induction d) auto

lemma dget_dset [simp]: "dget (dset d k v) k' = (if k' = k then v else dget d k')"
  by (auto simp: dget_def map_of_dset)

lemma keys_dset: "set (map fst (dset d k v)) = insert k (set (map fst d))"
proof (induction d)
  case (Cons p d)
  obtain k' v' where "p = (k', v')" by (cases p)
  with Cons show ?case by (simp add: insert_commute del: set_map)
qed simp

lemma distinct_dset: "distinct (map fst d) \<Longrightarrow> distinct (map fst (dset d k v))"
proof (induction d)
  case (Cons p d)
  obtain k' v' where "p = (k', v')" by (cases p)
  with Cons show ?case by (auto simp add: keys_dset simp del: set_map)
qed simp

subsection \<open>Numbers as text\<close>

fun nat_digits :: "nat \<Rightarrow> string" where
  "nat_digits n = (if n < 10 then [char_of (48 + n)]
                   else nat_digits (n div 10) @ [char_of (48 + n mod 10)])"

declare nat_digits.simps [simp del]

definition int_str :: "int \<Rightarrow> string" where
  "int_str i = (if i < 0 then ''-'' @ nat_digits (nat (- i)) else nat_digits (nat i))"

text \<open>
  \<open>repr\<close> of a float from its shortest decimal: positional for a decimal point between
  \<open>-3\<close> and \<open>16\<close>, exponential outside.
\<close>

definition float_exponent :: "int \<Rightarrow> string" where
  "float_exponent x =
     (let ds = nat_digits (nat \<bar>x\<bar>); pad = (if length ds < 2 then ''0'' @ ds else ds)
      in (if x < 0 then ''e-'' else ''e+'') @ pad)"

definition float_repr :: "int \<Rightarrow> int \<Rightarrow> string" where
  "float_repr m e =
     (if m = 0 then ''0.0'' else
      let ds = nat_digits (nat \<bar>m\<bar>); n = int (length ds); k = n + e;
          body =
            (if - 4 < k \<and> k \<le> 16 then
               (if k \<le> 0 then ''0.'' @ replicate (nat (- k)) (CHR ''0'') @ ds
                else if n \<le> k then ds @ replicate (nat (k - n)) (CHR ''0'') @ ''.0''
                else take (nat k) ds @ ''.'' @ drop (nat k) ds)
             else (case ds of
                 [] \<Rightarrow> []
               | [d] \<Rightarrow> [d] @ float_exponent (k - 1)
               | d # rest \<Rightarrow> [d] @ ''.'' @ rest @ float_exponent (k - 1)))
      in (if m < 0 then ''-'' @ body else body))"

text \<open>The integer a float truncates to, and \<open>int(v)\<close>.\<close>

definition float_trunc :: "int \<Rightarrow> int \<Rightarrow> int" where
  "float_trunc m e =
     (if 0 \<le> e then m * 10 ^ nat e else sgn m * (\<bar>m\<bar> div 10 ^ nat (- e)))"

fun parse_digits :: "string \<Rightarrow> nat \<Rightarrow> nat option" where
  "parse_digits [] acc = Some acc"
| "parse_digits (c # cs) acc =
     (let x = of_char c :: nat in
      if 48 \<le> x \<and> x \<le> 57 then parse_digits cs (10 * acc + (x - 48)) else None)"

definition is_space :: "char \<Rightarrow> bool" where
  "is_space c = (c = CHR '' '' \<or> (9 \<le> (of_char c :: nat) \<and> (of_char c :: nat) \<le> 13)
                 \<or> (28 \<le> (of_char c :: nat) \<and> (of_char c :: nat) \<le> 31))"

text \<open>\<open>s.strip()\<close>.\<close>

definition py_strip :: "string \<Rightarrow> string" where
  "py_strip s = rev (dropWhile is_space (rev (dropWhile is_space s)))"

text \<open>\<open>s.lower()\<close> on ASCII letters.\<close>

definition lower_char :: "char \<Rightarrow> char" where
  "lower_char c = (let x = of_char c :: nat in if 65 \<le> x \<and> x \<le> 90 then char_of (x + 32) else c)"

definition py_lower :: "string \<Rightarrow> string" where
  "py_lower s = map lower_char s"

text \<open>A group of decimal digits, where single underscores may separate digits.\<close>

fun grouped :: "string \<Rightarrow> bool" where
  "grouped [] = False"
| "grouped [c] = (c \<noteq> CHR ''_'')"
| "grouped (c # d # cs) = (c \<noteq> CHR ''_'' \<and> grouped (if d = CHR ''_'' then cs else d # cs))"

definition digits_value :: "string \<Rightarrow> nat option" where
  "digits_value s = (if grouped s then parse_digits (filter (\<lambda>c. c \<noteq> CHR ''_'') s) 0 else None)"

text \<open>An optional sign in front of a literal.\<close>

definition split_sign :: "string \<Rightarrow> bool \<times> string" where
  "split_sign s =
     (case s of
        [] \<Rightarrow> (False, [])
      | c # cs \<Rightarrow> if c = CHR ''-'' then (True, cs) else if c = CHR ''+'' then (False, cs) else (False, s))"

text \<open>\<open>int(s)\<close> for a decimal literal with optional sign and surrounding space.\<close>

definition parse_int :: "string \<Rightarrow> int res" where
  "parse_int s =
     (case split_sign (py_strip s) of
        (neg, ds) \<Rightarrow>
          (case digits_value ds of None \<Rightarrow> Inl ValueErr | Some n \<Rightarrow> Inr (if neg then - int n else int n)))"

fun py_int :: "pv \<Rightarrow> int res" where
  "py_int (PBool b) = Inr (if b then 1 else 0)"
| "py_int (PInt i) = Inr i"
| "py_int (PFloat m e) = Inr (float_trunc m e)"
| "py_int (PStr s) = parse_int s"
| "py_int _ = Inl TypeErr"

text \<open>\<open>int(v or 0)\<close>.\<close>

definition int_or0 :: "pv \<Rightarrow> int res" where
  "int_or0 v = py_int (py_or v (PInt 0))"

lemma int_or0_int [simp]: "int_or0 (PInt i) = Inr i"
  by (simp add: int_or0_def py_or_def)

lemma int_or0_none [simp]: "int_or0 PNone = Inr 0"
  by (simp add: int_or0_def py_or_def)

subsection \<open>\<open>repr\<close> and \<open>str\<close>\<close>

definition hex_digit :: "nat \<Rightarrow> char" where
  "hex_digit n = (if n < 10 then char_of (48 + n) else char_of (87 + n))"

definition join :: "string \<Rightarrow> string list \<Rightarrow> string" where
  "join sep xs = (case xs of [] \<Rightarrow> [] | x # ys \<Rightarrow> x @ concat (map (\<lambda>y. sep @ y) ys))"

definition repr_char :: "char \<Rightarrow> char \<Rightarrow> string" where
  "repr_char q c =
     (let x = of_char c :: nat in
      if c = q \<or> c = CHR 0x5C then [CHR 0x5C, c]
      else if x = 10 then [CHR 0x5C, CHR ''n'']
      else if x = 13 then [CHR 0x5C, CHR ''r'']
      else if x = 9 then [CHR 0x5C, CHR ''t'']
      else if x < 32 \<or> x = 127 then [CHR 0x5C, CHR ''x'', hex_digit (x div 16), hex_digit (x mod 16)]
      else [c])"

definition repr_str :: "string \<Rightarrow> string" where
  "repr_str s =
     (let q = (if CHR 0x27 \<in> set s \<and> CHR 0x22 \<notin> set s then CHR 0x22 else CHR 0x27)
      in [q] @ concat (map (repr_char q) s) @ [q])"

fun py_repr :: "pv \<Rightarrow> string" where
  "py_repr PNone = ''None''"
| "py_repr (PBool b) = (if b then ''True'' else ''False'')"
| "py_repr (PInt i) = int_str i"
| "py_repr (PFloat m e) = float_repr m e"
| "py_repr (PStr s) = repr_str s"
| "py_repr (PList xs) = ''['' @ join '', '' (map py_repr xs) @ '']''"
| "py_repr (PDict d) =
     CHR 0x7B # join '', '' (map (\<lambda>(k, v). repr_str k @ '': '' @ py_repr v) d) @ [CHR 0x7D]"

fun py_str :: "pv \<Rightarrow> string" where
  "py_str (PStr s) = s"
| "py_str v = py_repr v"

text \<open>\<open>str(v or "")\<close>: empty exactly for a falsy value.\<close>

definition str_or :: "pv \<Rightarrow> string" where
  "str_or v = py_str (py_or v (PStr []))"

lemma nat_digits_nonempty [simp]: "nat_digits n \<noteq> []"
  by (subst nat_digits.simps) simp

lemma int_str_nonempty [simp]: "int_str i \<noteq> []"
  by (simp add: int_str_def)

lemma float_repr_nonempty: "m \<noteq> 0 \<Longrightarrow> float_repr m e \<noteq> []"
  using nat_digits_nonempty [of "nat \<bar>m\<bar>"]
  by (auto simp: float_repr_def Let_def split: list.splits)

lemma str_or_empty_iff [simp]: "str_or v = [] \<longleftrightarrow> \<not> truthy v"
  by (cases v) (auto simp: str_or_def py_or_def float_repr_nonempty)

lemma str_or_str [simp]: "str_or (PStr s) = s"
  by (simp add: str_or_def py_or_def)

lemma str_or_none [simp]: "str_or PNone = []"
  by simp

text \<open>
  The code points of a string: a byte of the form \<open>10xxxxxx\<close> continues the one before it.
  \<open>text_length\<close> is \<open>len(s)\<close> and \<open>code_points\<close> the strings that an iteration yields.
\<close>

definition continues :: "char \<Rightarrow> bool" where
  "continues c = (let x = of_char c :: nat in 128 \<le> x \<and> x < 192)"

definition text_length :: "string \<Rightarrow> nat" where
  "text_length s = length (filter (\<lambda>c. \<not> continues c) s)"

function code_points :: "string \<Rightarrow> string list" where
  "code_points [] = []"
| "code_points (c # cs) = (c # takeWhile continues cs) # code_points (dropWhile continues cs)"
  by pat_completeness auto
termination
  by (relation "measure length") (auto simp: less_Suc_eq_le intro: length_dropWhile_le)

lemma text_length_le: "text_length s \<le> length s"
  by (simp add: text_length_def)

subsection \<open>Python equality\<close>

text \<open>
  \<open>a == b\<close> compares numbers by value across \<open>bool\<close>, \<open>int\<close> and \<open>float\<close>, lists in
  order, and dicts whatever the order of their keys. \<open>pcanon\<close> maps a value to a
  representative of its equality class: numbers without a fraction become integers and the
  entries of a dict are sorted by key.
\<close>

function strip_zeros :: "int \<Rightarrow> int \<Rightarrow> int \<times> int" where
  "strip_zeros m e = (if m \<noteq> 0 \<and> 10 dvd m then strip_zeros (m div 10) (e + 1) else (m, e))"
  by pat_completeness auto
termination
  by (relation "measure (\<lambda>(m, e). nat \<bar>m\<bar>)") (auto elim!: dvdE simp: abs_mult)

declare strip_zeros.simps [simp del]

definition canon_float :: "int \<Rightarrow> int \<Rightarrow> pv" where
  "canon_float m e =
     (if m = 0 then PInt 0 else
      (case strip_zeros m e of (m', e') \<Rightarrow>
         if 0 \<le> e' then PInt (m' * 10 ^ nat e') else PFloat m' e'))"

fun pcanon :: "pv \<Rightarrow> pv" where
  "pcanon PNone = PNone"
| "pcanon (PBool b) = PInt (if b then 1 else 0)"
| "pcanon (PInt i) = PInt i"
| "pcanon (PFloat m e) = canon_float m e"
| "pcanon (PStr s) = PStr s"
| "pcanon (PList xs) = PList (map pcanon xs)"
| "pcanon (PDict d) = PDict (sort_key fst (map (\<lambda>(k, v). (k, pcanon v)) d))"

definition py_eq :: "pv \<Rightarrow> pv \<Rightarrow> bool" where
  "py_eq a b = (pcanon a = pcanon b)"

lemma py_eq_refl [simp, intro]: "py_eq a a"
  by (simp add: py_eq_def)

lemma py_eq_sym: "py_eq a b \<Longrightarrow> py_eq b a"
  by (simp add: py_eq_def)

lemma py_eq_trans [trans]: "py_eq a b \<Longrightarrow> py_eq b c \<Longrightarrow> py_eq a c"
  by (simp add: py_eq_def)

lemma py_eq_str [simp]: "py_eq (PStr a) (PStr b) \<longleftrightarrow> a = b"
  by (simp add: py_eq_def)

subsection \<open>\<open>json.dumps\<close>\<close>

text \<open>
  \<open>compact_json\<close> is \<open>json.dumps(value, ensure_ascii=False, separators=(",", ":"))\<close>, and
  \<open>canonical_json\<close> the same with \<open>sort_keys=True\<close>.
\<close>

definition json_char :: "char \<Rightarrow> string" where
  "json_char c =
     (let x = of_char c :: nat in
      if x = 34 then [CHR 0x5C, CHR 0x22]
      else if x = 92 then [CHR 0x5C, CHR 0x5C]
      else if x = 10 then [CHR 0x5C, CHR ''n'']
      else if x = 13 then [CHR 0x5C, CHR ''r'']
      else if x = 9 then [CHR 0x5C, CHR ''t'']
      else if x = 12 then [CHR 0x5C, CHR ''f'']
      else if x = 8 then [CHR 0x5C, CHR ''b'']
      else if x < 32 then [CHR 0x5C, CHR ''u'', CHR ''0'', CHR ''0'', hex_digit (x div 16), hex_digit (x mod 16)]
      else [c])"

definition json_str :: "string \<Rightarrow> string" where
  "json_str s = [CHR 0x22] @ concat (map json_char s) @ [CHR 0x22]"

definition json_object :: "(string \<times> string) list \<Rightarrow> string" where
  "json_object d = CHR 0x7B # join '','' (map (\<lambda>(k, v). json_str k @ '':'' @ v) d) @ [CHR 0x7D]"

fun compact_json :: "pv \<Rightarrow> string" where
  "compact_json PNone = ''null''"
| "compact_json (PBool b) = (if b then ''true'' else ''false'')"
| "compact_json (PInt i) = int_str i"
| "compact_json (PFloat m e) = float_repr m e"
| "compact_json (PStr s) = json_str s"
| "compact_json (PList xs) = ''['' @ join '','' (map compact_json xs) @ '']''"
| "compact_json (PDict d) = json_object (map (\<lambda>(k, v). (k, compact_json v)) d)"

fun sort_keys :: "pv \<Rightarrow> pv" where
  "sort_keys (PList xs) = PList (map sort_keys xs)"
| "sort_keys (PDict d) = PDict (sort_key fst (map (\<lambda>(k, v). (k, sort_keys v)) d))"
| "sort_keys v = v"

definition canonical_json :: "pv \<Rightarrow> string" where
  "canonical_json v = compact_json (sort_keys v)"

lemma canonical_json_list:
  "canonical_json (PList xs) = ''['' @ join '','' (map canonical_json xs) @ '']''"
  by (simp add: canonical_json_def [abs_def] comp_def)

lemma join_Nil [simp]: "join sep [] = []"
  by (simp add: join_def)

lemma join_single [simp]: "join sep [x] = x"
  by (simp add: join_def)

lemma join_snoc: "xs \<noteq> [] \<Longrightarrow> join sep (xs @ [x]) = join sep xs @ sep @ x"
  by (cases xs) (simp_all add: join_def)

subsection \<open>Tables\<close>

definition upd_where :: "('r \<Rightarrow> bool) \<Rightarrow> ('r \<Rightarrow> 'r) \<Rightarrow> 'r list \<Rightarrow> 'r list" where
  "upd_where p f rows = map (\<lambda>r. if p r then f r else r) rows"

definition count_where :: "('r \<Rightarrow> bool) \<Rightarrow> 'r list \<Rightarrow> nat" where
  "count_where p rows = length (filter p rows)"

definition exists_where :: "('r \<Rightarrow> bool) \<Rightarrow> 'r list \<Rightarrow> bool" where
  "exists_where p rows = list_ex p rows"

lemma length_upd_where [table_simps]: "length (upd_where p f rows) = length rows"
  by (simp add: upd_where_def)

lemma upd_where_map [table_simps]:
  "(\<And>r. p r \<Longrightarrow> g (f r) = g r) \<Longrightarrow> map g (upd_where p f rows) = map g rows"
  by (simp add: upd_where_def)

lemma set_upd_where:
  "set (upd_where p f rows) = {r \<in> set rows. \<not> p r} \<union> f ` {r \<in> set rows. p r}"
  by (auto simp: upd_where_def)

lemma find_upd_where [table_simps]:
  "(\<And>r. p r \<Longrightarrow> q (f r) \<longleftrightarrow> q r) \<Longrightarrow>
   find q (upd_where p f rows) = map_option (\<lambda>r. if p r then f r else r) (find q rows)"
  by (induction rows) (auto simp: upd_where_def)

lemma filter_upd_where [table_simps]:
  "(\<And>r. p r \<Longrightarrow> q (f r) \<longleftrightarrow> q r) \<Longrightarrow>
   filter q (upd_where p f rows) = upd_where p f (filter q rows)"
  by (induction rows) (auto simp: upd_where_def)

lemma count_where_append [simp]: "count_where p (xs @ ys) = count_where p xs + count_where p ys"
  by (simp add: count_where_def)

lemma count_where_0_iff: "count_where p rows = 0 \<longleftrightarrow> (\<forall>r \<in> set rows. \<not> p r)"
  by (simp add: count_where_def filter_empty_conv)

lemma exists_where_iff: "exists_where p rows \<longleftrightarrow> (\<exists>r \<in> set rows. p r)"
  by (simp add: exists_where_def list_ex_iff)

lemma find_Some_in: "find p xs = Some x \<Longrightarrow> x \<in> set xs \<and> p x"
  by (induction xs) (auto split: if_splits)

lemma find_append: "find p (xs @ ys) = (case find p xs of None \<Rightarrow> find p ys | Some x \<Rightarrow> Some x)"
  by (induction xs) auto

lemma find_distinct: "x \<in> set xs \<Longrightarrow> distinct (map f xs) \<Longrightarrow> find (\<lambda>y. f y = f x) xs = Some x"
  by (induction xs) (auto simp: image_iff)

lemma find_None_iff_all: "find p xs = None \<longleftrightarrow> (\<forall>x \<in> set xs. \<not> p x)"
  by (auto simp: find_None_iff)

lemma length_filter_less_filter:
  assumes "x \<in> set xs" and "q x" and "\<not> p x" and "\<And>y. p y \<Longrightarrow> q y"
  shows "length (filter p xs) < length (filter q xs)"
  using assms(1)
proof (induction xs)
  case (Cons y ys)
  have le: "length (filter p ys) \<le> length (filter q ys)"
    using assms(4) by (induction ys) auto
  from Cons le assms(2-4) show ?case by auto
qed simp

text \<open>\<open>max(lo, min(x, hi))\<close>, the bound the list operations put on a page size.\<close>

definition clamp :: "int \<Rightarrow> int \<Rightarrow> int \<Rightarrow> int" where
  "clamp lo hi x = max lo (min x hi)"

lemma clamp_bounds: "lo \<le> hi \<Longrightarrow> lo \<le> clamp lo hi x \<and> clamp lo hi x \<le> hi"
  by (simp add: clamp_def)

end
