(* ===== verification/Iso_Time.thy ===== *)
theory Iso_Time
  imports Py_Prelude
begin

text \<open>
  \<open>datetime.fromisoformat\<close> as the components use it on timestamps (after replacing a \<open>Z\<close> by
  \<open>+00:00\<close>), and \<open>.timestamp()\<close> in whole microseconds. The grammar is the one of the oldest
  Python the project supports (3.10): \<open>YYYY-MM-DD[*HH[:MM[:SS[.fff[fff]]]][+HH:MM[:SS[.ffffff]]]]\<close>
  with any single character at \<open>*\<close>. The result keeps whether an offset was given; a naive
  timestamp is read in the local zone, whose offset is an argument of \<open>timestamp_us\<close>.
\<close>

record datetime =
  dt_year :: nat
  dt_month :: nat
  dt_day :: nat
  dt_hour :: nat
  dt_minute :: nat
  dt_second :: nat
  dt_micro :: nat
  dt_offset :: "int option"      \<comment> \<open>the UTC offset in microseconds\<close>

definition number :: "string \<Rightarrow> nat res" where
  "number s = (if s = [] then Inl ValueErr else
     case parse_digits s 0 of None \<Rightarrow> Inl ValueErr | Some n \<Rightarrow> Inr n)"

definition leap :: "nat \<Rightarrow> bool" where
  "leap y = (y mod 4 = 0 \<and> (y mod 100 \<noteq> 0 \<or> y mod 400 = 0))"

definition days_in_month :: "nat \<Rightarrow> nat \<Rightarrow> nat" where
  "days_in_month y m =
     (if m = 2 then (if leap y then 29 else 28)
      else if m \<in> {4, 6, 9, 11} then 30 else 31)"

definition parse_date :: "string \<Rightarrow> (nat \<times> nat \<times> nat) res" where
  "parse_date s =
     (if length s \<noteq> 10 \<or> s ! 4 \<noteq> CHR ''-'' \<or> s ! 7 \<noteq> CHR ''-'' then Inl ValueErr else
      bind_res (number (take 4 s)) (\<lambda>y.
      bind_res (number (take 2 (drop 5 s))) (\<lambda>m.
      bind_res (number (drop 8 s)) (\<lambda>d.
        if 1 \<le> y \<and> 1 \<le> m \<and> m \<le> 12 \<and> 1 \<le> d \<and> d \<le> days_in_month y m
        then Inr (y, m, d) else Inl ValueErr))))"

text \<open>\<open>HH[:MM[:SS[.fff[fff]]]]\<close> as \<open>[hour, minute, second, microsecond]\<close>.\<close>

definition parse_fraction :: "string \<Rightarrow> nat res" where
  "parse_fraction s =
     (case s of
        [] \<Rightarrow> Inr 0
      | c # ds \<Rightarrow>
          if c \<noteq> CHR ''.'' \<or> length ds \<notin> {3, 6} then Inl ValueErr
          else bind_res (number ds) (\<lambda>n. Inr (if length ds = 3 then n * 1000 else n)))"

definition parse_clock :: "string \<Rightarrow> (nat \<times> nat \<times> nat \<times> nat) res" where
  "parse_clock s =
     bind_res (if length s < 2 then Inl ValueErr else number (take 2 s)) (\<lambda>h.
     case drop 2 s of
       [] \<Rightarrow> Inr (h, 0, 0, 0)
     | c # s1 \<Rightarrow>
         if c \<noteq> CHR '':'' then Inl ValueErr else
         bind_res (if length s1 < 2 then Inl ValueErr else number (take 2 s1)) (\<lambda>m.
         case drop 2 s1 of
           [] \<Rightarrow> Inr (h, m, 0, 0)
         | c # s2 \<Rightarrow>
             if c \<noteq> CHR '':'' then Inl ValueErr else
             bind_res (if length s2 < 2 then Inl ValueErr else number (take 2 s2)) (\<lambda>sec.
             bind_res (parse_fraction (drop 2 s2)) (\<lambda>us. Inr (h, m, sec, us)))))"

definition clock_us :: "nat \<Rightarrow> nat \<Rightarrow> nat \<Rightarrow> nat \<Rightarrow> int" where
  "clock_us h m s us = ((int h * 60 + int m) * 60 + int s) * 1000000 + int us"

definition parse_offset :: "char \<Rightarrow> string \<Rightarrow> int res" where
  "parse_offset sign s =
     (if length s \<notin> {5, 8, 15} then Inl ValueErr else
      bind_res (parse_clock s) (\<lambda>(h, m, sec, us).
        let off = clock_us h m sec us in
        if off < 86400000000 then Inr (if sign = CHR ''-'' then - off else off)
        else Inl ValueErr))"

definition is_sign :: "char \<Rightarrow> bool" where
  "is_sign c = (c = CHR ''-'' \<or> c = CHR ''+'')"

definition fromisoformat :: "string \<Rightarrow> datetime res" where
  "fromisoformat s =
     bind_res (parse_date (take 10 s)) (\<lambda>(y, mo, d).
     let rest = drop 11 s;
         clock = takeWhile (\<lambda>c. \<not> is_sign c) rest;
         zone = dropWhile (\<lambda>c. \<not> is_sign c) rest
     in bind_res (if rest = [] then Inr (0, 0, 0, 0) else parse_clock clock) (\<lambda>(h, mi, sec, us).
        bind_res (case zone of
                    [] \<Rightarrow> Inr None
                  | c # z \<Rightarrow> bind_res (parse_offset c z) (\<lambda>off. Inr (Some off))) (\<lambda>off.
        if h < 24 \<and> mi < 60 \<and> sec < 60 then
          Inr \<lparr>dt_year = y, dt_month = mo, dt_day = d, dt_hour = h, dt_minute = mi,
               dt_second = sec, dt_micro = us, dt_offset = off\<rparr>
        else Inl ValueErr)))"

text \<open>\<open>value.replace("Z", "+00:00")\<close>.\<close>

definition replace_z :: "string \<Rightarrow> string" where
  "replace_z s = concat (map (\<lambda>c. if c = CHR ''Z'' then ''+00:00'' else [c]) s)"

text \<open>Days from 1970-01-01, and microseconds since the epoch.\<close>

definition days_before_year :: "nat \<Rightarrow> int" where
  "days_before_year y = (let p = int y - 1 in p * 365 + p div 4 - p div 100 + p div 400)"

fun days_before_month :: "nat \<Rightarrow> nat \<Rightarrow> int" where
  "days_before_month y 0 = 0"
| "days_before_month y (Suc m) = (if m = 0 then 0 else days_before_month y m + int (days_in_month y m))"

definition epoch_days :: "nat \<Rightarrow> nat \<Rightarrow> nat \<Rightarrow> int" where
  "epoch_days y m d = days_before_year y + days_before_month y m + int d - 719163"

definition timestamp_us :: "int \<Rightarrow> datetime \<Rightarrow> int" where
  "timestamp_us local_offset t =
     epoch_days (dt_year t) (dt_month t) (dt_day t) * 86400000000
     + clock_us (dt_hour t) (dt_minute t) (dt_second t) (dt_micro t)
     - (case dt_offset t of None \<Rightarrow> local_offset | Some off \<Rightarrow> off)"

lemma timestamp_example:
  "map_sum id (timestamp_us 0) (fromisoformat (replace_z ''2025-01-02T03:04:05.000006Z''))
     = Inr 1735787045000006"
  by code_simp

lemma timestamp_offset_example:
  "map_sum id (timestamp_us 0) (fromisoformat ''1970-01-01T08:00+08:00'') = Inr 0"
  by code_simp

lemma invalid_date_example: "fromisoformat ''2025-02-29'' = Inl ValueErr"
  by code_simp

end
