(* ===== verification/Iso_Format.thy ===== *)
theory Iso_Format
  imports Iso_Time
begin

text \<open>
  \<open>datetime.isoformat()\<close> and \<open>datetime.fromtimestamp(seconds, tz)\<close>: the calendar date of a day is found by estimating its
  year, which is off by one at most, and searching its month. \<open>epoch_days_of_day\<close> shows that it is the inverse of
  \<open>epoch_days\<close>.
\<close>

subsection \<open>The date of a day\<close>

text \<open>Days are counted from 0001-01-01.\<close>

definition year_of :: "int \<Rightarrow> nat" where
  "year_of n =
     (let y = nat (n * 400 div 146097 + 1) in
      if days_before_year (y + 1) \<le> n then y + 1 else if n < days_before_year y then y - 1 else y)"

definition month_of :: "nat \<Rightarrow> int \<Rightarrow> nat" where
  "month_of y r = (case find (\<lambda>m. r < days_before_month y (Suc m)) [1..<12] of None \<Rightarrow> 12 | Some m \<Rightarrow> m)"

definition date_of_day :: "int \<Rightarrow> nat \<times> nat \<times> nat" where
  "date_of_day n =
     (let y = year_of n; r = n - days_before_year y; m = month_of y r in (y, m, nat (r - days_before_month y m) + 1))"

lemma year_bounds:
  "400 * days_before_year y \<le> 146097 * (int y - 1) + 396" "146097 * (int y - 1) - 699 \<le> 400 * days_before_year y"
proof -
  define p a b c where "p = int y - 1" and "a = p div 4" and "b = p div 100" and "c = p div 400"
  have "4 * a \<le> p" "p - 3 \<le> 4 * a" "100 * b \<le> p" "p - 99 \<le> 100 * b" "400 * c \<le> p" "p - 399 \<le> 400 * c"
    unfolding a_def b_def c_def by simp_all
  moreover have "days_before_year y = p * 365 + a - b + c"
    by (simp add: days_before_year_def Let_def p_def a_def b_def c_def)
  ultimately show "400 * days_before_year y \<le> 146097 * (int y - 1) + 396" "146097 * (int y - 1) - 699 \<le> 400 * days_before_year y"
    unfolding p_def [symmetric] by linarith+
qed

lemma year_of_bounds:
  assumes "0 \<le> n"
  shows "days_before_year (year_of n) \<le> n \<and> n < days_before_year (year_of n + 1) \<and> 1 \<le> year_of n"
proof -
  define q where "q = n * 400 div 146097"
  have q: "146097 * q \<le> 400 * n" "400 * n < 146097 * q + 146097" "0 \<le> q" using assms by (simp_all add: q_def)
  have y: "int (nat (q + 1)) = q + 1" using q by simp
  have low: "days_before_year (nat (q + 1) - 1) \<le> n" if "1 \<le> q"
  proof -
    have "int (nat (q + 1) - 1) = q" using that by simp
    with year_bounds(1) [of "nat (q + 1) - 1"] have "400 * days_before_year (nat (q + 1) - 1) \<le> 146097 * (q - 1) + 396" by simp
    also have "\<dots> \<le> 400 * n" using q by simp
    finally show ?thesis by (simp only: mult_le_cancel_left_pos zero_less_numeral)
  qed
  have high: "n < days_before_year (nat (q + 1) + 2)"
    using year_bounds(2) [of "nat (q + 1) + 2"] y q by simp
  have zero: "0 \<le> n \<and> n \<le> 365" if "q = 0" using that q assms by simp
  show ?thesis
  proof (cases "q = 0")
    case True
    with zero show ?thesis by (simp add: year_of_def q_def [symmetric] days_before_year_def)
  next
    case False
    with q have "1 \<le> q" by simp
    with low high show ?thesis by (auto simp: year_of_def q_def [symmetric] Let_def)
  qed
qed


lemma days_in_month_pos: "0 < days_in_month y m"
  by (simp add: days_in_month_def)

lemma days_before_month_next: "1 \<le> m \<Longrightarrow> days_before_month y (Suc m) = days_before_month y m + int (days_in_month y m)"
  by simp

lemma days_before_month_mono: "m \<le> k \<Longrightarrow> days_before_month y m \<le> days_before_month y k"
proof (induction k)
  case (Suc k)
  have "days_before_month y k \<le> days_before_month y (Suc k)" by (cases k) auto
  with Suc show ?case by (cases "m = Suc k") auto
qed simp

lemma next_div_dvd: "0 < d \<Longrightarrow> d dvd p + 1 \<Longrightarrow> (p + 1) div d = p div d + 1" for d p :: int
proof (elim dvdE)
  fix k assume "0 < d" and k: "p + 1 = d * k"
  then have p: "p = d * (k - 1) + (d - 1)" by (simp add: algebra_simps)
  have "p div d = k - 1" by (rule int_div_pos_eq [OF p]) (use \<open>0 < d\<close> in simp_all)
  moreover have "(p + 1) div d = k" unfolding k using \<open>0 < d\<close> by simp
  ultimately show ?thesis by simp
qed

lemma next_div_not: "0 < d \<Longrightarrow> \<not> d dvd p + 1 \<Longrightarrow> (p + 1) div d = p div d" for d p :: int
proof -
  assume d: "0 < d" and n: "\<not> d dvd p + 1"
  define r where "r = p mod d"
  have p: "p = r + (p div d) * d" by (simp add: r_def)
  have r: "0 \<le> r" "r < d" using d by (simp_all add: r_def)
  have "r \<noteq> d - 1"
  proof
    assume "r = d - 1"
    with p have "p + 1 = d * (p div d + 1)" by (simp add: algebra_simps)
    with n show False by (metis dvd_triv_left)
  qed
  with r have "(r + 1) div d = 0" by simp
  moreover have "(p + 1) div d = (r + 1 + (p div d) * d) div d" using p by (simp add: algebra_simps)
  ultimately show ?thesis using d by simp
qed

lemma next_div: "0 < d \<Longrightarrow> (p + 1) div d = p div d + (if d dvd p + 1 then 1 else 0)" for d p :: int
  by (cases "d dvd p + 1") (auto simp: next_div_dvd next_div_not)

lemma year_length: "days_before_year (y + 1) = days_before_year y + days_before_month y 13"
  if "1 \<le> y"
proof -
  define p where "p = int y - 1"
  have p: "int y = p + 1" by (simp add: p_def)
  define a b c where "a = (4 dvd p + 1)" and "b = (100 dvd p + 1)" and "c = (400 dvd p + 1)"
  have "leap y = (a \<and> (\<not> b \<or> c))"
    unfolding leap_def a_def b_def c_def p [symmetric] by (simp add: mod_eq_0_iff_dvd flip: int_dvd_int_iff)
  moreover have "c \<longrightarrow> b" "b \<longrightarrow> a"
    unfolding a_def b_def c_def by (auto elim: dvd_trans [rotated])
  moreover have "days_before_month y 13 = (if leap y then 366 else 365)"
    by (simp add: eval_nat_numeral days_in_month_def)
  moreover obtain u v w where u: "p div 4 = u" "p div 100 = v" "p div 400 = w" by blast
  have "(p + 1) div 4 = u + (if a then 1 else 0)" "(p + 1) div 100 = v + (if b then 1 else 0)"
    "(p + 1) div 400 = w + (if c then 1 else 0)"
    unfolding a_def b_def c_def u [symmetric] by (rule next_div, simp)+
  then have "days_before_year (y + 1) = (p + 1) * 365 + (u + (if a then 1 else 0)) - (v + (if b then 1 else 0)) + (w + (if c then 1 else 0))"
    by (simp only: days_before_year_def Let_def p of_nat_add of_nat_1 add_diff_cancel_right')
  moreover have "days_before_year y = p * 365 + u - v + w"
    by (simp only: days_before_year_def Let_def p_def [symmetric] u)
  ultimately show ?thesis
    by (cases a; cases b; cases c) simp_all
qed


lemma month_of_bounds:
  assumes "0 \<le> r" and "r < days_before_month y 13"
  shows "1 \<le> month_of y r \<and> month_of y r \<le> 12 \<and> days_before_month y (month_of y r) \<le> r
    \<and> r < days_before_month y (Suc (month_of y r))"
proof -
  have low: "days_before_month y m \<le> r" if "\<forall>k \<in> {1..<m}. days_before_month y (Suc k) \<le> r" for m
  proof (cases "m \<le> 1")
    case True
    have "days_before_month y m \<le> days_before_month y 1" using True by (rule days_before_month_mono)
    with assms(1) show ?thesis by simp
  next
    case False
    then have "m - 1 \<in> {1..<m}" "Suc (m - 1) = m" by auto
    with that show ?thesis by metis
  qed
  show ?thesis
  proof (cases "find (\<lambda>m. r < days_before_month y (Suc m)) [1..<12]")
    case None
    then have "\<forall>k \<in> {1..<12}. days_before_month y (Suc k) \<le> r" by (auto simp: find_None_iff)
    with low [of 12] assms(2) show ?thesis unfolding month_of_def None by (simp add: eval_nat_numeral del: days_before_month.simps)
  next
    case (Some m)
    then obtain i where i: "i < length [1..<12]" "r < days_before_month y (Suc m)" "m = [1..<12] ! i"
      "\<forall>j < i. \<not> r < days_before_month y (Suc ([1..<12] ! j))"
      unfolding find_Some_iff by blast
    then have m: "m = Suc i" "i < 11" by (simp_all del: upt_conv_Cons_Cons)
    have "\<forall>k \<in> {1..<m}. days_before_month y (Suc k) \<le> r"
    proof
      fix k assume k: "k \<in> {1..<m}"
      then have "k - 1 < i" "[1..<12] ! (k - 1) = k" using m by auto
      with i(4) show "days_before_month y (Suc k) \<le> r" by (metis not_less)
    qed
    with low i(2) m show ?thesis unfolding month_of_def Some by (simp del: days_before_month.simps)
  qed
qed

definition valid_date :: "nat \<times> nat \<times> nat \<Rightarrow> bool" where
  "valid_date = (\<lambda>(y, m, d). 1 \<le> y \<and> 1 \<le> m \<and> m \<le> 12 \<and> 1 \<le> d \<and> d \<le> days_in_month y m)"

text \<open>The date of a day is valid, and \<open>epoch_days\<close> gives the day back.\<close>

lemma date_of_day_correct:
  assumes "0 \<le> n"
  shows "valid_date (date_of_day n) \<and> (case date_of_day n of (y, m, d) \<Rightarrow> epoch_days y m d = n - 719162)"
proof -
  define y r m where "y = year_of n" and "r = n - days_before_year y" and "m = month_of y r"
  from year_of_bounds [OF assms] have y: "0 \<le> r" "r < days_before_month y 13" "1 \<le> y"
    using year_length [of "year_of n"] by (auto simp: y_def r_def simp del: days_before_month.simps)
  from month_of_bounds [OF y(1,2)] have m: "1 \<le> m" "m \<le> 12" "days_before_month y m \<le> r" "r < days_before_month y m + int (days_in_month y m)"
    using days_before_month_next [of m y] by (simp_all add: m_def del: days_before_month.simps)
  have "date_of_day n = (y, m, nat (r - days_before_month y m) + 1)"
    by (simp add: date_of_day_def Let_def y_def r_def m_def)
  with y m show ?thesis by (simp add: valid_date_def epoch_days_def r_def)
qed

subsection \<open>\<open>isoformat\<close>\<close>

definition digit :: "nat \<Rightarrow> nat \<Rightarrow> char" where
  "digit k n = char_of (48 + nat (int n div 10 ^ k mod 10))"

definition pad2 :: "nat \<Rightarrow> string" where
  "pad2 n = [digit 1 n, digit 0 n]"

definition pad4 :: "nat \<Rightarrow> string" where
  "pad4 n = [digit 3 n, digit 2 n, digit 1 n, digit 0 n]"

definition pad6 :: "nat \<Rightarrow> string" where
  "pad6 n = [digit 5 n, digit 4 n, digit 3 n, digit 2 n, digit 1 n, digit 0 n]"

definition fraction_text :: "nat \<Rightarrow> string" where
  "fraction_text us = (if us = 0 then [] else ''.'' @ pad6 us)"

definition offset_text :: "int \<Rightarrow> string" where
  "offset_text off =
     (let us = \<bar>off\<bar> mod 1000000; s = \<bar>off\<bar> div 1000000 in
      (if off < 0 then ''-'' else ''+'') @ pad2 (nat (s div 3600)) @ '':'' @ pad2 (nat (s div 60 mod 60))
        @ (if s mod 60 \<noteq> 0 \<or> us \<noteq> 0 then '':'' @ pad2 (nat (s mod 60)) @ fraction_text (nat us) else []))"

definition isoformat :: "datetime \<Rightarrow> string" where
  "isoformat t =
     pad4 (dt_year t) @ ''-'' @ pad2 (dt_month t) @ ''-'' @ pad2 (dt_day t) @ ''T'' @ pad2 (dt_hour t) @ '':''
       @ pad2 (dt_minute t) @ '':'' @ pad2 (dt_second t) @ fraction_text (dt_micro t)
       @ (case dt_offset t of None \<Rightarrow> [] | Some off \<Rightarrow> offset_text off)"

definition valid_time :: "datetime \<Rightarrow> bool" where
  "valid_time t =
     (valid_date (dt_year t, dt_month t, dt_day t) \<and> dt_year t \<le> 9999 \<and> dt_hour t < 24 \<and> dt_minute t < 60 \<and> dt_second t < 60
      \<and> dt_micro t < 1000000 \<and> (case dt_offset t of None \<Rightarrow> True | Some off \<Rightarrow> \<bar>off\<bar> < 86400000000))"

lemma digit_code: "of_char (digit k n) = 48 + n div 10 ^ k mod 10"
proof -
  have "nat (int n div 10 ^ k mod 10) = n div 10 ^ k mod 10"
    by (metis nat_int of_nat_numeral of_nat_power zdiv_int zmod_int)
  moreover have "48 + n div 10 ^ k mod 10 < 256" using mod_less_divisor [of 10 "n div 10 ^ k"] by linarith
  ultimately show ?thesis by (simp add: digit_def)
qed

lemma digit_range: "48 \<le> (of_char (digit k n) :: nat) \<and> (of_char (digit k n) :: nat) \<le> 57"
  using mod_less_divisor [of 10 "n div 10 ^ k"] by (simp add: digit_code)

lemma digit_no_sign: "\<not> is_sign (digit k n)" "digit k n \<noteq> CHR '':''" "digit k n \<noteq> CHR ''.''"
  using digit_range [of k n] by (auto simp: is_sign_def)

lemma parse_digit: "parse_digits (digit k n # cs) (n div 10 ^ Suc k) = parse_digits cs (n div 10 ^ k)"
proof -
  have "10 * (n div 10 ^ Suc k) + n div 10 ^ k mod 10 = n div 10 ^ k"
    by (simp add: div_mult2_eq [of n "10 ^ k" 10] mult.commute [of 10 "10 ^ k"])
  then show ?thesis using digit_range [of k n] by (simp add: digit_code Let_def)
qed

lemma number_pad:
  "n < 100 \<Longrightarrow> number (pad2 n) = Inr n" "n < 10000 \<Longrightarrow> number (pad4 n) = Inr n" "n < 1000000 \<Longrightarrow> number (pad6 n) = Inr n"
  using parse_digit [of 0 n] parse_digit [of 1 n] parse_digit [of 2 n] parse_digit [of 3 n] parse_digit [of 4 n] parse_digit [of 5 n]
  by (simp_all add: number_def pad2_def pad4_def pad6_def del: parse_digits.simps(2))


lemma pad_length [simp]: "length (pad2 n) = 2" "length (pad4 n) = 4" "length (pad6 n) = 6"
  by (simp_all add: pad2_def pad4_def pad6_def)

lemma pad_take [simp]: "take 2 (pad2 n @ s) = pad2 n" "drop 2 (pad2 n @ s) = s"
  by simp_all

lemma parse_fraction_text: "us < 1000000 \<Longrightarrow> parse_fraction (fraction_text us) = Inr us"
  by (simp add: parse_fraction_def fraction_text_def number_pad)

lemma parse_clock_text:
  assumes "h < 100" and "m < 100" and "s < 100" and "us < 1000000"
  shows "parse_clock (pad2 h @ '':'' @ pad2 m @ '':'' @ pad2 s @ fraction_text us) = Inr (h, m, s, us)"
  using assms by (simp add: parse_clock_def number_pad parse_fraction_text)

lemma parse_clock_short: "h < 100 \<Longrightarrow> m < 100 \<Longrightarrow> parse_clock (pad2 h @ '':'' @ pad2 m) = Inr (h, m, 0, 0)"
  by (simp add: parse_clock_def number_pad)

lemma parse_offset_text:
  assumes "\<bar>off\<bar> < 86400000000"
  shows "case offset_text off of [] \<Rightarrow> False | c # z \<Rightarrow> is_sign c \<and> parse_offset c z = Inr off"
proof -
  define a where "a = nat \<bar>off\<bar>"
  define us s where "us = a mod 1000000" and "s = a div 1000000"
  from assms have a: "a < 86400000000" by (simp add: a_def)
  have below: "x mod 60 < 100" for x :: nat by (rule less_trans [OF mod_less_divisor]) simp_all
  have "s < 86400" unfolding s_def by (rule less_mult_imp_div_less) (use a in simp)
  then have "s div 3600 < 100" by (intro less_mult_imp_div_less) simp
  moreover have "us < 1000000" unfolding us_def by (rule mod_less_divisor) simp
  ultimately have parts: "us < 1000000" "s div 3600 < 100" "s div 60 mod 60 < 100" "s mod 60 < 100"
    using below by blast+
  have "a = s * 1000000 + us" by (simp add: us_def s_def)
  moreover have "s div 3600 = s div 60 div 60" by (simp flip: div_mult2_eq)
  then have "s = (s div 3600 * 60 + s div 60 mod 60) * 60 + s mod 60" by (simp add: div_mult_mod_eq)
  ultimately have clock: "clock_us (s div 3600) (s div 60 mod 60) (s mod 60) us = int a"
    unfolding clock_us_def by (metis of_nat_add of_nat_mult of_nat_numeral)
  have shape: "offset_text off = (if off < 0 then ''-'' else ''+'') @ pad2 (s div 3600) @ '':'' @ pad2 (s div 60 mod 60)
        @ (if s mod 60 \<noteq> 0 \<or> us \<noteq> 0 then '':'' @ pad2 (s mod 60) @ fraction_text us else [])"
  proof -
    have "\<bar>off\<bar> mod 1000000 = int us" "\<bar>off\<bar> div 1000000 = int s" by (simp_all add: us_def s_def a_def zmod_int zdiv_int)
    moreover have "nat (int s div 3600) = s div 3600" "nat (int s div 60 mod 60) = s div 60 mod 60" "int s mod 60 = int (s mod 60)"
      by (simp_all add: nat_div_distrib nat_mod_distrib zmod_int)
    ultimately show ?thesis unfolding offset_text_def Let_def by (simp only: nat_int of_nat_eq_0_iff)
  qed
  have len: "length (pad2 (s div 3600) @ '':'' @ pad2 (s div 60 mod 60) @ '':'' @ pad2 (s mod 60) @ fraction_text us) \<in> {8, 15}"
    by (simp add: fraction_text_def)
  have range: "off < 86400000000" "- off < 86400000000" using assms by linarith+
  show ?thesis
  proof (cases "s mod 60 \<noteq> 0 \<or> us \<noteq> 0")
    case True
    with len clock range parts show ?thesis
      unfolding shape by (auto simp: is_sign_def parse_offset_def parse_clock_text [simplified] a_def Let_def)
  next
    case False
    with clock range parts show ?thesis
      unfolding shape by (auto simp: is_sign_def parse_offset_def parse_clock_short [simplified] a_def Let_def)
  qed
qed


lemma no_sign_clock:
  "list_all (\<lambda>c. \<not> is_sign c) (pad2 h @ '':'' @ pad2 m @ '':'' @ pad2 s @ fraction_text us)"
  by (simp add: pad2_def fraction_text_def pad6_def digit_no_sign) (simp add: is_sign_def)

lemma parse_date_text:
  assumes "valid_date (y, m, d)" and "y \<le> 9999"
  shows "parse_date (pad4 y @ ''-'' @ pad2 m @ ''-'' @ pad2 d) = Inr (y, m, d)"
proof -
  have "d < 100" using assms by (auto simp: valid_date_def days_in_month_def split: if_splits)
  moreover have "(pad4 y @ ''-'' @ pad2 m @ ''-'' @ pad2 d) ! 4 = CHR ''-''" "(pad4 y @ ''-'' @ pad2 m @ ''-'' @ pad2 d) ! 7 = CHR ''-''"
    by (simp_all add: pad4_def pad2_def)
  moreover have "drop 5 (pad4 y @ ''-'' @ pad2 m @ ''-'' @ pad2 d) = pad2 m @ ''-'' @ pad2 d"
    "drop 8 (pad4 y @ ''-'' @ pad2 m @ ''-'' @ pad2 d) = pad2 d"
    by (simp_all add: pad4_def pad2_def)
  ultimately show ?thesis
    using assms by (simp add: parse_date_def number_pad valid_date_def)
qed

text \<open>What \<open>isoformat\<close> writes, \<open>fromisoformat\<close> reads.\<close>

lemma fromisoformat_isoformat:
  assumes "valid_time t"
  shows "fromisoformat (isoformat t) = Inr t"
proof -
  define date clock zone where "date = pad4 (dt_year t) @ ''-'' @ pad2 (dt_month t) @ ''-'' @ pad2 (dt_day t)"
    and "clock = pad2 (dt_hour t) @ '':'' @ pad2 (dt_minute t) @ '':'' @ pad2 (dt_second t) @ fraction_text (dt_micro t)"
    and "zone = (case dt_offset t of None \<Rightarrow> [] | Some off \<Rightarrow> offset_text off)"
  have shape: "isoformat t = date @ ''T'' @ clock @ zone"
    by (simp add: isoformat_def date_def clock_def zone_def)
  have len: "length date = 10" by (simp add: date_def)
  have nosign: "\<forall>c \<in> set clock. \<not> is_sign c" using no_sign_clock by (simp add: clock_def list_all_iff)
  have z: "zone = [] \<or> (\<exists>c z. zone = c # z \<and> is_sign c)"
    using assms parse_offset_text [of "the (dt_offset t)"]
    by (cases "dt_offset t"; cases "offset_text (the (dt_offset t))") (auto simp: zone_def valid_time_def)
  then have "takeWhile (\<lambda>c. \<not> is_sign c) (clock @ zone) = clock" "dropWhile (\<lambda>c. \<not> is_sign c) (clock @ zone) = zone"
    using nosign by (auto simp: takeWhile_append dropWhile_append)
  moreover have "parse_date date = Inr (dt_year t, dt_month t, dt_day t)"
    unfolding date_def by (rule parse_date_text) (use assms in \<open>simp_all add: valid_time_def\<close>)
  moreover have "parse_clock clock = Inr (dt_hour t, dt_minute t, dt_second t, dt_micro t)"
    unfolding clock_def by (rule parse_clock_text) (use assms in \<open>simp_all add: valid_time_def\<close>)
  moreover have "clock \<noteq> []" by (simp add: clock_def pad2_def)
  moreover have "(case zone of [] \<Rightarrow> Inr None | c # z \<Rightarrow> bind_res (parse_offset c z) (\<lambda>off. Inr (Some off))) = Inr (dt_offset t)"
    using assms parse_offset_text [of "the (dt_offset t)"]
    by (cases "dt_offset t"; cases "offset_text (the (dt_offset t))") (auto simp: zone_def valid_time_def)
  ultimately show ?thesis
    using assms unfolding shape fromisoformat_def Let_def by (cases t) (simp add: len valid_time_def)
qed

lemma clock_us_parts:
  "clock_us (n div 3600000000) (n div 60000000 mod 60) (n div 1000000 mod 60) (n mod 1000000) = int n"
proof -
  define s m where "s = n div 1000000" and "m = s div 60"
  have d: "n div 3600000000 = m div 60" "n div 60000000 = m" by (simp_all add: s_def m_def flip: div_mult2_eq)
  have n: "s * 1000000 + n mod 1000000 = n" and s: "m * 60 + s mod 60 = s" and m: "m div 60 * 60 + m mod 60 = m"
    unfolding s_def m_def by (rule div_mult_mod_eq)+
  note ints = of_nat_add of_nat_mult of_nat_numeral
  show ?thesis
    unfolding clock_us_def d s_def [symmetric]
    by (simp only: n [THEN arg_cong, of int, unfolded ints] s [THEN arg_cong, of int, unfolded ints] m [THEN arg_cong, of int, unfolded ints])
qed

text \<open>\<open>datetime.fromtimestamp(seconds, tz)\<close> for a fixed offset, which must be a year from 1 to 9999.\<close>

definition fromtimestamp :: "int \<Rightarrow> int \<Rightarrow> datetime res" where
  "fromtimestamp seconds off =
     (let us = seconds * 1000000 + off; day = us div 86400000000 + 719162; rest = us mod 86400000000 in
      if day < 0 \<or> 3652059 \<le> day then Inl ValueErr
      else (case date_of_day day of (y, m, d) \<Rightarrow>
        Inr \<lparr>dt_year = y, dt_month = m, dt_day = d, dt_hour = nat (rest div 3600000000), dt_minute = nat (rest div 60000000 mod 60),
             dt_second = nat (rest div 1000000 mod 60), dt_micro = nat (rest mod 1000000), dt_offset = Some off\<rparr>))"

lemma fromtimestamp_correct:
  assumes "fromtimestamp seconds off = Inr t" and "\<bar>off\<bar> < 86400000000"
  shows "valid_time t \<and> timestamp_us z t = seconds * 1000000"
proof -
  define us day rest where "us = seconds * 1000000 + off" and "day = us div 86400000000 + 719162" and "rest = nat (us mod 86400000000)"
  obtain y m d where date: "date_of_day day = (y, m, d)" by (cases "date_of_day day")
  have day: "0 \<le> day" "day < 3652059"
    using assms(1) unfolding fromtimestamp_def Let_def us_def [symmetric] day_def [symmetric] by (auto split: if_splits)
  then have t: "t = \<lparr>dt_year = y, dt_month = m, dt_day = d, dt_hour = rest div 3600000000, dt_minute = rest div 60000000 mod 60,
      dt_second = rest div 1000000 mod 60, dt_micro = rest mod 1000000, dt_offset = Some off\<rparr>"
    using assms(1) unfolding fromtimestamp_def Let_def us_def [symmetric] day_def [symmetric]
    by (simp add: date rest_def nat_div_distrib nat_mod_distrib)
  from date_of_day_correct [OF day(1)] date have d: "valid_date (y, m, d)" "epoch_days y m d = day - 719162" by simp_all
  have "y = year_of day" using date by (auto simp: date_of_day_def Let_def)
  with year_of_bounds [OF day(1)] day have y: "days_before_year y \<le> 3652058" by simp
  have year: "y \<le> 9999"
  proof (rule ccontr)
    assume "\<not> y \<le> 9999"
    then have "1460823903 \<le> 146097 * (int y - 1)" by simp
    with year_bounds(2) [of y] have "1460823204 \<le> 400 * days_before_year y" by simp
    with y show False by simp
  qed
  have rest: "int rest = us mod 86400000000" "rest < 86400000000" by (simp_all add: rest_def nat_less_iff)
  have clock: "clock_us (rest div 3600000000) (rest div 60000000 mod 60) (rest div 1000000 mod 60) (rest mod 1000000) = us mod 86400000000"
    by (simp only: clock_us_parts rest(1))
  have "rest div 3600000000 < 24" using rest(2) by (simp add: less_mult_imp_div_less)
  with d year assms(2) have "valid_time t" by (simp add: t valid_time_def)
  moreover have "timestamp_us z t = us div 86400000000 * 86400000000 + us mod 86400000000 - off"
    using d(2) by (simp add: t timestamp_us_def clock day_def)
  ultimately show ?thesis by (simp add: us_def)
qed

subsection \<open>Evaluation\<close>

text \<open>The same functions with their intermediate values as arguments, which are evaluated once.\<close>

definition year_near :: "int \<Rightarrow> nat \<Rightarrow> nat" where
  "year_near n y = (if days_before_year (y + 1) \<le> n then y + 1 else if n < days_before_year y then y - 1 else y)"

definition date_after :: "nat \<Rightarrow> nat \<Rightarrow> int \<Rightarrow> nat \<times> nat \<times> nat" where
  "date_after y m r = (y, m, nat (r - days_before_month y m) + 1)"

definition date_within :: "nat \<Rightarrow> int \<Rightarrow> nat \<times> nat \<times> nat" where
  "date_within y r = date_after y (month_of y r) r"

definition date_in :: "int \<Rightarrow> nat \<Rightarrow> nat \<times> nat \<times> nat" where
  "date_in n y = date_within y (n - days_before_year y)"

definition at_day :: "int \<Rightarrow> int \<Rightarrow> int \<Rightarrow> datetime res" where
  "at_day day rest off =
     (if day < 0 \<or> 3652059 \<le> day then Inl ValueErr
      else (case date_of_day day of (y, m, d) \<Rightarrow>
        Inr \<lparr>dt_year = y, dt_month = m, dt_day = d, dt_hour = nat (rest div 3600000000), dt_minute = nat (rest div 60000000 mod 60),
             dt_second = nat (rest div 1000000 mod 60), dt_micro = nat (rest mod 1000000), dt_offset = Some off\<rparr>))"

definition at_local :: "int \<Rightarrow> int \<Rightarrow> datetime res" where
  "at_local us off = at_day (us div 86400000000 + 719162) (us mod 86400000000) off"

lemma year_of_code [code]: "year_of n = year_near n (nat (n * 400 div 146097 + 1))"
  by (simp add: year_of_def year_near_def Let_def)

lemma date_of_day_code [code]: "date_of_day n = date_in n (year_of n)"
  by (simp add: date_of_day_def date_in_def date_within_def date_after_def Let_def)

lemma fromtimestamp_code [code]: "fromtimestamp seconds off = at_local (seconds * 1000000 + off) off"
  unfolding fromtimestamp_def at_local_def at_day_def Let_def by (rule HOL.refl)

end
