(* ===== verification/Py_Float.thy ===== *)
theory Py_Float
  imports Py_Prelude
begin

text \<open>
  Floating-point values where the program compares them. A finite float is the decimal that
  denotes it (\<open>FFin m e\<close> is \<open>m * 10 ^ e\<close>), so that comparisons are exact; the rounding of a literal
  with more digits than a double holds is not modelled. A float can also be an infinity or a NaN,
  which \<open>float("nan")\<close> returns and which no comparison accepts.
\<close>

datatype fl = FFin int int | FInf bool | FNaN    \<comment> \<open>\<open>FInf True\<close> is minus infinity\<close>

definition scale10 :: "int \<Rightarrow> int \<Rightarrow> int \<Rightarrow> int" where
  "scale10 m e base = m * 10 ^ nat (e - base)"

fun fl_le :: "fl \<Rightarrow> fl \<Rightarrow> bool" where
  "fl_le (FFin m e) (FFin n f) = (scale10 m e (min e f) \<le> scale10 n f (min e f))"
| "fl_le (FFin m e) (FInf neg) = (\<not> neg)"
| "fl_le (FInf neg) (FFin n f) = neg"
| "fl_le (FInf a) (FInf b) = (b \<longrightarrow> a)"
| "fl_le _ _ = False"

fun fl_lt :: "fl \<Rightarrow> fl \<Rightarrow> bool" where
  "fl_lt (FFin m e) (FFin n f) = (scale10 m e (min e f) < scale10 n f (min e f))"
| "fl_lt (FFin m e) (FInf neg) = (\<not> neg)"
| "fl_lt (FInf neg) (FFin n f) = neg"
| "fl_lt (FInf a) (FInf b) = (a \<and> \<not> b)"
| "fl_lt _ _ = False"

definition fl_zero :: fl where
  "fl_zero = FFin 0 0"

text \<open>The value of a finite float as a rational number.\<close>

definition fl_val :: "int \<Rightarrow> int \<Rightarrow> rat" where
  "fl_val m e = (if 0 \<le> e then of_int m * 10 ^ nat e else of_int m / 10 ^ nat (- e))"

lemma scale10_val: "base \<le> e \<Longrightarrow> (of_int (scale10 m e base) :: rat) = fl_val m e * (if 0 \<le> base then 1 / 10 ^ nat base else 10 ^ nat (- base))"
proof -
  assume le: "base \<le> e"
  consider "0 \<le> base" | "base < 0" "0 \<le> e" | "e < 0" by linarith
  then show ?thesis
  proof cases
    case 1
    with le have "nat e = nat (e - base) + nat base" by (simp add: nat_add_distrib [symmetric])
    with 1 le show ?thesis by (simp add: scale10_def fl_val_def power_add)
  next
    case 2
    then have "nat (e - base) = nat e + nat (- base)" by (simp add: nat_add_distrib [symmetric])
    with 2 show ?thesis by (simp add: scale10_def fl_val_def power_add)
  next
    case 3
    with le have "nat (- base) = nat (e - base) + nat (- e)" by (simp add: nat_add_distrib [symmetric])
    with 3 le show ?thesis by (simp add: scale10_def fl_val_def power_add)
  qed
qed

lemma fl_cmp_val:
  "fl_le (FFin m e) (FFin n f) \<longleftrightarrow> fl_val m e \<le> fl_val n f"
  "fl_lt (FFin m e) (FFin n f) \<longleftrightarrow> fl_val m e < fl_val n f"
proof -
  define b where "b = min e f"
  define c :: rat where "c = (if 0 \<le> b then 1 / 10 ^ nat b else 10 ^ nat (- b))"
  have c: "0 < c" by (simp add: c_def)
  have v: "(of_int (scale10 m e b) :: rat) = fl_val m e * c" "(of_int (scale10 n f b) :: rat) = fl_val n f * c"
    using scale10_val [of b e m] scale10_val [of b f n] by (simp_all add: b_def c_def)
  have "scale10 m e b \<le> scale10 n f b \<longleftrightarrow> (of_int (scale10 m e b) :: rat) \<le> of_int (scale10 n f b)" by simp
  also have "\<dots> \<longleftrightarrow> fl_val m e \<le> fl_val n f" unfolding v using c by simp
  finally show "fl_le (FFin m e) (FFin n f) \<longleftrightarrow> fl_val m e \<le> fl_val n f" by (simp add: b_def)
  have "scale10 m e b < scale10 n f b \<longleftrightarrow> (of_int (scale10 m e b) :: rat) < of_int (scale10 n f b)" by simp
  also have "\<dots> \<longleftrightarrow> fl_val m e < fl_val n f" unfolding v using c by simp
  finally show "fl_lt (FFin m e) (FFin n f) \<longleftrightarrow> fl_val m e < fl_val n f" by (simp add: b_def)
qed

lemma fl_nan_cmp [simp]: "\<not> fl_le FNaN x" "\<not> fl_le x FNaN" "\<not> fl_lt FNaN x" "\<not> fl_lt x FNaN"
  by (cases x; simp)+

subsection \<open>\<open>float(v)\<close>\<close>

definition split_at :: "(char \<Rightarrow> bool) \<Rightarrow> string \<Rightarrow> string \<times> string option" where
  "split_at p s =
     (case dropWhile (\<lambda>c. \<not> p c) s of [] \<Rightarrow> (s, None) | _ # t \<Rightarrow> (takeWhile (\<lambda>c. \<not> p c) s, Some t))"

text \<open>Digits around an optional point: the digits and how many stand behind the point.\<close>

definition parse_mantissa :: "string \<Rightarrow> (nat \<times> nat) option" where
  "parse_mantissa s =
     (case split_at (\<lambda>c. c = CHR ''.'') s of
        (a, None) \<Rightarrow> map_option (\<lambda>n. (n, 0)) (digits_value a)
      | (a, Some b) \<Rightarrow>
          let k = length (filter (\<lambda>c. c \<noteq> CHR ''_'') b) in
          (if a = [] then map_option (\<lambda>n. (n, k)) (digits_value b)
           else if b = [] then map_option (\<lambda>n. (n, 0)) (digits_value a)
           else case (digits_value a, digits_value b) of
               (Some x, Some y) \<Rightarrow> Some (x * 10 ^ k + y, k)
             | _ \<Rightarrow> None))"

definition parse_float :: "string \<Rightarrow> fl res" where
  "parse_float s =
     (case split_sign (py_lower (py_strip s)) of
        (neg, t) \<Rightarrow>
          if t = ''inf'' \<or> t = ''infinity'' then Inr (FInf neg)
          else if t = ''nan'' then Inr FNaN
          else
            (case split_at (\<lambda>c. c = CHR ''e'') t of
               (mant, ex) \<Rightarrow>
                 (case (parse_mantissa mant,
                        case ex of None \<Rightarrow> Some 0
                        | Some x \<Rightarrow> (case split_sign x of (eneg, ds) \<Rightarrow>
                            map_option (\<lambda>n. if eneg then - int n else int n) (digits_value ds))) of
                    (Some (n, k), Some x) \<Rightarrow> Inr (FFin (if neg then - int n else int n) (x - int k))
                  | _ \<Rightarrow> Inl ValueErr)))"

fun py_float :: "pv \<Rightarrow> fl res" where
  "py_float (PBool b) = Inr (FFin (if b then 1 else 0) 0)"
| "py_float (PInt i) = Inr (FFin i 0)"
| "py_float (PFloat m e) = Inr (FFin m e)"
| "py_float (PStr s) = parse_float s"
| "py_float _ = Inl TypeErr"

end
