(* ===== verification/Agent_Scope.thy ===== *)
theory Agent_Scope
  imports Py_Float
begin

text \<open>
  The checks an agent run passes before anything is stored (\<open>agentic/models.py\<close>,
  \<open>_reject_sensitive\<close> of \<open>agentic/tool_registry.py\<close>, \<open>validate_runtime_snapshot\<close> of
  \<open>agentic/workflow_repository.py\<close>): the scope of a run, the agreement of an evidence summary with it,
  the bounds of a run request, and the absence of sensitive keys. The error of \<open>AgenticError\<close> keeps the code and
  the HTTP status.
\<close>

definition agentic :: "string \<Rightarrow> 'a res" where
  "agentic code = Inl (AgenticErr code 422)"

definition conflict :: "string \<Rightarrow> 'a res" where
  "conflict code = Inl (AgenticErr code 409)"

definition missing :: "string \<Rightarrow> 'a res" where
  "missing code = Inl (AgenticErr code 404)"

lemmas agentic_defs = agentic_def conflict_def missing_def

lemma agentic_neq [simp]: "agentic c \<noteq> Inr x" "conflict c \<noteq> Inr x" "missing c \<noteq> Inr x"
  by (simp_all add: agentic_defs)

subsection \<open>Sensitive keys\<close>

definition forbidden_keys :: "string list" where
  "forbidden_keys = [''raw'', ''raw_record'', ''raw_records'', ''raw_samples'', ''log_stream'', ''raw_stream'',
     ''samples'', ''raw_sample'', ''raw_log'', ''raw_logs'', ''raw_message'', ''message'', ''api_key'', ''token'',
     ''password'', ''secret'', ''dsn'', ''authorization'', ''cookie'']"

fun sensitive :: "pv \<Rightarrow> bool" where
  "sensitive (PDict d) = list_ex (\<lambda>(k, v). py_lower k \<in> set forbidden_keys \<or> sensitive v) d"
| "sensitive (PList xs) = list_ex sensitive xs"
| "sensitive _ = False"

definition reject_sensitive :: "pv \<Rightarrow> unit res" where
  "reject_sensitive v = (if sensitive v then agentic ''tool_result_sensitive'' else Inr ())"

subsection \<open>Scopes\<close>

definition blank :: "string \<Rightarrow> bool" where
  "blank s = (py_strip s = [])"

definition validate_run_scope :: "pv \<Rightarrow> pv \<Rightarrow> (string \<times> string) res" where
  "validate_run_scope source_job_id entity_id =
     (case (source_job_id, entity_id) of
        (PStr j, PStr e) \<Rightarrow> if blank j \<or> blank e then Inl ValueErr else Inr (j, e)
      | _ \<Rightarrow> Inl ValueErr)"

text \<open>\<open>key in d and (not isinstance(d[key], str) or d[key] != canonical)\<close>.\<close>

definition disagrees :: "(string \<times> pv) list \<Rightarrow> string \<Rightarrow> string \<Rightarrow> bool" where
  "disagrees d key canonical = (case map_of d key of None \<Rightarrow> False | Some v \<Rightarrow> v \<noteq> PStr canonical)"

definition validate_evidence_scope :: "pv \<Rightarrow> pv \<Rightarrow> pv \<Rightarrow> string \<Rightarrow> unit res" where
  "validate_evidence_scope summary source_job_id entity_id code =
     (case validate_run_scope source_job_id entity_id of
        Inl _ \<Rightarrow> agentic code
      | Inr (job, ent) \<Rightarrow>
          (case summary of
             PDict d \<Rightarrow>
               if disagrees d ''source_job_id'' job \<or> disagrees d ''job_id'' job \<or> disagrees d ''entity_id'' ent
               then agentic code
               else (case dget d ''entity'' of
                   PNone \<Rightarrow> Inr ()
                 | PDict e \<Rightarrow> if disagrees e ''id'' ent then agentic code else Inr ()
                 | _ \<Rightarrow> agentic code)
           | _ \<Rightarrow> agentic code))"

lemma validate_run_scope_Inr:
  "validate_run_scope a b = Inr (j, e) \<longleftrightarrow> a = PStr j \<and> b = PStr e \<and> \<not> blank j \<and> \<not> blank e"
  by (auto simp: validate_run_scope_def split: pv.splits)

lemma validate_evidence_scope_Inr:
  assumes "validate_evidence_scope v a b code = Inr ()"
  obtains j e d where "a = PStr j" "b = PStr e" "v = PDict d"
    "\<forall>x. map_of d ''source_job_id'' = Some x \<longrightarrow> x = PStr j" "\<forall>x. map_of d ''job_id'' = Some x \<longrightarrow> x = PStr j"
    "\<forall>x. map_of d ''entity_id'' = Some x \<longrightarrow> x = PStr e"
    "\<forall>ent x. dget d ''entity'' = PDict ent \<longrightarrow> map_of ent ''id'' = Some x \<longrightarrow> x = PStr e"
proof -
  from assms obtain j e where s: "validate_run_scope a b = Inr (j, e)"
    by (auto simp: validate_evidence_scope_def split: sum.splits)
  moreover from assms s obtain d where v: "v = PDict d"
    by (auto simp: validate_evidence_scope_def split: pv.splits)
  moreover from assms s v have ok: "\<not> disagrees d ''source_job_id'' j" "\<not> disagrees d ''job_id'' j"
    "\<not> disagrees d ''entity_id'' e"
    and "\<And>ent. dget d ''entity'' = PDict ent \<Longrightarrow> \<not> disagrees ent ''id'' e"
    by (auto simp: validate_evidence_scope_def split: if_split_asm)
  ultimately show ?thesis
    by (intro that [of j e d]) (auto simp: validate_run_scope_Inr disagrees_def split: option.split_asm)
qed

subsection \<open>Requests\<close>

record run_request =
  rq_source :: pv
  rq_entity :: pv
  rq_entity_type :: string
  rq_profile :: string
  rq_prompt :: string
  rq_max_steps :: int
  rq_max_tool_calls :: int
  rq_timeout :: fl
  rq_tools :: "string list"
  rq_key :: string
  rq_actor :: string
  rq_roles :: "string list"
  rq_request :: string
  rq_parent :: "string option"

definition post_init :: "run_request \<Rightarrow> unit res" where
  "post_init r =
     bind_res (validate_run_scope (rq_source r) (rq_entity r)) (\<lambda>_.
     if \<not> (1 \<le> rq_max_steps r \<and> rq_max_steps r \<le> 20) then Inl ValueErr
     else if \<not> (1 \<le> rq_max_tool_calls r \<and> rq_max_tool_calls r \<le> 100) then Inl ValueErr
     else if \<not> (fl_le (FFin 1 0) (rq_timeout r) \<and> fl_le (rq_timeout r) (FFin 3600 0)) then Inl ValueErr
     else if rq_tools r = [] \<or> list_ex blank (rq_tools r) then Inl ValueErr
     else if blank (rq_key r) \<or> blank (rq_actor r) \<or> blank (rq_request r) then Inl ValueErr
     else Inr ())"

subsection \<open>The locked model inputs of a workflow run\<close>

definition runtime_keys :: "string list" where
  "runtime_keys = [''profile_snapshot'', ''connection_snapshot'', ''prompt_id'', ''prompt_sha256'']"

definition validate_runtime_snapshot :: "pv \<Rightarrow> string \<Rightarrow> string \<Rightarrow> (string \<times> pv) list res" where
  "validate_runtime_snapshot value model_profile_id prompt_id =
     (case value of
        PDict d \<Rightarrow>
          if set (map fst d) \<noteq> set runtime_keys then agentic ''workflow_runtime_snapshot_invalid''
          else bind_res (reject_sensitive value) (\<lambda>_.
            case (dget d ''profile_snapshot'', dget d ''connection_snapshot'') of
              (PDict profile, PDict conn) \<Rightarrow>
                if str_or (dget profile ''profile_id'') \<noteq> model_profile_id then agentic ''workflow_runtime_snapshot_invalid''
                else if str_or (dget d ''prompt_id'') \<noteq> prompt_id then agentic ''workflow_runtime_snapshot_invalid''
                else if str_or (dget profile ''connection_id'') \<noteq> str_or (dget conn ''connection_id'')
                then agentic ''workflow_runtime_snapshot_invalid''
                else if dhas profile ''enabled'' \<and> \<not> truthy (dget profile ''enabled'')
                then conflict ''workflow_profile_unavailable''
                else if \<not> truthy (dget conn ''enabled'') then conflict ''workflow_connection_unavailable''
                else
                  let provider = str_or (dget conn ''provider'') in
                  if provider = ''openai_compatible'' \<and> \<not> truthy (dget conn ''api_key_configured'')
                  then conflict ''workflow_connection_unavailable''
                  else
                    (case py_or (dget conn ''credential_envs_configured'') (PDict []) of
                       PDict envs \<Rightarrow>
                         if provider = ''extension'' \<and> \<not> list_all (\<lambda>(_, v). truthy v) envs
                         then conflict ''workflow_connection_unavailable''
                         else if blank (str_or (dget d ''prompt_sha256'')) then agentic ''workflow_runtime_snapshot_invalid''
                         else Inr (map (\<lambda>k. (k, dget d k)) runtime_keys)
                     | _ \<Rightarrow>
                         if provider = ''extension'' then Inl TypeErr
                         else if blank (str_or (dget d ''prompt_sha256'')) then agentic ''workflow_runtime_snapshot_invalid''
                         else Inr (map (\<lambda>k. (k, dget d k)) runtime_keys))
            | _ \<Rightarrow> agentic ''workflow_runtime_snapshot_invalid'')
      | _ \<Rightarrow> agentic ''workflow_runtime_snapshot_invalid'')"

lemma validate_runtime_snapshot_safe:
  "validate_runtime_snapshot v p q = Inr s \<Longrightarrow> \<not> sensitive v"
  by (cases v) (auto simp: validate_runtime_snapshot_def res_simps reject_sensitive_def split: if_split_asm)

end
