(* ===== verification/Agent_Tools.thy ===== *)
theory Agent_Tools
  imports Agent_Scope
begin

text \<open>
  The tool registry of the agents (\<open>agentic/tool_registry.py\<close>), the artifacts a run keeps of its tools
  (\<open>agentic/artifacts.py\<close>) and the plans a model may submit (\<open>agentic/planner.py\<close>, without the expert context). A tool
  handler is code of other components: its outcome on the arguments is an argument of \<open>tool_execute\<close>. SHA-256 is a
  parameter. The path that \<open>validate_argument_schema\<close> carries for its messages is left out.
\<close>

definition forbidden_tool :: "'a res" where
  "forbidden_tool = Inl (AgenticErr ''tool_not_allowed'' 403)"

lemma forbidden_tool_neq [simp]: "forbidden_tool \<noteq> Inr x"
  by (simp add: forbidden_tool_def)

fun each_res :: "('a \<Rightarrow> unit res) \<Rightarrow> 'a list \<Rightarrow> unit res" where
  "each_res f [] = Inr ()"
| "each_res f (x # xs) = bind_res (f x) (\<lambda>_. each_res f xs)"

lemma each_res_cong [fundef_cong]:
  "xs = ys \<Longrightarrow> (\<And>x. x \<in> set ys \<Longrightarrow> f x = g x) \<Longrightarrow> each_res f xs = each_res g ys"
  by (induction ys arbitrary: xs) auto

lemma each_res_Inr [res_simps]: "each_res f xs = Inr u \<longleftrightarrow> (\<forall>x \<in> set xs. f x = Inr ())"
  by (induction xs) (auto simp: bind_res_Inr_iff)

subsection \<open>Argument schemas\<close>

lemma PDict_entry_size: "(k, v) \<in> set d \<Longrightarrow> size v < size (PDict d)"
  by (induction d) auto

lemma PList_item_size: "v \<in> set xs \<Longrightarrow> size v < size (PList xs)"
  by (induction xs) auto

text \<open>\<open>_json_values_equal\<close>: a boolean differs from every number.\<close>

function (sequential) json_equal :: "pv \<Rightarrow> pv \<Rightarrow> bool" where
  "json_equal (PBool a) (PBool b) = (a = b)"
| "json_equal (PBool a) _ = False"
| "json_equal _ (PBool b) = False"
| "json_equal (PDict d) (PDict e) =
     (set (map fst d) = set (map fst e)
      \<and> (\<forall>(k, v) \<in> set d. case map_of e k of None \<Rightarrow> False | Some w \<Rightarrow> json_equal v w))"
| "json_equal (PList xs) (PList ys) = (length xs = length ys \<and> list_all (\<lambda>(x, y). json_equal x y) (zip xs ys))"
| "json_equal a b = py_eq a b"
  by pat_completeness auto
termination
  by (relation "measure (\<lambda>(a, _). size a)") (auto dest!: PList_item_size PDict_entry_size set_zip_leftD)

definition json_type_is :: "pv \<Rightarrow> string \<Rightarrow> bool" where
  "json_type_is v t =
     (case v of
        PNone \<Rightarrow> t = ''null''
      | PBool _ \<Rightarrow> t = ''boolean''
      | PInt _ \<Rightarrow> t = ''integer'' \<or> t = ''number''
      | PFloat _ _ \<Rightarrow> t = ''number''
      | PStr _ \<Rightarrow> t = ''string''
      | PList _ \<Rightarrow> t = ''array''
      | PDict _ \<Rightarrow> t = ''object'')"

text \<open>Iterating over a value.\<close>

definition py_iter :: "pv \<Rightarrow> pv list res" where
  "py_iter v =
     (case v of
        PList xs \<Rightarrow> Inr xs
      | PDict d \<Rightarrow> Inr (map (\<lambda>(k, _). PStr k) d)
      | PStr s \<Rightarrow> Inr (map PStr (code_points s))
      | _ \<Rightarrow> Inl TypeErr)"

definition bad_arguments :: "'a res" where
  "bad_arguments = agentic ''tool_arguments_invalid''"

lemma bad_arguments_neq [simp]: "bad_arguments \<noteq> Inr x"
  by (simp add: bad_arguments_def)

definition check_type :: "pv \<Rightarrow> (string \<times> pv) list \<Rightarrow> unit res" where
  "check_type v schema =
     (let expected = dget schema ''type'';
          types = (case expected of PList ts \<Rightarrow> ts | t \<Rightarrow> [t])
      in if expected \<noteq> PNone \<and> \<not> list_ex (\<lambda>t. json_type_is v (py_str t)) types then bad_arguments else Inr ())"

definition check_choice :: "pv \<Rightarrow> (string \<times> pv) list \<Rightarrow> unit res" where
  "check_choice v schema =
     bind_res (if dhas schema ''const'' \<and> \<not> json_equal v (dget schema ''const'') then bad_arguments else Inr ()) (\<lambda>_.
     if dhas schema ''enum'' then
       bind_res (py_iter (dget schema ''enum'')) (\<lambda>choices.
       if list_ex (json_equal v) choices then Inr () else bad_arguments)
     else Inr ())"

text \<open>\<open>key in schema and n < int(schema[key])\<close>, and the comparison the other way round.\<close>

definition below_bound :: "(string \<times> pv) list \<Rightarrow> string \<Rightarrow> nat \<Rightarrow> unit res" where
  "below_bound schema key n =
     (if dhas schema key then
        bind_res (py_int (dget schema key)) (\<lambda>b. if int n < b then bad_arguments else Inr ())
      else Inr ())"

definition above_bound :: "(string \<times> pv) list \<Rightarrow> string \<Rightarrow> nat \<Rightarrow> unit res" where
  "above_bound schema key n =
     (if dhas schema key then
        bind_res (py_int (dget schema key)) (\<lambda>b. if b < int n then bad_arguments else Inr ())
      else Inr ())"

fun repeats :: "pv list \<Rightarrow> pv list \<Rightarrow> bool" where
  "repeats previous [] = False"
| "repeats previous (x # xs) = (list_ex (json_equal x) previous \<or> repeats (previous @ [x]) xs)"

text \<open>\<open>[key for key in required if key not in value]\<close>: a list or a dict is not hashable.\<close>

fun missing_keys :: "(string \<times> pv) list \<Rightarrow> pv list \<Rightarrow> bool res" where
  "missing_keys d [] = Inr False"
| "missing_keys d (k # ks) =
     bind_res (case k of PStr s \<Rightarrow> Inr (\<not> dhas d s) | PList _ \<Rightarrow> Inl TypeErr | PDict _ \<Rightarrow> Inl TypeErr | _ \<Rightarrow> Inr True) (\<lambda>m.
     bind_res (missing_keys d ks) (\<lambda>ms. Inr (m \<or> ms)))"

definition check_keys :: "(string \<times> pv) list \<Rightarrow> (string \<times> pv) list \<Rightarrow> (string \<times> pv) list res" where
  "check_keys d schema =
     (case (py_or (dget schema ''properties'') (PDict []), py_or (dget schema ''required'') (PList [])) of
        (PDict properties, PList required) \<Rightarrow>
          bind_res (missing_keys d required) (\<lambda>missing.
          if missing \<or> (dget schema ''additionalProperties'' = PBool False \<and> (\<exists>k \<in> set (map fst d). \<not> dhas properties k))
          then bad_arguments else Inr properties)
      | _ \<Rightarrow> bad_arguments)"

function validate_argument_schema :: "pv \<Rightarrow> pv \<Rightarrow> unit res" where
  "validate_argument_schema v sch =
     (case sch of
        PDict schema \<Rightarrow>
          bind_res (check_type v schema) (\<lambda>_.
          bind_res (check_choice v schema) (\<lambda>_.
          case v of
            PStr s \<Rightarrow> below_bound schema ''minLength'' (text_length s)
          | PList xs \<Rightarrow>
              bind_res (below_bound schema ''minItems'' (length xs)) (\<lambda>_.
              bind_res (above_bound schema ''maxItems'' (length xs)) (\<lambda>_.
              if truthy (dget schema ''uniqueItems'') \<and> repeats [] xs then bad_arguments
              else if dget schema ''items'' = PNone then Inr ()
              else each_res (\<lambda>x. validate_argument_schema x (dget schema ''items'')) xs))
          | PDict d \<Rightarrow>
              bind_res (check_keys d schema) (\<lambda>properties.
              each_res (\<lambda>p. if dget properties (fst p) = PNone then Inr ()
                            else validate_argument_schema (snd p) (dget properties (fst p))) d)
          | _ \<Rightarrow> Inr ()))
      | _ \<Rightarrow> bad_arguments)"
  by pat_completeness auto
termination
  by (relation "measure (\<lambda>(v, _). size v)") (auto dest: PList_item_size PDict_entry_size)

declare validate_argument_schema.simps [simp del]

subsection \<open>The registry\<close>

record agent_tool =
  tl_name :: string
  tl_description :: string
  tl_required :: "string list"
  tl_optional :: "string list"
  tl_schema :: pv
  tl_cost :: int
  tl_writes :: bool

type_synonym registry = "agent_tool list"

definition tool_get :: "registry \<Rightarrow> string \<Rightarrow> agent_tool res" where
  "tool_get tools name = (case find (\<lambda>t. tl_name t = name) tools of None \<Rightarrow> forbidden_tool | Some t \<Rightarrow> Inr t)"

definition default_schema :: "string list \<Rightarrow> string list \<Rightarrow> pv" where
  "default_schema required optional =
     PDict [(''type'', PStr ''object''), (''required'', PList (map PStr required)),
            (''properties'', PDict (map (\<lambda>k. (k, PDict [])) (remdups (required @ optional)))),
            (''additionalProperties'', PBool False)]"

definition tool_register ::
  "string \<Rightarrow> string \<Rightarrow> string list \<Rightarrow> string list \<Rightarrow> pv option \<Rightarrow> int \<Rightarrow> bool \<Rightarrow> registry \<Rightarrow> registry res" where
  "tool_register name description required optional argument_schema cost_units writes_candidate tools =
     (if name = [] \<or> find (\<lambda>t. tl_name t = name) tools \<noteq> None then agentic ''tool_registration_invalid'' else
      let schema = (case argument_schema of Some s \<Rightarrow> s | None \<Rightarrow> default_schema required optional) in
      case schema of
        PDict s \<Rightarrow>
          if dget s ''type'' \<noteq> PStr ''object'' then agentic ''tool_registration_invalid''
          else Inr (tools @ [\<lparr>tl_name = name, tl_description = description, tl_required = required, tl_optional = optional,
                 tl_schema = schema, tl_cost = max 1 cost_units, tl_writes = writes_candidate\<rparr>])
      | _ \<Rightarrow> agentic ''tool_registration_invalid'')"

definition describe_tool :: "agent_tool \<Rightarrow> pv" where
  "describe_tool t =
     PDict [(''name'', PStr (tl_name t)), (''description'', PStr (tl_description t)),
       (''required_arguments'', PList (map PStr (tl_required t))), (''optional_arguments'', PList (map PStr (tl_optional t))),
       (''argument_schema'', tl_schema t), (''cost_units'', PInt (tl_cost t)), (''writes_candidate'', PBool (tl_writes t))]"

definition describe :: "registry \<Rightarrow> string list option \<Rightarrow> pv list" where
  "describe tools allowed_tools =
     map describe_tool (filter (\<lambda>t. case allowed_tools of None \<Rightarrow> True | Some a \<Rightarrow> tl_name t \<in> set a) (sort_key tl_name tools))"

text \<open>The checks in front of the handler, and those on what it returns.\<close>

definition admit_call :: "registry \<Rightarrow> string list \<Rightarrow> string \<Rightarrow> pv \<Rightarrow> agent_tool res" where
  "admit_call tools allowed_tools name arguments =
     (if name \<notin> set allowed_tools then forbidden_tool else
      bind_res (tool_get tools name) (\<lambda>tool.
      case arguments of
        PDict _ \<Rightarrow>
          bind_res (validate_argument_schema arguments (tl_schema tool)) (\<lambda>_.
          bind_res (reject_sensitive arguments) (\<lambda>_. Inr tool))
      | _ \<Rightarrow> bad_arguments))"

definition accept_output :: "pv \<Rightarrow> pv res" where
  "accept_output output =
     (case output of
        PDict _ \<Rightarrow> bind_res (reject_sensitive output) (\<lambda>_. Inr output)
      | _ \<Rightarrow> agentic ''tool_result_invalid'')"

definition tool_execute :: "registry \<Rightarrow> (string \<Rightarrow> pv \<Rightarrow> pv res) \<Rightarrow> string list \<Rightarrow> string \<Rightarrow> pv \<Rightarrow> pv res" where
  "tool_execute tools handler allowed_tools name arguments =
     bind_res (admit_call tools allowed_tools name arguments) (\<lambda>tool.
     bind_res (handler (tl_name tool) arguments) accept_output)"

subsection \<open>Artifacts\<close>

definition max_artifact_bytes :: nat where "max_artifact_bytes = 16 * 1024"

definition max_dependency_bytes :: nat where "max_dependency_bytes = 32 * 1024"

definition canonical_fingerprint :: "(string \<Rightarrow> string) \<Rightarrow> pv \<Rightarrow> string" where
  "canonical_fingerprint sha v = sha (canonical_json v)"

definition read_artifact_type :: "string \<Rightarrow> string option" where
  "read_artifact_type name =
     map_of [(''get_sanitized_evidence'', ''evidence_assessment_v1''), (''find_approved_rules'', ''rule_match_assessment_v1''),
       (''inspect_knowledge_assets'', ''rule_match_assessment_v1'')] name"

text \<open>The notices are Chinese sentences; their UTF-8 bytes are written out, since their size counts.\<close>

definition bytes :: "nat list \<Rightarrow> string" where
  "bytes xs = map char_of xs"

definition artifact_notice :: string where
  "artifact_notice = bytes [
     0xE4, 0xBA, 0xA7, 0xE7, 0x89, 0xA9, 0xE8, 0xB6, 0x85, 0xE8, 0xBF, 0x87, 0x20, 0x31, 0x36, 0x20, 0x4B, 0x69, 0x42, 0xEF,
     0xBC, 0x9B, 0xE5, 0xAE, 0x8C, 0xE6, 0x95, 0xB4, 0xE8, 0x84, 0xB1, 0xE6, 0x95, 0x8F, 0xE7, 0xBB, 0x93, 0xE6, 0x9E, 0x9C,
     0xE4, 0xBF, 0x9D, 0xE7, 0x95, 0x99, 0xE4, 0xBA, 0x8E, 0x20, 0x70, 0x72, 0x6F, 0x64, 0x75, 0x63, 0x65, 0x72, 0x5F, 0x72,
     0x75, 0x6E, 0x5F, 0x69, 0x64, 0x20, 0x2F, 0x20, 0x74, 0x6F, 0x6F, 0x6C, 0x5F, 0x63, 0x61, 0x6C, 0x6C, 0x5F, 0x69, 0x64,
     0xEF, 0xBC, 0x8C, 0xE5, 0xBF, 0x85, 0xE9, 0xA1, 0xBB, 0xE6, 0x98, 0xBE, 0xE5, 0xBC, 0x8F, 0xE8, 0xAF, 0xBB, 0xE5, 0x8F,
     0x96, 0xE5, 0x90, 0x8E, 0xE4, 0xBD, 0xBF, 0xE7, 0x94, 0xA8, 0xE3, 0x80, 0x82]"

definition dependency_notice :: string where
  "dependency_notice = bytes [
     0xE4, 0xBE, 0x9D, 0xE8, 0xB5, 0x96, 0xE6, 0x91, 0x98, 0xE8, 0xA6, 0x81, 0xE8, 0xB6, 0x85, 0xE8, 0xBF, 0x87, 0x20, 0x33,
     0x32, 0x20, 0x4B, 0x69, 0x42, 0xEF, 0xBC, 0x9B, 0xE5, 0xBF, 0x85, 0xE9, 0xA1, 0xBB, 0xE6, 0x98, 0xBE, 0xE5, 0xBC, 0x8F,
     0xE8, 0xAF, 0xBB, 0xE5, 0x8F, 0x96, 0xE5, 0xBC, 0x95, 0xE7, 0x94, 0xA8, 0xE7, 0x9A, 0x84, 0xE4, 0xBA, 0xA7, 0xE7, 0x89,
     0xA9, 0xE5, 0x90, 0x8E, 0xE4, 0xBD, 0xBF, 0xE7, 0x94, 0xA8, 0xE3, 0x80, 0x82]"

record artifact_input =
  ai_run :: string
  ai_source :: string
  ai_entity :: string
  ai_tool :: string
  ai_call :: string
  ai_evidence :: string
  ai_output :: pv

definition artifact_payload :: "artifact_input \<Rightarrow> string \<Rightarrow> pv \<Rightarrow> string list \<Rightarrow> bool \<Rightarrow> pv" where
  "artifact_payload x schema safe limitations explicit =
     PDict [(''schema_version'', PStr schema), (''producer_run_id'', PStr (ai_run x)),
       (''evidence_refs'', PList [PDict [(''source_job_id'', PStr (ai_source x)), (''entity_id'', PStr (ai_entity x)),
          (''evidence_hash'', PStr (ai_evidence x)), (''tool_call_id'', PStr (ai_call x))]]),
       (''source_tool'', PStr (ai_tool x)), (''origin'', PStr ''deterministic_tool''), (''safe_payload'', safe),
       (''limitations'', PList (map PStr limitations)), (''requires_explicit_read'', PBool explicit)]"

definition read_tool_artifact :: "artifact_input \<Rightarrow> pv res" where
  "read_tool_artifact x =
     bind_res (reject_sensitive (ai_output x)) (\<lambda>_.
     case read_artifact_type (ai_tool x) of
       None \<Rightarrow> Inl KeyErr
     | Some schema \<Rightarrow>
         let full = artifact_payload x schema (ai_output x) [] False;
             payload = (if max_artifact_bytes < length (canonical_json full)
                        then artifact_payload x schema (PDict []) [artifact_notice] True else full)
         in if max_artifact_bytes < length (canonical_json payload) then agentic ''agent_artifact_too_large'' else Inr payload)"

text \<open>A node of a workflow as the dependants see it: its identifier and its result summary.\<close>

definition artifact_ref :: "(string \<times> pv) list \<Rightarrow> pv \<Rightarrow> pv res" where
  "artifact_ref summary item =
     (case item of
        PDict i \<Rightarrow> Inr (PDict [(''artifact_id'', dget i ''artifact_id''), (''artifact_type'', dget i ''artifact_type''),
          (''run_id'', py_or (dget i ''run_id'') (dget summary ''child_agent_run_id'')), (''requires_explicit_read'', PBool True)])
      | _ \<Rightarrow> Inl AttrErr)"

definition reference_only :: "string \<times> pv \<Rightarrow> (string \<times> pv) res" where
  "reference_only entry =
     (case snd entry of
        PDict summary \<Rightarrow>
          bind_res (py_iter (py_or (dget summary ''artifacts'') (PList []))) (\<lambda>items.
          bind_res (map_res (artifact_ref summary) items) (\<lambda>refs.
          Inr (fst entry, PDict (dset (dset summary ''artifacts'' (PList refs)) ''limitations'' (PList [PStr dependency_notice])))))
      | _ \<Rightarrow> Inl AttrErr)"

definition dependency_artifacts :: "(string \<times> pv) list \<Rightarrow> string list \<Rightarrow> pv res" where
  "dependency_artifacts nodes dependencies =
     (let summaries = map (\<lambda>(k, v). (k, py_or v (PDict []))) (filter (\<lambda>(k, _). k \<in> set dependencies) nodes) in
      bind_res (reject_sensitive (PDict summaries)) (\<lambda>_.
      if length (canonical_json (PDict summaries)) \<le> max_dependency_bytes then Inr (PDict summaries) else
      bind_res (map_res reference_only summaries) (\<lambda>refs.
      if max_dependency_bytes < length (canonical_json (PDict refs)) then agentic ''agent_dependency_too_large''
      else Inr (PDict refs))))"

end
