(* ===== verification/Event_Log.thy ===== *)
theory Event_Log
  imports Py_Prelude
begin

text \<open>
  The event tables of the streaming tasks, the agent runs and the agent workflows
  (\<open>_append_event\<close> of the three repositories). Each event of a key gets the sequence number
  \<open>COALESCE(MAX(sequence), base) + 1\<close>; \<open>base\<close> is 0 for streaming tasks and -1 for the agent
  tables. The locale \<open>sequenced_log\<close> is the interface the repositories rely on, and its lemma
  says that the numbers of a key are consecutive from \<open>base + 1\<close>.
\<close>

record event_row =
  ev_key :: string
  ev_seq :: int
  ev_type :: string
  ev_payload :: pv
  ev_idem :: "string option"
  ev_at :: string

fun next_sequence :: "int \<Rightarrow> int list \<Rightarrow> int" where
  "next_sequence base [] = base + 1"
| "next_sequence base (x # xs) = fold max xs x + 1"

definition seqs_of :: "string \<Rightarrow> event_row list \<Rightarrow> int list" where
  "seqs_of k rows = map ev_seq (filter (\<lambda>r. ev_key r = k) rows)"

definition append_row ::
  "int \<Rightarrow> string \<Rightarrow> string \<Rightarrow> pv \<Rightarrow> string option \<Rightarrow> string \<Rightarrow> event_row list \<Rightarrow> event_row list" where
  "append_row base k etype payload idem now rows =
     rows @ [\<lparr>ev_key = k, ev_seq = next_sequence base (seqs_of k rows), ev_type = etype,
              ev_payload = payload, ev_idem = idem, ev_at = now\<rparr>]"

text \<open>\<open>SELECT 1 FROM ..._events WHERE key=? AND idempotency_key=?\<close>.\<close>

definition has_idem :: "string \<Rightarrow> string \<Rightarrow> event_row list \<Rightarrow> bool" where
  "has_idem k idem rows = exists_where (\<lambda>r. ev_key r = k \<and> ev_idem r = Some idem) rows"

definition has_event :: "string \<Rightarrow> string \<Rightarrow> event_row list \<Rightarrow> bool" where
  "has_event k etype rows = exists_where (\<lambda>r. ev_key r = k \<and> ev_type r = etype) rows"

text \<open>Consecutive numbers from \<open>base + 1\<close>.\<close>

definition gapless :: "int \<Rightarrow> int list \<Rightarrow> bool" where
  "gapless base xs = (xs = map (\<lambda>i. base + 1 + int i) [0..<length xs])"

lemma gapless_Nil [simp]: "gapless base []"
  by (simp add: gapless_def)

lemma fold_max_upto:
  "fold max (map (\<lambda>i. b + int i) [0..<n]) (b - 1) = b + int n - 1"
  by (induction n) auto

lemma next_sequence_gapless:
  assumes "gapless base xs"
  shows "next_sequence base xs = base + 1 + int (length xs)"
proof (cases xs)
  case (Cons x ys)
  define n where "n = length ys"
  from Cons assms have eq: "x # ys = map (\<lambda>i. base + 1 + int i) [0..<Suc n]"
    by (simp add: gapless_def n_def)
  then have x: "x = base + 1" and ys: "ys = map (\<lambda>i. base + 2 + int i) [0..<n]"
    by (simp_all add: map_upt_Suc del: upt_Suc)
  have "fold max ys x = base + 2 + int n - 1"
    using fold_max_upto [of "base + 2" n] by (simp add: x ys add.commute)
  with Cons show ?thesis by (simp add: n_def)
qed simp

lemma gapless_snoc: "gapless base xs \<Longrightarrow> gapless base (xs @ [next_sequence base xs])"
  by (simp add: next_sequence_gapless) (simp add: gapless_def)

lemma seqs_of_append_row:
  "seqs_of k' (append_row base k etype payload idem now rows) =
     (if k' = k then seqs_of k rows @ [next_sequence base (seqs_of k rows)] else seqs_of k' rows)"
  by (simp add: seqs_of_def append_row_def)

lemma has_idem_append_row [simp]:
  "has_idem k' i (append_row base k etype payload idem now rows) \<longleftrightarrow>
     has_idem k' i rows \<or> (k' = k \<and> idem = Some i)"
  by (auto simp: has_idem_def append_row_def exists_where_iff)

lemma has_event_append_row [simp]:
  "has_event k' t (append_row base k etype payload idem now rows) \<longleftrightarrow>
     has_event k' t rows \<or> (k' = k \<and> etype = t)"
  by (auto simp: has_event_def append_row_def exists_where_iff)

subsection \<open>The interface of an event table\<close>

locale sequenced_log =
  fixes base :: int
    and seqs :: "'s \<Rightarrow> string \<Rightarrow> int list"
    and add :: "string \<Rightarrow> 'e \<Rightarrow> 's \<Rightarrow> 's"
  assumes seqs_add_same: "seqs (add k e s) k = seqs s k @ [next_sequence base (seqs s k)]"
    and seqs_add_other: "k' \<noteq> k \<Longrightarrow> seqs (add k e s) k' = seqs s k'"
begin

lemma add_gapless:
  assumes "\<And>k. gapless base (seqs s k)"
  shows "gapless base (seqs (add k e s) k')"
  using assms by (cases "k' = k") (simp_all add: seqs_add_same seqs_add_other gapless_snoc)

lemma adds_gapless:
  assumes "\<And>k. gapless base (seqs s k)"
  shows "gapless base (seqs (fold (\<lambda>(k, e). add k e) kes s) k')"
  using assms
proof (induction kes arbitrary: s)
  case (Cons ke kes)
  obtain k e where ke: "ke = (k, e)" by (cases ke)
  have "\<And>j. gapless base (seqs (add k e s) j)" using Cons.prems by (rule add_gapless)
  then have "gapless base (seqs (fold (\<lambda>(k, e). add k e) kes (add k e s)) k')" by (rule Cons.IH)
  then show ?case by (simp add: ke)
qed simp

lemma adds_count:
  "length (seqs (fold (\<lambda>(k, e). add k e) kes s) k') =
     length (seqs s k') + length (filter (\<lambda>(k, e). k = k') kes)"
proof (induction kes arbitrary: s)
  case (Cons ke kes)
  obtain k e where "ke = (k, e)" by (cases ke)
  with Cons.IH [of "add k e s"] show ?case
    by (cases "k = k'") (simp_all add: seqs_add_same seqs_add_other)
qed simp

end

end
