(* ===== verification/Agent_Runs.thy ===== *)
theory Agent_Runs
  imports Agent_Scope Event_Log
begin

text \<open>
  \<open>AgentRepository\<close> (\<open>agentic/repository.py\<close>): runs, their steps, tool calls, artifacts and
  events, with the constraints of the tables (primary and unique keys, foreign keys, the cascade
  from a deleted step to its calls and artifacts). Every operation is one transaction: an exception
  returns no store. The clock and \<open>uuid4\<close> are arguments. The retry of \<open>create_run\<close> after a failed
  insert looks the idempotency key up again, which in one transaction after the other finds nothing new, so the
  model raises.
\<close>

subsection \<open>State\<close>

datatype run_status = RQueued | RPlanning | RRunning | RPaused | RAwaiting | RCompleted | RFailed | RCancelled

definition status_text :: "run_status \<Rightarrow> string" where
  "status_text s = (case s of RQueued \<Rightarrow> ''queued'' | RPlanning \<Rightarrow> ''planning'' | RRunning \<Rightarrow> ''running''
     | RPaused \<Rightarrow> ''paused'' | RAwaiting \<Rightarrow> ''awaiting_human'' | RCompleted \<Rightarrow> ''completed''
     | RFailed \<Rightarrow> ''failed'' | RCancelled \<Rightarrow> ''cancelled'')"

datatype step_status = SPending | SRunning | SCompleted | SFailed | SCancelled | SSkipped

record agent_run =
  ag_id :: string
  ag_parent :: "string option"
  ag_source :: string
  ag_entity :: string
  ag_entity_type :: string
  ag_profile :: string
  ag_prompt :: string
  ag_status :: run_status
  ag_max_steps :: int
  ag_max_calls :: int
  ag_used :: int
  ag_timeout :: fl
  ag_tools :: "string list"
  ag_snapshot :: pv
  ag_goal :: "string option"
  ag_error :: "string option"
  ag_summary :: "string option"
  ag_key :: string
  ag_actor :: string
  ag_roles :: "string list"
  ag_request :: string
  ag_version :: int
  ag_created :: string
  ag_updated :: string
  ag_started :: "string option"
  ag_completed :: "string option"

record agent_step =
  st_run :: string
  st_id :: string
  st_seq :: int
  st_tool :: string
  st_args :: pv
  st_status :: step_status
  st_attempt :: int
  st_result :: pv
  st_error :: "string option"
  st_summary :: "string option"
  st_started :: "string option"
  st_completed :: "string option"
  st_created :: string
  st_updated :: string

record tool_call =
  tc_id :: string
  tc_run :: string
  tc_step :: string
  tc_tool :: string
  tc_args :: pv
  tc_result :: pv
  tc_status :: step_status
  tc_cost :: int
  tc_latency :: "int option"
  tc_error :: "string option"
  tc_summary :: "string option"
  tc_key :: string
  tc_created :: string
  tc_completed :: "string option"

record agent_artifact =
  af_id :: string
  af_run :: string
  af_step :: "string option"
  af_type :: string
  af_payload :: pv
  af_fingerprint :: "string option"
  af_created :: string

record adb =
  a_runs :: "agent_run list"
  a_steps :: "agent_step list"
  a_calls :: "tool_call list"
  a_artifacts :: "agent_artifact list"
  a_events :: "event_row list"

record plan_step =
  ps_id :: string
  ps_tool :: string
  ps_args :: pv

record agent_plan =
  pl_goal :: string
  pl_steps :: "plan_step list"
  pl_assessment :: "pv option"
  pl_output :: "pv option"

definition find_run :: "string \<Rightarrow> 'z adb_scheme \<Rightarrow> agent_run option" where
  "find_run run_id db = find (\<lambda>r. ag_id r = run_id) (a_runs db)"

definition steps_of :: "string \<Rightarrow> 'z adb_scheme \<Rightarrow> agent_step list" where
  "steps_of run_id db = sort_key st_seq (filter (\<lambda>s. st_run s = run_id) (a_steps db))"

definition update_runs :: "string \<Rightarrow> (agent_run \<Rightarrow> agent_run) \<Rightarrow> 'z adb_scheme \<Rightarrow> 'z adb_scheme" where
  "update_runs run_id f db = db\<lparr>a_runs := upd_where (\<lambda>r. ag_id r = run_id) f (a_runs db)\<rparr>"

text \<open>\<open>_append_event\<close>: the run must exist and the idempotency key must be new.\<close>

definition run_event ::
  "string \<Rightarrow> string \<Rightarrow> string \<Rightarrow> pv \<Rightarrow> string option \<Rightarrow> 'z adb_scheme \<Rightarrow> 'z adb_scheme res" where
  "run_event now run_id event_type attributes idem db =
     (if find_run run_id db = None then missing ''agent_run_not_found''
      else if idem \<noteq> None \<and> has_idem run_id (the idem) (a_events db) then Inl (DatabaseErr ''event_key'')
      else Inr (db\<lparr>a_events := append_row (- 1) run_id event_type attributes idem now (a_events db)\<rparr>))"

subsection \<open>Views\<close>

record run_view =
  rv_run :: agent_run
  rv_steps :: "agent_step list"
  rv_calls :: "tool_call list"
  rv_artifacts :: "agent_artifact list"
  rv_events :: "event_row list"

definition get_run :: "string \<Rightarrow> 'z adb_scheme \<Rightarrow> run_view res" where
  "get_run run_id db =
     (case find_run run_id db of
        None \<Rightarrow> missing ''agent_run_not_found''
      | Some run \<Rightarrow> Inr \<lparr>rv_run = run, rv_steps = steps_of run_id db,
          rv_calls = sort_key (\<lambda>c. (tc_created c, tc_id c)) (filter (\<lambda>c. tc_run c = run_id) (a_calls db)),
          rv_artifacts = sort_key (\<lambda>a. (af_created a, af_id a)) (filter (\<lambda>a. af_run a = run_id) (a_artifacts db)),
          rv_events = sort_key ev_seq (filter (\<lambda>e. ev_key e = run_id) (a_events db))\<rparr>)"

definition view_of :: "string \<Rightarrow> bool \<Rightarrow> 'z adb_scheme \<Rightarrow> ('z adb_scheme \<times> run_view \<times> bool) res" where
  "view_of run_id replay db = bind_res (get_run run_id db) (\<lambda>v. Inr (db, v, replay))"

text \<open>\<open>ORDER BY created_at DESC, run_id DESC LIMIT ?\<close>.\<close>

definition list_runs :: "int \<Rightarrow> 'z adb_scheme \<Rightarrow> run_view list res" where
  "list_runs limit db =
     map_res (\<lambda>r. get_run (ag_id r) db)
       (take (nat (clamp 1 500 limit)) (rev (sort_key (\<lambda>r. (ag_created r, ag_id r)) (a_runs db))))"

definition active_runs :: "'z adb_scheme \<Rightarrow> string list" where
  "active_runs db =
     map ag_id (sort_key (\<lambda>r. (ag_created r, ag_id r))
       (filter (\<lambda>r. ag_status r \<in> {RQueued, RPlanning, RRunning}) (a_runs db)))"

subsection \<open>Creating a run and its plan\<close>

definition by_idempotency :: "string \<Rightarrow> string \<Rightarrow> 'z adb_scheme \<Rightarrow> string option" where
  "by_idempotency actor key db =
     map_option ag_id (find (\<lambda>r. ag_actor r = actor \<and> ag_key r = key) (a_runs db))"

definition new_run :: "run_request \<Rightarrow> string \<Rightarrow> string \<Rightarrow> pv \<Rightarrow> string \<Rightarrow> string \<Rightarrow> agent_run" where
  "new_run r source ent snapshot run_id now =
     \<lparr>ag_id = run_id, ag_parent = rq_parent r, ag_source = source, ag_entity = ent,
      ag_entity_type = rq_entity_type r, ag_profile = rq_profile r, ag_prompt = rq_prompt r, ag_status = RQueued,
      ag_max_steps = rq_max_steps r, ag_max_calls = rq_max_tool_calls r, ag_used = 0, ag_timeout = rq_timeout r,
      ag_tools = rq_tools r, ag_snapshot = snapshot, ag_goal = None, ag_error = None, ag_summary = None,
      ag_key = rq_key r, ag_actor = rq_actor r, ag_roles = rq_roles r, ag_request = rq_request r, ag_version = 1,
      ag_created = now, ag_updated = now, ag_started = None, ag_completed = None\<rparr>"

text \<open>The request has passed \<open>__post_init__\<close>.\<close>

definition create_run ::
  "string \<Rightarrow> string \<Rightarrow> run_request \<Rightarrow> pv \<Rightarrow> 'z adb_scheme \<Rightarrow> ('z adb_scheme \<times> run_view \<times> bool) res" where
  "create_run now fresh r snapshot db =
     bind_res (post_init r) (\<lambda>_.
     bind_res (validate_run_scope (rq_source r) (rq_entity r)) (\<lambda>(source, ent).
     case by_idempotency (rq_actor r) (rq_key r) db of
       Some existing \<Rightarrow> view_of existing True db
     | None \<Rightarrow>
         if find_run fresh db \<noteq> None then Inl (DatabaseErr ''run_id'')
         else if rq_parent r \<noteq> None \<and> find_run (the (rq_parent r)) db = None then Inl (DatabaseErr ''parent_run_id'')
         else
           bind_res (run_event now fresh ''run_created'' (PDict [(''status'', PStr ''queued'')]) None
             (db\<lparr>a_runs := a_runs db @ [new_run r source ent snapshot fresh now]\<rparr>)) (view_of fresh False)))"

definition new_step :: "string \<Rightarrow> int \<Rightarrow> string \<Rightarrow> plan_step \<Rightarrow> agent_step" where
  "new_step run_id sq now p =
     \<lparr>st_run = run_id, st_id = ps_id p, st_seq = sq, st_tool = ps_tool p, st_args = ps_args p, st_status = SPending,
      st_attempt = 0, st_result = PDict [], st_error = None, st_summary = None, st_started = None, st_completed = None,
      st_created = now, st_updated = now\<rparr>"

definition insert_step :: "string \<Rightarrow> int \<Rightarrow> string \<Rightarrow> plan_step \<Rightarrow> 'z adb_scheme \<Rightarrow> 'z adb_scheme res" where
  "insert_step run_id sq now p db =
     (if exists_where (\<lambda>s. st_run s = run_id \<and> (st_id s = ps_id p \<or> st_seq s = sq)) (a_steps db)
      then Inl (DatabaseErr ''step'')
      else Inr (db\<lparr>a_steps := a_steps db @ [new_step run_id sq now p]\<rparr>))"

fun insert_steps :: "string \<Rightarrow> int \<Rightarrow> string \<Rightarrow> plan_step list \<Rightarrow> 'z adb_scheme \<Rightarrow> 'z adb_scheme res" where
  "insert_steps run_id sq now [] db = Inr db"
| "insert_steps run_id sq now (p # ps) db =
     bind_res (insert_step run_id sq now p db) (insert_steps run_id (sq + 1) now ps)"

text \<open>\<open>DELETE FROM agent_run_steps WHERE run_id=?\<close> with its cascades.\<close>

definition delete_steps :: "string \<Rightarrow> 'z adb_scheme \<Rightarrow> 'z adb_scheme" where
  "delete_steps run_id db =
     db\<lparr>a_steps := filter (\<lambda>s. st_run s \<noteq> run_id) (a_steps db),
        a_calls := filter (\<lambda>c. tc_run c \<noteq> run_id) (a_calls db),
        a_artifacts := filter (\<lambda>a. \<not> (af_run a = run_id \<and> af_step a \<noteq> None)) (a_artifacts db)\<rparr>"

definition starts_with :: "string \<Rightarrow> string \<Rightarrow> bool" where
  "starts_with p s = (take (length p) s = p)"

definition replace_plan ::
  "string \<Rightarrow> string \<Rightarrow> agent_plan \<Rightarrow> bool \<Rightarrow> 'z adb_scheme \<Rightarrow> ('z adb_scheme \<times> run_view) res" where
  "replace_plan now run_id plan preserve_context db =
     (if find_run run_id db = None then missing ''agent_run_not_found'' else
      let prefix = (if preserve_context then steps_of run_id db else []) in
      if list_ex (\<lambda>s. \<not> starts_with ''context-'' (st_id s) \<or> st_status s \<noteq> SCompleted) prefix
      then agentic ''agent_context_incomplete''
      else if list_ex (\<lambda>s. st_id s \<in> set (map ps_id (pl_steps plan))) prefix then agentic ''agent_plan_invalid''
      else
        bind_res (insert_steps run_id (int (length prefix)) now (pl_steps plan)
            (if preserve_context then db else delete_steps run_id db)) (\<lambda>db1.
        let db2 = update_runs run_id (\<lambda>r. r\<lparr>ag_goal := Some (pl_goal plan), ag_updated := now,
              ag_version := ag_version r + 1\<rparr>) db1
        in bind_res (get_run run_id db2) (\<lambda>v. Inr (db2, v))))"

definition reservation_key :: string where
  "reservation_key = ''model-planning-reservation''"

definition reserve_model_planning :: "string \<Rightarrow> string \<Rightarrow> 'z adb_scheme \<Rightarrow> ('z adb_scheme \<times> bool) res" where
  "reserve_model_planning now run_id db =
     (case find_run run_id db of
        None \<Rightarrow> agentic ''agent_state_conflict''
      | Some run \<Rightarrow>
          if ag_status run \<noteq> RPlanning then agentic ''agent_state_conflict''
          else if has_idem run_id reservation_key (a_events db) then Inr (db, False)
          else bind_res (run_event now run_id ''model_planning_reserved'' (PDict [(''automatic_retry'', PBool False)])
                 (Some reservation_key) db) (\<lambda>db'. Inr (db', True)))"

definition add_context_step :: "string \<Rightarrow> string \<Rightarrow> plan_step \<Rightarrow> 'z adb_scheme \<Rightarrow> 'z adb_scheme res" where
  "add_context_step now run_id p db =
     (let n = int (count_where (\<lambda>s. st_run s = run_id) (a_steps db)) in
      case find_run run_id db of
        None \<Rightarrow> agentic ''agent_budget_exhausted''
      | Some run \<Rightarrow>
          if ag_status run \<noteq> RPlanning \<or> ag_max_steps run \<le> n then agentic ''agent_budget_exhausted''
          else insert_step run_id n now p db)"

definition append_agent_event ::
  "string \<Rightarrow> string \<Rightarrow> string \<Rightarrow> pv \<Rightarrow> string option \<Rightarrow> 'z adb_scheme \<Rightarrow> 'z adb_scheme res" where
  "append_agent_event now run_id event_type attributes idem db =
     (case idem of
        None \<Rightarrow> run_event now run_id event_type attributes None db
      | Some k \<Rightarrow>
          if k \<noteq> [] \<and> has_idem run_id k (a_events db) then Inr db
          else run_event now run_id event_type attributes idem db)"

text \<open>The precondition of \<open>add_artifact\<close> reads the store before and after the insert.\<close>

definition add_artifact ::
  "string \<Rightarrow> string \<Rightarrow> string \<Rightarrow> string \<Rightarrow> pv \<Rightarrow> string option \<Rightarrow> string option
     \<Rightarrow> ('z adb_scheme \<Rightarrow> unit res) option \<Rightarrow> 'z adb_scheme \<Rightarrow> ('z adb_scheme \<times> agent_artifact) res" where
  "add_artifact now fresh run_id artifact_type payload step_id fingerprint precondition db =
     (let check = (case precondition of None \<Rightarrow> (\<lambda>_. Inr ()) | Some p \<Rightarrow> p);
          a = \<lparr>af_id = fresh, af_run = run_id, af_step = step_id, af_type = artifact_type, af_payload = payload,
               af_fingerprint = fingerprint, af_created = now\<rparr>;
          db' = db\<lparr>a_artifacts := a_artifacts db @ [a]\<rparr>
      in bind_res (check db) (\<lambda>_.
         if find_run run_id db = None \<or> exists_where (\<lambda>x. af_id x = fresh) (a_artifacts db)
            \<or> (step_id \<noteq> None \<and> \<not> exists_where (\<lambda>s. st_run s = run_id \<and> st_id s = the step_id) (a_steps db))
         then Inl (DatabaseErr ''artifact'')
         else bind_res (check db') (\<lambda>_. Inr (db', a))))"

subsection \<open>Transitions and steps\<close>

definition started_mark :: "run_status \<Rightarrow> string \<Rightarrow> string option \<Rightarrow> string option" where
  "started_mark status now old =
     (if old \<noteq> None then old else if status \<in> {RPlanning, RRunning} then Some now else None)"

definition completed_mark :: "run_status \<Rightarrow> string \<Rightarrow> string option \<Rightarrow> string option" where
  "completed_mark status now old = (if status \<in> {RCompleted, RFailed, RCancelled} then Some now else old)"

definition opt_str :: "string option \<Rightarrow> pv" where
  "opt_str s = (case s of None \<Rightarrow> PNone | Some x \<Rightarrow> PStr x)"

text \<open>The replay flag is part of the result only for a call with a key.\<close>

definition transition ::
  "string \<Rightarrow> string \<Rightarrow> run_status \<Rightarrow> run_status set \<Rightarrow> string option \<Rightarrow> string option \<Rightarrow> string option
     \<Rightarrow> 'z adb_scheme \<Rightarrow> ('z adb_scheme \<times> run_view \<times> bool) res" where
  "transition now run_id status allowed_from error_code error_summary idem db =
     (case find_run run_id db of
        None \<Rightarrow> missing ''agent_run_not_found''
      | Some run \<Rightarrow>
          if idem \<noteq> None \<and> idem \<noteq> Some [] \<and> has_idem run_id (the idem) (a_events db)
          then view_of run_id True db
          else if ag_status run \<notin> allowed_from then conflict ''agent_state_conflict''
          else
            let mine = (\<lambda>r. ag_id r = run_id \<and> ag_version r = ag_version run);
                db1 = db\<lparr>a_runs := upd_where mine (\<lambda>r. r\<lparr>ag_status := status, ag_error := error_code,
                  ag_summary := error_summary, ag_started := started_mark status now (ag_started r),
                  ag_completed := completed_mark status now (ag_completed r), ag_updated := now,
                  ag_version := ag_version r + 1\<rparr>) (a_runs db)\<rparr>
            in if count_where mine (a_runs db) \<noteq> 1 then conflict ''agent_state_conflict''
               else bind_res (run_event now run_id (''run_'' @ status_text status)
                 (PDict [(''status'', PStr (status_text status)), (''error_code'', opt_str error_code)]) idem db1)
                 (view_of run_id False))"

definition update_step ::
  "string \<Rightarrow> string \<Rightarrow> step_status \<Rightarrow> (agent_step \<Rightarrow> agent_step) \<Rightarrow> 'z adb_scheme \<Rightarrow> 'z adb_scheme res" where
  "update_step run_id step_id status f db =
     (let mine = (\<lambda>s. st_run s = run_id \<and> st_id s = step_id \<and> st_status s = status) in
      if count_where mine (a_steps db) \<noteq> 1 then conflict ''agent_step_conflict''
      else Inr (db\<lparr>a_steps := upd_where mine f (a_steps db)\<rparr>))"

definition start_step :: "string \<Rightarrow> string \<Rightarrow> string \<Rightarrow> 'z adb_scheme \<Rightarrow> 'z adb_scheme res" where
  "start_step now run_id step_id =
     update_step run_id step_id SPending (\<lambda>s. s\<lparr>st_status := SRunning, st_attempt := st_attempt s + 1,
       st_started := Some now, st_updated := now\<rparr>)"

definition finish_step ::
  "string \<Rightarrow> string \<Rightarrow> string \<Rightarrow> step_status \<Rightarrow> pv \<Rightarrow> string option \<Rightarrow> string option
     \<Rightarrow> 'z adb_scheme \<Rightarrow> 'z adb_scheme res" where
  "finish_step now run_id step_id status result error_code error_summary =
     update_step run_id step_id SRunning (\<lambda>s. s\<lparr>st_status := status, st_result := py_or result (PDict []),
       st_error := error_code, st_summary := error_summary, st_completed := Some now, st_updated := now\<rparr>)"

definition record_tool_call ::
  "string \<Rightarrow> string \<Rightarrow> string \<Rightarrow> string \<Rightarrow> string \<Rightarrow> pv \<Rightarrow> step_status \<Rightarrow> string \<Rightarrow> int \<Rightarrow> pv \<Rightarrow> int option
     \<Rightarrow> string option \<Rightarrow> string option \<Rightarrow> 'z adb_scheme \<Rightarrow> ('z adb_scheme \<times> tool_call) res" where
  "record_tool_call now fresh run_id step_id tool_name arguments status idem cost_units result latency_ms
       error_code error_summary db =
     (case find (\<lambda>c. tc_run c = run_id \<and> tc_key c = idem) (a_calls db) of
        Some c \<Rightarrow> Inr (db, c)
      | None \<Rightarrow>
          let c = \<lparr>tc_id = fresh, tc_run = run_id, tc_step = step_id, tc_tool = tool_name, tc_args = arguments,
                   tc_result = py_or result (PDict []), tc_status = status, tc_cost = cost_units,
                   tc_latency = latency_ms, tc_error = error_code, tc_summary = error_summary, tc_key = idem,
                   tc_created = now, tc_completed = (if status \<noteq> SRunning then Some now else None)\<rparr>
          in if exists_where (\<lambda>x. tc_id x = fresh) (a_calls db) \<or> cost_units \<le> 0
                \<or> \<not> exists_where (\<lambda>s. st_run s = run_id \<and> st_id s = step_id) (a_steps db)
             then Inl (DatabaseErr ''tool_call'')
             else Inr (update_runs run_id (\<lambda>r. r\<lparr>ag_used := ag_used r + cost_units, ag_updated := now,
                     ag_version := ag_version r + 1\<rparr>) (db\<lparr>a_calls := a_calls db @ [c]\<rparr>), c))"

subsection \<open>Recovery\<close>

definition block_uncertain_planning :: "string \<Rightarrow> string \<Rightarrow> 'z adb_scheme \<Rightarrow> ('z adb_scheme \<times> bool) res" where
  "block_uncertain_planning now run_id db =
     (if \<not> has_event run_id ''model_planning_reserved'' (a_events db) \<or> has_event run_id ''plan_created'' (a_events db)
      then Inr (db, False)
      else bind_res (run_event now run_id ''planning_recovery_blocked'' (PDict [(''automatic_retry'', PBool False)]) None
          (update_runs run_id (\<lambda>r. r\<lparr>ag_status := RFailed, ag_error := Some ''agent_plan_indeterminate'',
             ag_summary := Some ''planning not settled'', ag_completed := Some now, ag_updated := now\<rparr>) db))
          (\<lambda>db'. Inr (db', True)))"

definition reset_steps :: "string \<Rightarrow> string \<Rightarrow> 'z adb_scheme \<Rightarrow> 'z adb_scheme" where
  "reset_steps now run_id db =
     db\<lparr>a_steps := upd_where (\<lambda>s. st_run s = run_id \<and> st_status s = SRunning)
       (\<lambda>s. s\<lparr>st_status := SPending, st_error := None, st_summary := None, st_completed := None, st_updated := now\<rparr>)
       (a_steps db)\<rparr>"

fun recover_each :: "string \<Rightarrow> string list \<Rightarrow> 'z adb_scheme \<Rightarrow> ('z adb_scheme \<times> string list) res" where
  "recover_each now [] db = Inr (db, [])"
| "recover_each now (k # ks) db =
     bind_res (block_uncertain_planning now k db) (\<lambda>(db1, blocked).
     if blocked then recover_each now ks db1
     else bind_res (run_event now k ''run_recovered'' (PDict [(''status'', PStr ''recoverable'')]) None (reset_steps now k db1))
       (\<lambda>db2. bind_res (recover_each now ks db2) (\<lambda>(db3, ids). Inr (db3, k # ids))))"

definition recover_active_runs :: "string \<Rightarrow> 'z adb_scheme \<Rightarrow> ('z adb_scheme \<times> string list) res" where
  "recover_active_runs now db = recover_each now (active_runs db) db"

definition recover_run :: "string \<Rightarrow> string \<Rightarrow> 'z adb_scheme \<Rightarrow> ('z adb_scheme \<times> run_view) res" where
  "recover_run now run_id db =
     (case find_run run_id db of
        None \<Rightarrow> missing ''agent_run_not_found''
      | Some run \<Rightarrow>
          if ag_status run \<notin> {RQueued, RPlanning, RRunning} then conflict ''agent_state_conflict''
          else
            bind_res (block_uncertain_planning now run_id db) (\<lambda>(db1, blocked).
            let db2 = (if exists_where (\<lambda>r. ag_id r = run_id \<and> ag_status r = RFailed) (a_runs db1) then db1
                       else reset_steps now run_id db1)
            in bind_res (run_event now run_id ''run_recovered'' (PDict [(''status'', PStr (status_text (ag_status run)))])
                 None db2) (\<lambda>db3. bind_res (get_run run_id db3) (\<lambda>v. Inr (db3, v)))))"

end
