(* ===== verification/Py_Regex.thy ===== *)
theory Py_Regex
  imports Py_Prelude "HOL-Library.Sublist"
begin

text \<open>
  The part of Python's \<open>re\<close> that the program uses, as a backtracking matcher. A text is the list of its code points
  (\<open>decode\<close>), a state of the matcher the code point in front of it and the text that is left, and \<open>rx_match\<close> lists the
  states after every match in the order in which Python tries them, so that the first one is the match Python takes.
  \<open>Rep\<close> is greedy, and what it repeats consumes at least one code point, as in every pattern of the program. \<open>\d\<close> is an ASCII digit; a code point above 127
  counts as a letter for \<open>\w\<close> and \<open>\b\<close> (true of the Chinese text the program handles, except its punctuation), and has no
  other case for \<open>(?i)\<close>.
\<close>

subsection \<open>Code points\<close>

definition byte_value :: "char \<Rightarrow> int" where
  "byte_value c = of_char c"

fun decode_one :: "string \<Rightarrow> int" where
  "decode_one [] = 0"
| "decode_one (c # cs) =
     (let x = byte_value c;
          lead = (if x < 128 then x else if x < 224 then x - 192 else if x < 240 then x - 224 else x - 240)
      in foldl (\<lambda>acc b. acc * 64 + (byte_value b - 128)) lead cs)"

definition decode :: "string \<Rightarrow> int list" where
  "decode s = map decode_one (code_points s)"

fun encode_one :: "int \<Rightarrow> string" where
  "encode_one x =
     map char_of (if x < 128 then [x]
       else if x < 2048 then [192 + x div 64, 128 + x mod 64]
       else if x < 65536 then [224 + x div 4096, 128 + x div 64 mod 64, 128 + x mod 64]
       else [240 + x div 262144, 128 + x div 4096 mod 64, 128 + x div 64 mod 64, 128 + x mod 64])"

definition encode :: "int list \<Rightarrow> string" where
  "encode xs = concat (map encode_one xs)"

subsection \<open>Classes\<close>

definition is_digit :: "int \<Rightarrow> bool" where
  "is_digit x = (48 \<le> x \<and> x \<le> 57)"

definition is_upper :: "int \<Rightarrow> bool" where
  "is_upper x = (65 \<le> x \<and> x \<le> 90)"

definition is_letter :: "int \<Rightarrow> bool" where
  "is_letter x = (is_upper x \<or> (97 \<le> x \<and> x \<le> 122))"

definition is_word :: "int \<Rightarrow> bool" where
  "is_word x = (is_letter x \<or> is_digit x \<or> x = 95 \<or> 128 \<le> x)"

definition is_blank :: "int \<Rightarrow> bool" where
  "is_blank x = ((9 \<le> x \<and> x \<le> 13) \<or> (28 \<le> x \<and> x \<le> 32) \<or> x = 133 \<or> x = 160 \<or> x = 5760
     \<or> (8192 \<le> x \<and> x \<le> 8202) \<or> x \<in> {8232, 8233, 8239, 8287, 12288})"

definition fold_case :: "int \<Rightarrow> int" where
  "fold_case x = (if is_upper x then x + 32 else x)"

subsection \<open>Patterns\<close>

datatype rx =
    Cls "int \<Rightarrow> bool"
  | Cat rx rx
  | Alt rx rx
  | Rep nat "nat option" rx      \<comment> \<open>at least, at most\<close>
  | Boundary
  | Nothing

type_synonym rx_state = "int option \<times> int list"

definition at_boundary_of :: "rx_state \<Rightarrow> bool" where
  "at_boundary_of st =
     ((case fst st of None \<Rightarrow> False | Some x \<Rightarrow> is_word x)
      \<noteq> (case snd st of [] \<Rightarrow> False | x # _ \<Rightarrow> is_word x))"

primrec rx_loop :: "nat \<Rightarrow> (rx_state \<Rightarrow> rx_state list) \<Rightarrow> nat \<Rightarrow> nat option \<Rightarrow> rx_state \<Rightarrow> rx_state list" where
  "rx_loop 0 step lo hi st = (if lo = 0 then [st] else [])"
| "rx_loop (Suc fuel) step lo hi st =
     (if hi = Some 0 then []
      else concat (map (rx_loop fuel step (lo - 1) (map_option (\<lambda>h. h - 1) hi))
             (filter (\<lambda>st'. length (snd st') < length (snd st)) (step st))))
     @ (if lo = 0 then [st] else [])"

primrec rx_match :: "rx \<Rightarrow> rx_state \<Rightarrow> rx_state list" where
  "rx_match (Cls p) st = (case snd st of [] \<Rightarrow> [] | x # xs \<Rightarrow> if p x then [(Some x, xs)] else [])"
| "rx_match (Cat a b) st = concat (map (rx_match b) (rx_match a st))"
| "rx_match (Alt a b) st = rx_match a st @ rx_match b st"
| "rx_match (Rep lo hi a) st = rx_loop (Suc (length (snd st))) (rx_match a) lo hi st"
| "rx_match Boundary st = (if at_boundary_of st then [st] else [])"
| "rx_match Nothing st = [st]"

text \<open>\<open>pattern.fullmatch(s)\<close>, \<open>pattern.search(s)\<close> and \<open>pattern.findall(s)\<close>, the last two from a state.\<close>

definition fullmatch :: "rx \<Rightarrow> string \<Rightarrow> bool" where
  "fullmatch r s = list_ex (\<lambda>st. snd st = []) (rx_match r (None, decode s))"

fun search_from :: "rx \<Rightarrow> int option \<Rightarrow> int list \<Rightarrow> bool" where
  "search_from r prev [] = (rx_match r (prev, []) \<noteq> [])"
| "search_from r prev (x # xs) = (rx_match r (prev, x # xs) \<noteq> [] \<or> search_from r (Some x) xs)"

definition search :: "rx \<Rightarrow> string \<Rightarrow> bool" where
  "search r s = search_from r None (decode s)"

text \<open>An empty match advances the scan by one code point.\<close>

function findall_from :: "rx \<Rightarrow> int option \<Rightarrow> int list \<Rightarrow> int list list" where
  "findall_from r prev [] = []"
| "findall_from r prev (x # xs) =
     (case rx_match r (prev, x # xs) of
        [] \<Rightarrow> findall_from r (Some x) xs
      | (p, rest) # _ \<Rightarrow>
          if length rest < length (x # xs) then take (length (x # xs) - length rest) (x # xs) # findall_from r p rest
          else [] # findall_from r (Some x) xs)"
  by pat_completeness auto
termination
  by (relation "measure (\<lambda>(_, _, xs). length xs)") auto

definition findall :: "rx \<Rightarrow> string \<Rightarrow> string list" where
  "findall r s = map encode (findall_from r None (decode s))"

subsection \<open>Writing patterns\<close>

definition one_of :: "string \<Rightarrow> rx" where
  "one_of cs = Cls (\<lambda>x. x \<in> set (map byte_value cs))"

fun lit :: "string \<Rightarrow> rx" where
  "lit [] = Nothing"
| "lit [c] = Cls (\<lambda>x. x = byte_value c)"
| "lit (c # cs) = Cat (Cls (\<lambda>x. x = byte_value c)) (lit cs)"

text \<open>A literal under \<open>(?i)\<close>, given in lower case.\<close>

fun ilit :: "string \<Rightarrow> rx" where
  "ilit [] = Nothing"
| "ilit [c] = Cls (\<lambda>x. fold_case x = byte_value c)"
| "ilit (c # cs) = Cat (Cls (\<lambda>x. fold_case x = byte_value c)) (ilit cs)"

fun cats :: "rx list \<Rightarrow> rx" where
  "cats [] = Nothing"
| "cats [r] = r"
| "cats (r # rs) = Cat r (cats rs)"

fun alts :: "rx list \<Rightarrow> rx" where
  "alts [] = Cls (\<lambda>_. False)"
| "alts [r] = r"
| "alts (r # rs) = Alt r (alts rs)"

abbreviation (input) many :: "rx \<Rightarrow> rx" where "many \<equiv> Rep 0 None"

abbreviation (input) some1 :: "rx \<Rightarrow> rx" where "some1 \<equiv> Rep 1 None"

abbreviation (input) maybe :: "rx \<Rightarrow> rx" where "maybe \<equiv> Rep 0 (Some 1)"

lemma rx_loop_suffix:
  assumes "\<And>st st'. st' \<in> set (step st) \<Longrightarrow> suffix (snd st') (snd st)"
  shows "st' \<in> set (rx_loop n step lo hi st) \<Longrightarrow> suffix (snd st') (snd st)"
proof (induction n arbitrary: lo hi st)
  case (Suc n)
  then consider "st' = st"
    | mid where "mid \<in> set (step st)" "st' \<in> set (rx_loop n step (lo - 1) (map_option (\<lambda>h. h - 1) hi) mid)"
    by (auto split: if_splits)
  then show ?case
  proof cases
    case 2
    from assms [OF 2(1)] Suc.IH [OF 2(2)] show ?thesis by (rule suffix_order.trans [rotated])
  qed simp
qed (simp split: if_splits)

text \<open>A match consumes a prefix of the text.\<close>

lemma rx_match_suffix: "st' \<in> set (rx_match r st) \<Longrightarrow> suffix (snd st') (snd st)"
proof (induction r arbitrary: st st')
  case (Cls p)
  then show ?case by (cases "snd st") (auto split: if_splits intro: suffix_ConsI)
next
  case (Cat a b)
  then obtain mid where m: "mid \<in> set (rx_match a st)" "st' \<in> set (rx_match b mid)" by auto
  from Cat.IH(1) [OF m(1)] Cat.IH(2) [OF m(2)] show ?case by (rule suffix_order.trans [rotated])
next
  case (Alt a b)
  then have "st' \<in> set (rx_match a st) \<or> st' \<in> set (rx_match b st)" by simp
  then show ?case using Alt.IH by blast
next
  case (Rep lo hi a)
  from Rep.prems have "st' \<in> set (rx_loop (Suc (length (snd st))) (rx_match a) lo hi st)" by simp
  then show ?case by (rule rx_loop_suffix [OF Rep.IH, rotated])
qed (simp_all split: if_splits)

lemma decode_example: "decode [CHR ''a'', CHR 0xE4, CHR 0xBA, CHR 0xA7] = [97, 0x4EA7]"
  by code_simp

lemma findall_example:
  "findall (cats [Boundary, some1 (Cls is_digit), Boundary]) ''a1 22 3b 4'' = [''22'', ''4'']"
  by code_simp

end
