(* ===== verification/Expert_Context.thy ===== *)
theory Expert_Context
  imports Agent_Tools Agent_Runs Iso_Time Py_Regex
begin

text \<open>
  What an expert of a workflow may see and say (\<open>agentic/evidence_context.py\<close>): the checks on the evidence of an
  entity, the summaries of approved rules, the facts that the evidence proves, the schema of an assessment, the opinions of
  completed experts upstream, and the context that is handed to the model. The clock of a rule's expiry is an argument (microseconds
  since 1970). The \<open>description\<close> entries of the schemas, which no check reads, are left out. A dictionary of the
  evidence that the code only reads with \<open>get\<close> after \<open>validate_material\<close> has to be one here too.
\<close>

subsection \<open>Values\<close>

text \<open>\<open>v[key]\<close> and \<open>v.get(key)\<close>.\<close>

definition item_at :: "pv \<Rightarrow> string \<Rightarrow> pv res" where
  "item_at v key = (case v of PDict d \<Rightarrow> (case map_of d key of None \<Rightarrow> Inl KeyErr | Some x \<Rightarrow> Inr x) | _ \<Rightarrow> Inl TypeErr)"

definition get_of :: "pv \<Rightarrow> string \<Rightarrow> pv res" where
  "get_of v key = (case v of PDict d \<Rightarrow> Inr (dget d key) | _ \<Rightarrow> Inl AttrErr)"

definition dict_of :: "pv \<Rightarrow> (string \<times> pv) list res" where
  "dict_of v = (case v of PDict d \<Rightarrow> Inr d | _ \<Rightarrow> Inl AttrErr)"

lemma dict_of_Inr [res_simps]: "dict_of v = Inr d \<longleftrightarrow> v = PDict d"
  by (cases v) (simp_all add: dict_of_def)

text \<open>\<open>set(v)\<close> as the list of the items; equality of the items is \<open>py_eq\<close>.\<close>

definition hashable :: "pv \<Rightarrow> bool" where
  "hashable v = (case v of PList _ \<Rightarrow> False | PDict _ \<Rightarrow> False | _ \<Rightarrow> True)"

definition py_set :: "pv \<Rightarrow> pv list res" where
  "py_set v = bind_res (py_iter v) (\<lambda>xs. if list_all hashable xs then Inr xs else Inl TypeErr)"

definition py_in :: "pv \<Rightarrow> pv list \<Rightarrow> bool" where
  "py_in x xs = list_ex (py_eq x) xs"

definition py_subset :: "pv list \<Rightarrow> pv list \<Rightarrow> bool" where
  "py_subset xs ys = list_all (\<lambda>x. py_in x ys) xs"

fun py_distinct :: "pv list \<Rightarrow> bool" where
  "py_distinct [] = True"
| "py_distinct (x # xs) = (\<not> py_in x xs \<and> py_distinct xs)"

lemma py_in_str [simp]: "py_in (PStr s) (map PStr xs) \<longleftrightarrow> s \<in> set xs"
  by (induction xs) (auto simp: py_in_def)

text \<open>\<open>json.dumps(value, ensure_ascii=False)\<close>, with the default separators.\<close>

fun spaced_json :: "pv \<Rightarrow> string" where
  "spaced_json (PList xs) = ''['' @ join '', '' (map spaced_json xs) @ '']''"
| "spaced_json (PDict d) =
     CHR 0x7B # join '', '' (map (\<lambda>(k, v). json_str k @ '': '' @ spaced_json v) d) @ [CHR 0x7D]"
| "spaced_json v = compact_json v"

subsection \<open>Credentials\<close>

definition blanks :: rx where "blanks = Cls is_blank"

definition credential :: rx where
  "credential =
     Cat (Alt (cats [ilit ''authorization'', many blanks, lit '':'', many blanks, ilit ''bearer'', some1 blanks])
              (cats [alts [cats [ilit ''api'', maybe (one_of ''_-''), ilit ''key''], ilit ''password'', ilit ''secret'',
                           ilit ''token''],
                     many blanks, one_of '':='', many blanks, maybe (one_of [CHR 0x27, CHR 0x22])]))
         (some1 (Cls (\<lambda>x. x \<noteq> 60 \<and> \<not> is_blank x \<and> x \<noteq> 39 \<and> x \<noteq> 34)))"

fun leaks :: "pv \<Rightarrow> bool" where
  "leaks (PStr s) = search credential s"
| "leaks (PDict d) = list_ex (\<lambda>(_, v). leaks v) d"
| "leaks (PList xs) = list_ex leaks xs"
| "leaks _ = False"

definition reject_provider_secrets :: "pv \<Rightarrow> unit res" where
  "reject_provider_secrets v =
     bind_res (reject_sensitive v) (\<lambda>_. if leaks v then agentic ''agent_context_sensitive'' else Inr ())"

subsection \<open>Material\<close>

definition signature_clash :: "(string \<times> pv \<times> string) list \<Rightarrow> string \<Rightarrow> pv \<Rightarrow> string \<Rightarrow> bool" where
  "signature_clash seen h component body =
     (case map_of seen h of None \<Rightarrow> False | Some (c, b) \<Rightarrow> \<not> (py_eq c component \<and> b = body))"

fun check_templates :: "string \<Rightarrow> string \<Rightarrow> string \<Rightarrow> (string \<times> pv \<times> string) list \<Rightarrow> pv list \<Rightarrow> unit res" where
  "check_templates job ent cluster seen [] = Inr ()"
| "check_templates job ent cluster seen (PDict t # ts) =
     (case (dget t ''template_hash'', dget t ''template'') of
        (PStr h, PStr body) \<Rightarrow>
          if blank h \<or> blank body then agentic ''agent_template_identity_missing''
          else if list_ex (\<lambda>(key, expected). dget t key \<noteq> PNone \<and> dget t key \<noteq> PStr expected)
                    [(''cluster'', cluster), (''entity_id'', ent), (''node'', ent), (''source_job_id'', job)]
          then agentic ''agent_scope_invalid''
          else if signature_clash seen h (dget t ''component'') body then agentic ''agent_template_identity_ambiguous''
          else check_templates job ent cluster ((h, dget t ''component'', body) # seen) ts
      | _ \<Rightarrow> agentic ''agent_template_identity_missing'')"
| "check_templates job ent cluster seen (_ # ts) = agentic ''agent_template_identity_missing''"

definition validate_material :: "pv \<Rightarrow> string \<Rightarrow> string \<Rightarrow> string option \<Rightarrow> unit res" where
  "validate_material evidence job ent expected_cluster =
     bind_res (validate_evidence_scope evidence (PStr job) (PStr ent) ''agent_scope_invalid'') (\<lambda>_.
     bind_res (dict_of evidence) (\<lambda>ev.
     bind_res (dict_of (py_or (dget ev ''entity'') (PDict []))) (\<lambda>entity.
     case (dget entity ''id'' = PStr ent, dget entity ''cluster'') of
       (True, PStr cluster) \<Rightarrow>
         if cluster = [] then agentic ''agent_scope_invalid''
         else if expected_cluster \<noteq> None \<and> expected_cluster \<noteq> Some cluster then agentic ''agent_scope_invalid''
         else (case dget ev ''templates'' of
             PList ts \<Rightarrow>
               if ts = [] then agentic ''agent_template_identity_missing''
               else bind_res (check_templates job ent cluster [] ts) (\<lambda>_. reject_provider_secrets evidence)
           | _ \<Rightarrow> agentic ''agent_template_identity_missing'')
     | _ \<Rightarrow> agentic ''agent_scope_invalid'')))"

text \<open>The parts of a checked evidence.\<close>

definition templates_of :: "pv \<Rightarrow> (string \<times> pv) list list" where
  "templates_of evidence =
     (case evidence of
        PDict ev \<Rightarrow> (case dget ev ''templates'' of
            PList ts \<Rightarrow> map (\<lambda>t. case t of PDict d \<Rightarrow> d | _ \<Rightarrow> []) ts | _ \<Rightarrow> [])
      | _ \<Rightarrow> [])"

definition template_hash :: "(string \<times> pv) list \<Rightarrow> string" where
  "template_hash t = py_str (dget t ''template_hash'')"

definition entity_of :: "pv \<Rightarrow> (string \<times> pv) list" where
  "entity_of evidence =
     (case evidence of PDict ev \<Rightarrow> (case dget ev ''entity'' of PDict e \<Rightarrow> e | _ \<Rightarrow> []) | _ \<Rightarrow> [])"

definition cluster_of :: "pv \<Rightarrow> pv" where
  "cluster_of evidence = dget (entity_of evidence) ''cluster''"

subsection \<open>Approved rules\<close>

text \<open>\<open>rule_scope_matches\<close> of \<open>approved_rules.py\<close>.\<close>

definition scope_admits :: "string option \<Rightarrow> pv \<Rightarrow> bool" where
  "scope_admits cluster v =
     (case v of
        PNone \<Rightarrow> True
      | PStr s \<Rightarrow> s = [] \<or> s = ''global'' \<or> s = ''*'' \<or> (cluster \<noteq> None \<and> cluster \<noteq> Some [] \<and> cluster = Some s)
      | _ \<Rightarrow> False)"

definition rule_scope_matches :: "(string \<times> pv) list \<Rightarrow> string option \<Rightarrow> bool" where
  "rule_scope_matches rule cluster = list_all (scope_admits cluster) [dget rule ''scope'', dget rule ''cluster'']"

definition rule_context_fields :: "string list" where
  "rule_context_fields = [''rule_id'', ''title'', ''feature_type'', ''status'', ''current_version'', ''approved_at'',
     ''problem_code'', ''approval_key'', ''selection_reason'', ''summary'', ''match_mode'', ''components'',
     ''review_scope'', ''scope'', ''cluster'', ''conditions'', ''anchor_signatures'', ''supporting_signatures'',
     ''next_review_at'', ''expires_at'', ''valid_until'']"

definition unexpired :: "int \<Rightarrow> pv \<Rightarrow> bool" where
  "unexpired now v =
     (v = PNone \<or> (case fromisoformat (replace_z (py_str v)) of Inl _ \<Rightarrow> False | Inr t \<Rightarrow> now < timestamp_us 0 t))"

definition approved_rule_summary ::
  "(string \<Rightarrow> string) \<Rightarrow> int \<Rightarrow> (string \<times> pv) list \<Rightarrow> string option \<Rightarrow> (string \<times> pv) list option" where
  "approved_rule_summary sha now rule cluster =
     (if dget rule ''status'' \<noteq> PStr ''active'' \<or> \<not> rule_scope_matches rule cluster
         \<or> \<not> unexpired now (dget rule ''expires_at'') \<or> \<not> unexpired now (dget rule ''valid_until'')
      then None else
      let v0 = map (\<lambda>k. (k, dget rule k)) (filter (dhas rule) rule_context_fields);
          v1 = dset v0 ''template_signatures'' (py_or (dget rule ''template_signatures'') (PList []));
          v2 = dset v1 ''current_version'' (dget rule ''current_version'');
          v3 = dset v2 ''applicability'' (PStr ''reference_only_requires_evidence_conditions'')
      in Some (dset v3 ''canonical_hash'' (PStr (canonical_fingerprint sha (PDict v3)))))"

definition rule_reference :: "pv \<Rightarrow> string res" where
  "rule_reference rule =
     bind_res (item_at rule ''rule_id'') (\<lambda>rule_id.
     bind_res (get_of rule ''current_version'') (\<lambda>version.
     Inr (py_str rule_id @ ''@'' @ (if version = PNone then ''unknown'' else py_str version))))"

subsection \<open>The context\<close>

record upstream_opinion =
  up_artifact :: string
  up_run :: string
  up_role :: pv
  up_assessment :: pv
  up_response_hash :: pv
  up_bindings :: "pv list"

record read_receipt =
  rd_call :: string
  rd_tool :: string
  rd_hash :: string

record expert_context =
  ec_schema :: string
  ec_role :: string
  ec_source :: string
  ec_entity :: string
  ec_cluster :: pv
  ec_evidence_hash :: string
  ec_evidence :: pv
  ec_rules :: "pv list"            \<comment> \<open>the items of \<open>approved_rules\<close>\<close>
  ec_rules_value :: pv
  ec_reads :: "read_receipt list"
  ec_upstream :: "upstream_opinion list"
  ec_hash :: string

definition rule_binding :: "pv \<Rightarrow> pv res" where
  "rule_binding rule =
     bind_res (item_at rule ''rule_id'') (\<lambda>rule_id.
     bind_res (get_of rule ''current_version'') (\<lambda>version.
     bind_res (rule_reference rule) (\<lambda>reference.
     bind_res (get_of rule ''canonical_hash'') (\<lambda>hash.
     Inr (PDict [(''rule_id'', rule_id), (''current_version'', version), (''reference'', PStr reference),
       (''canonical_hash'', hash)])))))"

definition upstream_bindings :: "upstream_opinion \<Rightarrow> pv list res" where
  "upstream_bindings up =
     bind_res (bind_res (item_at (up_assessment up) ''rule_refs'') py_set) (\<lambda>refs.
     bind_res (map_res (\<lambda>b. get_of b ''reference'') (up_bindings up)) (\<lambda>known.
     if py_subset refs known then Inr (up_bindings up) else agentic ''agent_rule_reference_changed''))"

fun merge_bindings :: "(string \<times> pv) list \<Rightarrow> pv list \<Rightarrow> (string \<times> pv) list res" where
  "merge_bindings result [] = Inr result"
| "merge_bindings result (item # items) =
     bind_res (dict_of item) (\<lambda>d.
     let key = str_or (dget d ''rule_id'') in
     if key = [] \<or> \<not> truthy (dget d ''canonical_hash'') \<or> (dhas result key \<and> \<not> py_eq (dget result key) item)
     then agentic ''agent_rule_reference_changed''
     else merge_bindings (dset result key item) items)"

definition expert_rule_bindings :: "expert_context \<Rightarrow> pv list res" where
  "expert_rule_bindings ctx =
     bind_res (map_res rule_binding (ec_rules ctx)) (\<lambda>own.
     bind_res (map_res upstream_bindings (ec_upstream ctx)) (\<lambda>inherited.
     bind_res (merge_bindings [] (own @ concat inherited)) (\<lambda>result.
     Inr (map snd (sort_key fst result)))))"

end
