(* ===== verification/Node_Risk.thy ===== *)
theory Node_Risk
  imports Iso_Format Py_Float Expert_Context
begin

text \<open>
  The ledger of node risks (\<open>NodeRiskService\<close> of \<open>node_risk.py\<close>): semantic risk events are merged into one row per
  deduplication key and window; each row keeps the contributions it was made of (\<open>node_risk_ingestions\<close>), so that a
  contribution can be replaced by a later revision. \<open>node_risk_projection_revisions\<close> counts the changes of a node and
  the change its published score has seen. The score itself is floating-point arithmetic and an argument here.
\<close>

subsection \<open>Tables\<close>

datatype event_status = NActive | NAcknowledged | NRecovered

record node_event =
  ne_id :: string
  ne_cluster :: string
  ne_node :: string
  ne_domain :: string
  ne_category :: string
  ne_type :: string
  ne_subtype :: "string option"
  ne_severity :: string
  ne_score :: fl
  ne_confidence :: fl
  ne_rule :: string
  ne_rule_version :: int
  ne_dedup :: string
  ne_count :: int
  ne_first :: string
  ne_last :: string
  ne_start :: string
  ne_end :: string
  ne_status :: event_status
  ne_recovered :: "string option"
  ne_ack_at :: "string option"
  ne_ack_by :: "string option"
  ne_fields :: pv
  ne_refs :: "string list"
  ne_job :: "string option"
  ne_trace :: "string option"
  ne_created :: string
  ne_updated :: string
  ne_superseded :: bool              \<comment> \<open>\<open>derivation_status\<close>\<close>
  ne_current :: "int option"         \<comment> \<open>\<open>current_occurrence_count\<close>\<close>

record contribution =
  ct_time :: string
  ct_severity :: pv
  ct_score :: pv
  ct_confidence :: pv
  ct_refs :: "string list"

record ingestion =
  ig_fingerprint :: string
  ig_event :: string
  ig_job :: "string option"
  ig_count :: int
  ig_at :: string
  ig_physical :: "string option"
  ig_revision :: string
  ig_current :: bool
  ig_contribution :: "contribution option"   \<comment> \<open>absent in rows from before the column existed\<close>

record projection_mark =
  pm_cluster :: string
  pm_node :: string
  pm_revision :: int
  pm_projected :: int
  pm_updated :: string

record risk_audit =
  ra_id :: string
  ra_event :: string
  ra_type :: string
  ra_json :: pv
  ra_operator :: string
  ra_at :: string

record ndb =
  nd_events :: "node_event list"
  nd_ingestions :: "ingestion list"
  nd_marks :: "projection_mark list"
  nd_audits :: "risk_audit list"

definition node_risk_error :: "string \<Rightarrow> exc" where
  "node_risk_error code = CodedErr ''NodeRiskError'' code"

definition bad_request :: exc where
  "bad_request = node_risk_error ''invalid_node_risk_request''"

definition find_event :: "string \<Rightarrow> ndb \<Rightarrow> node_event option" where
  "find_event k db = find (\<lambda>e. ne_id e = k) (nd_events db)"

definition update_event :: "string \<Rightarrow> (node_event \<Rightarrow> node_event) \<Rightarrow> ndb \<Rightarrow> ndb" where
  "update_event k f db = db\<lparr>nd_events := upd_where (\<lambda>e. ne_id e = k) f (nd_events db)\<rparr>"

text \<open>What a row is shown as: the current count, and \<open>superseded\<close> (\<open>None\<close>) for a row without contributions.\<close>

definition event_view :: "node_event \<Rightarrow> node_event \<times> event_status option" where
  "event_view e =
     (e\<lparr>ne_count := (case ne_current e of None \<Rightarrow> ne_count e | Some n \<Rightarrow> n)\<rparr>,
      if ne_superseded e then None else Some (ne_status e))"

definition view_event :: "string \<Rightarrow> ndb \<Rightarrow> (node_event \<times> event_status option) res" where
  "view_event k db = (case find_event k db of None \<Rightarrow> Inl TypeErr | Some e \<Rightarrow> Inr (event_view e))"

text \<open>A text column that must not be null.\<close>

fun text_column :: "pv \<Rightarrow> string res" where
  "text_column PNone = Inl (DatabaseErr ''NOT NULL'')"
| "text_column (PBool b) = Inr (int_str (if b then 1 else 0))"
| "text_column (PList xs) = Inl (DatabaseErr ''binding'')"
| "text_column (PDict d) = Inl (DatabaseErr ''binding'')"
| "text_column v = Inr (py_str v)"

definition text_option :: "pv \<Rightarrow> string option res" where
  "text_option v = (if v = PNone then Inr None else bind_res (text_column v) (\<lambda>s. Inr (Some s)))"

text \<open>\<open>float(v)\<close> in a column that must not be null; SQLite stores a NaN as null.\<close>

definition real_column :: "pv \<Rightarrow> fl res" where
  "real_column v = bind_res (py_float v) (\<lambda>x. if x = FNaN then Inl (DatabaseErr ''NOT NULL'') else Inr x)"

definition risk_get :: "(string \<times> pv) list \<Rightarrow> string \<Rightarrow> pv res" where
  "risk_get d k = (if dhas d k then Inr (dget d k) else Inl KeyErr)"

text \<open>\<open>_mark_dirty\<close>.\<close>

definition mark_dirty :: "string \<Rightarrow> string \<Rightarrow> string \<Rightarrow> ndb \<Rightarrow> ndb" where
  "mark_dirty cluster node now db =
     (let mine = (\<lambda>m. pm_cluster m = cluster \<and> pm_node m = node) in
      if list_ex mine (nd_marks db)
      then db\<lparr>nd_marks := upd_where mine (\<lambda>m. m\<lparr>pm_revision := pm_revision m + 1, pm_updated := now\<rparr>) (nd_marks db)\<rparr>
      else db\<lparr>nd_marks := nd_marks db @ [\<lparr>pm_cluster = cluster, pm_node = node, pm_revision = 1, pm_projected = 0,
             pm_updated = now\<rparr>]\<rparr>)"

definition add_risk_audit :: "string \<Rightarrow> string \<Rightarrow> string \<Rightarrow> pv \<Rightarrow> string \<Rightarrow> string \<Rightarrow> ndb \<Rightarrow> ndb res" where
  "add_risk_audit fresh event_id kind json operator now db =
     (if list_ex (\<lambda>a. ra_id a = fresh) (nd_audits db) then Inl (DatabaseErr ''audit_id'')
      else Inr (db\<lparr>nd_audits := nd_audits db @ [\<lparr>ra_id = fresh, ra_event = event_id, ra_type = kind, ra_json = json,
             ra_operator = operator, ra_at = now\<rparr>]\<rparr>))"

subsection \<open>Times\<close>

text \<open>\<open>_parse\<close> of a text, which is never empty here, and the instant it denotes in microseconds.\<close>

definition risk_time :: "string \<Rightarrow> datetime res" where
  "risk_time s = bind_res (fromisoformat (replace_z s)) (\<lambda>t. Inr (if dt_offset t = None then t\<lparr>dt_offset := Some 0\<rparr> else t))"

definition instant :: "datetime \<Rightarrow> int" where
  "instant t = timestamp_us 0 t"

text \<open>\<open>_floor_window\<close>. The \<open>int\<close> of the timestamp truncates towards zero.\<close>

definition window_from :: "int \<Rightarrow> int \<Rightarrow> int \<Rightarrow> (string \<times> string) res" where
  "window_from start seconds off =
     bind_res (fromtimestamp start off) (\<lambda>s.
     bind_res (case fromtimestamp (start + seconds) off of Inl _ \<Rightarrow> Inl (CodedErr ''OverflowError'' []) | Inr e \<Rightarrow> Inr e) (\<lambda>e.
     Inr (isoformat s, isoformat e)))"

definition floor_window :: "datetime \<Rightarrow> int \<Rightarrow> (string \<times> string) res" where
  "floor_window t seconds =
     (if seconds = 0 then Inl (CodedErr ''ZeroDivisionError'' [])
      else window_from (float_trunc (instant t) (- 6) div seconds * seconds) seconds (the (dt_offset t)))"


subsection \<open>Identity of a contribution\<close>

definition cluster_name :: "(string \<times> pv) list \<Rightarrow> string" where
  "cluster_name source = py_str (py_or (dget source ''cluster'') (PStr ''default''))"

definition node_name :: "(string \<times> pv) list \<Rightarrow> string" where
  "node_name source = str_or (py_or (dget source ''node'') (py_or (dget source ''host'') (dget source ''hostname'')))"

definition string_of :: "pv \<Rightarrow> string res" where
  "string_of v = (case v of PStr s \<Rightarrow> Inr s | _ \<Rightarrow> Inl TypeErr)"

definition semantic_revision :: "(string \<times> pv) list \<Rightarrow> (string \<times> pv) list \<Rightarrow> pv" where
  "semantic_revision event source =
     py_or (dget source ''semantic_revision'') (py_or (dget event ''semantic_rule_version'') (PStr []))"

definition batch_of :: "(string \<times> pv) list \<Rightarrow> pv" where
  "batch_of source = py_or (dget source ''source_batch_id'') (py_or (dget source ''batch_id'') (PStr []))"

text \<open>\<open>_fingerprint\<close>.\<close>

definition event_fingerprint ::
  "(string \<Rightarrow> string) \<Rightarrow> (string \<times> pv) list \<Rightarrow> (string \<times> pv) list \<Rightarrow> string option \<Rightarrow> string res" where
  "event_fingerprint sha event source job =
     (let source_id = py_or (dget source ''raw_log_id'') (py_or (dget source ''template_instance_hash'')
            (py_or (dget source ''template_hash'') (PStr (sha (str_or (dget source ''message_core''))))));
          window = py_or (dget source ''window_start'') (py_or (dget source ''timestamp'') (PStr []));
          revision = semantic_revision event source
      in bind_res (risk_get event ''semantic_rule_id'') (\<lambda>rule.
         bind_res (risk_get event ''risk_type'') (\<lambda>kind.
         bind_res (string_of rule) (\<lambda>rule.
         bind_res (string_of kind) (\<lambda>kind.
         Inr (sha (join ''|'' [cluster_name source, node_name source, (case job of None \<Rightarrow> [] | Some j \<Rightarrow> j),
           py_str (batch_of source), py_str source_id, py_str window,
           (case revision of PList _ \<Rightarrow> canonical_json revision | PDict _ \<Rightarrow> canonical_json revision | _ \<Rightarrow> py_str revision),
           rule, kind])))))))"

text \<open>\<open>_dedup_key\<close>. The semantic fields may override the first three keys of the context.\<close>

definition dedup_part :: "(string \<times> pv) list \<Rightarrow> pv \<Rightarrow> string res" where
  "dedup_part context field =
     (case field of PStr k \<Rightarrow> Inr (str_or (dget context k)) | PList _ \<Rightarrow> Inl TypeErr | PDict _ \<Rightarrow> Inl TypeErr | _ \<Rightarrow> Inr [])"

definition semantic_fields :: "(string \<times> pv) list \<Rightarrow> (string \<times> pv) list res" where
  "semantic_fields event =
     (case dget event ''semantic_fields'' of PDict d \<Rightarrow> Inr d | v \<Rightarrow> if truthy v then Inl TypeErr else Inr [])"

definition dedup_key :: "(string \<Rightarrow> string) \<Rightarrow> (string \<times> pv) list \<Rightarrow> (string \<times> pv) list \<Rightarrow> string res" where
  "dedup_key sha event source =
     bind_res (semantic_fields event) (\<lambda>extra.
     bind_res (risk_get event ''risk_type'') (\<lambda>kind.
     let node = py_or (dget source ''node'') (py_or (dget source ''host'') (py_or (dget source ''hostname'') (PStr ''unknown'')));
         context = foldl (\<lambda>d (k, v). dset d k v) [(''cluster'', PStr (cluster_name source)), (''node_id'', PStr (py_str node)),
           (''risk_type'', kind)] extra
     in bind_res (risk_get event ''dedup'') (\<lambda>dedup.
        bind_res (case dedup of PDict d \<Rightarrow> Inr d | _ \<Rightarrow> Inl TypeErr) (\<lambda>dedup.
        bind_res (risk_get dedup ''key_fields'') (\<lambda>keys.
        bind_res (case keys of PList ks \<Rightarrow> Inr ks | PStr s \<Rightarrow> Inr (map PStr (code_points s)) | PDict d \<Rightarrow> Inr (map (PStr o fst) d)
            | _ \<Rightarrow> Inl TypeErr) (\<lambda>keys.
        bind_res (map_res (dedup_part context) keys) (\<lambda>parts. Inr (sha (join ''|'' parts)))))))))"

text \<open>The identity of the physical item a contribution is about, when its source names one.\<close>

definition source_item :: "(string \<times> pv) list \<Rightarrow> pv" where
  "source_item source =
     py_or (dget source ''source_item_id'') (py_or (dget source ''raw_log_id'') (dget source ''template_instance_hash''))"

definition physical_identity :: "(string \<Rightarrow> string) \<Rightarrow> pv \<Rightarrow> pv \<Rightarrow> pv \<Rightarrow> pv \<Rightarrow> string" where
  "physical_identity sha namespace batch window item = sha (canonical_json (PList [namespace, batch, window, item]))"

definition revision_fingerprint :: "(string \<Rightarrow> string) \<Rightarrow> string \<Rightarrow> string \<Rightarrow> string" where
  "revision_fingerprint sha physical revision = sha (canonical_json (PList [PStr physical, PStr revision]))"


subsection \<open>\<open>_refresh_event_contributions\<close>\<close>

definition contribution_rank :: "pv \<Rightarrow> nat" where
  "contribution_rank v =
     (if v = PStr ''low'' then 1 else if v = PStr ''medium'' then 2 else if v = PStr ''high'' then 3
      else if v = PStr ''critical'' then 4 else 0)"

text \<open>\<open>max(values, key=...)\<close> keeps the first of the largest, \<open>min\<close> and \<open>max\<close> of texts compare their bytes.\<close>

fun first_max :: "('a \<Rightarrow> 'a \<Rightarrow> bool) \<Rightarrow> 'a \<Rightarrow> 'a list \<Rightarrow> 'a" where
  "first_max lt x [] = x"
| "first_max lt x (y # ys) = first_max lt (if lt x y then y else x) ys"

definition best_of :: "('a \<Rightarrow> 'a \<Rightarrow> bool) \<Rightarrow> 'a list \<Rightarrow> 'a" where
  "best_of lt xs = first_max lt (hd xs) (tl xs)"

definition event_rows :: "string \<Rightarrow> ndb \<Rightarrow> ingestion list" where
  "event_rows k db = filter (\<lambda>i. ig_event i = k \<and> ig_current i) (nd_ingestions db)"

definition sorted_texts :: "string list \<Rightarrow> string list" where
  "sorted_texts xs = sort (remdups xs)"

definition unhashable :: "pv \<Rightarrow> bool" where
  "unhashable v = (case v of PList _ \<Rightarrow> True | PDict _ \<Rightarrow> True | _ \<Rightarrow> False)"

definition refresh_event :: "string \<Rightarrow> ndb \<Rightarrow> ndb res" where
  "refresh_event k db =
     (let rows = event_rows k db; count = sum_list (map ig_count rows);
          values = concat (map (\<lambda>r. case ig_contribution r of None \<Rightarrow> [] | Some c \<Rightarrow> [c]) rows) in
      if rows = [] then Inr (update_event k (\<lambda>e. e\<lparr>ne_current := Some 0, ne_superseded := True\<rparr>) db)
      else
        let db1 = update_event k (\<lambda>e. e\<lparr>ne_count := count, ne_current := Some count, ne_superseded := False\<rparr>) db in
        if length values \<noteq> length rows then Inr db1
        else if list_ex (unhashable o ct_severity) values then Inl TypeErr
        else
          bind_res (map_res (py_float o ct_score) values) (\<lambda>scores.
          bind_res (map_res (py_float o ct_confidence) values) (\<lambda>confidences.
          bind_res (text_column (best_of (\<lambda>a b. contribution_rank a < contribution_rank b) (map ct_severity values))) (\<lambda>severity.
          if best_of fl_lt scores = FNaN \<or> best_of fl_lt confidences = FNaN then Inl (DatabaseErr ''NOT NULL'')
          else Inr (update_event k (\<lambda>e. e\<lparr>
              ne_first := best_of (\<lambda>a b. b < a) (map ct_time values), ne_last := best_of (<) (map ct_time values),
              ne_severity := severity, ne_score := best_of fl_lt scores, ne_confidence := best_of fl_lt confidences,
              ne_refs := sorted_texts (concat (map ct_refs values))\<rparr>) db1)))))"

subsection \<open>\<open>ingest\<close>\<close>

record risk_env =
  rk_sha :: "string \<Rightarrow> string"
  rk_now :: string                   \<comment> \<open>the clock of the service\<close>
  rk_wall :: int                     \<comment> \<open>\<open>datetime.now\<close>, in microseconds\<close>
  rk_event :: string                 \<comment> \<open>fresh identifiers\<close>
  rk_audit :: string
  rk_replaced :: string

record risk_fact =
  rf_cluster :: string
  rf_node :: string
  rf_count :: int
  rf_batch :: pv
  rf_time :: datetime
  rf_start :: string
  rf_end :: string
  rf_fingerprint :: string
  rf_physical :: "string option"
  rf_revision :: string
  rf_dedup :: string
  rf_refs :: "string list"

text \<open>What \<open>ingest\<close> reads off its arguments before it opens a transaction.\<close>

definition risk_fact_of ::
  "(string \<Rightarrow> string) \<Rightarrow> (string \<times> pv) list \<Rightarrow> (string \<times> pv) list \<Rightarrow> string option \<Rightarrow> int \<Rightarrow> risk_fact res" where
  "risk_fact_of sha event source job count =
     (let node = node_name source; batch = batch_of source; item = source_item source; namespace = dget source ''source_namespace'';
          time = py_or (dget source ''timestamp'') (py_or (dget source ''window_start'') (dget source ''first_seen''));
          revision = canonical_json (semantic_revision event source) in
      if event = [] \<or> dget event ''risk_type'' = PStr ''unknown.unclassified'' then Inl bad_request
      else if node = [] then Inl bad_request
      else if count \<le> 0 then Inl bad_request
      else if \<not> truthy time then Inl bad_request
      else
        bind_res (case risk_time (py_str time) of Inl _ \<Rightarrow> Inl bad_request | Inr t \<Rightarrow> Inr t) (\<lambda>t.
        bind_res (dict_of (py_or (dget event ''dedup'') (PDict []))) (\<lambda>dedup.
        bind_res (py_int (py_or (dget dedup ''window_seconds'') (PInt 300))) (\<lambda>seconds.
        bind_res (floor_window t seconds) (\<lambda>(start, stop).
        bind_res (event_fingerprint sha event source job) (\<lambda>plain.
        let physical = (if truthy namespace \<and> truthy batch \<and> item \<noteq> PNone
              then Some (physical_identity sha namespace batch (py_or (dget source ''window_start'') (PStr start)) item) else None)
        in bind_res (dedup_key sha event source) (\<lambda>key.
           Inr \<lparr>rf_cluster = cluster_name source, rf_node = node, rf_count = count, rf_batch = batch, rf_time = t, rf_start = start,
                rf_end = stop,
                rf_fingerprint = (case physical of None \<Rightarrow> plain | Some p \<Rightarrow> revision_fingerprint sha p revision),
                rf_physical = physical, rf_revision = revision, rf_dedup = key,
                rf_refs = sorted_texts (map py_str (filter truthy [dget source ''raw_log_id'', dget source ''template_hash'']))\<rparr>)))))))"

text \<open>The current contribution of the same physical item, retired when the caller has named its revision.\<close>

definition retire_previous :: "risk_fact \<Rightarrow> (string \<times> pv) list \<Rightarrow> ndb \<Rightarrow> (ndb \<times> ingestion option) res" where
  "retire_previous f source db =
     (case find (\<lambda>i. rf_physical f \<noteq> None \<and> ig_physical i = rf_physical f \<and> ig_current i) (nd_ingestions db) of
        None \<Rightarrow> Inr (db, None)
      | Some p \<Rightarrow>
          let expected = dget source ''expected_current_revision'' in
          if expected = PNone \<or> canonical_json expected \<noteq> ig_revision p
          then Inl (node_risk_error ''node_risk_revision_conflict'')
          else Inr (db\<lparr>nd_ingestions := upd_where (\<lambda>i. ig_fingerprint i = ig_fingerprint p \<and> ig_current i)
                 (\<lambda>i. i\<lparr>ig_current := False\<rparr>) (nd_ingestions db)\<rparr>, Some p))"

text \<open>The row of the event: merged into that of its key and window, or new.\<close>

definition reopens :: "int \<Rightarrow> node_event \<Rightarrow> datetime \<Rightarrow> bool res" where
  "reopens wall e t =
     (if ne_status e = NRecovered
      then (case ne_recovered e of None \<Rightarrow> Inr (wall < instant t) | Some r \<Rightarrow> bind_res (risk_time r) (\<lambda>r. Inr (instant r < instant t)))
      else Inr False)"

definition merged :: "risk_env \<Rightarrow> risk_fact \<Rightarrow> string option \<Rightarrow> bool \<Rightarrow> datetime \<Rightarrow> datetime \<Rightarrow> node_event \<Rightarrow> node_event" where
  "merged env f job again early late e =
     e\<lparr>ne_count := ne_count e + rf_count f,
       ne_first := isoformat (if instant (rf_time f) < instant early then rf_time f else early),
       ne_last := isoformat (if instant late < instant (rf_time f) then rf_time f else late),
       ne_refs := sorted_texts (ne_refs e @ rf_refs f),
       ne_status := (if again then NActive else ne_status e), ne_recovered := (if again then None else ne_recovered e),
       ne_updated := rk_now env, ne_job := (case ne_job e of None \<Rightarrow> job | Some j \<Rightarrow> Some j)\<rparr>"

definition merge_event :: "risk_env \<Rightarrow> risk_fact \<Rightarrow> string option \<Rightarrow> node_event \<Rightarrow> ndb \<Rightarrow> ndb res" where
  "merge_event env f job e db =
     bind_res (reopens (rk_wall env) e (rf_time f)) (\<lambda>again.
     bind_res (risk_time (ne_first e)) (\<lambda>early.
     bind_res (risk_time (ne_last e)) (\<lambda>late.
     let db1 = update_event (ne_id e) (merged env f job again early late) db
     in if again then add_risk_audit (rk_audit env) (ne_id e) ''reopened'' (PDict [(''source_batch_id'', rf_batch f)])
              ''system-ingest'' (rk_now env) db1
        else Inr db1)))"

definition new_event ::
  "risk_env \<Rightarrow> risk_fact \<Rightarrow> (string \<times> pv) list \<Rightarrow> string option \<Rightarrow> string option \<Rightarrow> ndb \<Rightarrow> ndb res" where
  "new_event env f event job trace db =
     bind_res (risk_get event ''domain'') (\<lambda>domain. bind_res (risk_get event ''category'') (\<lambda>category.
     bind_res (risk_get event ''risk_type'') (\<lambda>kind. bind_res (risk_get event ''severity'') (\<lambda>severity.
     bind_res (bind_res (risk_get event ''base_score'') real_column) (\<lambda>score.
     bind_res (bind_res (risk_get event ''confidence'') real_column) (\<lambda>confidence.
     bind_res (risk_get event ''semantic_rule_id'') (\<lambda>rule.
     bind_res (bind_res (risk_get event ''semantic_rule_version'') py_int) (\<lambda>version.
     bind_res (map_res text_column [domain, category, kind, severity, rule]) (\<lambda>cols.
     bind_res (text_option (dget event ''risk_subtype'')) (\<lambda>subtype.
     if find_event (rk_event env) db \<noteq> None then Inl (DatabaseErr ''event_id'')
     else Inr (db\<lparr>nd_events := nd_events db @ [\<lparr>ne_id = rk_event env, ne_cluster = rf_cluster f, ne_node = rf_node f,
        ne_domain = cols ! 0, ne_category = cols ! 1, ne_type = cols ! 2, ne_subtype = subtype, ne_severity = cols ! 3,
        ne_score = score, ne_confidence = confidence, ne_rule = cols ! 4, ne_rule_version = version, ne_dedup = rf_dedup f,
        ne_count = rf_count f, ne_first = isoformat (rf_time f), ne_last = isoformat (rf_time f), ne_start = rf_start f,
        ne_end = rf_end f, ne_status = NActive, ne_recovered = None, ne_ack_at = None, ne_ack_by = None,
        ne_fields = py_or (dget event ''semantic_fields'') (PDict []), ne_refs = rf_refs f, ne_job = job, ne_trace = trace,
        ne_created = rk_now env, ne_updated = rk_now env, ne_superseded = False, ne_current = None\<rparr>]\<rparr>)))))))))))"

text \<open>The new contribution, which refers to the event.\<close>

definition add_ingestion :: "risk_env \<Rightarrow> risk_fact \<Rightarrow> (string \<times> pv) list \<Rightarrow> string option \<Rightarrow> string \<Rightarrow> ndb \<Rightarrow> ndb res" where
  "add_ingestion env f event job k db =
     bind_res (risk_get event ''severity'') (\<lambda>severity.
     bind_res (risk_get event ''base_score'') (\<lambda>score.
     bind_res (risk_get event ''confidence'') (\<lambda>confidence.
     Inr (db\<lparr>nd_ingestions := nd_ingestions db @ [\<lparr>ig_fingerprint = rf_fingerprint f, ig_event = k, ig_job = job,
        ig_count = rf_count f, ig_at = rk_now env, ig_physical = rf_physical f, ig_revision = rf_revision f, ig_current = True,
        ig_contribution = Some \<lparr>ct_time = isoformat (rf_time f), ct_severity = severity, ct_score = score,
          ct_confidence = confidence, ct_refs = rf_refs f\<rparr>\<rparr>]\<rparr>))))"


text \<open>The event row that a fact belongs to, and the transaction of \<open>ingest\<close>; the flag says whether it is a replay.\<close>

definition event_for :: "risk_fact \<Rightarrow> ndb \<Rightarrow> node_event option" where
  "event_for f db = find (\<lambda>e. ne_dedup e = rf_dedup f \<and> ne_start e = rf_start f) (nd_events db)"

definition settle_counts :: "risk_env \<Rightarrow> risk_fact \<Rightarrow> string \<Rightarrow> bool \<Rightarrow> ingestion option \<Rightarrow> ndb \<Rightarrow> ndb res" where
  "settle_counts env f k revived previous db =
     bind_res (if previous \<noteq> None \<or> revived then refresh_event k db
               else Inr (update_event k (\<lambda>e. e\<lparr>ne_current := Some (ne_count e)\<rparr>) db)) (\<lambda>db1.
     case previous of
       None \<Rightarrow> Inr db1
     | Some p \<Rightarrow>
         bind_res (refresh_event (ig_event p) db1) (\<lambda>db2.
         case find_event (ig_event p) db2 of
           None \<Rightarrow> Inl TypeErr
         | Some e \<Rightarrow>
             add_risk_audit (rk_replaced env) k ''revision_replaced''
               (PDict [(''physical_key'', (case rf_physical f of None \<Rightarrow> PNone | Some x \<Rightarrow> PStr x)),
                  (''previous_revision'', PStr (ig_revision p)), (''revision'', PStr (rf_revision f))])
               ''system-ingest'' (rk_now env) (mark_dirty (ne_cluster e) (ne_node e) (rk_now env) db2)))"

definition event_row ::
  "risk_env \<Rightarrow> risk_fact \<Rightarrow> (string \<times> pv) list \<Rightarrow> string option \<Rightarrow> string option \<Rightarrow> ndb \<Rightarrow> (ndb \<times> string) res" where
  "event_row env f event job trace db =
     (case event_for f db of
        Some e \<Rightarrow> bind_res (merge_event env f job e db) (\<lambda>db'. Inr (db', ne_id e))
      | None \<Rightarrow> bind_res (new_event env f event job trace db) (\<lambda>db'. Inr (db', rk_event env)))"

definition ingest_new ::
  "risk_env \<Rightarrow> risk_fact \<Rightarrow> (string \<times> pv) list \<Rightarrow> (string \<times> pv) list \<Rightarrow> string option \<Rightarrow> string option \<Rightarrow> ndb
     \<Rightarrow> (ndb \<times> string) res" where
  "ingest_new env f event source job trace db =
     bind_res (retire_previous f source db) (\<lambda>(db1, previous).
     let revived = (case event_for f db1 of None \<Rightarrow> False | Some e \<Rightarrow> ne_superseded e) in
     bind_res (event_row env f event job trace db1) (\<lambda>(db2, k).
     bind_res (add_ingestion env f event job k db2) (\<lambda>db3.
     bind_res (settle_counts env f k revived previous db3) (\<lambda>db4.
     Inr (mark_dirty (rf_cluster f) (rf_node f) (rk_now env) db4, k)))))"

definition ingest ::
  "risk_env \<Rightarrow> (string \<times> pv) list \<Rightarrow> (string \<times> pv) list \<Rightarrow> string option \<Rightarrow> string option \<Rightarrow> int \<Rightarrow> ndb
     \<Rightarrow> (ndb \<times> (node_event \<times> event_status option) \<times> bool) res" where
  "ingest env event source job trace count db =
     bind_res (risk_fact_of (rk_sha env) event source job count) (\<lambda>f.
     case find (\<lambda>i. ig_fingerprint i = rf_fingerprint f) (nd_ingestions db) of
       Some i \<Rightarrow> bind_res (view_event (ig_event i) db) (\<lambda>v. Inr (db, v, True))
     | None \<Rightarrow>
         bind_res (ingest_new env f event source job trace db) (\<lambda>(db', k).
         bind_res (view_event k db') (\<lambda>v. Inr (db', v, False))))"

subsection \<open>Operations on events\<close>

text \<open>\<open>_transition_event\<close>, before it recalculates the score.\<close>

definition transition_event ::
  "string \<Rightarrow> string \<Rightarrow> string \<Rightarrow> event_status \<Rightarrow> string \<Rightarrow> string \<Rightarrow> string option \<Rightarrow> ndb \<Rightarrow> ndb res" where
  "transition_event now fresh k status operator reason expected db =
     (if py_strip operator = [] \<or> py_strip reason = [] then Inl bad_request else
      case find_event k db of
        None \<Rightarrow> Inl (node_risk_error ''node_risk_event_not_found'')
      | Some e \<Rightarrow>
          if expected \<noteq> None \<and> expected \<noteq> Some (ne_updated e) then Inl (node_risk_error ''node_risk_version_conflict'')
          else if ne_status e = status then Inr db
          else if ne_status e = NRecovered then Inl (node_risk_error ''node_risk_state_conflict'')
          else
            let db1 = update_event k (\<lambda>e. if status = NRecovered
                  then e\<lparr>ne_status := NRecovered, ne_recovered := Some now, ne_updated := now\<rparr>
                  else e\<lparr>ne_status := NAcknowledged, ne_ack_at := Some now, ne_ack_by := Some operator, ne_updated := now\<rparr>) db
            in bind_res (add_risk_audit fresh k (if status = NRecovered then ''recovered'' else ''acknowledged'')
                 (PDict [(''reason'', PStr reason)]) operator now db1) (\<lambda>db2.
               Inr (mark_dirty (ne_cluster e) (ne_node e) now db2)))"

definition acknowledge_event :: "string \<Rightarrow> string \<Rightarrow> string \<Rightarrow> string \<Rightarrow> string \<Rightarrow> string option \<Rightarrow> ndb \<Rightarrow> ndb res" where
  "acknowledge_event now fresh k operator reason expected db = transition_event now fresh k NAcknowledged operator reason expected db"

definition recover_event :: "string \<Rightarrow> string \<Rightarrow> string \<Rightarrow> string \<Rightarrow> string \<Rightarrow> string option \<Rightarrow> ndb \<Rightarrow> ndb res" where
  "recover_event now fresh k operator reason expected db = transition_event now fresh k NRecovered operator reason expected db"

text \<open>
  \<open>recalculate\<close> reads the revision of the node, computes the score, and publishes it if the revision is still the same;
  a node without a mark is published unconditionally. \<open>refresh_dirty\<close> recalculates the nodes whose revision is ahead.
\<close>

definition node_revision :: "string \<Rightarrow> string \<Rightarrow> ndb \<Rightarrow> int option" where
  "node_revision cluster node db = map_option pm_revision (find (\<lambda>m. pm_cluster m = cluster \<and> pm_node m = node) (nd_marks db))"

definition publish_score :: "string \<Rightarrow> string \<Rightarrow> int option \<Rightarrow> ndb \<Rightarrow> ndb res" where
  "publish_score cluster node seen db =
     (case seen of
        None \<Rightarrow> Inr db
      | Some revision \<Rightarrow>
          let mine = (\<lambda>m. pm_cluster m = cluster \<and> pm_node m = node \<and> pm_revision m = revision) in
          if count_where mine (nd_marks db) \<noteq> 1 then Inl (node_risk_error ''node_risk_projection_conflict'')
          else Inr (db\<lparr>nd_marks := upd_where mine (\<lambda>m. m\<lparr>pm_projected := revision\<rparr>) (nd_marks db)\<rparr>))"

definition dirty_nodes :: "string option \<Rightarrow> string option \<Rightarrow> ndb \<Rightarrow> (string \<times> string) list" where
  "dirty_nodes cluster node db =
     map (\<lambda>m. (pm_cluster m, pm_node m)) (filter (\<lambda>m. pm_projected m < pm_revision m
       \<and> (cluster = None \<or> cluster = Some (pm_cluster m)) \<and> (node = None \<or> node = Some (pm_node m))) (nd_marks db))"

text \<open>\<open>_events\<close> of a node, latest first, and \<open>_statistics\<close> at an instant.\<close>

definition node_events :: "string \<Rightarrow> string \<Rightarrow> ndb \<Rightarrow> (node_event \<times> event_status option) list" where
  "node_events cluster node db =
     map event_view (rev (sort_key ne_last (rev (sort_key ne_id
       (filter (\<lambda>e. ne_cluster e = cluster \<and> ne_node e = node) (nd_events db))))))"

record node_statistics =
  ns_events_day :: nat
  ns_events_week :: nat
  ns_events_month :: nat
  ns_count_day :: int
  ns_count_week :: int
  ns_count_month :: int
  ns_types_week :: nat
  ns_active :: nat
  ns_recovered :: nat
  ns_severities :: "(string \<times> nat) list"
  ns_domains :: "(string \<times> nat) list"

definition counter :: "string list \<Rightarrow> (string \<times> nat) list" where
  "counter xs = map (\<lambda>x. (x, count_where ((=) x) xs)) (rev (remdups (rev xs)))"

definition event_statistics :: "(node_event \<times> event_status option) list \<Rightarrow> int \<Rightarrow> node_statistics res" where
  "event_statistics views now =
     (let live = filter (\<lambda>(_, st). st \<noteq> None) views in
      bind_res (map_res (\<lambda>(e, st). bind_res (risk_time (ne_last e)) (\<lambda>t. Inr (e, st, instant t))) live) (\<lambda>timed.
      let recent = (\<lambda>days. filter (\<lambda>(_, _, t). now - days * 86400000000 \<le> t) timed);
          occurrences = (\<lambda>xs. sum_list (map (ne_count o fst) xs))
      in Inr \<lparr>ns_events_day = length (recent 1), ns_events_week = length (recent 7), ns_events_month = length (recent 30),
           ns_count_day = occurrences (recent 1), ns_count_week = occurrences (recent 7), ns_count_month = occurrences (recent 30),
           ns_types_week = length (remdups (map (ne_type o fst) (recent 7))),
           ns_active = count_where (\<lambda>(_, st). st \<in> {Some NActive, Some NAcknowledged}) live,
           ns_recovered = count_where (\<lambda>(_, st, _). st = Some NRecovered) (recent 30),
           ns_severities = counter (map (ne_severity o fst) (recent 30)),
           ns_domains = counter (map (ne_domain o fst) (recent 30))\<rparr>))"

text \<open>
  \<open>committed_ingestion_count\<close>: how many occurrences of the windows of a batch are in the ledger, unless a window lacks
  the identity of its source.
\<close>

fun committed_ingestion_count ::
  "(string \<Rightarrow> string) \<Rightarrow> pv \<Rightarrow> (string \<times> pv) list list \<Rightarrow> ndb \<Rightarrow> int \<Rightarrow> int option res" where
  "committed_ingestion_count sha revision [] db acc = Inr (Some acc)"
| "committed_ingestion_count sha revision (w # ws) db acc =
     (let event = dget w ''risk_semantic''; namespace = dget w ''source_namespace''; batch = dget w ''source_batch_id'';
          item = source_item w; window = dget w ''window_start'' in
      if \<not> truthy event \<or> dget w ''entity_type'' \<noteq> PStr ''node'' then committed_ingestion_count sha revision ws db acc
      else if \<not> truthy namespace \<or> \<not> truthy batch \<or> item = PNone \<or> \<not> truthy window then Inr None
      else
        bind_res (if truthy (dget w ''semantic_revision'') then Inr (dget w ''semantic_revision'')
                  else if truthy (dget w ''semantic_dictionary_versions'') then Inr (dget w ''semantic_dictionary_versions'')
                  else if truthy revision then Inr revision
                  else bind_res (dict_of event) (\<lambda>e. Inr (py_or (dget e ''semantic_rule_version'') (PStr [])))) (\<lambda>rev.
        let fp = revision_fingerprint sha (physical_identity sha namespace batch window item) (canonical_json rev) in
        committed_ingestion_count sha revision ws db
          (acc + (case find (\<lambda>i. ig_fingerprint i = fp) (nd_ingestions db) of None \<Rightarrow> 0 | Some i \<Rightarrow> ig_count i))))"

end
