(* ===== verification/Replay.thy ===== *)
theory Replay
  imports Py_Prelude
begin

text \<open>
  The interface of an operation with an idempotency key, as the agent and workflow repositories offer it
  (\<open>create_run\<close>, \<open>transition\<close>, \<open>create_workflow\<close>, \<open>transition_run\<close>): a call records its key, no later
  step of the store forgets one, and a call whose key is recorded answers from the store and leaves it unchanged.
\<close>

locale replay_log =
  fixes seen :: "'k \<Rightarrow> 's \<Rightarrow> bool"
    and step :: "'s \<Rightarrow> 's \<Rightarrow> bool"
    and valid :: "'k \<Rightarrow> 'a \<Rightarrow> bool"
    and call :: "'k \<Rightarrow> 'a \<Rightarrow> 's \<Rightarrow> ('s \<times> 'r \<times> bool) res"
  assumes seen_step: "step s s' \<Longrightarrow> seen k s \<Longrightarrow> seen k s'"
    and call_seen: "call k a s = Inr (s', r, b) \<Longrightarrow> seen k s'"
    and call_replay: "seen k s \<Longrightarrow> valid k a \<Longrightarrow> \<exists>r. call k a s = Inr (s, r, True)"
begin

lemma seen_steps: "step\<^sup>*\<^sup>* s s' \<Longrightarrow> seen k s \<Longrightarrow> seen k s'"
  by (induction rule: rtranclp_induct) (auto intro: seen_step)

lemma call_once:
  assumes "call k a s = Inr (s1, r, b)" and "step\<^sup>*\<^sup>* s1 s2" and "valid k a'"
  shows "\<exists>r'. call k a' s2 = Inr (s2, r', True)"
  using assms call_seen call_replay seen_steps by metis

lemma call_twice_same:
  assumes "call k a s = Inr (s1, r, b)" and "step\<^sup>*\<^sup>* s1 s2" and "valid k a'"
  shows "call k a' s2 \<noteq> Inl e \<and> (call k a' s2 = Inr (s3, r', b') \<longrightarrow> s3 = s2 \<and> b')"
  using call_once [OF assms] by auto

end

end
