(* ===== verification/Node_Risk_Props.thy ===== *)
theory Node_Risk_Props
  imports Node_Risk Replay
begin

text \<open>
  The properties of the ledger of node risks: its counts are those of the current contributions, a contribution is counted
  once, a revision is replaced only by a caller who knows it, and a score is never published for a state it has not seen.
\<close>

subsection \<open>Balanced rows\<close>

definition balance :: "string \<Rightarrow> ndb \<Rightarrow> int" where
  "balance k db = sum_list (map ig_count (event_rows k db))"

text \<open>The values that a row must have when its contributions are \<open>rows\<close>.\<close>

definition tallies :: "ingestion list \<Rightarrow> node_event \<Rightarrow> bool" where
  "tallies rows e =
     (ne_current e = Some (sum_list (map ig_count rows)) \<and> (ne_superseded e \<longleftrightarrow> rows = [])
      \<and> (rows \<noteq> [] \<longrightarrow> ne_count e = sum_list (map ig_count rows)))"

definition balanced_except :: "string set \<Rightarrow> ndb \<Rightarrow> bool" where
  "balanced_except X db = (\<forall>e \<in> set (nd_events db). ne_id e \<notin> X \<longrightarrow> tallies (event_rows (ne_id e) db) e)"

definition rows_linked :: "ndb \<Rightarrow> bool" where
  "rows_linked db =
     (distinct (map ne_id (nd_events db)) \<and> distinct (map ig_fingerprint (nd_ingestions db))
      \<and> (\<forall>i \<in> set (nd_ingestions db). 0 < ig_count i \<and> ig_event i \<in> ne_id ` set (nd_events db))
      \<and> distinct (map ig_physical (filter (\<lambda>i. ig_current i \<and> ig_physical i \<noteq> None) (nd_ingestions db))))"

definition marks_ok :: "ndb \<Rightarrow> bool" where
  "marks_ok db =
     (distinct (map (\<lambda>m. (pm_cluster m, pm_node m)) (nd_marks db)) \<and> (\<forall>m \<in> set (nd_marks db). pm_projected m \<le> pm_revision m))"

definition ledger_ok :: "ndb \<Rightarrow> bool" where
  "ledger_ok db = (rows_linked db \<and> balanced_except {} db \<and> marks_ok db)"

text \<open>The tables that the balance depends on.\<close>

definition same_ledger :: "ndb \<Rightarrow> ndb \<Rightarrow> bool" where
  "same_ledger db db' = (nd_events db' = nd_events db \<and> nd_ingestions db' = nd_ingestions db)"

lemma same_ledger_keeps:
  "same_ledger db db' \<Longrightarrow> rows_linked db' = rows_linked db" "same_ledger db db' \<Longrightarrow> balanced_except X db' = balanced_except X db"
  "same_ledger db db' \<Longrightarrow> find_event k db' = find_event k db"
  by (simp_all add: same_ledger_def rows_linked_def balanced_except_def event_rows_def find_event_def)

lemma mark_dirty_same: "same_ledger db (mark_dirty c n now db)"
  by (simp add: same_ledger_def mark_dirty_def Let_def)

lemma mark_dirty_ok:
  assumes "marks_ok db"
  shows "marks_ok (mark_dirty c n now db)"
proof (cases "list_ex (\<lambda>m. pm_cluster m = c \<and> pm_node m = n) (nd_marks db)")
  case True
  have "map (\<lambda>m. (pm_cluster m, pm_node m)) (nd_marks (mark_dirty c n now db)) = map (\<lambda>m. (pm_cluster m, pm_node m)) (nd_marks db)"
    using True by (simp add: mark_dirty_def upd_where_map)
  moreover have "\<forall>m \<in> set (nd_marks (mark_dirty c n now db)). pm_projected m \<le> pm_revision m"
    using True assms by (auto simp: mark_dirty_def set_upd_where marks_ok_def)
  ultimately show ?thesis using assms by (simp add: marks_ok_def)
next
  case False
  with assms show ?thesis by (auto simp: mark_dirty_def Let_def marks_ok_def list_ex_iff)
qed

lemma audit_same: "add_risk_audit fresh k kind json op now db = Inr db' \<Longrightarrow> same_ledger db db' \<and> nd_marks db' = nd_marks db"
  by (auto simp: add_risk_audit_def same_ledger_def split: if_splits)

text \<open>An update of the row \<open>k\<close> that keeps its name and balances it.\<close>

lemma update_rows: "event_rows j (update_event k f db) = event_rows j db"
  by (simp add: event_rows_def update_event_def)

lemma update_names:
  fixes f :: "node_event \<Rightarrow> node_event"
  assumes "\<And>e. ne_id (f e) = ne_id e"
  shows "map ne_id (nd_events (update_event k f db)) = map ne_id (nd_events db)"
    "ne_id ` set (nd_events (update_event k f db)) = ne_id ` set (nd_events db)"
proof -
  show names: "map ne_id (nd_events (update_event k f db)) = map ne_id (nd_events db)"
    using assms by (simp add: update_event_def upd_where_map)
  show "ne_id ` set (nd_events (update_event k f db)) = ne_id ` set (nd_events db)"
    using arg_cong [OF names, of set] by simp
qed

lemma update_linked: "rows_linked db \<Longrightarrow> (\<And>e :: node_event. ne_id (f e) = ne_id e) \<Longrightarrow> rows_linked (update_event k f db)"
  using update_names [of f k db] by (simp add: rows_linked_def) (simp add: update_event_def)

lemma update_balanced:
  assumes "balanced_except X db" and "\<And>e :: node_event. ne_id (f e) = ne_id e"
    and "\<And>e. e \<in> set (nd_events db) \<Longrightarrow> ne_id e = k \<Longrightarrow> tallies (event_rows k db) (f e)"
  shows "balanced_except (X - {k}) (update_event k f db)"
  using assms unfolding balanced_except_def update_rows
  by (auto simp: update_event_def set_upd_where)

lemma refresh_shape:
  assumes "refresh_event k db = Inr db'"
  shows "\<exists>f. db' = update_event k f db \<and> (\<forall>e. ne_id (f e) = ne_id e \<and> tallies (event_rows k db) (f e))"
proof -
  have comp: "update_event k g (update_event k f db) = update_event k (g \<circ> f) db" if "\<And>e. ne_id (f e) = ne_id e" for f g :: "node_event \<Rightarrow> node_event"
    using that by (auto simp: update_event_def upd_where_def)
  show ?thesis
  proof (cases "event_rows k db = []")
    case True
    with assms show ?thesis
      by (intro exI [of _ "\<lambda>e. e\<lparr>ne_current := Some 0, ne_superseded := True\<rparr>"]) (simp add: refresh_event_def tallies_def)
  next
    case False
    define f :: "node_event \<Rightarrow> node_event" where "f = (\<lambda>e. e\<lparr>ne_count := balance k db, ne_current := Some (balance k db), ne_superseded := False\<rparr>)"
    from assms False consider "db' = update_event k f db"
      | a b c d x r where "db' = update_event k (\<lambda>e. e\<lparr>ne_first := a, ne_last := b, ne_severity := c, ne_score := d,
          ne_confidence := x, ne_refs := r\<rparr>) (update_event k f db)"
      by (auto simp: refresh_event_def Let_def bind_res_Inr_iff f_def balance_def split: if_splits)
    then show ?thesis
    proof cases
      case 1
      with False show ?thesis by (intro exI [of _ f]) (simp add: f_def tallies_def balance_def)
    next
      case 2
      have "ne_id (f e) = ne_id e" for e by (simp add: f_def)
      from 2 [unfolded comp [OF this]] show ?thesis
        by (intro exI conjI) (assumption, simp add: f_def tallies_def balance_def False)
    qed
  qed
qed

lemma refresh_balances:
  assumes "refresh_event k db = Inr db'" and "rows_linked db" and "balanced_except X db"
  shows "rows_linked db' \<and> balanced_except (X - {k}) db' \<and> nd_marks db' = nd_marks db \<and> nd_ingestions db' = nd_ingestions db
    \<and> ne_id ` set (nd_events db') = ne_id ` set (nd_events db)"
proof -
  from refresh_shape [OF assms(1)] obtain f where f: "db' = update_event k f db" "\<And>e. ne_id (f e) = ne_id e"
    "\<And>e. tallies (event_rows k db) (f e)" by blast
  have "ne_id ` set (nd_events db') = ne_id ` set (nd_events db)"
    unfolding f(1) by (rule update_names) (rule f(2))
  with update_linked [OF assms(2) f(2)] update_balanced [OF assms(3) f(2) f(3)] show ?thesis
    by (simp add: f(1)) (simp add: update_event_def)
qed


subsection \<open>The steps of \<open>ingest\<close>\<close>

text \<open>A fact is counted: what the first steps of \<open>ingest\<close> read off its arguments.\<close>

lemma fact_positive: "risk_fact_of sha event source job count = Inr f \<Longrightarrow> rf_count f = count \<and> 0 < count"
  by (auto simp: risk_fact_of_def Let_def bind_res_Inr_iff split: if_splits prod.splits)

definition current_physical :: "ndb \<Rightarrow> string option list" where
  "current_physical db = map ig_physical (filter (\<lambda>i. ig_current i \<and> ig_physical i \<noteq> None) (nd_ingestions db))"

lemma filter_upd_off:
  "(\<And>r. P r \<Longrightarrow> \<not> Q (f r)) \<Longrightarrow> filter Q (upd_where P f rows) = filter (\<lambda>r. Q r \<and> \<not> P r) rows"
  by (induction rows) (auto simp: upd_where_def)

lemma distinct_the_one: "distinct (map f xs) \<Longrightarrow> x \<in> set xs \<Longrightarrow> y \<in> set xs \<Longrightarrow> f x = f y \<Longrightarrow> x = y"
  by (auto simp: distinct_map dest: inj_onD)

text \<open>Retiring the contribution \<open>p\<close>.\<close>

definition retire :: "ingestion \<Rightarrow> ndb \<Rightarrow> ndb" where
  "retire p db = db\<lparr>nd_ingestions := upd_where (\<lambda>i. ig_fingerprint i = ig_fingerprint p \<and> ig_current i)
     (\<lambda>i. i\<lparr>ig_current := False\<rparr>) (nd_ingestions db)\<rparr>"

lemma retire_linked:
  assumes "rows_linked db" and "p \<in> set (nd_ingestions db)" and "ig_current p"
  shows "rows_linked (retire p db)" and "balanced_except {} db \<Longrightarrow> balanced_except {ig_event p} (retire p db)"
    and "ig_physical p \<noteq> None \<Longrightarrow> ig_physical p \<notin> set (current_physical (retire p db))"
    and "ig_fingerprint ` set (nd_ingestions (retire p db)) = ig_fingerprint ` set (nd_ingestions db)"
proof -
  let ?u = "\<lambda>i :: ingestion. ig_fingerprint i = ig_fingerprint p \<and> ig_current i"
  let ?off = "\<lambda>i :: ingestion. i\<lparr>ig_current := False\<rparr>"
  have names: "map ig_fingerprint (upd_where ?u ?off (nd_ingestions db)) = map ig_fingerprint (nd_ingestions db)"
    by (simp add: upd_where_map)
  have only: "?u i \<longleftrightarrow> i = p" if "i \<in> set (nd_ingestions db)" for i
    using that assms distinct_the_one [of ig_fingerprint "nd_ingestions db" i p] by (auto simp: rows_linked_def)
  have rest: "filter (\<lambda>i. (ig_current i \<and> ig_physical i \<noteq> None) \<and> \<not> ?u i) (nd_ingestions db)
    = filter (\<lambda>i. i \<noteq> p) (filter (\<lambda>i. ig_current i \<and> ig_physical i \<noteq> None) (nd_ingestions db))"
    using only by (auto simp: filter_filter intro: filter_cong)
  then have phys: "current_physical (retire p db)
      = map ig_physical (filter (\<lambda>i. i \<noteq> p) (filter (\<lambda>i. ig_current i \<and> ig_physical i \<noteq> None) (nd_ingestions db)))"
    unfolding current_physical_def retire_def by (simp add: filter_upd_off del: filter_filter)
  have d: "distinct (map ig_physical (filter (\<lambda>i. ig_current i \<and> ig_physical i \<noteq> None) (nd_ingestions db)))"
    using assms(1) by (simp add: rows_linked_def)
  then have "distinct (current_physical (retire p db))" unfolding phys by (rule distinct_map_filter)
  moreover have "ig_event i \<in> ne_id ` set (nd_events db) \<and> 0 < ig_count i" if "i \<in> set (upd_where ?u ?off (nd_ingestions db))" for i
    using that assms(1) by (auto simp: rows_linked_def set_upd_where)
  ultimately show "rows_linked (retire p db)"
    using assms(1) names by (simp add: rows_linked_def current_physical_def) (simp add: retire_def)
  have rows: "event_rows k (retire p db) = event_rows k db" if "k \<noteq> ig_event p" for k
  proof -
    have "event_rows k (retire p db) = filter (\<lambda>i. (ig_event i = k \<and> ig_current i) \<and> \<not> ?u i) (nd_ingestions db)"
      unfolding event_rows_def retire_def by (simp add: filter_upd_off)
    also have "\<dots> = event_rows k db"
      unfolding event_rows_def using only that by (auto intro: filter_cong)
    finally show ?thesis .
  qed
  then show "balanced_except {} db \<Longrightarrow> balanced_except {ig_event p} (retire p db)"
    unfolding balanced_except_def by (simp add: retire_def)
  show "ig_physical p \<noteq> None \<Longrightarrow> ig_physical p \<notin> set (current_physical (retire p db))"
    unfolding phys using distinct_the_one [OF d, of p] assms(2,3) by fastforce
  show "ig_fingerprint ` set (nd_ingestions (retire p db)) = ig_fingerprint ` set (nd_ingestions db)"
    using arg_cong [OF names, of set] by (simp add: retire_def)
qed

lemma retire_previous_cases:
  assumes "retire_previous f source db = Inr (db1, previous)"
  obtains "db1 = db" "previous = None" "rf_physical f = None \<or> rf_physical f \<notin> set (current_physical db)"
  | p where "db1 = retire p db" "previous = Some p" "p \<in> set (nd_ingestions db)" "ig_current p" "rf_physical f \<noteq> None"
    "ig_physical p = rf_physical f" "canonical_json (dget source ''expected_current_revision'') = ig_revision p"
proof (cases "find (\<lambda>i. rf_physical f \<noteq> None \<and> ig_physical i = rf_physical f \<and> ig_current i) (nd_ingestions db)")
  case None
  then have "rf_physical f = None \<or> rf_physical f \<notin> set (current_physical db)"
    unfolding find_None_iff_all current_physical_def set_map set_filter by auto
  with assms None that(1) show ?thesis unfolding retire_previous_def by simp
next
  case (Some p)
  from find_Some_in [OF Some] assms Some that(2) [of p] show ?thesis
    unfolding retire_previous_def retire_def Let_def by (simp split: if_splits)
qed


text \<open>The row of the event, before its contribution is added.\<close>

lemma merge_shape:
  assumes "merge_event env f job e db = Inr db'"
  shows "\<exists>g :: node_event \<Rightarrow> node_event. same_ledger (update_event (ne_id e) g db) db' \<and> nd_marks db' = nd_marks db
    \<and> (\<forall>x. ne_id (g x) = ne_id x \<and> ne_count (g x) = ne_count x + rf_count f \<and> ne_superseded (g x) = ne_superseded x)"
proof -
  from assms obtain again early late where m:
    "(if again then add_risk_audit (rk_audit env) (ne_id e) ''reopened'' (PDict [(''source_batch_id'', rf_batch f)])
        ''system-ingest'' (rk_now env) (update_event (ne_id e) (merged env f job again early late) db)
      else Inr (update_event (ne_id e) (merged env f job again early late) db)) = Inr db'"
    unfolding merge_event_def bind_res_Inr_iff Let_def by blast
  let ?u = "update_event (ne_id e) (merged env f job again early late) db"
  from m have "same_ledger ?u db' \<and> nd_marks db' = nd_marks ?u"
    by (cases again) (auto dest: audit_same simp: same_ledger_def)
  moreover have "nd_marks ?u = nd_marks db" by (simp add: update_event_def)
  ultimately show ?thesis
    by (intro exI [of _ "merged env f job again early late"]) (simp add: merged_def)
qed

lemma new_shape:
  assumes "new_event env f event job trace db = Inr db'"
  shows "\<exists>x. db' = db\<lparr>nd_events := nd_events db @ [x]\<rparr> \<and> ne_id x = rk_event env \<and> ne_count x = rf_count f \<and> \<not> ne_superseded x
    \<and> find_event (rk_event env) db = None"
  using assms unfolding new_event_def bind_res_Inr_iff by (auto split: if_splits)

lemma update_except: "balanced_except X db \<Longrightarrow> (\<And>e :: node_event. ne_id (f e) = ne_id e) \<Longrightarrow> balanced_except (insert k X) (update_event k f db)"
  unfolding balanced_except_def update_rows by (auto simp: update_event_def set_upd_where)

definition ready :: "string \<Rightarrow> int \<Rightarrow> bool \<Rightarrow> string set \<Rightarrow> ndb \<Rightarrow> bool" where
  "ready k c exact X db =
     (rows_linked db \<and> balanced_except (insert k X) db \<and> k \<in> ne_id ` set (nd_events db)
      \<and> (exact \<longrightarrow> (\<forall>e \<in> set (nd_events db). ne_id e = k \<longrightarrow> ne_count e = balance k db + c \<and> \<not> ne_superseded e)))"

lemma merge_ready:
  assumes "merge_event env f job e db = Inr db'" and "rows_linked db" and "balanced_except X db" and "e \<in> set (nd_events db)"
  shows "ready (ne_id e) (rf_count f) (X = {} \<and> \<not> ne_superseded e) X db' \<and> nd_marks db' = nd_marks db
    \<and> nd_ingestions db' = nd_ingestions db"
proof -
  from merge_shape [OF assms(1)] obtain g :: "node_event \<Rightarrow> node_event" where
    same: "same_ledger (update_event (ne_id e) g db) db'" and marks: "nd_marks db' = nd_marks db"
    and g: "\<And>x. ne_id (g x) = ne_id x" "\<And>x. ne_count (g x) = ne_count x + rf_count f" "\<And>x. ne_superseded (g x) = ne_superseded x"
    by blast
  let ?u = "update_event (ne_id e) g db"
  have "rows_linked ?u" using assms(2) g(1) by (rule update_linked)
  moreover have "balanced_except (insert (ne_id e) X) ?u" using assms(3) g(1) by (rule update_except)
  moreover have "ne_id e \<in> ne_id ` set (nd_events ?u)" using assms(4) update_names(2) [of g, OF g(1)] by simp
  moreover have "ne_count x = balance (ne_id e) ?u + rf_count f \<and> \<not> ne_superseded x"
    if "X = {}" "\<not> ne_superseded e" "x \<in> set (nd_events ?u)" "ne_id x = ne_id e" for x
  proof -
    from that(3,4) obtain y where y: "y \<in> set (nd_events db)" "ne_id y = ne_id e" "x = g y"
      using g(1) by (auto simp: update_event_def set_upd_where)
    with assms(2,4) have "y = e" by (auto simp: rows_linked_def dest: distinct_the_one)
    moreover from assms(3,4) that(1) have "tallies (event_rows (ne_id e) db) e" by (simp add: balanced_except_def)
    ultimately show ?thesis using that(2) y(3) by (simp add: g tallies_def balance_def update_rows)
  qed
  ultimately have "ready (ne_id e) (rf_count f) (X = {} \<and> \<not> ne_superseded e) X ?u" by (simp add: ready_def)
  moreover have "nd_ingestions ?u = nd_ingestions db" by (simp add: update_event_def)
  ultimately show ?thesis
    using same marks unfolding ready_def by (simp add: same_ledger_keeps [OF same] same_ledger_def balance_def event_rows_def)
qed

lemma new_ready:
  assumes "new_event env f event job trace db = Inr db'" and "rows_linked db" and "balanced_except X db" and "X \<subseteq> ne_id ` set (nd_events db)"
  shows "ready (rk_event env) (rf_count f) True X db' \<and> nd_marks db' = nd_marks db \<and> nd_ingestions db' = nd_ingestions db"
proof -
  from new_shape [OF assms(1)] obtain x where x: "db' = db\<lparr>nd_events := nd_events db @ [x]\<rparr>" "ne_id x = rk_event env"
    "ne_count x = rf_count f" "\<not> ne_superseded x" and none: "find_event (rk_event env) db = None"
    by blast
  from none have fresh: "rk_event env \<notin> ne_id ` set (nd_events db)"
    by (auto simp: find_event_def find_None_iff_all)
  have rows: "event_rows k db' = event_rows k db" for k by (simp add: event_rows_def x(1))
  have "event_rows (rk_event env) db = []"
    using assms(2) fresh by (force simp: event_rows_def rows_linked_def filter_empty_conv)
  then have "balance (rk_event env) db' = 0" by (simp add: balance_def rows)
  moreover have "rows_linked db'" using assms(2) fresh x(2) by (auto simp: rows_linked_def x(1))
  moreover have "balanced_except (insert (rk_event env) X) db'"
    using assms(3) x(2) unfolding balanced_except_def rows by (auto simp: x(1))
  ultimately show ?thesis
    using x fresh unfolding ready_def by (force simp: x(1))
qed


text \<open>The contribution is added, and the counts are settled.\<close>

lemma add_ready:
  assumes "add_ingestion env f event job k db = Inr db'" and "ready k (rf_count f) exact X db" and "0 < rf_count f"
    and "rf_fingerprint f \<notin> ig_fingerprint ` set (nd_ingestions db)" and "rf_physical f = None \<or> rf_physical f \<notin> set (current_physical db)"
  shows "ready k 0 exact X db' \<and> event_rows k db' \<noteq> [] \<and> nd_marks db' = nd_marks db"
proof -
  from assms(1) obtain i where i: "db' = db\<lparr>nd_ingestions := nd_ingestions db @ [i]\<rparr>" "ig_event i = k" "ig_current i"
    "ig_count i = rf_count f" "ig_fingerprint i = rf_fingerprint f" "ig_physical i = rf_physical f"
    by (auto simp: add_ingestion_def bind_res_Inr_iff)
  have rows: "event_rows j db' = event_rows j db @ (if j = k then [i] else [])" for j
    by (simp add: event_rows_def i)
  have bal: "balance k db' = balance k db + rf_count f" by (simp add: balance_def rows i(4))
  have "rows_linked db'"
    using assms(2-5) unfolding ready_def rows_linked_def by (auto simp: i current_physical_def)
  moreover have "balanced_except (insert k X) db'"
    using assms(2) unfolding ready_def balanced_except_def rows by (auto simp: i(1))
  ultimately show ?thesis using assms(2) unfolding ready_def bal by (simp add: rows) (simp add: i(1))
qed

lemma settle_keeps:
  assumes "settle_counts env f k revived previous db = Inr db'" and "ready k 0 (previous = None \<and> \<not> revived) X db"
    and "event_rows k db \<noteq> []" and "X \<subseteq> (case previous of None \<Rightarrow> {} | Some p \<Rightarrow> {ig_event p})" and "marks_ok db"
  shows "ledger_ok db'"
proof -
  from assms(1) obtain db1 where one: "(if previous \<noteq> None \<or> revived then refresh_event k db
      else Inr (update_event k (\<lambda>e. e\<lparr>ne_current := Some (ne_count e)\<rparr>) db)) = Inr db1"
    and two: "(case previous of None \<Rightarrow> Inr db1 | Some p \<Rightarrow> bind_res (refresh_event (ig_event p) db1) (\<lambda>db2.
         case find_event (ig_event p) db2 of None \<Rightarrow> Inl TypeErr
         | Some e \<Rightarrow> add_risk_audit (rk_replaced env) k ''revision_replaced''
               (PDict [(''physical_key'', (case rf_physical f of None \<Rightarrow> PNone | Some x \<Rightarrow> PStr x)),
                  (''previous_revision'', PStr (ig_revision p)), (''revision'', PStr (rf_revision f))])
               ''system-ingest'' (rk_now env) (mark_dirty (ne_cluster e) (ne_node e) (rk_now env) db2))) = Inr db'"
    unfolding settle_counts_def bind_res_Inr_iff by blast
  have rows_linked: "rows_linked db" and except: "balanced_except (insert k X) db" using assms(2) by (simp_all add: ready_def)
  have step: "rows_linked db1 \<and> balanced_except (X - {k}) db1 \<and> nd_marks db1 = nd_marks db"
  proof (cases "previous \<noteq> None \<or> revived")
    case True
    with one have "refresh_event k db = Inr db1" by simp
    from refresh_balances [OF this rows_linked except] show ?thesis by simp
  next
    case False
    let ?f = "\<lambda>e :: node_event. e\<lparr>ne_current := Some (ne_count e)\<rparr>"
    from False one have db1: "db1 = update_event k ?f db" by simp
    have "tallies (event_rows k db) (?f e)" if "e \<in> set (nd_events db)" "ne_id e = k" for e
      using that assms(2,3) False by (simp add: ready_def tallies_def balance_def)
    then have "balanced_except (insert k X - {k}) db1" unfolding db1 by (intro update_balanced [OF except]) simp_all
    moreover have "rows_linked db1" unfolding db1 by (rule update_linked [OF rows_linked]) simp
    ultimately show ?thesis by (simp add: db1) (simp add: update_event_def)
  qed
  show ?thesis
  proof (cases previous)
    case None
    with two step assms(4,5) show ?thesis by (simp add: ledger_ok_def marks_ok_def)
  next
    case (Some p)
    with two obtain db2 where r: "refresh_event (ig_event p) db1 = Inr db2"
      and "(case find_event (ig_event p) db2 of None \<Rightarrow> Inl TypeErr
         | Some e \<Rightarrow> add_risk_audit (rk_replaced env) k ''revision_replaced''
               (PDict [(''physical_key'', (case rf_physical f of None \<Rightarrow> PNone | Some x \<Rightarrow> PStr x)),
                  (''previous_revision'', PStr (ig_revision p)), (''revision'', PStr (rf_revision f))])
               ''system-ingest'' (rk_now env) (mark_dirty (ne_cluster e) (ne_node e) (rk_now env) db2)) = Inr db'"
      unfolding Some option.case bind_res_Inr_iff by blast
    then obtain e :: node_event and json where a: "add_risk_audit (rk_replaced env) k ''revision_replaced'' json ''system-ingest'' (rk_now env)
        (mark_dirty (ne_cluster e) (ne_node e) (rk_now env) db2) = Inr db'"
      by (cases "find_event (ig_event p) db2") auto
    from refresh_balances [OF r] step have two: "rows_linked db2" "balanced_except (X - {k} - {ig_event p}) db2" "nd_marks db2 = nd_marks db"
      by auto
    from assms(4) Some have "X - {k} - {ig_event p} = {}" by auto
    with two(2) have "balanced_except {} db2" by simp
    moreover from two(3) assms(5) have "marks_ok db2" by (simp add: marks_ok_def)
    moreover note audit_same [OF a] mark_dirty_same [of db2 "ne_cluster e" "ne_node e" "rk_now env"]
    ultimately show ?thesis
      using two(1) mark_dirty_ok [of db2] by (auto simp: ledger_ok_def same_ledger_keeps marks_ok_def)
  qed
qed

lemma ingest_new_keeps:
  assumes ok: "rows_linked db" "balanced_except {} db" "marks_ok db"
    and count: "0 < rf_count f" and new: "find (\<lambda>i. ig_fingerprint i = rf_fingerprint f) (nd_ingestions db) = None"
    and run: "ingest_new env f event source job trace db = Inr (db', k)"
  shows "ledger_ok db'"
proof -
  from run obtain db1 previous db2 db3 db4 where
    retire: "retire_previous f source db = Inr (db1, previous)"
    and row: "event_row env f event job trace db1 = Inr (db2, k)"
    and add: "add_ingestion env f event job k db2 = Inr db3"
    and settle: "settle_counts env f k (case event_for f db1 of None \<Rightarrow> False | Some e \<Rightarrow> ne_superseded e) previous db3 = Inr db4"
    and db': "db' = mark_dirty (rf_cluster f) (rf_node f) (rk_now env) db4"
    unfolding ingest_new_def bind_res_Inr_iff Let_def by (auto simp only: prod.case sum.inject prod.inject split_paired_Ex bind_res_Inr_iff)
  define X where "X = (case previous of None \<Rightarrow> {} | Some p \<Rightarrow> {ig_event p})"
  have one: "rows_linked db1" "balanced_except X db1" "nd_marks db1 = nd_marks db" "X \<subseteq> ne_id ` set (nd_events db1)"
    "rf_physical f = None \<or> rf_physical f \<notin> set (current_physical db1)"
    "ig_fingerprint ` set (nd_ingestions db1) = ig_fingerprint ` set (nd_ingestions db)"
  proof -
    have "rows_linked db1 \<and> balanced_except X db1 \<and> nd_marks db1 = nd_marks db \<and> X \<subseteq> ne_id ` set (nd_events db1)
      \<and> (rf_physical f = None \<or> rf_physical f \<notin> set (current_physical db1))
      \<and> ig_fingerprint ` set (nd_ingestions db1) = ig_fingerprint ` set (nd_ingestions db)"
      using retire
    proof (cases rule: retire_previous_cases)
      case 1
      with ok show ?thesis by (simp add: X_def)
    next
      case (2 p)
      from retire_linked [OF ok(1) 2(3,4)] ok 2 have "rows_linked db1" "balanced_except {ig_event p} db1"
        "rf_physical f \<notin> set (current_physical db1)" "ig_fingerprint ` set (nd_ingestions db1) = ig_fingerprint ` set (nd_ingestions db)"
        by simp_all
      moreover from ok(1) 2(3) have "ig_event p \<in> ne_id ` set (nd_events db)" by (simp add: rows_linked_def)
      ultimately show ?thesis by (simp add: X_def 2) (simp add: retire_def)
    qed
    then show "rows_linked db1" "balanced_except X db1" "nd_marks db1 = nd_marks db" "X \<subseteq> ne_id ` set (nd_events db1)"
      "rf_physical f = None \<or> rf_physical f \<notin> set (current_physical db1)"
      "ig_fingerprint ` set (nd_ingestions db1) = ig_fingerprint ` set (nd_ingestions db)" by simp_all
  qed
  define revived where "revived = (case event_for f db1 of None \<Rightarrow> False | Some e \<Rightarrow> ne_superseded e)"
  have "X = {} \<longleftrightarrow> previous = None" by (simp add: X_def split: option.split)
  have two: "ready k (rf_count f) (previous = None \<and> \<not> revived) X db2 \<and> nd_marks db2 = nd_marks db1 \<and> nd_ingestions db2 = nd_ingestions db1"
  proof (cases "event_for f db1")
    case None
    with row have n: "new_event env f event job trace db1 = Inr db2" and "k = rk_event env" by (auto simp: event_row_def bind_res_Inr_iff)
    with new_ready [OF n one(1,2,4)] show ?thesis by (auto simp: ready_def)
  next
    case (Some e)
    with row have m: "merge_event env f job e db1 = Inr db2" and "k = ne_id e" by (auto simp: event_row_def bind_res_Inr_iff)
    moreover have "e \<in> set (nd_events db1)" using Some by (auto simp: event_for_def dest: find_Some_in)
    ultimately show ?thesis
      using merge_ready [OF m one(1,2)] Some \<open>X = {} \<longleftrightarrow> previous = None\<close> by (simp add: revived_def)
  qed
  have "rf_fingerprint f \<notin> ig_fingerprint ` set (nd_ingestions db2)"
    using new two one(6) by (auto simp: find_None_iff_all)
  moreover have "rf_physical f = None \<or> rf_physical f \<notin> set (current_physical db2)"
    using one(5) two by (simp add: current_physical_def)
  ultimately have three: "ready k 0 (previous = None \<and> \<not> revived) X db3 \<and> event_rows k db3 \<noteq> [] \<and> nd_marks db3 = nd_marks db2"
    using two count by (intro add_ready [OF add]) simp_all
  have "marks_ok db3" using three two one(3) ok(3) by (simp add: marks_ok_def)
  with three have "ledger_ok db4"
    by (intro settle_keeps [OF settle [folded revived_def], where X = X]) (simp_all add: X_def)
  then show ?thesis
    by (simp add: db' ledger_ok_def same_ledger_keeps [OF mark_dirty_same] mark_dirty_ok)
qed


lemma ingest_keeps:
  assumes "ledger_ok db" and "ingest env event source job trace count db = Inr (db', v, b)"
  shows "ledger_ok db'"
proof -
  from assms(2) obtain f where f: "risk_fact_of (rk_sha env) event source job count = Inr f"
    and run: "(case find (\<lambda>i. ig_fingerprint i = rf_fingerprint f) (nd_ingestions db) of
       Some i \<Rightarrow> bind_res (view_event (ig_event i) db) (\<lambda>v. Inr (db, v, True))
     | None \<Rightarrow> bind_res (ingest_new env f event source job trace db) (\<lambda>(db', k).
         bind_res (view_event k db') (\<lambda>v. Inr (db', v, False)))) = Inr (db', v, b)"
    unfolding ingest_def bind_res_Inr_iff by blast
  show ?thesis
  proof (cases "find (\<lambda>i. ig_fingerprint i = rf_fingerprint f) (nd_ingestions db)")
    case None
    with run obtain k where "ingest_new env f event source job trace db = Inr (db', k)"
      by (auto simp: bind_res_Inr_iff)
    with None assms(1) fact_positive [OF f] show ?thesis
      by (intro ingest_new_keeps [of db f]) (simp_all add: ledger_ok_def)
  next
    case (Some i)
    with run assms(1) show ?thesis by (auto simp: bind_res_Inr_iff)
  qed
qed


subsection \<open>The other operations\<close>

text \<open>An update of a row that keeps what the balance looks at.\<close>

lemma update_neutral:
  assumes "ledger_ok db" and "\<And>e :: node_event. ne_id (f e) = ne_id e \<and> ne_count (f e) = ne_count e \<and> ne_current (f e) = ne_current e
    \<and> ne_superseded (f e) = ne_superseded e"
  shows "ledger_ok (update_event k f db)"
proof -
  have "tallies rows (f e) = tallies rows e" for rows e using assms(2) by (simp add: tallies_def)
  then have "balanced_except {} (update_event k f db)"
    using assms unfolding ledger_ok_def balanced_except_def update_rows by (auto simp: update_event_def set_upd_where)
  moreover have "marks_ok (update_event k f db)" using assms(1) by (simp add: ledger_ok_def marks_ok_def update_event_def)
  ultimately show ?thesis using assms by (simp add: ledger_ok_def update_linked)
qed

lemma same_ledger_ok: "ledger_ok db \<Longrightarrow> same_ledger db db' \<Longrightarrow> marks_ok db' \<Longrightarrow> ledger_ok db'"
  by (simp add: ledger_ok_def same_ledger_keeps)

lemma transition_shape:
  assumes "transition_event now fresh k status operator reason expected db = Inr db'"
  obtains "db' = db"
  | e db1 where "find_event k db = Some e" "same_ledger (update_event k (\<lambda>e. if status = NRecovered
      then e\<lparr>ne_status := NRecovered, ne_recovered := Some now, ne_updated := now\<rparr>
      else e\<lparr>ne_status := NAcknowledged, ne_ack_at := Some now, ne_ack_by := Some operator, ne_updated := now\<rparr>) db) db1"
    "nd_marks db1 = nd_marks db" "db' = mark_dirty (ne_cluster e) (ne_node e) now db1"
proof (cases "find_event k db")
  case (Some e)
  let ?u = "update_event k (\<lambda>e. if status = NRecovered
      then e\<lparr>ne_status := NRecovered, ne_recovered := Some now, ne_updated := now\<rparr>
      else e\<lparr>ne_status := NAcknowledged, ne_ack_at := Some now, ne_ack_by := Some operator, ne_updated := now\<rparr>) db"
  from assms Some consider "db' = db" | db1 json kind where "add_risk_audit fresh k kind json operator now ?u = Inr db1"
    "db' = mark_dirty (ne_cluster e) (ne_node e) now db1"
    unfolding transition_event_def Let_def by (auto simp: bind_res_Inr_iff split: if_split_asm)
  then show thesis
  proof cases
    case 2
    from audit_same [OF 2(1)] have "same_ledger ?u db1" "nd_marks db1 = nd_marks db" by (simp_all add: update_event_def)
    with Some 2(2) show thesis by (intro that(2))
  qed (rule that(1))
qed (use assms in \<open>simp add: transition_event_def split: if_splits\<close>)

lemma transition_keeps:
  assumes "ledger_ok db" and "transition_event now fresh k status operator reason expected db = Inr db'"
  shows "ledger_ok db'"
  using assms(2)
proof (cases rule: transition_shape)
  case (2 e db1)
  have "ledger_ok db1"
    by (rule same_ledger_ok [OF update_neutral [OF assms(1)] 2(2)]) (use assms(1) 2(3) in \<open>simp_all add: ledger_ok_def marks_ok_def\<close>)
  then show ?thesis unfolding 2(4) by (rule same_ledger_ok [OF _ mark_dirty_same]) (use \<open>ledger_ok db1\<close> in \<open>simp add: ledger_ok_def mark_dirty_ok\<close>)
qed (use assms(1) in simp)

lemma publish_keeps:
  assumes "ledger_ok db" and "publish_score c n seen db = Inr db'"
  shows "ledger_ok db'"
proof (cases seen)
  case (Some revision)
  let ?mine = "\<lambda>m. pm_cluster m = c \<and> pm_node m = n \<and> pm_revision m = revision"
  from assms(2) Some have db': "db' = db\<lparr>nd_marks := upd_where ?mine (\<lambda>m. m\<lparr>pm_projected := revision\<rparr>) (nd_marks db)\<rparr>"
    by (auto simp: publish_score_def Let_def split: if_splits)
  have "map (\<lambda>m. (pm_cluster m, pm_node m)) (nd_marks db') = map (\<lambda>m. (pm_cluster m, pm_node m)) (nd_marks db)"
    by (simp add: db' upd_where_map)
  then have "marks_ok db'" using assms(1) by (auto simp: ledger_ok_def marks_ok_def db' set_upd_where)
  moreover have "same_ledger db db'" by (simp add: db' same_ledger_def)
  ultimately show ?thesis using assms(1) by (blast intro: same_ledger_ok)
qed (use assms in \<open>simp add: publish_score_def\<close>)

subsection \<open>Ledgers that operations reach\<close>

definition empty_ledger :: ndb where
  "empty_ledger = \<lparr>nd_events = [], nd_ingestions = [], nd_marks = [], nd_audits = []\<rparr>"

inductive ledger_step :: "(string \<Rightarrow> string) \<Rightarrow> ndb \<Rightarrow> ndb \<Rightarrow> bool" for sha where
  ingested: "ingest env event source job trace count db = Inr (db', v, b) \<Longrightarrow> rk_sha env = sha \<Longrightarrow> ledger_step sha db db'"
| transitioned: "transition_event now fresh k status operator reason expected db = Inr db' \<Longrightarrow> ledger_step sha db db'"
| published: "publish_score c n seen db = Inr db' \<Longrightarrow> ledger_step sha db db'"

inductive_cases ledger_stepE: "ledger_step sha db db'"

definition risk_ledger :: "(string \<Rightarrow> string) \<Rightarrow> ndb \<Rightarrow> bool" where
  "risk_ledger sha = (ledger_step sha)\<^sup>*\<^sup>* empty_ledger"

lemma ledger_step_keeps: "ledger_step sha db db' \<Longrightarrow> ledger_ok db \<Longrightarrow> ledger_ok db'"
  by (elim ledger_stepE) (blast intro: ingest_keeps transition_keeps publish_keeps)+

lemma risk_ledger_ok: "risk_ledger sha db \<Longrightarrow> ledger_ok db"
  unfolding risk_ledger_def
proof (induction rule: rtranclp_induct)
  case base
  show ?case by (simp add: empty_ledger_def ledger_ok_def rows_linked_def balanced_except_def marks_ok_def)
qed (rule ledger_step_keeps)

text \<open>Contributions and rows stay.\<close>

definition links :: "ndb \<Rightarrow> string \<rightharpoonup> string" where
  "links db = map_of (map (\<lambda>i. (ig_fingerprint i, ig_event i)) (nd_ingestions db))"

definition grows :: "ndb \<Rightarrow> ndb \<Rightarrow> bool" where
  "grows db db' = (links db \<subseteq>\<^sub>m links db' \<and> ne_id ` set (nd_events db) \<subseteq> ne_id ` set (nd_events db'))"

lemma map_of_find: "map_of (map (\<lambda>i. (f i, g i)) xs) x = map_option g (find (\<lambda>i. f i = x) xs)"
  by (induction xs) auto

lemma links_find: "links db fp = map_option ig_event (find (\<lambda>i. ig_fingerprint i = fp) (nd_ingestions db))"
  unfolding links_def by (rule map_of_find)

lemma grows_trans [trans]: "grows a b \<Longrightarrow> grows b c \<Longrightarrow> grows a c"
  unfolding grows_def by (blast intro: map_le_trans)

lemma grows_same: "same_ledger a b \<Longrightarrow> grows a b"
  by (simp add: grows_def links_def same_ledger_def)

lemma grows_update: "(\<And>e :: node_event. ne_id (f e) = ne_id e) \<Longrightarrow> grows db (update_event k f db)"
  by (simp add: grows_def update_names) (simp add: links_def update_event_def)

lemma grows_refresh: "refresh_event k db = Inr db' \<Longrightarrow> grows db db'"
  by (drule refresh_shape) (auto intro: grows_update)

lemma retire_links:
  assumes "retire_previous f source db = Inr (db1, previous)"
  shows "links db1 = links db" and "grows db db1"
proof -
  have "links db1 = links db \<and> nd_events db1 = nd_events db"
  using assms
proof (cases rule: retire_previous_cases)
  case (2 p)
  have "links (retire p db) = links db"
    using upd_where_map [of "\<lambda>i. ig_fingerprint i = ig_fingerprint p \<and> ig_current i" "\<lambda>i. (ig_fingerprint i, ig_event i)"
      "\<lambda>i :: ingestion. i\<lparr>ig_current := False\<rparr>" "nd_ingestions db"]
    by (simp add: links_def retire_def)
  then show ?thesis unfolding 2(1) by (simp add: retire_def)
qed simp_all
  then show "links db1 = links db" "grows db db1" by (simp_all add: grows_def)
qed

lemma grows_row: "event_row env f event job trace db = Inr (db', k) \<Longrightarrow> grows db db' \<and> k \<in> ne_id ` set (nd_events db')"
proof (cases "event_for f db")
  case (Some e)
  assume "event_row env f event job trace db = Inr (db', k)"
  with Some have m: "merge_event env f job e db = Inr db'" and k: "k = ne_id e" by (auto simp: event_row_def bind_res_Inr_iff)
  from merge_shape [OF m] obtain g :: "node_event \<Rightarrow> node_event" where g: "same_ledger (update_event (ne_id e) g db) db'"
    "\<And>x. ne_id (g x) = ne_id x" by blast
  have "grows db (update_event (ne_id e) g db)" using g(2) by (rule grows_update)
  also have "grows \<dots> db'" using g(1) by (rule grows_same)
  finally have "grows db db'" .
  moreover have "e \<in> set (nd_events db)" using Some by (auto simp: event_for_def dest: find_Some_in)
  ultimately show ?thesis using k by (auto simp: grows_def)
next
  case None
  assume "event_row env f event job trace db = Inr (db', k)"
  with None have m: "new_event env f event job trace db = Inr db'" and k: "k = rk_event env" by (auto simp: event_row_def bind_res_Inr_iff)
  from new_shape [OF m] k show ?thesis by (auto simp: grows_def links_def)
qed

lemma grows_settle:
  assumes "settle_counts env f k revived previous db = Inr db'"
  shows "grows db db'"
proof -
  from assms obtain db1 where one: "(if previous \<noteq> None \<or> revived then refresh_event k db
      else Inr (update_event k (\<lambda>e. e\<lparr>ne_current := Some (ne_count e)\<rparr>) db)) = Inr db1"
    and two: "(case previous of None \<Rightarrow> Inr db1 | Some p \<Rightarrow> bind_res (refresh_event (ig_event p) db1) (\<lambda>db2.
         case find_event (ig_event p) db2 of None \<Rightarrow> Inl TypeErr
         | Some e \<Rightarrow> add_risk_audit (rk_replaced env) k ''revision_replaced''
               (PDict [(''physical_key'', (case rf_physical f of None \<Rightarrow> PNone | Some x \<Rightarrow> PStr x)),
                  (''previous_revision'', PStr (ig_revision p)), (''revision'', PStr (rf_revision f))])
               ''system-ingest'' (rk_now env) (mark_dirty (ne_cluster e) (ne_node e) (rk_now env) db2))) = Inr db'"
    unfolding settle_counts_def bind_res_Inr_iff by blast
  have "grows db db1" using one by (auto split: if_splits intro: grows_refresh grows_update)
  also have "grows db1 db'"
  proof (cases previous)
    case (Some p)
    with two obtain db2 e where "refresh_event (ig_event p) db1 = Inr db2" "same_ledger (mark_dirty (ne_cluster (e :: node_event)) (ne_node e) (rk_now env) db2) db'"
      by (auto simp: bind_res_Inr_iff split: option.split_asm dest!: audit_same)
    then show ?thesis by (blast intro: grows_trans grows_refresh grows_same mark_dirty_same)
  qed (use two in \<open>simp add: grows_def\<close>)
  finally show ?thesis .
qed

lemma row_links: "event_row env f event job trace db = Inr (db', k) \<Longrightarrow> nd_ingestions db' = nd_ingestions db"
  by (cases "event_for f db")
    (auto simp: event_row_def bind_res_Inr_iff same_ledger_def update_event_def dest!: merge_shape new_shape)

lemma ingest_new_grows:
  assumes "ingest_new env f event source job trace db = Inr (db', k)" and "links db (rf_fingerprint f) = None"
  shows "grows db db' \<and> links db' (rf_fingerprint f) = Some k \<and> k \<in> ne_id ` set (nd_events db')"
proof -
  from assms(1) obtain db1 previous db2 db3 db4 revived where
    retire: "retire_previous f source db = Inr (db1, previous)"
    and row: "event_row env f event job trace db1 = Inr (db2, k)"
    and add: "add_ingestion env f event job k db2 = Inr db3"
    and settle: "settle_counts env f k revived previous db3 = Inr db4"
    and db': "db' = mark_dirty (rf_cluster f) (rf_node f) (rk_now env) db4"
    unfolding ingest_new_def bind_res_Inr_iff Let_def by (auto simp only: prod.case sum.inject prod.inject split_paired_Ex bind_res_Inr_iff)
  have "grows db db1" using retire by (rule retire_links)
  also have "grows db1 db2" using grows_row [OF row] by simp
  also have g: "grows db2 db3"
    using add by (auto simp: add_ingestion_def bind_res_Inr_iff grows_def links_def)
  also have s: "grows db3 db4" using settle by (rule grows_settle)
  also have m: "grows db4 db'" unfolding db' by (rule grows_same [OF mark_dirty_same])
  finally have "grows db db'" .
  moreover have "grows db3 db'" using s m by (rule grows_trans)
  moreover have "links db2 (rf_fingerprint f) = None"
    using retire_links(1) [OF retire] row_links [OF row] assms(2) by (simp add: links_def)
  then have l: "links db3 (rf_fingerprint f) = Some k"
    using add by (auto simp: add_ingestion_def bind_res_Inr_iff links_def map_add_def)
  ultimately show ?thesis using g grows_row [OF row] l unfolding grows_def map_le_def by (metis domI subset_iff)
qed

lemma ledger_step_grows: "ledger_step sha db db' \<Longrightarrow> grows db db'"
proof (elim ledger_stepE)
  fix env event source job trace count v b
  assume "ingest env event source job trace count db = Inr (db', v, b)"
  then obtain f where "(case find (\<lambda>i. ig_fingerprint i = rf_fingerprint f) (nd_ingestions db) of
       Some i \<Rightarrow> bind_res (view_event (ig_event i) db) (\<lambda>v. Inr (db, v, True))
     | None \<Rightarrow> bind_res (ingest_new env f event source job trace db) (\<lambda>(db', k).
         bind_res (view_event k db') (\<lambda>v. Inr (db', v, False)))) = Inr (db', v, b)"
    unfolding ingest_def bind_res_Inr_iff by blast
  then consider "db' = db" | k where "links db (rf_fingerprint f) = None" "ingest_new env f event source job trace db = Inr (db', k)"
    by (auto simp: bind_res_Inr_iff links_find split: option.split_asm)
  then show "grows db db'" by cases (simp add: grows_def, blast dest: ingest_new_grows)
next
  fix now fresh k status operator reason expected
  assume "transition_event now fresh k status operator reason expected db = Inr db'"
  then show "grows db db'"
  proof (cases rule: transition_shape)
    case (2 e db1)
    show ?thesis
      unfolding 2(4) by (rule grows_trans [OF grows_trans [OF grows_update grows_same [OF 2(2)]] grows_same [OF mark_dirty_same]]) simp
  qed (simp add: grows_def)
next
  fix c n seen
  assume "publish_score c n seen db = Inr db'"
  then show "grows db db'"
    by (auto simp: publish_score_def Let_def grows_def links_def split: option.splits if_splits)
qed


subsection \<open>A contribution is counted once\<close>

lemma fact_same_identity:
  assumes "risk_fact_of sha event source job c = Inr f" and "risk_fact_of sha event source job c' = Inr f'"
  shows "rf_fingerprint f' = rf_fingerprint f"
  using assms by (auto simp: risk_fact_of_def Let_def bind_res_Inr_iff split: if_splits)

text \<open>The ledger holds the contribution of these arguments and the row it belongs to.\<close>

definition recorded :: "(string \<Rightarrow> string) \<Rightarrow> (string \<times> pv) list \<times> (string \<times> pv) list \<times> string option \<Rightarrow> ndb \<Rightarrow> bool" where
  "recorded sha = (\<lambda>(event, source, job) db. \<exists>c f k. risk_fact_of sha event source job c = Inr f
     \<and> links db (rf_fingerprint f) = Some k \<and> k \<in> ne_id ` set (nd_events db))"

lemma view_exists: "k \<in> ne_id ` set (nd_events db) \<Longrightarrow> \<exists>v. view_event k db = Inr v"
  by (auto simp: view_event_def find_event_def find_None_iff_all split: option.split)

lemma view_in: "view_event k db = Inr v \<Longrightarrow> k \<in> ne_id ` set (nd_events db)"
  by (auto simp: view_event_def find_event_def split: option.splits dest: find_Some_in)

type_synonym risk_key = "(string \<times> pv) list \<times> (string \<times> pv) list \<times> string option"

definition ingest_call ::
  "(string \<Rightarrow> string) \<Rightarrow> risk_key \<Rightarrow> risk_env \<times> string option \<times> int \<Rightarrow> ndb
     \<Rightarrow> (ndb \<times> (node_event \<times> event_status option) \<times> bool) res" where
  "ingest_call sha = (\<lambda>(event, source, job) (env, trace, count) db.
     ingest (env\<lparr>rk_sha := sha\<rparr>) event source job trace count db)"

definition accepts :: "(string \<Rightarrow> string) \<Rightarrow> risk_key \<Rightarrow> risk_env \<times> string option \<times> int \<Rightarrow> bool" where
  "accepts sha = (\<lambda>(event, source, job) (env, trace, count). \<not> isl (risk_fact_of sha event source job count))"

interpretation risk_ingestion: replay_log "recorded sha" "ledger_step sha" "accepts sha" "ingest_call sha" for sha
proof unfold_locales
  fix s s' :: ndb and k :: risk_key assume step: "ledger_step sha s s'" and seen: "recorded sha k s"
  obtain event source job where k: "k = (event, source, job)" by (metis prod_cases3)
  from seen obtain c f j where f: "risk_fact_of sha event source job c = Inr f"
    and j: "links s (rf_fingerprint f) = Some j" "j \<in> ne_id ` set (nd_events s)"
    by (auto simp: recorded_def k)
  have grows: "links s \<subseteq>\<^sub>m links s'" "ne_id ` set (nd_events s) \<subseteq> ne_id ` set (nd_events s')"
    using ledger_step_grows [OF step] by (simp_all add: grows_def)
  from grows(1) j(1) have "links s' (rf_fingerprint f) = Some j" by (simp add: map_le_def dom_def)
  moreover have "j \<in> ne_id ` set (nd_events s')" using j(2) grows(2) by (rule rev_subsetD)
  ultimately show "recorded sha k s'" using f unfolding recorded_def k prod.case by blast
next
  fix k :: risk_key and a :: "risk_env \<times> string option \<times> int" and s s' r b
  obtain event source job env trace count where k: "k = (event, source, job)" and a: "a = (env, trace, count)" by (metis prod_cases3)
  assume call: "ingest_call sha k a s = Inr (s', r, b)"
  have sha: "rk_sha (env\<lparr>rk_sha := sha\<rparr>) = sha" by simp
  from call obtain f where f: "risk_fact_of sha event source job count = Inr f"
    and c: "(case find (\<lambda>i. ig_fingerprint i = rf_fingerprint f) (nd_ingestions s) of
       Some i \<Rightarrow> bind_res (view_event (ig_event i) s) (\<lambda>v. Inr (s, v, True))
     | None \<Rightarrow> bind_res (ingest_new (env\<lparr>rk_sha := sha\<rparr>) f event source job trace s) (\<lambda>(db', k).
         bind_res (view_event k db') (\<lambda>v. Inr (db', v, False)))) = Inr (s', r, b)"
    unfolding ingest_call_def k a prod.case ingest_def bind_res_Inr_iff sha by blast
  have "\<exists>k. links s' (rf_fingerprint f) = Some k \<and> k \<in> ne_id ` set (nd_events s')"
  proof (cases "find (\<lambda>i. ig_fingerprint i = rf_fingerprint f) (nd_ingestions s)")
    case None
    with c obtain k where run: "ingest_new (env\<lparr>rk_sha := sha\<rparr>) f event source job trace s = Inr (s', k)" by (auto simp: bind_res_Inr_iff)
    have "links s (rf_fingerprint f) = None" using None by (simp add: links_find)
    from ingest_new_grows [OF run this] have "links s' (rf_fingerprint f) = Some k" "k \<in> ne_id ` set (nd_events s')" by simp_all
    then show ?thesis by (intro exI conjI)
  next
    case (Some i)
    with c have "s' = s" "\<exists>v. view_event (ig_event i) s = Inr v" by (auto simp: bind_res_Inr_iff)
    with Some show ?thesis using view_in by (fastforce simp: links_find)
  qed
  with f show "recorded sha k s'" unfolding recorded_def k prod.case by blast
next
  fix k :: risk_key and s and a :: "risk_env \<times> string option \<times> int"
  obtain event source job env trace count where k: "k = (event, source, job)" and a: "a = (env, trace, count)" by (metis prod_cases3)
  assume "recorded sha k s" and "accepts sha k a"
  then obtain f g c j where f: "risk_fact_of sha event source job count = Inr f"
    and g: "risk_fact_of sha event source job c = Inr g" "links s (rf_fingerprint g) = Some j" "j \<in> ne_id ` set (nd_events s)"
    by (cases "risk_fact_of sha event source job count") (auto simp: recorded_def accepts_def k a)
  from g(2) obtain i where "find (\<lambda>i. ig_fingerprint i = rf_fingerprint f) (nd_ingestions s) = Some i" "ig_event i = j"
    using fact_same_identity [OF f g(1)] by (auto simp: links_find)
  with view_exists [OF g(3)] f show "\<exists>r. ingest_call sha k a s = Inr (s, r, True)"
    by (auto simp: k a ingest_call_def ingest_def)
qed

end
