(* ===== verification/Node_Risk_Thms.thy ===== *)
theory Node_Risk_Thms
  imports Node_Risk_Props
begin

text \<open>
  What holds of every reachable ledger of node risks: the counts it shows, that a contribution is counted once, who may
  replace a revision, and that a score is not published over a change it has not seen.
\<close>

subsection \<open>Revisions of nodes\<close>

lemma refresh_marks:
  "refresh_event k db = Inr db' \<Longrightarrow> nd_marks db' = nd_marks db" "refresh_event k db = Inr db' \<Longrightarrow> nd_ingestions db' = nd_ingestions db"
  by (auto simp: update_event_def dest: refresh_shape)


lemma mark_dirty_marks: "nd_marks db = nd_marks db' \<Longrightarrow> nd_marks (mark_dirty c n now db) = nd_marks (mark_dirty c n now db')"
  by (simp add: mark_dirty_def Let_def)




text \<open>The marks that an ingestion leaves: one step for the node, and one before it for the node of the replaced contribution.\<close>

lemma settle_marks:
  assumes "settle_counts env f k revived previous db = Inr db'"
  shows "nd_ingestions db' = nd_ingestions db" and "nd_marks db' = nd_marks db \<or> (\<exists>c n. nd_marks db' = nd_marks (mark_dirty c n (rk_now env) db))"
proof -
  from assms obtain db1 where one: "(if previous \<noteq> None \<or> revived then refresh_event k db
      else Inr (update_event k (\<lambda>e. e\<lparr>ne_current := Some (ne_count e)\<rparr>) db)) = Inr db1"
    and two: "(case previous of None \<Rightarrow> Inr db1 | Some p \<Rightarrow> bind_res (refresh_event (ig_event p) db1) (\<lambda>db2.
         case find_event (ig_event p) db2 of None \<Rightarrow> Inl TypeErr
         | Some e \<Rightarrow> add_risk_audit (rk_replaced env) k ''revision_replaced''
               (PDict [(''physical_key'', (case rf_physical f of None \<Rightarrow> PNone | Some x \<Rightarrow> PStr x)),
                  (''previous_revision'', PStr (ig_revision p)), (''revision'', PStr (rf_revision f))])
               ''system-ingest'' (rk_now env) (mark_dirty (ne_cluster e) (ne_node e) (rk_now env) db2))) = Inr db'"
    unfolding settle_counts_def bind_res_Inr_iff by blast
  have m1: "nd_marks db1 = nd_marks db" using one by (auto simp: refresh_marks update_event_def split: if_splits)
  have i1: "nd_ingestions db1 = nd_ingestions db" using one by (auto simp: refresh_marks update_event_def split: if_splits)
  have "nd_ingestions db' = nd_ingestions db
    \<and> (nd_marks db' = nd_marks db \<or> (\<exists>c n. nd_marks db' = nd_marks (mark_dirty c n (rk_now env) db)))"
  proof (cases previous)
    case None
    with two m1 i1 show ?thesis by simp
  next
    case (Some p)
    let ?audit = "\<lambda>db2 (e :: node_event). add_risk_audit (rk_replaced env) k ''revision_replaced''
        (PDict [(''physical_key'', (case rf_physical f of None \<Rightarrow> PNone | Some x \<Rightarrow> PStr x)),
          (''previous_revision'', PStr (ig_revision p)), (''revision'', PStr (rf_revision f))])
        ''system-ingest'' (rk_now env) (mark_dirty (ne_cluster e) (ne_node e) (rk_now env) db2)"
    from two [unfolded Some option.case bind_res_Inr_iff] obtain db2 where two: "refresh_event (ig_event p) db1 = Inr db2"
      and found: "(case find_event (ig_event p) db2 of None \<Rightarrow> Inl TypeErr | Some e \<Rightarrow> ?audit db2 e) = Inr db'"
      by blast
    obtain e where audit: "?audit db2 e = Inr db'"
    proof (cases "find_event (ig_event p) db2")
      case None
      with found show thesis by simp
    next
      case (Some e)
      from found [unfolded Some option.case] show thesis by (rule that)
    qed
    have "nd_marks db' = nd_marks (mark_dirty (ne_cluster e) (ne_node e) (rk_now env) db2)" and "nd_ingestions db' = nd_ingestions db2"
      using audit_same [OF audit] by (simp_all add: same_ledger_def mark_dirty_def Let_def)
    then show ?thesis using m1 i1 refresh_marks [OF two] mark_dirty_marks [of db2 db] by metis
  qed
  then show "nd_ingestions db' = nd_ingestions db"
    and "nd_marks db' = nd_marks db \<or> (\<exists>c n. nd_marks db' = nd_marks (mark_dirty c n (rk_now env) db))" by simp_all
qed










lemma ingest_new_cases:
  assumes "ingest env event source job trace count db = Inr (db', v, b)"
  obtains "b" "db' = db"
  | f k where "\<not> b" "risk_fact_of (rk_sha env) event source job count = Inr f"
    "find (\<lambda>i. ig_fingerprint i = rf_fingerprint f) (nd_ingestions db) = None" "ingest_new env f event source job trace db = Inr (db', k)"
proof -
  from assms obtain f where f: "risk_fact_of (rk_sha env) event source job count = Inr f"
    and run: "(case find (\<lambda>i. ig_fingerprint i = rf_fingerprint f) (nd_ingestions db) of
       Some i \<Rightarrow> bind_res (view_event (ig_event i) db) (\<lambda>v. Inr (db, v, True))
     | None \<Rightarrow> bind_res (ingest_new env f event source job trace db) (\<lambda>(db', k).
         bind_res (view_event k db') (\<lambda>v. Inr (db', v, False)))) = Inr (db', v, b)"
    unfolding ingest_def bind_res_Inr_iff by blast
  show thesis
  proof (cases "find (\<lambda>i. ig_fingerprint i = rf_fingerprint f) (nd_ingestions db)")
    case None
    with run f that(2) show thesis by (auto simp: bind_res_Inr_iff)
  next
    case (Some i)
    with run that(1) show thesis by (auto simp: bind_res_Inr_iff)
  qed
qed





subsection \<open>A concrete ledger\<close>

definition demo_risk_event :: "(string \<times> pv) list" where
  "demo_risk_event = [(''risk_type'', PStr ''gpu.xid''), (''domain'', PStr ''gpu''), (''category'', PStr ''hw''), (''severity'', PStr ''high''),
     (''base_score'', PInt 70), (''confidence'', PFloat 9 (-1)), (''semantic_rule_id'', PStr ''r''), (''semantic_rule_version'', PInt 1),
     (''dedup'', PDict [(''key_fields'', PList [PStr ''cluster'', PStr ''node_id'', PStr ''risk_type'']), (''window_seconds'', PInt 300)])]"

definition demo_record :: "string \<Rightarrow> string \<Rightarrow> pv \<Rightarrow> pv \<Rightarrow> (string \<times> pv) list" where
  "demo_record item time revision expected =
     [(''node'', PStr ''n1''), (''timestamp'', PStr time), (''raw_log_id'', PStr item), (''source_namespace'', PStr ''ns''),
      (''source_batch_id'', PStr ''b1''), (''semantic_revision'', revision), (''expected_current_revision'', expected)]"

definition demo_short :: "string \<Rightarrow> string" where
  "demo_short x = rev (take 24 (rev x))"

definition demo_risk_env :: "string \<Rightarrow> risk_env" where
  "demo_risk_env k = \<lparr>rk_sha = demo_short, rk_now = ''2026-01-02T00:00:00+00:00'', rk_wall = 0, rk_event = k, rk_audit = ''a'' @ k,
     rk_replaced = ''x'' @ k\<rparr>"

definition demo_time :: string where "demo_time = ''2026-01-01T00:00:10+00:00''"

definition demo_ingest :: "string \<Rightarrow> string \<Rightarrow> string \<Rightarrow> pv \<Rightarrow> pv \<Rightarrow> int \<Rightarrow> ndb \<Rightarrow> ndb res" where
  "demo_ingest k item time revision expected count db =
     bind_res (ingest (demo_risk_env k) demo_risk_event (demo_record item time revision expected) None None count db) (\<lambda>(db', _). Inr db')"

text \<open>Two occurrences of one event, then three that a revision of the first replaces.\<close>

definition demo_before :: "ndb res" where
  "demo_before =
     bind_res (demo_ingest ''e1'' ''i1'' demo_time (PInt 1) PNone 2 empty_ledger)
       (demo_ingest ''e2'' ''i2'' ''2026-01-01T00:01:00+00:00'' (PInt 1) PNone 5)"

definition demo_ledger :: "ndb res" where
  "demo_ledger = bind_res demo_before (demo_ingest ''e3'' ''i1'' demo_time (PInt 2) (PInt 1) 3)"

text \<open>Evaluation takes the branches of a bind only after its first argument.\<close>

lemma bind_res_case [code_unfold]: "bind_res m f = (case m of Inl e \<Rightarrow> Inl e | Inr x \<Rightarrow> f x)"
  by (cases m) simp_all

lemma demo_step: "demo_ingest k item time revision expected count db = Inr db' \<Longrightarrow> ledger_step demo_short db db'"
  unfolding demo_ingest_def bind_res_Inr_iff
  by (auto intro!: ingested) (simp add: demo_risk_env_def)

lemma demo_before_reach: "demo_before = Inr db \<Longrightarrow> risk_ledger demo_short db"
  unfolding demo_before_def bind_res_Inr_iff risk_ledger_def
  by (elim exE conjE) (rule rtranclp.rtrancl_into_rtrancl, rule r_into_rtranclp, erule demo_step, erule demo_step)

text \<open>What the ledger holds before and after the revision.\<close>

lemma demo_ledger_reach: "demo_ledger = Inr db \<Longrightarrow> risk_ledger demo_short db"
  unfolding demo_ledger_def bind_res_Inr_iff
  by (elim exE conjE) (drule demo_before_reach, unfold risk_ledger_def, erule rtranclp.rtrancl_into_rtrancl, erule demo_step)

lemma demo_ingested:
  assumes "demo_ingest k item time revision expected count db = Inr db'"
  obtains v b where "ingest (demo_risk_env k) demo_risk_event (demo_record item time revision expected) None None count db = Inr (db', v, b)"
  using assms unfolding demo_ingest_def bind_res_Inr_iff by auto

lemma demo_sha: "rk_sha (demo_risk_env k) = demo_short"
  by (simp add: demo_risk_env_def)

lemma demo_before_rows:
  "case demo_before of Inl _ \<Rightarrow> False
   | Inr db \<Rightarrow> (case risk_fact_of demo_short demo_risk_event (demo_record ''i1'' demo_time (PInt 2) (PInt 1)) None 3 of
        Inl _ \<Rightarrow> False
      | Inr f \<Rightarrow> rf_physical f \<noteq> None \<and> rf_cluster f = ''default'' \<and> rf_node f = ''n1'' \<and> node_revision ''default'' ''n1'' db = Some 2
          \<and> list_ex (\<lambda>i. ig_current i \<and> ig_physical i = rf_physical f \<and> ig_revision i = ''1'') (nd_ingestions db))"
  by code_simp

lemma demo_ledger_flag:
  "case bind_res demo_before (ingest (demo_risk_env ''e3'') demo_risk_event (demo_record ''i1'' demo_time (PInt 2) (PInt 1)) None None 3) of
     Inl _ \<Rightarrow> False
   | Inr (db, _, b) \<Rightarrow> \<not> b \<and> map (\<lambda>e. (ne_id e, ne_current e)) (nd_events db) = [(''e1'', Some 8)]
       \<and> map (\<lambda>i. (ig_count i, ig_current i)) (nd_ingestions db) = [(2, False), (5, True), (3, True)]"
  by code_simp

text \<open>The step that replaces the revision, with what the properties need of it.\<close>

lemma demo_revision:
  obtains db0 db v f x old where "demo_ledger = Inr db"
    and "ingest (demo_risk_env ''e3'') demo_risk_event (demo_record ''i1'' demo_time (PInt 2) (PInt 1)) None None 3 db0 = Inr (db, v, False)"
    and "risk_fact_of demo_short demo_risk_event (demo_record ''i1'' demo_time (PInt 2) (PInt 1)) None 3 = Inr f"
    and "rf_physical f = Some x" and "old \<in> set (nd_ingestions db0)" and "ig_current old" and "ig_physical old = Some x"
    and "risk_ledger demo_short db0"
    and "rf_cluster f = ''default''" and "rf_node f = ''n1''" and "node_revision ''default'' ''n1'' db0 = Some 2"
proof -
  from demo_before_rows obtain db0 where zero: "demo_before = Inr db0" by (auto split: sum.splits)
  from demo_ledger_flag [unfolded zero bind_res.simps] obtain db v where
    run: "ingest (demo_risk_env ''e3'') demo_risk_event (demo_record ''i1'' demo_time (PInt 2) (PInt 1)) None None 3 db0 = Inr (db, v, False)"
    by (auto split: sum.splits)
  have demo: "demo_ledger = Inr db" using run by (simp add: demo_ledger_def zero demo_ingest_def)
  from demo_before_rows [unfolded zero] obtain f where
    f: "risk_fact_of demo_short demo_risk_event (demo_record ''i1'' demo_time (PInt 2) (PInt 1)) None 3 = Inr f"
      "rf_physical f \<noteq> None" "rf_cluster f = ''default''" "rf_node f = ''n1''" "node_revision ''default'' ''n1'' db0 = Some 2"
    and "list_ex (\<lambda>i. ig_current i \<and> ig_physical i = rf_physical f \<and> ig_revision i = ''1'') (nd_ingestions db0)"
    by (auto split: sum.splits)
  then obtain old where "old \<in> set (nd_ingestions db0)" "ig_current old" "ig_physical old = rf_physical f" by (auto simp: list_ex_iff)
  moreover obtain x where "rf_physical f = Some x" using f(2) by blast
  ultimately show thesis using that [OF demo run f(1)] f(3-5) demo_before_reach [OF zero] by simp
qed

lemma demo_ledger_rows:
  "case demo_ledger of Inl _ \<Rightarrow> False
   | Inr db \<Rightarrow> map (\<lambda>e. (ne_id e, ne_current e)) (nd_events db) = [(''e1'', Some 8)]
       \<and> map (\<lambda>i. (ig_count i, ig_current i)) (nd_ingestions db) = [(2, False), (5, True), (3, True)]"
  by code_simp

lemma add_shape:
  "add_ingestion env f event job k db = Inr db' \<Longrightarrow> \<exists>i. nd_ingestions db' = nd_ingestions db @ [i] \<and> ig_current i
     \<and> ig_physical i = rf_physical f \<and> ig_fingerprint i = rf_fingerprint f \<and> ig_count i = rf_count f"
  by (auto simp: add_ingestion_def bind_res_Inr_iff)

lemma distinct_the_row:
  "distinct (map f (filter P xs)) \<Longrightarrow> y \<in> set xs \<Longrightarrow> P y \<Longrightarrow> (\<And>z. Q z \<longleftrightarrow> P z \<and> f z = f y) \<Longrightarrow> filter Q xs = [y]"
proof (induction xs)
  case (Cons a xs)
  have none: "filter Q xs = []" if "P a" "f a = f y"
    using Cons.prems(1,4) that by (simp add: filter_empty_conv image_iff) metis
  show ?case
  proof (cases "a = y")
    case True
    then have "Q a" "P a" using Cons.prems(3,4) by auto
    with none True show ?thesis by simp
  next
    case False
    with Cons.prems have y: "y \<in> set xs" by simp
    with Cons.prems have "\<not> Q a" by auto
    with Cons y show ?thesis by (auto split: if_splits)
  qed
qed simp

subsection \<open>Properties\<close>

text \<open>C12: in every reachable ledger an event shows the sum of the counts of its current contributions, it is shown as
  superseded exactly when it has none, and a physical item contributes to it at most once.\<close>

theorem ledger_counts_contributions:
  assumes "risk_ledger sha db" and "e \<in> set (nd_events db)"
  shows "ne_count (fst (event_view e)) = sum_list (map ig_count (event_rows (ne_id e) db))
    \<and> (snd (event_view e) = None \<longleftrightarrow> event_rows (ne_id e) db = [])
    \<and> distinct (map ig_physical (filter (\<lambda>i. ig_physical i \<noteq> None) (event_rows (ne_id e) db)))"
proof -
  from risk_ledger_ok [OF assms(1)] have "tallies (event_rows (ne_id e) db) e" and rows_linked: "rows_linked db"
    using assms(2) by (auto simp: ledger_ok_def balanced_except_def)
  moreover have "filter (\<lambda>i. ig_physical i \<noteq> None) (event_rows (ne_id e) db)
      = filter (\<lambda>i. ig_event i = ne_id e) (filter (\<lambda>i. ig_current i \<and> ig_physical i \<noteq> None) (nd_ingestions db))"
    by (auto simp: event_rows_def intro: filter_cong)
  moreover have "distinct (map ig_physical (filter (\<lambda>i. ig_event i = ne_id e)
      (filter (\<lambda>i. ig_current i \<and> ig_physical i \<noteq> None) (nd_ingestions db))))"
    using rows_linked by (rule_tac distinct_map_filter) (simp add: rows_linked_def)
  ultimately show ?thesis by (auto simp: tallies_def event_view_def simp del: filter_filter)
qed

theorem ledger_counts_contributions_witness:
  "\<exists>db e. demo_ledger = Inr db \<and> e \<in> set (nd_events db) \<and> ne_count (fst (event_view e)) = 8
     \<and> sum_list (map ig_count (event_rows (ne_id e) db)) = 8"
proof -
  from demo_ledger_rows obtain db where db: "demo_ledger = Inr db" by (auto split: sum.splits)
  from demo_ledger_rows [unfolded db sum.case] obtain e :: node_event where e: "nd_events db = [e]" "ne_current e = Some 8" by auto
  have "ne_count (fst (event_view e)) = 8" using e by (simp add: event_view_def)
  with ledger_counts_contributions [OF demo_ledger_reach [OF db], of e] db e show ?thesis by auto
qed

text \<open>C16: once a contribution has been ingested, ingesting it again, with any count and after any operations on the
  ledger, is a replay: it succeeds and changes nothing.\<close>

theorem contribution_counted_once:
  assumes "ingest env event source job trace count db = Inr (db1, v, b)" and "(ledger_step (rk_sha env))\<^sup>*\<^sup>* db1 db2"
    and "rk_sha env' = rk_sha env" and "risk_fact_of (rk_sha env) event source job count' = Inr f"
  shows "\<exists>v'. ingest env' event source job trace' count' db2 = Inr (db2, v', True)"
proof -
  have call: "ingest_call (rk_sha env) (event, source, job) (env, trace, count) db = Inr (db1, v, b)"
    using assms(1) by (simp add: ingest_call_def)
  have acc: "accepts (rk_sha env) (event, source, job) (env', trace', count')" using assms(4) by (simp add: accepts_def)
  have "env'\<lparr>rk_sha := rk_sha env\<rparr> = env'" using assms(3) by simp
  with risk_ingestion.call_once [OF call assms(2) acc] show ?thesis by (simp only: ingest_call_def prod.case)
qed

theorem contribution_counted_once_witness:
  "\<exists>db. demo_ledger = Inr db \<and> demo_ingest ''e9'' ''i1'' demo_time (PInt 1) PNone 2 db = Inr db"
proof -
  from demo_ledger_rows obtain db where db: "demo_ledger = Inr db" by (auto split: sum.splits)
  then obtain db1 db2 where s1: "demo_ingest ''e1'' ''i1'' demo_time (PInt 1) PNone 2 empty_ledger = Inr db1"
    and s2: "demo_ingest ''e2'' ''i2'' ''2026-01-01T00:01:00+00:00'' (PInt 1) PNone 5 db1 = Inr db2"
    and s3: "demo_ingest ''e3'' ''i1'' demo_time (PInt 2) (PInt 1) 3 db2 = Inr db"
    unfolding demo_ledger_def demo_before_def bind_res_Inr_iff by blast
  from s1 obtain v b where run: "ingest (demo_risk_env ''e1'') demo_risk_event (demo_record ''i1'' demo_time (PInt 1) PNone) None None 2
      empty_ledger = Inr (db1, v, b)" by (rule demo_ingested)
  then obtain f where f: "risk_fact_of demo_short demo_risk_event (demo_record ''i1'' demo_time (PInt 1) PNone) None 2 = Inr f"
    unfolding ingest_def bind_res_Inr_iff demo_sha by blast
  have "(ledger_step demo_short)\<^sup>*\<^sup>* db1 db" using demo_step [OF s2] demo_step [OF s3] by (meson rtranclp.simps)
  with contribution_counted_once [OF run, of db "demo_risk_env ''e9''" 2 f None] f show ?thesis
    using db by (auto simp: demo_sha demo_ingest_def)
qed

text \<open>C27: a contribution of a physical item that already has one is only accepted from a caller who names the revision
  that is current, and then it is the only current contribution of the item.\<close>

theorem revision_needs_expectation:
  assumes "risk_ledger (rk_sha env) db" and "ingest env event source job trace count db = Inr (db', v, False)"
    and "risk_fact_of (rk_sha env) event source job count = Inr f" and "rf_physical f = Some x"
    and "old \<in> set (nd_ingestions db)" and "ig_current old" and "ig_physical old = Some x"
  shows "canonical_json (dget source ''expected_current_revision'') = ig_revision old
    \<and> (\<exists>new. filter (\<lambda>i. ig_current i \<and> ig_physical i = Some x) (nd_ingestions db') = [new]
        \<and> ig_fingerprint new = rf_fingerprint f \<and> ig_count new = count)"
proof
  from assms(2,3) obtain k where run: "ingest_new env f event source job trace db = Inr (db', k)"
    by (cases rule: ingest_new_cases) auto
  then obtain db1 previous db2 db3 db4 revived where
    retire: "retire_previous f source db = Inr (db1, previous)"
    and add: "add_ingestion env f event job k db2 = Inr db3"
    and settle: "settle_counts env f k revived previous db3 = Inr db4"
    and db': "db' = mark_dirty (rf_cluster f) (rf_node f) (rk_now env) db4"
    unfolding ingest_new_def bind_res_Inr_iff Let_def
    by (auto simp only: prod.case sum.inject prod.inject split_paired_Ex bind_res_Inr_iff)
  have one: "distinct (current_physical db)" using risk_ledger_ok [OF assms(1)] by (simp add: ledger_ok_def rows_linked_def current_physical_def)
  have old: "Some x \<in> set (current_physical db)" using assms(5-7) by (force simp: current_physical_def)
  from retire show "canonical_json (dget source ''expected_current_revision'') = ig_revision old"
  proof (cases rule: retire_previous_cases)
    case 1
    with old assms(4) show ?thesis by simp
  next
    case (2 p)
    have "p = old"
      using distinct_the_one [OF one [unfolded current_physical_def], of p old] 2 assms(4-7) by auto
    with 2 show ?thesis by simp
  qed
  have "nd_ingestions db' = nd_ingestions db3" using settle_marks(1) [OF settle] by (simp add: db' mark_dirty_def Let_def)
  moreover from add_shape [OF add] obtain new where
    "nd_ingestions db3 = nd_ingestions db2 @ [new]" "ig_current new" "ig_physical new = rf_physical f"
      "ig_fingerprint new = rf_fingerprint f" "ig_count new = rf_count f" by blast
  ultimately have new: "new \<in> set (nd_ingestions db')" "ig_current new" "ig_physical new = Some x"
    "ig_fingerprint new = rf_fingerprint f" "ig_count new = rf_count f" using assms(4) by simp_all
  have "ledger_ok db'" using ingest_keeps [OF risk_ledger_ok [OF assms(1)] assms(2)] .
  then have "distinct (current_physical db')" by (simp add: ledger_ok_def rows_linked_def current_physical_def)
  then have "filter (\<lambda>i. ig_current i \<and> ig_physical i = Some x) (nd_ingestions db') = [new]"
    unfolding current_physical_def by (rule distinct_the_row [where y = new]) (use new in auto)
  then show "\<exists>new. filter (\<lambda>i. ig_current i \<and> ig_physical i = Some x) (nd_ingestions db') = [new]
      \<and> ig_fingerprint new = rf_fingerprint f \<and> ig_count new = count"
    using new fact_positive [OF assms(3)] by auto
qed

theorem revision_needs_expectation_witness:
  "\<exists>db (old :: ingestion). demo_ledger = Inr db \<and> ig_revision old = canonical_json (PInt 1)
     \<and> (\<exists>x new. ig_physical old = Some x \<and> filter (\<lambda>i. ig_current i \<and> ig_physical i = Some x) (nd_ingestions db) = [new] \<and> ig_count new = 3)"
proof -
  obtain db0 db v f x old where demo: "demo_ledger = Inr db"
    and run: "ingest (demo_risk_env ''e3'') demo_risk_event (demo_record ''i1'' demo_time (PInt 2) (PInt 1)) None None 3 db0 = Inr (db, v, False)"
    and f: "risk_fact_of demo_short demo_risk_event (demo_record ''i1'' demo_time (PInt 2) (PInt 1)) None 3 = Inr f"
    and old: "rf_physical f = Some x" "old \<in> set (nd_ingestions db0)" "ig_current old" "ig_physical old = Some x"
    and reach: "risk_ledger demo_short db0"
    by (rule demo_revision)
  have expected: "dget (demo_record ''i1'' demo_time (PInt 2) (PInt 1)) ''expected_current_revision'' = PInt 1" by code_simp
  have "risk_ledger (rk_sha (demo_risk_env ''e3'')) db0" using reach by (simp only: demo_sha)
  note replaced = revision_needs_expectation [OF this run _ old, unfolded demo_sha expected, OF f]
  then obtain new where "filter (\<lambda>i. ig_current i \<and> ig_physical i = Some x) (nd_ingestions db) = [new]" "ig_count new = 3" by blast
  then show ?thesis using demo replaced [THEN conjunct1, symmetric] old(4) by blast
qed



text \<open>The text of a window depends on the offset of the record: one instant has two windows, hence two events.\<close>

lemma window_depends_on_offset:
  "(case (risk_time ''2026-01-01T00:00:10Z'', risk_time ''2026-01-01T08:00:10+08:00'') of
      (Inr t, Inr u) \<Rightarrow> instant t = instant u
        \<and> floor_window t 300 = Inr (''2026-01-01T00:00:00+00:00'', ''2026-01-01T00:05:00+00:00'')
        \<and> floor_window u 300 = Inr (''2026-01-01T08:00:00+08:00'', ''2026-01-01T08:05:00+08:00'')
    | _ \<Rightarrow> False)"
  by code_simp

end
