(* ===== verification/Expert_Assessment.thy ===== *)
theory Expert_Assessment
  imports Expert_Context
begin

text \<open>
  The facts, the assessments and the context of an expert (\<open>agentic/evidence_context.py\<close>, second half).
\<close>

subsection \<open>Identifiers\<close>

text \<open>\<open>s.replace(old, new)\<close> for a non-empty \<open>old\<close>.\<close>

function replace_all :: "string \<Rightarrow> string \<Rightarrow> string \<Rightarrow> string" where
  "replace_all old new [] = []"
| "replace_all old new (c # cs) =
     (if old \<noteq> [] \<and> starts_with old (c # cs) then new @ replace_all old new (drop (length old) (c # cs))
      else c # replace_all old new cs)"
  by pat_completeness auto
termination
  by (relation "measure (\<lambda>(_, _, s). length s)") (auto simp: neq_Nil_conv)

definition hex_digit_value :: "char \<Rightarrow> int option" where
  "hex_digit_value c =
     (let x = byte_value c in
      if 48 \<le> x \<and> x \<le> 57 then Some (x - 48)
      else if 97 \<le> x \<and> x \<le> 102 then Some (x - 87)
      else if 65 \<le> x \<and> x \<le> 70 then Some (x - 55) else None)"

fun hex_digits_value :: "string \<Rightarrow> int \<Rightarrow> int option" where
  "hex_digits_value [] acc = Some acc"
| "hex_digits_value (c # cs) acc =
     (case hex_digit_value c of None \<Rightarrow> None | Some x \<Rightarrow> hex_digits_value cs (16 * acc + x))"

text \<open>\<open>int(s, 16)\<close>: surrounding space, a sign, a prefix \<open>0x\<close> and underscores between digits are allowed.\<close>

definition hex_body :: "string \<Rightarrow> string" where
  "hex_body s =
     (case s of
        a # b # cs \<Rightarrow>
          if a = CHR ''0'' \<and> (b = CHR ''x'' \<or> b = CHR ''X'')
          then (case cs of c # rest \<Rightarrow> if c = CHR ''_'' then rest else cs | [] \<Rightarrow> cs)
          else s
      | _ \<Rightarrow> s)"

definition parse_hex :: "string \<Rightarrow> int option" where
  "parse_hex s =
     (case split_sign (py_strip s) of
        (neg, ds) \<Rightarrow>
          let body = hex_body ds in
          if \<not> grouped body then None
          else map_option (\<lambda>x. if neg then - x else x) (hex_digits_value (filter (\<lambda>c. c \<noteq> CHR ''_'') body) 0))"

primrec hex_text :: "nat \<Rightarrow> int \<Rightarrow> string" where
  "hex_text 0 x = []"
| "hex_text (Suc n) x = hex_text n (x div 16) @ [hex_digit (nat (x mod 16))]"

definition strip_braces :: "string \<Rightarrow> string" where
  "strip_braces s =
     (let brace = (\<lambda>c. c = CHR 0x7B \<or> c = CHR 0x7D) in rev (dropWhile brace (rev (dropWhile brace s))))"

text \<open>\<open>str(uuid.UUID(value))\<close>.\<close>

definition uuid_text :: "string \<Rightarrow> string option" where
  "uuid_text value =
     (let hex = replace_all ''-'' [] (strip_braces (replace_all ''uuid:'' [] (replace_all ''urn:'' [] value))) in
      if text_length hex \<noteq> 32 then None else
      case parse_hex hex of
        None \<Rightarrow> None
      | Some x \<Rightarrow>
          if x < 0 then None else
          let h = hex_text 32 x in
          Some (take 8 h @ ''-'' @ take 4 (drop 8 h) @ ''-'' @ take 4 (drop 12 h) @ ''-'' @ take 4 (drop 16 h) @ ''-''
            @ drop 20 h))"

subsection \<open>Facts\<close>

record fact =
  fc_ref :: string
  fc_type :: string
  fc_count :: "int option"
  fc_objects :: "string list"

definition or_unknown :: "int option \<Rightarrow> pv" where
  "or_unknown n = (case n of None \<Rightarrow> PStr ''unknown'' | Some i \<Rightarrow> PInt i)"

definition object_count :: "fact \<Rightarrow> pv" where
  "object_count f = or_unknown (if fc_objects f = [] then None else Some (int (length (fc_objects f))))"

definition fact_pv :: "fact \<Rightarrow> pv" where
  "fact_pv f =
     PDict [(''template_ref'', PStr (fc_ref f)), (''anomaly_type'', PStr (fc_type f)),
       (''log_occurrence_count'', or_unknown (fc_count f)), (''proven_object_count'', object_count f),
       (''object_ids'', PList (map PStr (fc_objects f)))]"

definition in_versions :: "pv \<Rightarrow> (string \<times> pv) list \<Rightarrow> bool res" where
  "in_versions key versions =
     (case key of PStr s \<Rightarrow> Inr (dhas versions s) | PList _ \<Rightarrow> Inl TypeErr | PDict _ \<Rightarrow> Inl TypeErr | _ \<Rightarrow> Inr False)"

text \<open>A registered typed pod UID that the semantic fields of the template confirm.\<close>

definition pod_identifier :: "(string \<times> pv) list \<Rightarrow> (string \<times> pv) list \<Rightarrow> pv \<Rightarrow> string option res" where
  "pod_identifier confirmed versions parameter =
     bind_res (dict_of parameter) (\<lambda>p.
     if dget p ''field'' \<noteq> PStr ''pod_uid'' then Inr None else
     bind_res (in_versions (dget p ''dictionary_id'') versions) (\<lambda>registered.
     if \<not> registered \<or> \<not> truthy (dget p ''rule_id'') then Inr None
     else (case dget p ''value'' of
         PStr v \<Rightarrow> Inr (if dget confirmed ''pod_uid'' = PStr v then uuid_text v else None)
       | _ \<Rightarrow> Inr None)))"

fun new_items :: "string list \<Rightarrow> string option list \<Rightarrow> string list" where
  "new_items seen [] = seen"
| "new_items seen (None # xs) = new_items seen xs"
| "new_items seen (Some x # xs) = new_items (if x \<in> set seen then seen else seen @ [x]) xs"

definition occurrence_count :: "pv \<Rightarrow> int option res" where
  "occurrence_count v =
     (case v of
        PNone \<Rightarrow> Inr None
      | PInt i \<Rightarrow> if i < 0 then agentic ''agent_fact_invalid'' else Inr (Some i)
      | _ \<Rightarrow> agentic ''agent_fact_invalid'')"

definition template_fact :: "(string \<times> pv) list \<Rightarrow> fact res" where
  "template_fact t =
     bind_res (occurrence_count (dget t ''count'')) (\<lambda>count.
     bind_res (dict_of (py_or (dget t ''semantic_fields'') (PDict []))) (\<lambda>confirmed.
     bind_res (dict_of (py_or (dget t ''semantic_dictionary_versions'') (PDict []))) (\<lambda>versions.
     bind_res (py_iter (py_or (dget t ''typed_parameters'') (PList []))) (\<lambda>parameters.
     bind_res (map_res (pod_identifier confirmed versions) parameters) (\<lambda>found.
     bind_res (dict_of (py_or (dget t ''risk_semantic'') (PDict []))) (\<lambda>semantic.
     case py_or (dget semantic ''risk_type'') (PStr (''template:'' @ template_hash t)) of
       PStr anomaly \<Rightarrow>
         Inr \<lparr>fc_ref = template_hash t, fc_type = anomaly, fc_count = count, fc_objects = sort (new_items [] found)\<rparr>
     | _ \<Rightarrow> agentic ''agent_fact_invalid''))))))"

fun template_facts :: "string list \<Rightarrow> (string \<times> pv) list list \<Rightarrow> fact list res" where
  "template_facts seen [] = Inr []"
| "template_facts seen (t # ts) =
     (if template_hash t \<in> set seen then agentic ''agent_fact_invalid''
      else bind_res (template_fact t) (\<lambda>f.
           bind_res (template_facts (template_hash t # seen) ts) (\<lambda>fs. Inr (f # fs))))"

definition evidence_facts :: "pv \<Rightarrow> fact list res" where
  "evidence_facts evidence =
     bind_res (template_facts [] (templates_of evidence)) (\<lambda>fs. Inr (sort_key fc_ref fs))"

subsection \<open>Schemas\<close>

definition nonempty_text :: pv where
  "nonempty_text = PDict [(''type'', PStr ''string''), (''minLength'', PInt 1)]"

definition const_text :: "string \<Rightarrow> pv" where
  "const_text s = PDict [(''type'', PStr ''string''), (''const'', PStr s)]"

definition closed_object :: "(string \<times> pv) list \<Rightarrow> pv" where
  "closed_object properties =
     PDict [(''type'', PStr ''object''), (''additionalProperties'', PBool False),
       (''required'', PList (map (\<lambda>(k, _). PStr k) properties)), (''properties'', PDict properties)]"

definition array_schema :: "pv \<Rightarrow> int \<Rightarrow> int \<Rightarrow> pv" where
  "array_schema items lo hi =
     PDict [(''type'', PStr ''array''), (''items'', items), (''minItems'', PInt lo), (''maxItems'', PInt hi),
       (''uniqueItems'', PBool True)]"

definition reference_array_schema :: "string list \<Rightarrow> int \<Rightarrow> pv" where
  "reference_array_schema values minimum =
     (let identities = sort (remdups values);
          item = [(''type'', PStr ''string''), (''minLength'', PInt 1)]
            @ (if identities = [] then [] else [(''enum'', PList (map PStr identities))])
      in array_schema (PDict item) minimum (int (length identities)))"

definition typed_const :: "pv \<Rightarrow> pv" where
  "typed_const v =
     PDict [(''type'', PStr (case v of PInt _ \<Rightarrow> ''integer'' | PBool _ \<Rightarrow> ''integer'' | _ \<Rightarrow> ''string'')), (''const'', v)]"

definition fact_schema :: "fact \<Rightarrow> pv" where
  "fact_schema f =
     closed_object [(''template_ref'', typed_const (PStr (fc_ref f))), (''anomaly_type'', typed_const (PStr (fc_type f))),
       (''log_occurrence_count'', typed_const (or_unknown (fc_count f))),
       (''proven_object_count'', typed_const (object_count f)),
       (''object_ids'', reference_array_schema (fc_objects f) (int (length (fc_objects f))))]"

definition analysis_kinds :: "(string \<times> string) list" where
  "analysis_kinds = [(''association_hypothesis'', ''unverified''), (''cause_hypothesis'', ''unverified''),
     (''conditional_impact'', ''conditional''), (''manual_guidance'', ''guidance'')]"

definition block_schema :: "string list \<Rightarrow> string \<times> string \<Rightarrow> pv" where
  "block_schema hashes kind_status =
     (case kind_status of (kind, status) \<Rightarrow>
        closed_object [(''kind'', const_text kind), (''status'', const_text status),
          (''fact_refs'', reference_array_schema hashes (if kind = ''association_hypothesis'' then 2 else 1)),
          (''text'', nonempty_text),
          (''missing_evidence'', array_schema nonempty_text (if status = ''unverified'' then 1 else 0) 8),
          (''manual_checks'', array_schema nonempty_text 1 8)])"

definition upstream_minimum :: "expert_context \<Rightarrow> int" where
  "upstream_minimum ctx = (if ec_role ctx = ''feature_specialist'' then int (length (ec_upstream ctx)) else 0)"

definition context_hashes :: "expert_context \<Rightarrow> string list" where
  "context_hashes ctx = map template_hash (templates_of (ec_evidence ctx))"

definition analysis_schema :: "expert_context \<Rightarrow> pv res" where
  "analysis_schema ctx =
     bind_res (map_res rule_reference (ec_rules ctx)) (\<lambda>references.
     let hashes = context_hashes ctx in
     Inr (closed_object [(''schema_version'', const_text ''expert_analysis_v3''), (''role_id'', const_text (ec_role ctx)),
       (''context_hash'', const_text (ec_hash ctx)), (''template_refs'', reference_array_schema hashes 1),
       (''rule_refs'', reference_array_schema references 0),
       (''upstream_refs'', reference_array_schema (map up_artifact (ec_upstream ctx)) (upstream_minimum ctx)),
       (''analyses'', array_schema (PDict [(''oneOf'', PList (map (block_schema hashes) analysis_kinds))]) 1 8),
       (''limitations'', array_schema nonempty_text 1 8)]))"

text \<open>The two older versions of an assessment; the second one also repeats the facts.\<close>

definition legacy_schema :: "expert_context \<Rightarrow> pv res" where
  "legacy_schema ctx =
     bind_res (map_res rule_reference (ec_rules ctx)) (\<lambda>references.
     let base = [(''role_id'', const_text (ec_role ctx)), (''context_hash'', const_text (ec_hash ctx)),
       (''conclusion'', nonempty_text), (''template_refs'', reference_array_schema (context_hashes ctx) 1),
       (''rule_refs'', reference_array_schema references 0),
       (''upstream_refs'', reference_array_schema (map up_artifact (ec_upstream ctx)) (upstream_minimum ctx)),
       (''limitations'', array_schema nonempty_text 1 8)]
     in if ec_schema ctx = ''expert_context_v2'' then
          bind_res (evidence_facts (ec_evidence ctx)) (\<lambda>facts.
          let n = int (length facts) in
          Inr (closed_object (base @ [(''observations'', array_schema (PDict [(''oneOf'', PList (map fact_schema facts))]) n n),
            (''root_cause_status'', const_text ''unknown''), (''recovery_status'', const_text ''unknown'')])))
        else Inr (closed_object base))"

definition assessment_schema :: "expert_context \<Rightarrow> pv res" where
  "assessment_schema ctx =
     (if ec_schema ctx = ''expert_context_v3'' then analysis_schema ctx else legacy_schema ctx)"

subsection \<open>Checking an assessment\<close>

fun check_observations :: "fact list \<Rightarrow> pv list \<Rightarrow> string list res" where
  "check_observations facts [] = Inr []"
| "check_observations facts (ob # obs) =
     (case ob of
        PDict d \<Rightarrow>
          bind_res (if hashable (dget d ''template_ref'') then Inr () else Inl TypeErr) (\<lambda>_.
          case find (\<lambda>f. PStr (fc_ref f) = dget d ''template_ref'') facts of
            None \<Rightarrow> agentic ''agent_fact_invalid''
          | Some f \<Rightarrow>
              bind_res (validate_argument_schema ob (fact_schema f)) (\<lambda>_.
              if \<not> py_eq ob (fact_pv f) then agentic ''agent_fact_invalid''
              else bind_res (check_observations facts obs) (\<lambda>refs. Inr (fc_ref f # refs))))
      | _ \<Rightarrow> agentic ''agent_fact_invalid'')"

definition validate_fact_observations :: "(string \<times> pv) list \<Rightarrow> pv \<Rightarrow> unit res" where
  "validate_fact_observations value evidence =
     bind_res (evidence_facts evidence) (\<lambda>facts.
     let n = int (length facts) in
     bind_res (validate_argument_schema (dget value ''observations'')
       (PDict [(''type'', PStr ''array''), (''minItems'', PInt n), (''maxItems'', PInt n), (''uniqueItems'', PBool True)])) (\<lambda>_.
     if dget value ''root_cause_status'' \<noteq> PStr ''unknown'' \<or> dget value ''recovery_status'' \<noteq> PStr ''unknown''
     then agentic ''agent_fact_invalid'' else
     bind_res (py_iter (dget value ''observations'')) (\<lambda>obs.
     bind_res (check_observations facts obs) (\<lambda>refs.
     bind_res (bind_res (item_at (PDict value) ''template_refs'') py_set) (\<lambda>cited.
     if \<not> distinct refs \<or> set refs \<noteq> set (map fc_ref facts) \<or> \<not> py_subset (map PStr refs) cited
     then agentic ''agent_fact_invalid'' else Inr ())))))"

text \<open>Host names, addresses, upper-case codes and time stamps, which a text may only repeat from its source.\<close>

definition literal :: rx where
  "literal =
     (let digit = Cls is_digit;
          name = Cls (\<lambda>x. is_letter x \<or> is_digit x \<or> x = 45);
          code = Cls (\<lambda>x. is_upper x \<or> is_digit x \<or> x = 95 \<or> x = 45)
      in alts [
        Cat (some1 (Cat (some1 name) (lit ''.''))) (Rep 2 None (Cls is_letter)),
        cats [Boundary, Rep 3 (Some 3) (Cat (Rep 1 (Some 3) digit) (lit ''.'')), Rep 1 (Some 3) digit, Boundary],
        cats [Boundary, Rep 2 None (Cls is_upper), one_of ''-_'', some1 code, Boundary],
        cats [Boundary, Rep 4 (Some 4) digit, lit ''-'', Rep 2 (Some 2) digit, lit ''-'', Rep 2 (Some 2) digit, lit ''T'',
          some1 (Cls (\<lambda>x. is_digit x \<or> x = 58 \<or> x = 46)),
          maybe (Alt (lit ''Z'') (cats [one_of ''+-'', Rep 2 (Some 2) digit, lit '':'', Rep 2 (Some 2) digit]))]])"

definition cited_templates :: "pv \<Rightarrow> string list \<Rightarrow> pv list" where
  "cited_templates evidence refs =
     map (\<lambda>r. case find (\<lambda>t. template_hash t = r) (rev (templates_of evidence)) of None \<Rightarrow> PNone | Some t \<Rightarrow> PDict t) refs"

definition source_text :: "(string \<times> pv) list \<Rightarrow> pv \<Rightarrow> string list \<Rightarrow> string" where
  "source_text ev evidence refs =
     spaced_json (PDict [(''entity'', dget ev ''entity''), (''window'', dget ev ''window''),
       (''templates'', PList (cited_templates evidence refs))])"

definition text_of :: "pv \<Rightarrow> string" where
  "text_of v = (case v of PStr s \<Rightarrow> s | _ \<Rightarrow> [])"

definition list_at :: "(string \<times> pv) list \<Rightarrow> string \<Rightarrow> pv list" where
  "list_at d key = (case dget d key of PList xs \<Rightarrow> xs | _ \<Rightarrow> [])"

definition block_texts :: "(string \<times> pv) list \<Rightarrow> string list" where
  "block_texts b = map text_of (dget b ''text'' # list_at b ''missing_evidence'' @ list_at b ''manual_checks'')"

definition literals_known :: "string \<Rightarrow> string list \<Rightarrow> bool" where
  "literals_known source texts =
     (let known = findall literal source in list_all (\<lambda>t. list_all (\<lambda>x. x \<in> set known) (findall literal t)) texts)"

text \<open>\<open>whole\<close> says that the assessment has the two keys that the schema of a block is built with.\<close>

definition check_block :: "pv \<Rightarrow> bool \<Rightarrow> pv list \<Rightarrow> pv \<Rightarrow> unit res" where
  "check_block evidence whole referenced block =
     (case block of
        PDict b \<Rightarrow>
          (case find (\<lambda>(k, _). PStr k = dget b ''kind'') analysis_kinds of
             None \<Rightarrow> if hashable (dget b ''kind'') then agentic ''agent_analysis_invalid'' else Inl TypeErr
           | Some (kind, status) \<Rightarrow>
               if dget b ''status'' \<noteq> PStr status then agentic ''agent_analysis_invalid'' else
               bind_res (py_set (py_or (dget b ''fact_refs'') (PList []))) (\<lambda>refs.
               if \<not> py_distinct refs \<or> refs = [] \<or> \<not> py_subset refs referenced
                  \<or> \<not> py_subset refs (map (\<lambda>t. PStr (template_hash t)) (templates_of evidence))
                  \<or> (kind = ''association_hypothesis'' \<and> length refs < 2)
               then agentic ''agent_analysis_invalid''
               else if \<not> whole then Inl KeyErr else
               bind_res (validate_argument_schema block
                 (block_schema (map template_hash (templates_of evidence)) (kind, status))) (\<lambda>_.
               bind_res (dict_of evidence) (\<lambda>ev.
               if literals_known (source_text ev evidence (map text_of refs)) (block_texts b) then Inr ()
               else agentic ''agent_analysis_literal_invalid''))))
      | _ \<Rightarrow> agentic ''agent_analysis_invalid'')"

definition validate_analysis :: "pv \<Rightarrow> pv \<Rightarrow> unit res" where
  "validate_analysis value evidence =
     bind_res (bind_res (item_at value ''template_refs'') py_set) (\<lambda>referenced.
     bind_res (bind_res (item_at value ''analyses'') py_iter) (\<lambda>blocks.
     bind_res (dict_of value) (\<lambda>d.
     each_res (check_block evidence (dhas d ''role_id'' \<and> dhas d ''context_hash'') referenced) blocks)))"

text \<open>Every reference list holds distinct references to the material of the context.\<close>

definition check_references :: "(string \<times> pv) list \<Rightarrow> string \<Rightarrow> string list \<Rightarrow> unit res" where
  "check_references value field permitted =
     (let refs = list_at value field in
      if \<not> py_distinct refs \<or> \<not> py_subset refs (map PStr permitted) then agentic ''agent_assessment_reference_invalid''
      else Inr ())"

definition check_candidate_step :: "(string \<times> pv) list \<Rightarrow> plan_step \<Rightarrow> unit res" where
  "check_candidate_step value p =
     bind_res (get_of (ps_args p) ''feature'') (\<lambda>feature.
     if \<not> truthy feature then Inr () else
     bind_res (get_of feature ''template_hashes'') (\<lambda>hashes.
     bind_res (py_set (py_or hashes (PList []))) (\<lambda>refs.
     if py_subset refs (list_at value ''template_refs'') then Inr ()
     else agentic ''agent_assessment_reference_invalid'')))"

definition validate_assessment :: "pv \<Rightarrow> expert_context \<Rightarrow> plan_step list \<Rightarrow> pv res" where
  "validate_assessment assessment ctx steps =
     bind_res (bind_res (assessment_schema ctx) (validate_argument_schema assessment)) (\<lambda>_.
     bind_res (dict_of assessment) (\<lambda>value.
     if dget value ''role_id'' \<noteq> PStr (ec_role ctx) \<or> dget value ''context_hash'' \<noteq> PStr (ec_hash ctx)
     then agentic ''agent_assessment_scope_invalid'' else
     bind_res (map_res rule_reference (ec_rules ctx)) (\<lambda>references.
     let upstream = map up_artifact (ec_upstream ctx) in
     bind_res (check_references value ''template_refs'' (context_hashes ctx)) (\<lambda>_.
     bind_res (check_references value ''rule_refs'' references) (\<lambda>_.
     bind_res (check_references value ''upstream_refs'' upstream) (\<lambda>_.
     bind_res (if ec_role ctx \<noteq> ''feature_specialist'' then Inr ()
               else if \<not> py_subset (map PStr upstream) (list_at value ''upstream_refs'')
               then agentic ''agent_assessment_reference_invalid''
               else each_res (check_candidate_step value) steps) (\<lambda>_.
     bind_res (if ec_schema ctx = ''expert_context_v2'' then validate_fact_observations value (ec_evidence ctx)
               else Inr ()) (\<lambda>_.
     bind_res (if ec_schema ctx = ''expert_context_v3'' then validate_analysis assessment (ec_evidence ctx)
               else Inr ()) (\<lambda>_.
     bind_res (reject_provider_secrets assessment) (\<lambda>_. Inr assessment))))))))))"

end
