(* ===== verification/Expert_Build.thy ===== *)
theory Expert_Build
  imports Expert_Assessment
begin

text \<open>
  The opinions an expert inherits, the context it is given and the presentation of that context
  (\<open>completed_upstream\<close>, \<open>build_expert_context\<close> and \<open>expert_input_summary\<close> of \<open>agentic/evidence_context.py\<close>).
\<close>

subsection \<open>Opinions upstream\<close>

definition unless :: "bool \<Rightarrow> string \<Rightarrow> unit res" where
  "unless bad code = (if bad then agentic code else Inr ())"

lemma unless_Inr [res_simps]: "unless bad code = Inr u \<longleftrightarrow> \<not> bad"
  by (simp add: unless_def)

definition expert_artifacts :: "run_view \<Rightarrow> agent_artifact list" where
  "expert_artifacts v = filter (\<lambda>a. af_type a = ''expert_assessment_v1'') (rv_artifacts v)"

text \<open>The child belongs to the same entity and workflow, is the node it is cited as, and has completed.\<close>

definition foreign_child :: "agent_run \<Rightarrow> (string \<times> pv) list \<Rightarrow> (string \<times> pv) list \<Rightarrow> agent_run \<Rightarrow> (string \<times> pv) list \<Rightarrow> bool" where
  "foreign_child run snapshot ref child locked =
     (ag_status child \<notin> {RAwaiting, RCompleted} \<or> ag_source child \<noteq> ag_source run \<or> ag_entity child \<noteq> ag_entity run
      \<or> \<not> py_eq (dget locked ''workflow_run_id'') (dget snapshot ''workflow_run_id'')
      \<or> \<not> py_eq (dget locked ''workflow_node_id'') (dget ref ''node_id''))"

definition upstream_opinion_of ::
  "(string \<Rightarrow> string) \<Rightarrow> agent_run \<Rightarrow> (string \<times> pv) list \<Rightarrow> pv \<Rightarrow> string \<Rightarrow> 'z adb_scheme \<Rightarrow> pv \<Rightarrow> upstream_opinion res" where
  "upstream_opinion_of sha run snapshot evidence evidence_hash db ref_value =
     bind_res (dict_of ref_value) (\<lambda>ref.
     bind_res (get_run (str_or (dget ref ''child_agent_run_id'')) db) (\<lambda>view.
     let child = rv_run view in
     bind_res (dict_of (ag_snapshot child)) (\<lambda>locked.
     bind_res (unless (foreign_child run snapshot ref child locked) ''agent_upstream_scope_invalid'') (\<lambda>_.
     case expert_artifacts view of
       [artifact] \<Rightarrow>
         bind_res (dict_of (af_payload artifact)) (\<lambda>payload.
         bind_res (dict_of (py_or (dget payload ''scope'') (PDict []))) (\<lambda>scope.
         case dget payload ''model_response'' of
           PDict response \<Rightarrow>
             let hash = PStr (canonical_fingerprint sha (PDict response));
                 opinion = dget payload ''assessment'';
                 fields_of = (if dhas payload ''assessment'' then dict_of opinion else Inr [])
             in
             bind_res (unless (dget payload ''model_response_hash'' \<noteq> hash \<or> \<not> py_eq (dget response ''assessment'') opinion)
               ''agent_upstream_scope_invalid'') (\<lambda>_.
             bind_res fields_of (\<lambda>a.
             bind_res (unless (\<not> py_eq (dget a ''context_hash'') (dget payload ''context_hash''))
               ''agent_upstream_scope_invalid'') (\<lambda>_.
             bind_res (unless (dget payload ''origin'' \<noteq> PStr ''model'' \<or> dget scope ''evidence_hash'' \<noteq> PStr evidence_hash
               \<or> \<not> py_eq (dget scope ''cluster'') (cluster_of evidence) \<or> dget scope ''source_job_id'' \<noteq> PStr (ag_source run)
               \<or> dget scope ''entity_id'' \<noteq> PStr (ag_entity run)
               \<or> \<not> py_eq (dget a ''role_id'') (dget locked ''workflow_role_id'')) ''agent_upstream_scope_invalid'') (\<lambda>_.
             bind_res (item_at (PDict payload) ''assessment'') (\<lambda>_.
             bind_res (unless (dget a ''schema_version'' \<noteq> PStr ''expert_analysis_v3'') ''agent_upstream_scope_invalid'') (\<lambda>_.
             bind_res (validate_analysis opinion evidence) (\<lambda>_.
             bind_res (item_at (PDict locked) ''workflow_role_id'') (\<lambda>role.
             bind_res (py_iter (py_or (dget payload ''rule_bindings'') (PList []))) (\<lambda>bindings.
             Inr \<lparr>up_artifact = af_id artifact, up_run = ag_id child, up_role = role, up_assessment = opinion,
                  up_response_hash = hash, up_bindings = bindings\<rparr>)))))))))
         | _ \<Rightarrow> agentic ''agent_upstream_scope_invalid''))
     | _ \<Rightarrow> agentic ''agent_upstream_assessment_missing''))))"

definition completed_upstream ::
  "(string \<Rightarrow> string) \<Rightarrow> agent_run \<Rightarrow> pv \<Rightarrow> string \<Rightarrow> 'z adb_scheme \<Rightarrow> upstream_opinion list res" where
  "completed_upstream sha run evidence evidence_hash db =
     bind_res (dict_of (ag_snapshot run)) (\<lambda>snapshot.
     bind_res (py_iter (py_or (dget snapshot ''dependency_artifact_refs'') (PList []))) (\<lambda>refs.
     bind_res (map_res (upstream_opinion_of sha run snapshot evidence evidence_hash db) refs) (\<lambda>result.
     if dget snapshot ''workflow_role_id'' \<noteq> PStr ''feature_specialist'' then Inr result else
     bind_res (py_set (PList (map up_role result))) (\<lambda>role_ids.
     let wanted = [PStr ''evidence_specialist'', PStr ''rule_specialist''] in
     if py_subset role_ids wanted \<and> py_subset wanted role_ids then Inr result
     else agentic ''agent_upstream_assessment_missing''))))"

subsection \<open>The context\<close>

definition upstream_pv :: "upstream_opinion \<Rightarrow> pv" where
  "upstream_pv up =
     PDict [(''artifact_id'', PStr (up_artifact up)), (''producer_run_id'', PStr (up_run up)), (''role_id'', up_role up),
       (''assessment'', up_assessment up), (''model_response_hash'', up_response_hash up),
       (''rule_bindings'', PList (up_bindings up))]"

definition receipt_pv :: "read_receipt \<Rightarrow> pv" where
  "receipt_pv r =
     PDict [(''tool_call_id'', PStr (rd_call r)), (''tool_name'', PStr (rd_tool r)), (''result_hash'', PStr (rd_hash r))]"

text \<open>The three Chinese sentences of \<open>boundaries\<close> in UTF-8.\<close>

definition expert_boundaries :: "string list" where
  "expert_boundaries = map bytes [
     [0xE5, 0xB7, 0xA5, 0xE5, 0x85, 0xB7, 0xE6, 0x9D, 0x90, 0xE6, 0x96, 0x99, 0xE4, 0xB8, 0x8D, 0xE6, 0x98, 0xAF, 0xE6, 0xA8,
     0xA1, 0xE5, 0x9E, 0x8B, 0xE6, 0x84, 0x8F, 0xE8, 0xA7, 0x81, 0xEF, 0xBC, 0x9B, 0xE5, 0x8F, 0xAA, 0xE5, 0xBC, 0x95, 0xE7,
     0x94, 0xA8, 0xE6, 0x9C, 0xAC, 0xE4, 0xB8, 0x8A, 0xE4, 0xB8, 0x8B, 0xE6, 0x96, 0x87, 0xE7, 0x9C, 0x9F, 0xE5, 0xAE, 0x9E,
     0xE6, 0xA0, 0x87, 0xE8, 0xAF, 0x86, 0xE3, 0x80, 0x82],
     [0x61, 0x63, 0x74, 0x69, 0x76, 0x65, 0xE8, 0xA7, 0x84, 0xE5, 0x88, 0x99, 0xE5, 0x8F, 0xAA, 0xE6, 0x98, 0xAF, 0xE5, 0x8F,
     0x82, 0xE8, 0x80, 0x83, 0xEF, 0xBC, 0x9B, 0xE9, 0x9C, 0x80, 0xE7, 0x89, 0x88, 0xE6, 0x9C, 0xAC, 0x2F, 0xE9, 0x80, 0x82,
     0xE7, 0x94, 0xA8, 0xE6, 0x9D, 0xA1, 0xE4, 0xBB, 0xB6, 0xE5, 0x8F, 0x8A, 0xE5, 0x8E, 0x9F, 0x45, 0x76, 0x61, 0x6C, 0x75,
     0x61, 0x74, 0x6F, 0x72, 0xEF, 0xBC, 0x8C, 0xE4, 0xB8, 0x8D, 0xE8, 0x87, 0xAA, 0xE5, 0x8A, 0xA8, 0xE6, 0x89, 0xB9, 0xE5,
     0x87, 0x86, 0xE6, 0x88, 0x96, 0xE6, 0x8E, 0xA8, 0xE6, 0x96, 0xAD, 0xE6, 0xA0, 0xB9, 0xE5, 0x9B, 0xA0, 0xE3, 0x80, 0x82],
     [0xE6, 0x9C, 0xAA, 0xE7, 0x9F, 0xA5, 0xE5, 0x8E, 0x9F, 0xE5, 0x9B, 0xA0, 0x2F, 0xE5, 0xAE, 0x9E, 0xE9, 0x99, 0x85, 0xE5,
     0xBD, 0xB1, 0xE5, 0x93, 0x8D, 0x2F, 0xE6, 0x81, 0xA2, 0xE5, 0xA4, 0x8D, 0xE4, 0xBF, 0x9D, 0xE6, 0x8C, 0x81, 0xE6, 0x9C,
     0xAA, 0xE7, 0x9F, 0xA5, 0xEF, 0xBC, 0x9B, 0xE5, 0x80, 0x99, 0xE9, 0x80, 0x89, 0xE7, 0xAD, 0x89, 0xE5, 0xBE, 0x85, 0xE4,
     0xBA, 0xBA, 0xE5, 0xB7, 0xA5, 0xE5, 0xAE, 0xA1, 0xE6, 0x89, 0xB9, 0xE3, 0x80, 0x82]]"

definition max_expert_context_bytes :: nat where
  "max_expert_context_bytes = 64 * 1024"

definition context_entries :: "expert_context \<Rightarrow> fact list \<Rightarrow> (string \<times> pv) list" where
  "context_entries ctx facts =
     [(''schema_version'', PStr (ec_schema ctx)), (''role_id'', PStr (ec_role ctx)),
      (''scope'', PDict [(''source_job_id'', PStr (ec_source ctx)), (''entity_id'', PStr (ec_entity ctx)),
         (''cluster'', ec_cluster ctx), (''evidence_hash'', PStr (ec_evidence_hash ctx))]),
      (''evidence'', ec_evidence ctx), (''facts'', PList (map fact_pv facts)), (''approved_rules'', ec_rules_value ctx),
      (''read_receipts'', PList (map receipt_pv (ec_reads ctx))),
      (''upstream_assessments'', PList (map upstream_pv (ec_upstream ctx))),
      (''boundaries'', PList (map PStr expert_boundaries))]"

definition context_pv :: "expert_context \<Rightarrow> fact list \<Rightarrow> pv" where
  "context_pv ctx facts = PDict (context_entries ctx facts @ [(''context_hash'', PStr (ec_hash ctx))])"

definition build_expert_context ::
  "(string \<Rightarrow> string) \<Rightarrow> agent_run \<Rightarrow> pv \<Rightarrow> pv \<Rightarrow> read_receipt list \<Rightarrow> upstream_opinion list \<Rightarrow> string
     \<Rightarrow> expert_context res" where
  "build_expert_context sha run evidence rules reads upstream evidence_hash =
     bind_res (item_at (ag_snapshot run) ''workflow_role_id'') (\<lambda>role.
     bind_res (evidence_facts evidence) (\<lambda>facts.
     bind_res (bind_res (item_at rules ''items'') py_iter) (\<lambda>items.
     let ctx = \<lparr>ec_schema = ''expert_context_v3'', ec_role = py_str role, ec_source = ag_source run,
           ec_entity = ag_entity run, ec_cluster = cluster_of evidence, ec_evidence_hash = evidence_hash,
           ec_evidence = evidence, ec_rules = items, ec_rules_value = rules, ec_reads = reads, ec_upstream = upstream,
           ec_hash = []\<rparr>;
         entries = PDict (context_entries ctx facts)
     in bind_res (reject_provider_secrets entries) (\<lambda>_.
        let full = ctx\<lparr>ec_hash := canonical_fingerprint sha entries\<rparr> in
        if max_expert_context_bytes < length (spaced_json (context_pv full facts))
        then agentic ''agent_expert_context_too_large'' else Inr full))))"

subsection \<open>The presentation for the model\<close>

text \<open>\<open>groups.setdefault(anomaly_type, []).append(template_ref)\<close>, sorted by the type.\<close>

fun group_facts :: "(string \<times> string list) list \<Rightarrow> fact list \<Rightarrow> (string \<times> string list) list" where
  "group_facts groups [] = groups"
| "group_facts groups (f # fs) =
     group_facts
       (if fc_type f \<in> set (map fst groups)
        then map (\<lambda>(k, refs). (k, if k = fc_type f then refs @ [fc_ref f] else refs)) groups
        else groups @ [(fc_type f, [fc_ref f])]) fs"

definition presentation_boundary :: string where
  "presentation_boundary = bytes [
     0x65, 0x76, 0x69, 0x64, 0x65, 0x6E, 0x63, 0x65, 0x5F, 0x67, 0x72, 0x6F, 0x75, 0x70, 0x73, 0xE4, 0xBB, 0x85, 0xE6, 0x8C,
     0x89, 0xE5, 0x8E, 0x9F, 0xE5, 0xBC, 0x82, 0xE5, 0xB8, 0xB8, 0xE7, 0xB1, 0xBB, 0xE5, 0x9E, 0x8B, 0xE5, 0x88, 0x86, 0xE7,
     0xBB, 0x84, 0xEF, 0xBC, 0x8C, 0xE6, 0x9C, 0xAA, 0xE7, 0x9F, 0xA5, 0xE7, 0xB1, 0xBB, 0xE5, 0x9E, 0x8B, 0xE9, 0x80, 0x90,
     0xE6, 0xA8, 0xA1, 0xE6, 0x9D, 0xBF, 0xE7, 0x8B, 0xAC, 0xE7, 0xAB, 0x8B, 0xEF, 0xBC, 0x9B, 0xE4, 0xB8, 0x8D, 0xE8, 0xA1,
     0xA8, 0xE7, 0xA4, 0xBA, 0xE5, 0x90, 0x8C, 0xE5, 0x9B, 0xA0, 0xE6, 0x88, 0x96, 0xE5, 0x90, 0x8C, 0xE4, 0xB8, 0x80, 0xE5,
     0xAF, 0xB9, 0xE8, 0xB1, 0xA1, 0xE3, 0x80, 0x82, 0x63, 0x6F, 0x6E, 0x74, 0x65, 0x78, 0x74, 0x5F, 0x68, 0x61, 0x73, 0x68,
     0xE7, 0xBB, 0x91, 0xE5, 0xAE, 0x9A, 0xE5, 0x8E, 0x9F, 0xE5, 0xA7, 0x8B, 0xE5, 0xAE, 0x8C, 0xE6, 0x95, 0xB4, 0xE4, 0xB8,
     0x8A, 0xE4, 0xB8, 0x8B, 0xE6, 0x96, 0x87, 0xEF, 0xBC, 0x9B, 0xE6, 0x9C, 0xAC, 0xE8, 0xA7, 0x86, 0xE5, 0x9B, 0xBE, 0xE4,
     0xBF, 0x9D, 0xE7, 0x95, 0x99, 0xE5, 0x8E, 0x9F, 0xE6, 0xA8, 0xA1, 0xE6, 0x9D, 0xBF, 0xE5, 0x85, 0xA8, 0xE9, 0x83, 0xA8,
     0xE5, 0xAD, 0x97, 0xE6, 0xAE, 0xB5, 0xEF, 0xBC, 0x8C, 0xE4, 0xBB, 0x85, 0xE6, 0xB6, 0x88, 0xE9, 0x99, 0xA4, 0x66, 0x61,
     0x63, 0x74, 0x73, 0xE4, 0xB8, 0xAD, 0xE7, 0x9A, 0x84, 0xE9, 0x87, 0x8D, 0xE5, 0xA4, 0x8D, 0xE6, 0xAC, 0xA1, 0xE6, 0x95,
     0xB0, 0x2F, 0xE5, 0xBC, 0x95, 0xE7, 0x94, 0xA8, 0x2F, 0xE7, 0xB1, 0xBB, 0xE5, 0x9E, 0x8B, 0xE3, 0x80, 0x82, 0x6F, 0x62,
     0x6A, 0x65, 0x63, 0x74, 0x5F, 0x65, 0x76, 0x69, 0x64, 0x65, 0x6E, 0x63, 0x65, 0xE4, 0xB8, 0x8D, 0xE6, 0x98, 0xAF, 0xE5,
     0xAE, 0x8C, 0xE6, 0x95, 0xB4, 0xE5, 0x8F, 0x97, 0xE5, 0xBD, 0xB1, 0xE5, 0x93, 0x8D, 0xE5, 0xAF, 0xB9, 0xE8, 0xB1, 0xA1,
     0xE6, 0x99, 0xAE, 0xE6, 0x9F, 0xA5, 0xEF, 0xBC, 0x9B, 0xE5, 0xAE, 0x9E, 0xE9, 0x99, 0x85, 0xE6, 0xA0, 0xB9, 0xE5, 0x9B,
     0xA0, 0xE3, 0x80, 0x81, 0xE5, 0xBD, 0xB1, 0xE5, 0x93, 0x8D, 0xE5, 0x8F, 0x8A, 0xE6, 0x81, 0xA2, 0xE5, 0xA4, 0x8D, 0xE6,
     0x9C, 0xAA, 0xE7, 0x9F, 0xA5, 0xE3, 0x80, 0x82]"

definition present_context :: "expert_context \<Rightarrow> fact list \<Rightarrow> pv" where
  "present_context ctx facts =
     (let groups = sort_key fst (group_facts [] facts);
          kept = filter (\<lambda>(k, _). k \<noteq> ''facts'') (context_entries ctx facts @ [(''context_hash'', PStr (ec_hash ctx))])
      in PDict (kept @
        [(''object_evidence'', PDict (map (\<lambda>f. (fc_ref f, PDict [(''proven_object_count'', object_count f),
            (''object_ids'', PList (map PStr (fc_objects f)))])) facts)),
         (''evidence_groups'', PList (map (\<lambda>(k, refs). PDict [(''anomaly_type'', PStr k),
            (''template_refs'', PList (map PStr refs))]) groups)),
         (''presentation_boundary'', PStr presentation_boundary)]))"

text \<open>\<open>facts\<close> are the facts the context was built with; \<open>rest\<close> the other entries of the summary.\<close>

definition expert_input_summary :: "(string \<times> pv) list \<Rightarrow> expert_context \<Rightarrow> fact list \<Rightarrow> pv res" where
  "expert_input_summary rest ctx facts =
     (if ec_schema ctx \<noteq> ''expert_context_v3'' then Inr (PDict (dset rest ''expert_context'' (context_pv ctx facts))) else
      bind_res (validate_material (ec_evidence ctx) (ec_source ctx) (ec_entity ctx)
        (case ec_cluster ctx of PStr c \<Rightarrow> Some c | _ \<Rightarrow> None)) (\<lambda>_.
      bind_res (evidence_facts (ec_evidence ctx)) (\<lambda>fs.
      if fs \<noteq> facts then agentic ''agent_fact_invalid'' else
      let shown = PDict (dset rest ''expert_context'' (present_context ctx facts)) in
      bind_res (reject_provider_secrets shown) (\<lambda>_.
      if max_expert_context_bytes < length (spaced_json shown) then agentic ''agent_expert_context_too_large''
      else Inr shown))))"

subsection \<open>Goals\<close>

definition default_goal :: string where
  "default_goal = bytes [
     0xE6, 0x8F, 0x90, 0xE5, 0x8F, 0x96, 0xE5, 0x8F, 0xAF, 0xE5, 0xAE, 0xA1, 0xE6, 0x89, 0xB9, 0xE6, 0x97, 0xA5, 0xE5, 0xBF,
     0x97, 0xE7, 0x89, 0xB9, 0xE5, 0xBE, 0x81]"

definition base_goal :: "string \<Rightarrow> string" where
  "base_goal role_id =
     (if role_id = ''evidence_specialist'' then bytes [
     0xE6, 0x8C, 0x89, 0xE8, 0xBE, 0x93, 0xE5, 0x85, 0xA5, 0xE5, 0xBC, 0x82, 0xE5, 0xB8, 0xB8, 0xE5, 0x88, 0x86, 0xE7, 0xBB,
     0x84, 0xE8, 0xA7, 0xA3, 0xE9, 0x87, 0x8A, 0xE8, 0xAF, 0x81, 0xE6, 0x8D, 0xAE, 0xE6, 0x89, 0x80, 0xE6, 0x94, 0xAF, 0xE6,
     0x8C, 0x81, 0xE7, 0x9A, 0x84, 0xE9, 0xA3, 0x8E, 0xE9, 0x99, 0xA9, 0xE3, 0x80, 0x81, 0xE6, 0x9D, 0xA1, 0xE4, 0xBB, 0xB6,
     0xE5, 0x90, 0x8E, 0xE6, 0x9E, 0x9C, 0xE4, 0xB8, 0x8E, 0xE5, 0x85, 0xB7, 0xE4, 0xBD, 0x93, 0xE4, 0xBA, 0xBA, 0xE5, 0xB7,
     0xA5, 0xE6, 0xA0, 0xB8, 0xE6, 0x9F, 0xA5, 0xEF, 0xBC, 0x9B, 0xE5, 0x8C, 0xBA, 0xE5, 0x88, 0x86, 0xE6, 0x97, 0xA5, 0xE5,
     0xBF, 0x97, 0xE6, 0xAC, 0xA1, 0xE6, 0x95, 0xB0, 0xE3, 0x80, 0x81, 0xE5, 0x94, 0xAF, 0xE4, 0xB8, 0x80, 0xE5, 0xAF, 0xB9,
     0xE8, 0xB1, 0xA1, 0xE3, 0x80, 0x81, 0xE6, 0xA0, 0xB9, 0xE5, 0x9B, 0xA0, 0xE4, 0xB8, 0x8E, 0xE6, 0x81, 0xA2, 0xE5, 0xA4,
     0x8D, 0xE7, 0x9A, 0x84, 0xE6, 0x9C, 0xAA, 0xE7, 0x9F, 0xA5, 0xE8, 0xBE, 0xB9, 0xE7, 0x95, 0x8C]
      else if role_id = ''rule_specialist'' then bytes [
     0xE6, 0x8C, 0x89, 0xE8, 0xBE, 0x93, 0xE5, 0x85, 0xA5, 0xE5, 0xBC, 0x82, 0xE5, 0xB8, 0xB8, 0xE5, 0x88, 0x86, 0xE7, 0xBB,
     0x84, 0xE5, 0xAE, 0xA1, 0xE9, 0x98, 0x85, 0xE5, 0xB7, 0xB2, 0xE6, 0x8F, 0x90, 0xE4, 0xBE, 0x9B, 0xE6, 0x89, 0xB9, 0xE5,
     0x87, 0x86, 0xE8, 0xA7, 0x84, 0xE5, 0x88, 0x99, 0xE7, 0x9A, 0x84, 0xE9, 0x80, 0x82, 0xE7, 0x94, 0xA8, 0xE6, 0x9D, 0xA1,
     0xE4, 0xBB, 0xB6, 0xE5, 0x92, 0x8C, 0xE8, 0xAF, 0x81, 0xE6, 0x8D, 0xAE, 0xE7, 0xBC, 0xBA, 0xE5, 0x8F, 0xA3, 0xEF, 0xBC,
     0x8C, 0xE8, 0xAF, 0xB4, 0xE6, 0x98, 0x8E, 0xE9, 0xA3, 0x8E, 0xE9, 0x99, 0xA9, 0xE3, 0x80, 0x81, 0xE6, 0x9D, 0xA1, 0xE4,
     0xBB, 0xB6, 0xE5, 0x90, 0x8E, 0xE6, 0x9E, 0x9C, 0xE4, 0xB8, 0x8E, 0xE5, 0x85, 0xB7, 0xE4, 0xBD, 0x93, 0xE4, 0xBA, 0xBA,
     0xE5, 0xB7, 0xA5, 0xE6, 0xA0, 0xB8, 0xE6, 0x9F, 0xA5, 0xEF, 0xBC, 0x9B, 0xE6, 0x97, 0xA0, 0xE5, 0x8F, 0xAF, 0xE5, 0xBC,
     0x95, 0xE7, 0x94, 0xA8, 0xE8, 0xA7, 0x84, 0xE5, 0x88, 0x99, 0xE6, 0x97, 0xB6, 0xE6, 0x98, 0x8E, 0xE7, 0xA1, 0xAE, 0xE6,
     0x9F, 0xA5, 0xE8, 0xAF, 0xA2, 0xE8, 0x8C, 0x83, 0xE5, 0x9B, 0xB4, 0xE8, 0xBE, 0xB9, 0xE7, 0x95, 0x8C]
      else bytes [
     0xE7, 0xBB, 0x93, 0xE5, 0x90, 0x88, 0xE6, 0x9C, 0xAC, 0xE5, 0xAE, 0x9E, 0xE4, 0xBD, 0x93, 0xE4, 0xB8, 0xA4, 0xE4, 0xB8,
     0xAA, 0xE5, 0xB7, 0xB2, 0xE5, 0xAE, 0x8C, 0xE6, 0x88, 0x90, 0xE4, 0xB8, 0x93, 0xE5, 0xAE, 0xB6, 0xE6, 0x84, 0x8F, 0xE8,
     0xA7, 0x81, 0xEF, 0xBC, 0x8C, 0xE6, 0x8F, 0x90, 0xE5, 0x8F, 0x96, 0xE8, 0xAF, 0x81, 0xE6, 0x8D, 0xAE, 0xE6, 0x94, 0xAF,
     0xE6, 0x8C, 0x81, 0xE7, 0x9A, 0x84, 0xE5, 0xBE, 0x85, 0xE4, 0xBA, 0xBA, 0xE5, 0xB7, 0xA5, 0xE5, 0xAE, 0xA1, 0xE6, 0x89,
     0xB9, 0xE6, 0x97, 0xA5, 0xE5, 0xBF, 0x97, 0xE7, 0x89, 0xB9, 0xE5, 0xBE, 0x81, 0xEF, 0xBC, 0x8C, 0xE4, 0xBF, 0x9D, 0xE7,
     0x95, 0x99, 0xE4, 0xB8, 0x8D, 0xE5, 0x90, 0x8C, 0xE5, 0xBC, 0x82, 0xE5, 0xB8, 0xB8, 0xE5, 0x8F, 0x8A, 0xE5, 0x85, 0xB6,
     0xE5, 0x8E, 0x9F, 0xE5, 0x9B, 0xA0, 0xE8, 0xBE, 0xB9, 0xE7, 0x95, 0x8C])"

text \<open>The goal a workflow gives its nodes by default, and the words in front of an additional goal.\<close>

definition role_goal :: "string \<Rightarrow> string" where
  "role_goal role_id = bytes [0xE4, 0xBB, 0xA5] @ role_id @ bytes [
     0xE8, 0xA7, 0x92, 0xE8, 0x89, 0xB2, 0xE5, 0xA4, 0x84, 0xE7, 0x90, 0x86, 0xE5, 0xBD, 0x93, 0xE5, 0x89, 0x8D, 0xE9, 0xA3,
     0x8E, 0xE9, 0x99, 0xA9, 0xE5, 0xAE, 0x9E, 0xE4, 0xBD, 0x93]"

definition extra_goal :: string where
  "extra_goal = bytes [0xEF, 0xBC, 0x9B, 0xE8, 0xA1, 0xA5, 0xE5, 0x85, 0x85, 0xE7, 0x9B, 0xAE, 0xE6, 0xA0, 0x87, 0xEF, 0xBC, 0x9A]"

definition expert_goal :: "string \<Rightarrow> pv \<Rightarrow> string" where
  "expert_goal role_id goal =
     (let base = base_goal role_id; supplied = py_strip (str_or goal) in
      if supplied = [] \<or> supplied \<in> {default_goal, role_goal role_id, base} then base
      else base @ extra_goal @ supplied)"

end
