(* ===== verification/Agent_Compiler.thy ===== *)
theory Agent_Compiler
  imports Agent_Scope
begin

text \<open>
  The compiler of agent workflows (\<open>agentic/compiler.py\<close>, \<open>agentic/roles.py\<close>, \<open>agentic/workflow_models.py\<close>):
  the checks on the submitted document, the roles of its nodes, and the layers of nodes that may
  run in parallel. A set of dependencies is the list of its elements.
\<close>

subsection \<open>Roles\<close>

record agent_role =
  ar_id :: string
  ar_tools :: "string list"
  ar_steps :: int
  ar_calls :: int
  ar_timeout :: fl

text \<open>\<open>{role.role_id: role for role in roles}\<close>: the last role with an identifier wins.\<close>

definition role_get :: "agent_role list \<Rightarrow> string \<Rightarrow> agent_role option" where
  "role_get roles k = find (\<lambda>r. ar_id r = k) (rev roles)"

definition fixed_roles :: "agent_role list" where
  "fixed_roles =
     [\<lparr>ar_id = ''evidence_specialist'', ar_tools = [''get_sanitized_evidence''], ar_steps = 3, ar_calls = 4,
        ar_timeout = FFin 120 0\<rparr>,
      \<lparr>ar_id = ''rule_specialist'',
        ar_tools = [''get_sanitized_evidence'', ''find_approved_rules'', ''inspect_knowledge_assets''], ar_steps = 4,
        ar_calls = 6, ar_timeout = FFin 120 0\<rparr>,
      \<lparr>ar_id = ''feature_specialist'',
        ar_tools = [''get_sanitized_evidence'', ''find_approved_rules'', ''evaluate_candidate'', ''register_feature_candidate''],
        ar_steps = 6, ar_calls = 10, ar_timeout = FFin 180 0\<rparr>]"

definition build_role_registry :: "string list option \<Rightarrow> agent_role list res" where
  "build_role_registry allowed_roles =
     (case allowed_roles of
        None \<Rightarrow> Inr fixed_roles
      | Some allowed \<Rightarrow>
          let selected = filter (\<lambda>r. ar_id r \<in> set allowed) fixed_roles in
          if selected = [] \<or> length selected \<noteq> length (remdups allowed) then Inl ValueErr else Inr selected)"

subsection \<open>Data\<close>

record node_def =
  nd_id :: string
  nd_role :: string
  nd_deps :: "string list"
  nd_tools :: "string list"
  nd_steps :: int
  nd_calls :: int
  nd_timeout :: fl

record workflow_limits =
  wl_nodes :: int
  wl_concurrency :: int
  wl_calls :: int
  wl_timeout :: fl
  wl_attempts :: int

record workflow_budget =
  wb_nodes :: int
  wb_concurrency :: int
  wb_calls :: int
  wb_timeout :: fl

record compiled_workflow =
  cw_schema :: string
  cw_name :: string
  cw_description :: string
  cw_nodes :: "node_def list"
  cw_budget :: workflow_budget
  cw_attempts :: int
  cw_order :: "string list"
  cw_layers :: "string list list"

definition default_limits :: workflow_limits where
  "default_limits = \<lparr>wl_nodes = 20, wl_concurrency = 4, wl_calls = 100, wl_timeout = FFin 3600 0, wl_attempts = 3\<rparr>"

subsection \<open>The budget\<close>

definition positive_int :: "pv \<Rightarrow> int res" where
  "positive_int v =
     (case v of
        PBool _ \<Rightarrow> agentic ''workflow_budget_invalid''
      | _ \<Rightarrow> (case py_int v of
           Inl _ \<Rightarrow> agentic ''workflow_budget_invalid''
         | Inr n \<Rightarrow> if n \<le> 0 then agentic ''workflow_budget_invalid'' else Inr n))"

definition keys_are :: "(string \<times> pv) list \<Rightarrow> string list \<Rightarrow> bool" where
  "keys_are d ks = (set (map fst d) = set ks)"

definition read_budget ::
  "workflow_limits \<Rightarrow> nat \<Rightarrow> (string \<times> pv) list \<Rightarrow> (string \<times> pv) list \<Rightarrow> (workflow_budget \<times> int) res" where
  "read_budget limits n raw_budget retry =
     bind_res (positive_int (dget raw_budget ''max_nodes'')) (\<lambda>max_nodes.
     bind_res (positive_int (dget raw_budget ''max_concurrency'')) (\<lambda>concurrency.
     bind_res (positive_int (dget raw_budget ''max_tool_calls'')) (\<lambda>max_tool_calls.
     bind_res (positive_int (dget retry ''max_attempts'')) (\<lambda>attempts.
     bind_res (case py_float (dget raw_budget ''timeout_seconds'') of
         Inl _ \<Rightarrow> agentic ''workflow_budget_invalid'' | Inr t \<Rightarrow> Inr t) (\<lambda>timeout.
     if int n > max_nodes \<or> max_nodes > wl_nodes limits \<or> concurrency > wl_concurrency limits
        \<or> concurrency > int n \<or> max_tool_calls > wl_calls limits
        \<or> fl_le timeout fl_zero \<or> fl_lt (wl_timeout limits) timeout \<or> attempts > wl_attempts limits
     then agentic ''workflow_budget_invalid''
     else Inr (\<lparr>wb_nodes = max_nodes, wb_concurrency = concurrency, wb_calls = max_tool_calls, wb_timeout = timeout\<rparr>,
               attempts))))))"

subsection \<open>The nodes\<close>

definition lower_or_digit :: "char \<Rightarrow> bool" where
  "lower_or_digit c = (let x = of_char c :: nat in (97 \<le> x \<and> x \<le> 122) \<or> (48 \<le> x \<and> x \<le> 57))"

text \<open>\<open>[a-z0-9][a-z0-9-]{0,63}\<close>.\<close>

definition node_id_ok :: "string \<Rightarrow> bool" where
  "node_id_ok s =
     (case s of [] \<Rightarrow> False
      | c # cs \<Rightarrow> lower_or_digit c \<and> length cs \<le> 63 \<and> list_all (\<lambda>d. lower_or_digit d \<or> d = CHR ''-'') cs)"

definition read_node :: "agent_role list \<Rightarrow> string list \<Rightarrow> pv \<Rightarrow> node_def res" where
  "read_node roles seen raw =
     (case raw of
        PDict d \<Rightarrow>
          if \<not> keys_are d [''node_id'', ''role_id'', ''depends_on''] then agentic ''workflow_schema_invalid'' else
          (case dget d ''depends_on'' of
             PList deps \<Rightarrow>
               let node_id = py_str (dget d ''node_id'') in
               if \<not> node_id_ok node_id then agentic ''workflow_schema_invalid''
               else if node_id \<in> set seen then agentic ''workflow_node_duplicate''
               else (case role_get roles (py_str (dget d ''role_id'')) of
                   None \<Rightarrow> agentic ''workflow_role_unknown''
                 | Some role \<Rightarrow>
                     Inr \<lparr>nd_id = node_id, nd_role = ar_id role, nd_deps = map py_str deps, nd_tools = ar_tools role,
                          nd_steps = ar_steps role, nd_calls = ar_calls role, nd_timeout = ar_timeout role\<rparr>)
           | _ \<Rightarrow> agentic ''workflow_schema_invalid'')
      | _ \<Rightarrow> agentic ''workflow_schema_invalid'')"

fun read_nodes :: "agent_role list \<Rightarrow> string list \<Rightarrow> pv list \<Rightarrow> node_def list res" where
  "read_nodes roles seen [] = Inr []"
| "read_nodes roles seen (raw # raws) =
     bind_res (read_node roles seen raw) (\<lambda>node.
     bind_res (read_nodes roles (nd_id node # seen) raws) (\<lambda>nodes. Inr (node # nodes)))"

fun check_dependencies :: "string list \<Rightarrow> node_def list \<Rightarrow> unit res" where
  "check_dependencies identifiers [] = Inr ()"
| "check_dependencies identifiers (node # nodes) =
     (if nd_id node \<in> set (nd_deps node) \<or> \<not> distinct (nd_deps node) then agentic ''workflow_cycle''
      else if \<not> list_all (\<lambda>d. d \<in> set identifiers) (nd_deps node) then agentic ''workflow_dependency_unknown''
      else check_dependencies identifiers nodes)"

subsection \<open>The layers\<close>

text \<open>The position of a node in the document, the sort key of a layer.\<close>

fun order_hint :: "string list \<Rightarrow> string \<Rightarrow> nat" where
  "order_hint [] k = 0"
| "order_hint (x # xs) k = (if x = k then 0 else Suc (order_hint xs k))"

definition ready_ids :: "(string \<times> string list) list \<Rightarrow> string list" where
  "ready_ids remaining = map fst (filter (\<lambda>(_, deps). deps = []) remaining)"

definition next_remaining :: "string list \<Rightarrow> (string \<times> string list) list \<Rightarrow> (string \<times> string list) list" where
  "next_remaining ready remaining =
     map (\<lambda>(k, deps). (k, filter (\<lambda>d. d \<notin> set ready) deps)) (filter (\<lambda>(k, _). k \<notin> set ready) remaining)"

lemma next_remaining_less: "ready_ids remaining \<noteq> [] \<Longrightarrow> set ready = set (ready_ids remaining) \<Longrightarrow>
  length (next_remaining ready remaining) < length remaining"
proof -
  assume "ready_ids remaining \<noteq> []" and r: "set ready = set (ready_ids remaining)"
  then obtain p where p: "p \<in> set remaining" "snd p = []"
    by (auto simp: ready_ids_def filter_empty_conv)
  then have "fst p \<in> set ready" by (force simp: r ready_ids_def)
  with p(1) show ?thesis
    unfolding next_remaining_def length_map
    by (intro length_filter_less [of p]) auto
qed

lemma next_remaining_sorted:
  "ready_ids (p # ps) \<noteq> [] \<Longrightarrow>
   length (next_remaining (sort_key f (ready_ids (p # ps))) (p # ps)) < Suc (length ps)"
  using next_remaining_less [of "p # ps" "sort_key f (ready_ids (p # ps))"] by simp

function (sequential) plan_layers :: "string list \<Rightarrow> (string \<times> string list) list \<Rightarrow> string list list res" where
  "plan_layers ids [] = Inr []"
| "plan_layers ids remaining =
     (if ready_ids remaining = [] then agentic ''workflow_cycle''
      else let ready = sort_key (order_hint ids) (ready_ids remaining)
        in bind_res (plan_layers ids (next_remaining ready remaining)) (\<lambda>layers. Inr (ready # layers)))"
  by pat_completeness auto
termination
  by (relation "measure (\<lambda>(_, remaining). length remaining)") (simp_all add: next_remaining_sorted)

text \<open>
  \<open>compile_workflow\<close> in its two halves: reading the document up to the list of nodes, and ordering the nodes.
\<close>

definition read_workflow ::
  "pv \<Rightarrow> agent_role list \<Rightarrow> workflow_limits
     \<Rightarrow> ((string \<times> pv) list \<times> (workflow_budget \<times> int) \<times> node_def list) res" where
  "read_workflow value roles limits =
     (case value of
        PDict v \<Rightarrow>
          if \<not> keys_are v [''schema_version'', ''name'', ''description'', ''nodes'', ''budget'', ''retry_policy'']
          then agentic ''workflow_schema_invalid'' else
          (case (dget v ''nodes'', dget v ''budget'', dget v ''retry_policy'') of
             (PList raw_nodes, PDict raw_budget, PDict retry) \<Rightarrow>
               if raw_nodes = []
                  \<or> \<not> keys_are raw_budget [''max_nodes'', ''max_concurrency'', ''max_tool_calls'', ''timeout_seconds'']
                  \<or> \<not> keys_are retry [''max_attempts'']
               then agentic ''workflow_schema_invalid'' else
               bind_res (read_budget limits (length raw_nodes) raw_budget retry) (\<lambda>budget.
               bind_res (read_nodes roles [] raw_nodes) (\<lambda>nodes. Inr (v, budget, nodes)))
           | _ \<Rightarrow> agentic ''workflow_schema_invalid'')
      | _ \<Rightarrow> agentic ''workflow_schema_invalid'')"

definition order_workflow ::
  "(string \<times> pv) list \<Rightarrow> workflow_budget \<times> int \<Rightarrow> node_def list \<Rightarrow> compiled_workflow res" where
  "order_workflow v budget nodes =
     bind_res (check_dependencies (map nd_id nodes) nodes) (\<lambda>_.
     bind_res (plan_layers (map nd_id nodes) (map (\<lambda>n. (nd_id n, nd_deps n)) nodes)) (\<lambda>layers.
     let order = concat layers in
     Inr \<lparr>cw_schema = py_str (dget v ''schema_version''), cw_name = py_str (dget v ''name''),
          cw_description = py_str (dget v ''description''),
          cw_nodes = map (\<lambda>k. the (find (\<lambda>n. nd_id n = k) nodes)) order,
          cw_budget = fst budget, cw_attempts = snd budget, cw_order = order, cw_layers = layers\<rparr>))"

definition compile_workflow ::
  "pv \<Rightarrow> agent_role list \<Rightarrow> workflow_limits \<Rightarrow> compiled_workflow res" where
  "compile_workflow value roles limits =
     bind_res (read_workflow value roles limits) (\<lambda>(v, budget, nodes). order_workflow v budget nodes)"

end
