(* ===== verification/Agent_Plans.thy ===== *)
theory Agent_Plans
  imports Expert_Build Agent_Compiler
begin

text \<open>
  Plans (\<open>agentic/planner.py\<close>): the tools an expert is offered, the schema the model is asked to fill, the checks on
  what it answers, and the two planners. The model itself is external: \<open>model\<close> maps the payload and the schema to an answer
  or an exception, for which the accounting of \<open>run_model_attempt\<close> is transparent.
\<close>

definition plan_invalid :: "'a res" where
  "plan_invalid = agentic ''agent_plan_invalid''"

lemma plan_invalid_neq [simp]: "plan_invalid \<noteq> Inr x"
  by (simp add: plan_invalid_def)

subsection \<open>Sensitive arguments\<close>

definition plan_sensitive_keys :: "string list" where
  "plan_sensitive_keys = [''samples'', ''raw_sample'', ''raw_log'', ''raw_logs'', ''raw_message'', ''message'', ''api_key'',
     ''token'', ''password'', ''secret'', ''dsn'', ''authorization'', ''cookie'']"

fun plan_sensitive :: "pv \<Rightarrow> bool" where
  "plan_sensitive (PDict d) = list_ex (\<lambda>(k, v). py_lower k \<in> set plan_sensitive_keys \<or> plan_sensitive v) d"
| "plan_sensitive (PList xs) = list_ex plan_sensitive xs"
| "plan_sensitive _ = False"

subsection \<open>The tools of an expert\<close>

definition expert_roles :: "string list" where
  "expert_roles = [''evidence_specialist'', ''rule_specialist'', ''feature_specialist'']"

text \<open>\<open>if field in properties: properties[field] = reference_array_schema(identities, minimum=1)\<close>.\<close>

definition narrow :: "string \<Rightarrow> string list \<Rightarrow> (string \<times> pv) list \<Rightarrow> (string \<times> pv) list" where
  "narrow field identities properties =
     (if dhas properties field then dset properties field (reference_array_schema identities 1) else properties)"

definition component_names :: "pv \<Rightarrow> string list res" where
  "component_names evidence =
     map_res (\<lambda>v. case v of PStr s \<Rightarrow> Inr s | _ \<Rightarrow> Inl TypeErr)
       (filter truthy (map (\<lambda>t. dget t ''component'') (templates_of evidence)))"

definition narrow_tool :: "string list \<Rightarrow> string list \<Rightarrow> (string \<times> pv) list \<Rightarrow> pv res" where
  "narrow_tool hashes components tool =
     bind_res (if dhas tool ''argument_schema'' then dict_of (dget tool ''argument_schema'') else Inr []) (\<lambda>schema.
     bind_res (if dhas schema ''properties'' then dict_of (dget schema ''properties'') else Inr []) (\<lambda>outer.
     case dget outer ''feature'' of
       PDict feature \<Rightarrow>
         bind_res (dict_of (py_or (dget feature ''properties'') (PDict []))) (\<lambda>properties.
         if properties = [] then Inr (PDict tool) else
         let feature' = PDict (dset feature ''properties''
               (PDict (narrow ''components'' components (narrow ''template_hashes'' hashes properties))))
         in Inr (PDict (dset tool ''argument_schema'' (PDict (dset schema ''properties'' (PDict (dset outer ''feature'' feature')))))))
     | _ \<Rightarrow> Inr (PDict tool)))"

fun expert_tools :: "string list \<Rightarrow> string list \<Rightarrow> pv list \<Rightarrow> pv list res" where
  "expert_tools hashes components [] = Inr []"
| "expert_tools hashes components (t # ts) =
     bind_res (dict_of t) (\<lambda>tool.
     if dget tool ''name'' \<notin> {PStr ''evaluate_candidate'', PStr ''register_feature_candidate''}
     then expert_tools hashes components ts
     else bind_res (narrow_tool hashes components tool) (\<lambda>t'.
          bind_res (expert_tools hashes components ts) (\<lambda>ts'. Inr (t' # ts'))))"

definition expert_tool_descriptions :: "pv list \<Rightarrow> expert_context option \<Rightarrow> pv list res" where
  "expert_tool_descriptions tools context =
     (case context of
        None \<Rightarrow> Inr tools
      | Some ctx \<Rightarrow>
          if ec_role ctx \<notin> set expert_roles then plan_invalid
          else if ec_role ctx \<noteq> ''feature_specialist'' then Inr []
          else bind_res (component_names (ec_evidence ctx)) (\<lambda>components.
               expert_tools (context_hashes ctx) components tools))"

subsection \<open>The schema of a plan\<close>

definition step_id_schema :: pv where
  "step_id_schema = PDict [(''type'', PStr ''string''), (''pattern'', PStr ''^[a-z0-9][a-z0-9-]{0,63}$'')]"

definition step_schema :: "string \<Rightarrow> pv \<Rightarrow> pv" where
  "step_schema name arguments =
     closed_object [(''step_id'', step_id_schema), (''tool_name'', PDict [(''const'', PStr name)]), (''arguments'', arguments)]"

definition schema_or_object :: "pv \<Rightarrow> pv" where
  "schema_or_object v = (case v of PDict _ \<Rightarrow> v | _ \<Rightarrow> PDict [(''type'', PStr ''object'')])"

fun step_schemas :: "pv list \<Rightarrow> pv list res" where
  "step_schemas [] = Inr []"
| "step_schemas (t # ts) =
     bind_res (dict_of t) (\<lambda>tool.
     bind_res (step_schemas ts) (\<lambda>pairs.
     case dget tool ''name'' of
       PStr name \<Rightarrow> Inr (if name = [] then pairs else step_schema name (schema_or_object (dget tool ''argument_schema'')) # pairs)
     | _ \<Rightarrow> Inr pairs))"

definition steps_schema :: "pv list \<Rightarrow> int option \<Rightarrow> expert_context option \<Rightarrow> pv" where
  "steps_schema pairs max_steps context =
     (let most = (case context of
            Some ctx \<Rightarrow> if ec_role ctx \<noteq> ''feature_specialist'' then Some 0 else max_steps
          | None \<Rightarrow> max_steps)
      in PDict ([(''type'', PStr ''array''),
           (''items'', if pairs = [] then PDict [] else PDict [(''oneOf'', PList pairs)]), (''uniqueItems'', PBool True)]
         @ (case most of None \<Rightarrow> [] | Some n \<Rightarrow> [(''maxItems'', PInt n)])
         @ [(''minItems'', PInt (if context = None then 1 else 0))]))"

definition build_plan_schema :: "pv list \<Rightarrow> int option \<Rightarrow> expert_context option \<Rightarrow> pv res" where
  "build_plan_schema tools max_steps context =
     bind_res (expert_tool_descriptions tools context) (\<lambda>offered.
     bind_res (step_schemas offered) (\<lambda>pairs.
     let base = [(''goal'', nonempty_text), (''steps'', steps_schema pairs max_steps context)] in
     case context of
       None \<Rightarrow> Inr (closed_object base)
     | Some ctx \<Rightarrow> bind_res (assessment_schema ctx) (\<lambda>a. Inr (closed_object (base @ [(''assessment'', a)])))))"

subsection \<open>Checking a plan\<close>

definition check_plan_step :: "string list \<Rightarrow> plan_step \<Rightarrow> unit res" where
  "check_plan_step allowed_tools p =
     (case ps_args p of
        PDict _ \<Rightarrow>
          if \<not> node_id_ok (ps_id p) \<or> ps_tool p \<notin> set allowed_tools then plan_invalid
          else if plan_sensitive (ps_args p) then agentic ''agent_plan_sensitive'' else Inr ()
      | _ \<Rightarrow> plan_invalid)"

definition validate_plan :: "agent_plan \<Rightarrow> string list \<Rightarrow> int \<Rightarrow> agent_plan res" where
  "validate_plan plan allowed_tools max_steps =
     (let n = int (length (pl_steps plan)); least = (if pl_assessment plan = None then 1 else 0) in
      if blank (pl_goal plan) \<or> n < least \<or> max_steps < n then plan_invalid
      else if \<not> distinct (map ps_id (pl_steps plan)) then plan_invalid
      else bind_res (each_res (check_plan_step allowed_tools) (pl_steps plan)) (\<lambda>_. Inr plan))"

definition tool_schemas :: "pv list \<Rightarrow> (string \<times> pv) list" where
  "tool_schemas tools =
     concat (map (\<lambda>t. case t of
         PDict d \<Rightarrow> (case dget d ''name'' of PStr name \<Rightarrow> [(name, schema_or_object (dget d ''argument_schema''))] | _ \<Rightarrow> [])
       | _ \<Rightarrow> []) tools)"

definition parse_step :: "(string \<times> pv) list \<Rightarrow> pv \<Rightarrow> plan_step res" where
  "parse_step schemas item =
     (case item of
        PDict d \<Rightarrow>
          if set (map fst d) \<noteq> {''step_id'', ''tool_name'', ''arguments''} then plan_invalid else
          (case (dget d ''step_id'', dget d ''tool_name'', dget d ''arguments'') of
             (PStr step_id, PStr tool_name, PDict arguments) \<Rightarrow>
               (case map_of (rev schemas) tool_name of
                  None \<Rightarrow> plan_invalid
                | Some schema \<Rightarrow>
                    (case validate_argument_schema (PDict arguments) schema of
                       Inl (AgenticErr _ _) \<Rightarrow> plan_invalid
                     | Inl e \<Rightarrow> Inl e
                     | Inr _ \<Rightarrow> Inr \<lparr>ps_id = step_id, ps_tool = tool_name, ps_args = PDict arguments\<rparr>))
           | _ \<Rightarrow> plan_invalid)
      | _ \<Rightarrow> plan_invalid)"

definition feature_of :: "pv \<Rightarrow> pv" where
  "feature_of arguments = (case arguments of PDict d \<Rightarrow> dget d ''feature'' | _ \<Rightarrow> PNone)"

text \<open>Steps come in pairs that evaluate and then register the same feature.\<close>

fun paired :: "plan_step list \<Rightarrow> bool" where
  "paired [] = True"
| "paired [_] = False"
| "paired (a # b # steps) =
     (ps_tool a = ''evaluate_candidate'' \<and> ps_tool b = ''register_feature_candidate''
      \<and> py_eq (feature_of (ps_args a)) (feature_of (ps_args b)) \<and> paired steps)"

definition expert_steps_ok :: "expert_context \<Rightarrow> plan_step list \<Rightarrow> bool" where
  "expert_steps_ok ctx steps = (if ec_role ctx = ''feature_specialist'' then paired steps else steps = [])"

definition parse_plan :: "pv \<Rightarrow> pv list \<Rightarrow> expert_context option \<Rightarrow> agent_plan res" where
  "parse_plan value tools context =
     (case value of
        PDict d \<Rightarrow>
          if set (map fst d) \<noteq> {''goal'', ''steps''} \<union> (if context = None then {} else {''assessment''}) then plan_invalid else
          (case (dget d ''goal'', dget d ''steps'') of
             (PStr goal, PList raw_steps) \<Rightarrow>
               bind_res (expert_tool_descriptions tools context) (\<lambda>offered.
               bind_res (map_res (parse_step (tool_schemas offered)) raw_steps) (\<lambda>steps.
               case context of
                 None \<Rightarrow> Inr \<lparr>pl_goal = goal, pl_steps = steps, pl_assessment = None, pl_output = None\<rparr>
               | Some ctx \<Rightarrow>
                   if \<not> expert_steps_ok ctx steps then plan_invalid else
                   bind_res (validate_assessment (dget d ''assessment'') ctx steps) (\<lambda>a.
                   Inr \<lparr>pl_goal = goal, pl_steps = steps, pl_assessment = Some a, pl_output = Some value\<rparr>)))
           | _ \<Rightarrow> plan_invalid)
      | _ \<Rightarrow> plan_invalid)"

subsection \<open>Planners\<close>

definition tool_names :: "pv list \<Rightarrow> string list" where
  "tool_names tools = map (\<lambda>t. case t of PDict d \<Rightarrow> py_str (dget d ''name'') | _ \<Rightarrow> []) tools"

definition fake_plan :: "agent_plan \<Rightarrow> pv list \<Rightarrow> int \<Rightarrow> agent_plan res" where
  "fake_plan plan tools max_steps = validate_plan plan (tool_names tools) max_steps"

text \<open>
  \<open>except AgenticError: raise\<close>, and any other exception as \<open>agent_plan_failed\<close> with status 502.
\<close>

definition as_plan_failure :: "'a res \<Rightarrow> 'a res" where
  "as_plan_failure m =
     (case m of
        Inl (AgenticErr code status) \<Rightarrow> Inl (AgenticErr code status)
      | Inl _ \<Rightarrow> Inl (AgenticErr ''agent_plan_failed'' 502)
      | Inr x \<Rightarrow> Inr x)"

definition remaining_steps :: "expert_context option \<Rightarrow> int \<Rightarrow> int" where
  "remaining_steps context max_steps =
     (case context of
        Some ctx \<Rightarrow> if ec_role ctx \<noteq> ''feature_specialist'' then 0 else max_steps
      | None \<Rightarrow> max_steps)"

text \<open>
  \<open>ModelAgentPlanner.plan\<close>: the summary is given by its entries and, for an expert, the context and the facts that its
  \<open>expert_context\<close> entry holds.
\<close>

definition shown_summary :: "(string \<times> pv) list \<Rightarrow> (expert_context \<times> fact list) option \<Rightarrow> pv res" where
  "shown_summary summary expert =
     (case expert of None \<Rightarrow> Inr (PDict summary) | Some (ctx, facts) \<Rightarrow> expert_input_summary summary ctx facts)"

definition model_plan ::
  "(pv \<Rightarrow> pv \<Rightarrow> pv res) \<Rightarrow> string \<Rightarrow> (string \<times> pv) list \<Rightarrow> (expert_context \<times> fact list) option \<Rightarrow> pv list \<Rightarrow> int
     \<Rightarrow> agent_plan res" where
  "model_plan model goal summary expert tools max_steps =
     (let context = map_option fst expert; n = remaining_steps context max_steps in
      bind_res (expert_tool_descriptions tools context) (\<lambda>offered.
      bind_res (shown_summary summary expert) (\<lambda>shown.
      let payload = PDict [(''goal'', PStr goal), (''evidence_summary'', shown), (''allowed_tools'', PList offered),
            (''max_steps'', PInt n)]
      in bind_res (build_plan_schema offered (Some n) context) (\<lambda>schema.
         bind_res (as_plan_failure (bind_res (model payload schema) (\<lambda>output. parse_plan output offered context))) (\<lambda>plan.
         validate_plan plan (tool_names offered) n)))))"

end
