(* ===== verification/Agent_Runtime.thy ===== *)
theory Agent_Runtime
  imports Agent_Plans
begin

text \<open>
  \<open>AgentRuntime\<close> (\<open>agentic/runtime.py\<close>) and the evidence and rule checks it calls (\<open>agentic/tools.py\<close>). An execution is a
  sequence of steps, each of which reads or writes the store in a transaction of its own, asks the clock, or calls code
  outside of this component. \<open>'a rt\<close> is a computation over the state: the store, the number of steps so far and a trace of
  what was loaded and executed. What the step number \<open>t\<close> meets is given by the environment:
  the clocks, a fresh identifier, the outcome of a tool handler and of the ledger around it, the current evidence, rules
  and parent workflow, the answer of the model, and what other processes do to the store before the step.
  Error summaries are not modelled; the code of the error stands for them.
\<close>

subsection \<open>Environment and state\<close>

datatype planner = FakePlanner agent_plan | ModelPlanner

record rt_env =
  en_clock :: "nat \<Rightarrow> string"
  en_mono :: "nat \<Rightarrow> int"                             \<comment> \<open>\<open>time.monotonic\<close>, in microseconds\<close>
  en_fresh :: "nat \<Rightarrow> string"
  en_other :: "nat \<Rightarrow> adb \<Rightarrow> adb"
  en_handler :: "nat \<Rightarrow> string \<Rightarrow> pv \<Rightarrow> pv res"
  en_ledger :: "nat \<Rightarrow> exc option"                     \<comment> \<open>what preparing the ledger entry of a call raises\<close>
  en_evidence :: "nat \<Rightarrow> pv res"                       \<comment> \<open>\<open>feature_jobs.get_agent_evidence\<close>\<close>
  en_rule :: "nat \<Rightarrow> string \<Rightarrow> (string \<times> pv) list option"   \<comment> \<open>\<open>repository.get_rule\<close>\<close>
  en_now_us :: "nat \<Rightarrow> int"                            \<comment> \<open>\<open>datetime.now(timezone.utc)\<close>\<close>
  en_parent :: "nat \<Rightarrow> string \<Rightarrow> string option"          \<comment> \<open>the status of a workflow run\<close>
  en_model :: "nat \<Rightarrow> pv \<Rightarrow> pv \<Rightarrow> pv res"
  en_sha :: "string \<Rightarrow> string"
  en_tools :: registry
  en_planner :: planner

record executed =
  xe_step :: string
  xe_tool :: string
  xe_args :: pv
  xe_outcome :: "pv res"

datatype trace_event =
    Loaded "agent_artifact list"      \<comment> \<open>the artifacts of the run when its steps begin\<close>
  | Executed executed                 \<comment> \<open>a handler was called\<close>

record rt_state =
  ex_db :: adb
  ex_tick :: nat
  ex_trace :: "trace_event list"

text \<open>A computation that may raise, over any state; an exception keeps the state.\<close>

type_synonym ('s, 'a) comp = "'s \<Rightarrow> 'a res \<times> 's"

type_synonym 'a rt = "(rt_state, 'a) comp"

definition rt_return :: "'a \<Rightarrow> ('s, 'a) comp" where
  "rt_return x s = (Inr x, s)"

definition rt_raise :: "exc \<Rightarrow> ('s, 'a) comp" where
  "rt_raise e s = (Inl e, s)"

definition rt_bind :: "('s, 'a) comp \<Rightarrow> ('a \<Rightarrow> ('s, 'b) comp) \<Rightarrow> ('s, 'b) comp" where
  "rt_bind m f s = (case m s of (Inl e, s') \<Rightarrow> (Inl e, s') | (Inr x, s') \<Rightarrow> f x s')"

definition rt_try :: "('s, 'a) comp \<Rightarrow> (exc \<Rightarrow> ('s, 'a) comp) \<Rightarrow> ('s, 'a) comp" where
  "rt_try m h s = (case m s of (Inl e, s') \<Rightarrow> h e s' | (Inr x, s') \<Rightarrow> (Inr x, s'))"

definition rt_res :: "'a res \<Rightarrow> ('s, 'a) comp" where
  "rt_res m s = (m, s)"

definition rt_when :: "bool \<Rightarrow> exc \<Rightarrow> ('s, unit) comp" where
  "rt_when c e = (if c then rt_raise e else rt_return ())"

definition code_error :: "string \<Rightarrow> exc" where
  "code_error code = AgenticErr code 422"

text \<open>One step that reads the environment, and one transaction on the store.\<close>

definition rt_ask :: "(nat \<Rightarrow> 'a res) \<Rightarrow> 'a rt" where
  "rt_ask f s = (f (ex_tick s), s\<lparr>ex_tick := Suc (ex_tick s)\<rparr>)"

definition on_store :: "rt_env \<Rightarrow> (nat \<Rightarrow> adb \<Rightarrow> (adb \<times> 'a) res) \<Rightarrow> 'a rt" where
  "on_store env f s =
     (let t = ex_tick s; db = en_other env t (ex_db s) in
      case f t db of
        Inl e \<Rightarrow> (Inl e, s\<lparr>ex_db := db, ex_tick := Suc t\<rparr>)
      | Inr (db', x) \<Rightarrow> (Inr x, s\<lparr>ex_db := db', ex_tick := Suc t\<rparr>))"

definition rt_trace :: "trace_event \<Rightarrow> unit rt" where
  "rt_trace e s = (Inr (), s\<lparr>ex_trace := ex_trace s @ [e]\<rparr>)"

subsection \<open>The calls of the repository\<close>

definition with_unit :: "adb res \<Rightarrow> (adb \<times> unit) res" where
  "with_unit m = bind_res m (\<lambda>db. Inr (db, ()))"

definition rt_get :: "rt_env \<Rightarrow> string \<Rightarrow> run_view rt" where
  "rt_get env run_id = on_store env (\<lambda>t db. bind_res (get_run run_id db) (\<lambda>v. Inr (db, v)))"

definition rt_transition ::
  "rt_env \<Rightarrow> string \<Rightarrow> run_status \<Rightarrow> run_status set \<Rightarrow> string option \<Rightarrow> string option \<Rightarrow> run_view rt" where
  "rt_transition env run_id status allowed_from ec es =
     on_store env (\<lambda>t db. bind_res (transition (en_clock env t) run_id status allowed_from ec es None db)
       (\<lambda>(db', v, _). Inr (db', v)))"

definition rt_event :: "rt_env \<Rightarrow> string \<Rightarrow> string \<Rightarrow> (string \<times> pv) list \<Rightarrow> unit rt" where
  "rt_event env run_id event_type attributes =
     on_store env (\<lambda>t db. with_unit (append_agent_event (en_clock env t) run_id event_type (PDict attributes) None db))"

text \<open>\<open>start_step\<close> returns the row, of which the runtime uses the attempt.\<close>

definition rt_start_step :: "rt_env \<Rightarrow> string \<Rightarrow> string \<Rightarrow> int rt" where
  "rt_start_step env run_id step_id =
     on_store env (\<lambda>t db. bind_res (start_step (en_clock env t) run_id step_id db) (\<lambda>db'.
       Inr (db', case find (\<lambda>s. st_run s = run_id \<and> st_id s = step_id) (a_steps db') of
                   None \<Rightarrow> 0 | Some s \<Rightarrow> st_attempt s)))"

definition rt_finish_step ::
  "rt_env \<Rightarrow> string \<Rightarrow> string \<Rightarrow> step_status \<Rightarrow> pv \<Rightarrow> string option \<Rightarrow> unit rt" where
  "rt_finish_step env run_id step_id status result ec =
     on_store env (\<lambda>t db. with_unit (finish_step (en_clock env t) run_id step_id status result ec ec db))"

definition rt_record ::
  "rt_env \<Rightarrow> string \<Rightarrow> string \<Rightarrow> string \<Rightarrow> pv \<Rightarrow> step_status \<Rightarrow> string \<Rightarrow> int \<Rightarrow> pv \<Rightarrow> int option \<Rightarrow> string option
     \<Rightarrow> tool_call rt" where
  "rt_record env run_id step_id tool_name arguments status key cost result latency ec =
     on_store env (\<lambda>t db. record_tool_call (en_clock env t) (en_fresh env t) run_id step_id tool_name arguments status key
       cost result latency ec ec db)"

definition rt_artifact ::
  "rt_env \<Rightarrow> string \<Rightarrow> string \<Rightarrow> pv \<Rightarrow> string option \<Rightarrow> string option \<Rightarrow> agent_artifact rt" where
  "rt_artifact env run_id artifact_type payload step_id fingerprint =
     on_store env (\<lambda>t db. add_artifact (en_clock env t) (en_fresh env t) run_id artifact_type payload step_id fingerprint
       None db)"

subsection \<open>The context of the tools\<close>

record tool_context =
  cx_run :: string
  cx_source :: string
  cx_entity :: string
  cx_allowed :: "string list"
  cx_evidence :: pv
  cx_cluster :: pv
  cx_bindings :: "pv list"

text \<open>\<open>load_evidence\<close> of \<open>agentic/tools.py\<close> on the evidence the feature jobs return.\<close>

definition load_evidence :: "(string \<Rightarrow> string) \<Rightarrow> tool_context \<Rightarrow> pv \<Rightarrow> pv res" where
  "load_evidence sha ctx evidence =
     bind_res (reject_sensitive evidence) (\<lambda>_.
     bind_res (validate_evidence_scope evidence (PStr (cx_source ctx)) (PStr (cx_entity ctx)) ''tool_scope_violation'') (\<lambda>_.
     bind_res (dict_of evidence) (\<lambda>ev.
     bind_res (if cx_cluster ctx = PNone then Inr PNone
               else bind_res (if dhas ev ''entity'' then dict_of (dget ev ''entity'') else Inr [])
                 (\<lambda>e. Inr (dget e ''cluster''))) (\<lambda>cluster.
     if cx_cluster ctx \<noteq> PNone \<and> \<not> py_eq cluster (cx_cluster ctx) then agentic ''tool_scope_violation''
     else if truthy (cx_evidence ctx) \<and> \<not> py_eq (PStr (canonical_fingerprint sha evidence)) (cx_evidence ctx)
     then agentic ''agent_evidence_changed'' else Inr evidence))))"

definition current_evidence_hash :: "rt_env \<Rightarrow> tool_context \<Rightarrow> string rt" where
  "current_evidence_hash env ctx =
     rt_ask (\<lambda>t. bind_res (en_evidence env t) (\<lambda>raw.
       bind_res (load_evidence (en_sha env) ctx raw) (\<lambda>e. Inr (canonical_fingerprint (en_sha env) e))))"

text \<open>\<open>validate_rule_bindings\<close> of \<open>agentic/tools.py\<close> with the governance repository as the authority.\<close>

definition check_binding ::
  "(string \<Rightarrow> string) \<Rightarrow> int \<Rightarrow> (string \<Rightarrow> (string \<times> pv) list option) \<Rightarrow> string option \<Rightarrow> pv \<Rightarrow> unit res" where
  "check_binding sha now rules cluster binding =
     bind_res (item_at binding ''rule_id'') (\<lambda>rule_id.
     case approved_rule_summary sha now (case rules (py_str rule_id) of None \<Rightarrow> [] | Some r \<Rightarrow> r) cluster of
       None \<Rightarrow> agentic ''agent_rule_reference_changed''
     | Some summary \<Rightarrow>
         bind_res (rule_reference (PDict summary)) (\<lambda>reference.
         bind_res (item_at binding ''reference'') (\<lambda>expected.
         bind_res (if expected = PStr reference then item_at binding ''canonical_hash'' else Inr PNone) (\<lambda>hash.
         if expected = PStr reference \<and> py_eq (dget summary ''canonical_hash'') hash then Inr ()
         else agentic ''agent_rule_reference_changed''))))"

definition bindings_check :: "rt_env \<Rightarrow> tool_context \<Rightarrow> nat \<Rightarrow> unit res" where
  "bindings_check env ctx t =
     (if cx_bindings ctx = [] then Inr () else
      bind_res (if truthy (cx_cluster ctx) then Inr (cx_cluster ctx)
        else bind_res (en_evidence env t) (\<lambda>raw. bind_res (load_evidence (en_sha env) ctx raw) (\<lambda>e. Inr (cluster_of e))))
      (\<lambda>cluster. each_res (check_binding (en_sha env) (en_now_us env t) (en_rule env t)
        (case cluster of PStr c \<Rightarrow> Some c | _ \<Rightarrow> None)) (cx_bindings ctx)))"

definition validate_rule_bindings :: "rt_env \<Rightarrow> tool_context \<Rightarrow> unit rt" where
  "validate_rule_bindings env ctx = rt_ask (bindings_check env ctx)"

subsection \<open>One call of a tool\<close>

text \<open>
  \<open>run_agent_tool_attempt\<close> around \<open>ToolRegistry.execute\<close>: the ledger may refuse the attempt before it starts; the handler
  only runs on admitted arguments, and then the call is in the trace.
\<close>

definition call_tool :: "rt_env \<Rightarrow> tool_context \<Rightarrow> string \<Rightarrow> string \<Rightarrow> pv \<Rightarrow> pv rt" where
  "call_tool env ctx step_id name arguments =
     rt_bind (rt_ask (\<lambda>t. case en_ledger env t of None \<Rightarrow> Inr () | Some e \<Rightarrow> Inl e)) (\<lambda>_.
     rt_bind (rt_res (admit_call (en_tools env) (cx_allowed ctx) name arguments)) (\<lambda>tool.
     rt_bind (rt_ask (\<lambda>t. Inr (bind_res (en_handler env t name arguments) accept_output))) (\<lambda>outcome.
     rt_bind (rt_trace (Executed \<lparr>xe_step = step_id, xe_tool = name, xe_args = arguments, xe_outcome = outcome\<rparr>)) (\<lambda>_.
     rt_res outcome))))"

definition failure_code :: "string \<Rightarrow> exc \<Rightarrow> string" where
  "failure_code other e = (case e of AgenticErr c _ \<Rightarrow> c | CodedErr _ c \<Rightarrow> c | _ \<Rightarrow> other)"

definition elapsed_over :: "int \<Rightarrow> int \<Rightarrow> fl \<Rightarrow> bool" where
  "elapsed_over started now timeout = fl_lt timeout (FFin (now - started) (- 6))"

definition rt_clock :: "rt_env \<Rightarrow> int rt" where
  "rt_clock env = rt_ask (\<lambda>t. Inr (en_mono env t))"

definition check_timeout :: "rt_env \<Rightarrow> int \<Rightarrow> fl \<Rightarrow> unit rt" where
  "check_timeout env started timeout =
     rt_bind (rt_clock env) (\<lambda>now. rt_when (elapsed_over started now timeout) (code_error ''agent_timeout''))"

definition call_over_budget :: "agent_run \<Rightarrow> agent_tool \<Rightarrow> bool" where
  "call_over_budget run tool = (ag_max_calls run < ag_used run + tl_cost tool)"

definition latency :: "int \<Rightarrow> int \<Rightarrow> int option" where
  "latency began now = Some ((now - began) div 1000)"

end
