(* ===== verification/Agent_Execute.thy ===== *)
theory Agent_Execute
  imports Agent_Runtime
begin

text \<open>
  \<open>AgentRuntime.execute\<close> (\<open>agentic/runtime.py\<close>): the reads of an expert, planning, and the steps of the plan with the
  human gate, the budget, the retry of a failed call and the timeout.
\<close>

subsection \<open>Evaluations\<close>

text \<open>The fingerprint of a passed evaluation of the current evidence, or \<open>None\<close>.\<close>

definition evaluation_fingerprint :: "(string \<Rightarrow> string) \<Rightarrow> pv \<Rightarrow> pv \<Rightarrow> string option" where
  "evaluation_fingerprint sha output evidence_hash =
     (case output of
        PDict d \<Rightarrow>
          (case dget d ''feature'' of
             PDict f \<Rightarrow>
               let fp = canonical_fingerprint sha (PDict f) in
               if dget d ''passed'' = PBool True \<and> fp \<noteq> [] \<and> dget d ''fingerprint'' = PStr fp
                  \<and> py_eq (dget d ''evidence_hash'') evidence_hash
                  \<and> dget d ''evaluator_version'' = PStr ''feature_output_v1''
               then Some fp else None
           | _ \<Rightarrow> None)
      | _ \<Rightarrow> None)"

definition passed_artifact :: "(string \<Rightarrow> string) \<Rightarrow> pv \<Rightarrow> agent_artifact \<Rightarrow> string option" where
  "passed_artifact sha evidence_hash a =
     (if af_type a \<noteq> ''evaluation'' then None else
      case evaluation_fingerprint sha (af_payload a) evidence_hash of
        None \<Rightarrow> None
      | Some fp \<Rightarrow> if af_fingerprint a = Some fp then Some fp else None)"

definition passed_evaluations :: "(string \<Rightarrow> string) \<Rightarrow> pv \<Rightarrow> agent_artifact list \<Rightarrow> string list" where
  "passed_evaluations sha evidence_hash artifacts =
     concat (map (\<lambda>a. case passed_artifact sha evidence_hash a of None \<Rightarrow> [] | Some fp \<Rightarrow> [fp]) artifacts)"

subsection \<open>One step of the plan\<close>

definition call_key :: "string \<Rightarrow> string \<Rightarrow> int \<Rightarrow> int \<Rightarrow> string" where
  "call_key run_id step_id attempt retry =
     run_id @ '':'' @ step_id @ '':'' @ int_str attempt @ '':'' @ int_str retry"

definition step_event :: "rt_env \<Rightarrow> string \<Rightarrow> string \<Rightarrow> agent_step \<Rightarrow> (string \<times> pv) list \<Rightarrow> unit rt" where
  "step_event env run_id event_type step extra =
     rt_event env run_id event_type ([(''step_id'', PStr (st_id step)), (''tool_name'', PStr (st_tool step))] @ extra)"

definition fail_step :: "rt_env \<Rightarrow> string \<Rightarrow> agent_step \<Rightarrow> string \<Rightarrow> unit rt" where
  "fail_step env run_id step code = rt_finish_step env run_id (st_id step) SFailed PNone (Some code)"

text \<open>What the \<open>except\<close> block does before it goes on or raises.\<close>

definition note_failure :: "rt_env \<Rightarrow> string \<Rightarrow> agent_step \<Rightarrow> agent_tool \<Rightarrow> string \<Rightarrow> int \<Rightarrow> int \<Rightarrow> string \<Rightarrow> unit rt" where
  "note_failure env run_id step tool key retry began code =
     rt_bind (rt_clock env) (\<lambda>now.
     rt_bind (rt_record env run_id (st_id step) (st_tool step) (st_args step) SFailed key (tl_cost tool) PNone
       (latency began now) (Some code)) (\<lambda>_.
     step_event env run_id ''tool_call_failed'' step [(''error_code'', PStr code), (''attempt'', PInt (retry + 1))]))"

text \<open>The retry \<open>retry\<close> of a step; \<open>None\<close> asks for the next one.\<close>

definition attempt_step ::
  "rt_env \<Rightarrow> tool_context \<Rightarrow> string \<Rightarrow> int \<Rightarrow> agent_step \<Rightarrow> agent_tool \<Rightarrow> int \<Rightarrow> int \<Rightarrow> (pv \<times> string \<times> int) option rt" where
  "attempt_step env ctx run_id started step tool attempt retry =
     rt_bind (rt_get env run_id) (\<lambda>latest.
     rt_bind (if call_over_budget (rv_run latest) tool
              then rt_bind (fail_step env run_id step ''agent_budget_exhausted'') (\<lambda>_.
                   rt_raise (code_error ''agent_budget_exhausted''))
              else rt_return ()) (\<lambda>_.
     rt_bind (if retry = 0 then rt_return ()
              else rt_bind (rt_clock env) (\<lambda>now.
                   if elapsed_over started now (ag_timeout (rv_run latest))
                   then rt_bind (fail_step env run_id step ''agent_timeout'') (\<lambda>_. rt_raise (code_error ''agent_timeout''))
                   else rt_return ())) (\<lambda>_.
     let key = call_key run_id (st_id step) attempt retry in
     rt_bind (rt_clock env) (\<lambda>began.
     rt_bind (step_event env run_id ''tool_call_started'' step [(''attempt'', PInt (retry + 1))]) (\<lambda>_.
     rt_try
       (rt_bind (call_tool env ctx (st_id step) (st_tool step) (st_args step)) (\<lambda>output.
        rt_return (Some (output, key, began))))
       (\<lambda>e. let code = failure_code ''tool_failed'' e in
          rt_bind (note_failure env run_id step tool key retry began code) (\<lambda>_.
          if retry = 0 \<and> code \<noteq> ''agent_rule_reference_changed''
          then rt_bind (step_event env run_id ''tool_call_retrying'' step []) (\<lambda>_. rt_return None)
          else rt_bind (fail_step env run_id step code) (\<lambda>_. rt_raise e))))))))"

definition call_with_retry ::
  "rt_env \<Rightarrow> tool_context \<Rightarrow> string \<Rightarrow> int \<Rightarrow> agent_step \<Rightarrow> agent_tool \<Rightarrow> int \<Rightarrow> (pv \<times> string \<times> int) rt" where
  "call_with_retry env ctx run_id started step tool attempt =
     rt_bind (attempt_step env ctx run_id started step tool attempt 0) (\<lambda>first.
     case first of
       Some r \<Rightarrow> rt_return r
     | None \<Rightarrow>
         rt_bind (attempt_step env ctx run_id started step tool attempt 1) (\<lambda>second.
         case second of Some r \<Rightarrow> rt_return r | None \<Rightarrow> rt_raise (StateErr ''assertion'')))"

text \<open>The timeout after the call, with the failed call on record.\<close>

definition late_call ::
  "rt_env \<Rightarrow> string \<Rightarrow> int \<Rightarrow> fl \<Rightarrow> agent_step \<Rightarrow> agent_tool \<Rightarrow> string \<Rightarrow> int \<Rightarrow> unit rt" where
  "late_call env run_id started timeout step tool key began =
     rt_bind (rt_clock env) (\<lambda>now.
     if \<not> elapsed_over started now timeout then rt_return () else
     rt_bind (rt_clock env) (\<lambda>later.
     rt_bind (rt_record env run_id (st_id step) (st_tool step) (st_args step) SFailed key (tl_cost tool) PNone
       (latency began later) (Some ''agent_timeout'')) (\<lambda>_.
     rt_bind (fail_step env run_id step ''agent_timeout'') (\<lambda>_.
     rt_bind (step_event env run_id ''tool_call_failed'' step [(''error_code'', PStr ''agent_timeout'')]) (\<lambda>_.
     rt_raise (code_error ''agent_timeout''))))))"

definition artifact_of_call :: "tool_context \<Rightarrow> string \<Rightarrow> string \<Rightarrow> pv \<Rightarrow> artifact_input" where
  "artifact_of_call ctx name call_id output =
     \<lparr>ai_run = cx_run ctx, ai_source = cx_source ctx, ai_entity = cx_entity ctx, ai_tool = name, ai_call = call_id,
      ai_evidence = py_str (cx_evidence ctx), ai_output = output\<rparr>"

text \<open>The artifact of a completed call; the result is the list of passed evaluations after it.\<close>

definition keep_result ::
  "rt_env \<Rightarrow> tool_context \<Rightarrow> string \<Rightarrow> agent_step \<Rightarrow> agent_tool \<Rightarrow> string option \<Rightarrow> string \<Rightarrow> pv \<Rightarrow> string list
     \<Rightarrow> string list rt" where
  "keep_result env ctx run_id step tool fingerprint call_id output passed =
     (if st_tool step = ''evaluate_candidate'' then
        let evaluated = evaluation_fingerprint (en_sha env) output (cx_evidence ctx);
            confirmed = (if evaluated = fingerprint then fingerprint else None)
        in rt_bind (rt_artifact env run_id ''evaluation'' output (Some (st_id step)) confirmed) (\<lambda>_.
           rt_return (case confirmed of None \<Rightarrow> passed | Some fp \<Rightarrow> fp # passed))
      else if tl_writes tool then
        rt_bind (rt_artifact env run_id ''candidate'' output (Some (st_id step)) fingerprint) (\<lambda>_. rt_return passed)
      else (case read_artifact_type (st_tool step) of
          None \<Rightarrow> rt_return passed
        | Some artifact_type \<Rightarrow>
            rt_bind (rt_res (read_tool_artifact (artifact_of_call ctx (st_tool step) call_id output))) (\<lambda>payload.
            rt_bind (rt_artifact env run_id artifact_type payload (Some (st_id step)) None) (\<lambda>_. rt_return passed))))"

definition step_fingerprint :: "(string \<Rightarrow> string) \<Rightarrow> agent_step \<Rightarrow> string option" where
  "step_fingerprint sha step =
     (if feature_of (st_args step) = PNone then None else Some (canonical_fingerprint sha (feature_of (st_args step))))"

text \<open>A candidate may only be written after a passed evaluation of the same feature.\<close>

definition human_gate :: "rt_env \<Rightarrow> tool_context \<Rightarrow> agent_tool \<Rightarrow> string option \<Rightarrow> string list \<Rightarrow> unit rt" where
  "human_gate env ctx tool fingerprint passed =
     (if \<not> tl_writes tool then rt_return ()
      else if (case fingerprint of None \<Rightarrow> True | Some fp \<Rightarrow> fp \<notin> set passed)
      then rt_raise (code_error ''human_gate_bypass'')
      else rt_bind (current_evidence_hash env ctx) (\<lambda>_. validate_rule_bindings env ctx))"

text \<open>From the output of the tool to the end of the step.\<close>

definition complete_step ::
  "rt_env \<Rightarrow> tool_context \<Rightarrow> string \<Rightarrow> int \<Rightarrow> fl \<Rightarrow> agent_step \<Rightarrow> agent_tool \<Rightarrow> string list \<Rightarrow> pv \<times> string \<times> int
     \<Rightarrow> string list rt" where
  "complete_step env ctx run_id started timeout step tool passed result =
     (case result of (output, key, began) \<Rightarrow>
     rt_bind (late_call env run_id started timeout step tool key began) (\<lambda>_.
     rt_bind (rt_clock env) (\<lambda>now.
     rt_bind (rt_record env run_id (st_id step) (st_tool step) (st_args step) SCompleted key (tl_cost tool) output
       (latency began now) None) (\<lambda>call.
     rt_bind (keep_result env ctx run_id step tool (step_fingerprint (en_sha env) step) (tc_id call) output passed) (\<lambda>passed'.
     rt_bind (rt_finish_step env run_id (st_id step) SCompleted output None) (\<lambda>_.
     rt_bind (step_event env run_id ''tool_call_completed'' step []) (\<lambda>_. rt_return passed')))))))"

text \<open>The step proper, after the checks on the run.\<close>

definition perform_step ::
  "rt_env \<Rightarrow> tool_context \<Rightarrow> string \<Rightarrow> int \<Rightarrow> agent_run \<Rightarrow> agent_step \<Rightarrow> string list \<Rightarrow> string list rt" where
  "perform_step env ctx run_id started current step passed =
     rt_bind (check_timeout env started (ag_timeout current)) (\<lambda>_.
     rt_bind (rt_res (tool_get (en_tools env) (st_tool step))) (\<lambda>tool.
     rt_bind (rt_when (call_over_budget current tool) (code_error ''agent_budget_exhausted'')) (\<lambda>_.
     rt_bind (human_gate env ctx tool (step_fingerprint (en_sha env) step) passed) (\<lambda>_.
     rt_bind (rt_start_step env run_id (st_id step)) (\<lambda>attempt.
     rt_bind (call_with_retry env ctx run_id started step tool attempt)
       (complete_step env ctx run_id started (ag_timeout current) step tool passed))))))"

text \<open>\<open>Some view\<close>: the run was paused or cancelled and the loop is left.\<close>

primrec run_steps ::
  "rt_env \<Rightarrow> tool_context \<Rightarrow> string \<Rightarrow> int \<Rightarrow> string list \<Rightarrow> agent_step list \<Rightarrow> run_view option rt" where
  "run_steps env ctx run_id started passed [] = rt_return None"
| "run_steps env ctx run_id started passed (step # steps) =
     rt_bind (rt_get env run_id) (\<lambda>current.
     if ag_status (rv_run current) = RPaused \<or> ag_status (rv_run current) = RCancelled then rt_return (Some current)
     else if st_status step = SCompleted then run_steps env ctx run_id started passed steps
     else rt_bind (perform_step env ctx run_id started (rv_run current) step passed) (\<lambda>passed'.
          run_steps env ctx run_id started passed' steps))"

subsection \<open>The reads of an expert\<close>

text \<open>\<open>_check_active\<close>: a paused or cancelled parent workflow takes its child along.\<close>

definition interrupted :: exc where
  "interrupted = code_error ''agent_interrupted''"

definition parent_of :: "agent_run \<Rightarrow> string option" where
  "parent_of run =
     (case ag_snapshot run of
        PDict d \<Rightarrow> (case dget d ''workflow_run_id'' of PStr p \<Rightarrow> if p = [] then None else Some p | _ \<Rightarrow> None)
      | _ \<Rightarrow> None)"

definition active_statuses :: "run_status set" where
  "active_statuses = {RQueued, RPlanning, RRunning}"

definition follow_parent :: "rt_env \<Rightarrow> string \<Rightarrow> run_view \<Rightarrow> run_view rt" where
  "follow_parent env run_id view =
     (case parent_of (rv_run view) of
        None \<Rightarrow> rt_return view
      | Some parent \<Rightarrow>
          if ag_status (rv_run view) \<notin> active_statuses then rt_return view else
          rt_bind (rt_ask (\<lambda>t. Inr (en_parent env t parent))) (\<lambda>status.
          if status = Some ''cancelled'' then rt_transition env run_id RCancelled active_statuses None None
          else if status = Some ''paused'' then rt_transition env run_id RPaused active_statuses None None
          else rt_return view))"

definition check_active :: "rt_env \<Rightarrow> string \<Rightarrow> int \<Rightarrow> run_view rt" where
  "check_active env run_id started =
     rt_bind (rt_get env run_id) (\<lambda>seen.
     rt_bind (follow_parent env run_id seen) (\<lambda>view.
     rt_bind (rt_when (ag_status (rv_run view) \<in> {RCancelled, RPaused, RFailed}) interrupted) (\<lambda>_.
     rt_bind (check_timeout env started (ag_timeout (rv_run view))) (\<lambda>_. rt_return view))))"

definition context_step_id :: "nat \<Rightarrow> string" where
  "context_step_id n = ''context-'' @ int_str (int n)"

definition context_event :: "rt_env \<Rightarrow> string \<Rightarrow> string \<Rightarrow> string \<Rightarrow> string \<Rightarrow> unit rt" where
  "context_event env run_id event_type step_id tool_name =
     rt_event env run_id event_type
       [(''step_id'', PStr step_id), (''tool_name'', PStr tool_name), (''phase'', PStr ''model_context'')]"

definition expert_read ::
  "rt_env \<Rightarrow> tool_context \<Rightarrow> string \<Rightarrow> int \<Rightarrow> nat \<Rightarrow> string \<Rightarrow> pv \<Rightarrow> (pv \<times> read_receipt) rt" where
  "expert_read env ctx run_id started n tool_name arguments =
     rt_bind (check_active env run_id started) (\<lambda>latest.
     rt_bind (rt_res (tool_get (en_tools env) tool_name)) (\<lambda>tool.
     rt_bind (rt_when (tool_name \<notin> set (cx_allowed ctx)) (code_error ''tool_not_allowed'')) (\<lambda>_.
     rt_bind (rt_when (call_over_budget (rv_run latest) tool) (code_error ''agent_budget_exhausted'')) (\<lambda>_.
     let step_id = context_step_id n; key = ''context:'' @ step_id;
         step = \<lparr>ps_id = step_id, ps_tool = tool_name, ps_args = arguments\<rparr> in
     rt_bind (on_store env (\<lambda>t db. with_unit (add_context_step (en_clock env t) run_id step db))) (\<lambda>_.
     rt_bind (rt_start_step env run_id step_id) (\<lambda>_.
     rt_bind (rt_clock env) (\<lambda>began.
     rt_bind (context_event env run_id ''tool_call_started'' step_id tool_name) (\<lambda>_.
     rt_bind (rt_try (call_tool env ctx step_id tool_name arguments) (\<lambda>e.
       let code = failure_code ''tool_failed'' e in
       rt_bind (rt_record env run_id step_id tool_name arguments SFailed key (tl_cost tool) PNone None (Some code)) (\<lambda>_.
       rt_bind (rt_finish_step env run_id step_id SFailed PNone (Some code)) (\<lambda>_. rt_raise e)))) (\<lambda>output.
     rt_bind (rt_clock env) (\<lambda>now.
     rt_bind (rt_record env run_id step_id tool_name arguments SCompleted key (tl_cost tool) output (latency began now) None) (\<lambda>call.
     rt_bind (rt_res (read_tool_artifact (artifact_of_call ctx tool_name (tc_id call) output))) (\<lambda>payload.
     rt_bind (rt_artifact env run_id (the (read_artifact_type tool_name)) payload (Some step_id) None) (\<lambda>_.
     rt_bind (rt_finish_step env run_id step_id SCompleted output None) (\<lambda>_.
     rt_bind (context_event env run_id ''tool_call_completed'' step_id tool_name) (\<lambda>_.
     rt_bind (check_active env run_id started) (\<lambda>_.
     rt_return (output, \<lparr>rd_call = tc_id call, rd_tool = tool_name,
       rd_hash = canonical_fingerprint (en_sha env) output\<rparr>)))))))))))))))))"

definition rules_arguments :: "pv \<Rightarrow> string list \<Rightarrow> pv" where
  "rules_arguments evidence components =
     PDict [(''template_hashes'', PList (map PStr (sort (remdups (map template_hash (templates_of evidence)))))),
       (''components'', PList (map PStr (sort (remdups components))))]"

definition no_rules :: pv where
  "no_rules = PDict [(''items'', PList []), (''total'', PInt 0), (''matched'', PInt 0), (''truncated'', PBool False)]"

definition str_components :: "pv \<Rightarrow> string list" where
  "str_components evidence = map py_str (filter truthy (map (\<lambda>t. dget t ''component'') (templates_of evidence)))"

definition expert_context_of ::
  "rt_env \<Rightarrow> tool_context \<Rightarrow> agent_run \<Rightarrow> int \<Rightarrow> (expert_context \<times> fact list) rt" where
  "expert_context_of env ctx run started =
     (let run_id = ag_id run in
      rt_bind (expert_read env ctx run_id started 0 ''get_sanitized_evidence''
        (PDict [(''job_id'', PStr (cx_source ctx)), (''entity_id'', PStr (cx_entity ctx))])) (\<lambda>(evidence, first).
      rt_bind (rt_res (validate_material evidence (cx_source ctx) (cx_entity ctx)
        (case cx_cluster ctx of PStr c \<Rightarrow> Some c | _ \<Rightarrow> None))) (\<lambda>_.
      rt_bind (rt_res (item_at (ag_snapshot run) ''workflow_role_id'')) (\<lambda>role.
      rt_bind (if role \<notin> {PStr ''rule_specialist'', PStr ''feature_specialist''} then rt_return (no_rules, [first])
        else rt_bind (expert_read env ctx run_id started 1 ''find_approved_rules''
               (rules_arguments evidence (str_components evidence))) (\<lambda>(rules, second).
             rt_bind (rt_res (get_of rules ''truncated'')) (\<lambda>truncated.
             rt_bind (rt_when (truthy truncated) (code_error ''agent_rule_context_truncated'')) (\<lambda>_.
             rt_return (rules, [first, second]))))) (\<lambda>(rules, reads).
      let hash = py_str (cx_evidence ctx) in
      rt_bind (on_store env (\<lambda>t db. bind_res (completed_upstream (en_sha env) run evidence hash db) (\<lambda>u. Inr (db, u)))) (\<lambda>upstream.
      rt_bind (rt_res (build_expert_context (en_sha env) run evidence rules reads upstream hash)) (\<lambda>context.
      rt_bind (rt_res (evidence_facts evidence)) (\<lambda>facts. rt_return (context, facts)))))))))"

subsection \<open>Planning\<close>

text \<open>\<open>planner.plan\<close> with the planner of the environment.\<close>

definition run_planner ::
  "rt_env \<Rightarrow> agent_run \<Rightarrow> string \<Rightarrow> (string \<times> pv) list \<Rightarrow> (expert_context \<times> fact list) option \<Rightarrow> int \<Rightarrow> agent_plan rt" where
  "run_planner env run goal summary expert max_steps =
     (let tools = describe (en_tools env) (Some (ag_tools run)) in
      rt_ask (\<lambda>t. case en_planner env of
          FakePlanner plan \<Rightarrow> fake_plan plan tools max_steps
        | ModelPlanner \<Rightarrow> model_plan (en_model env t) goal summary expert tools max_steps))"

definition assessment_payload ::
  "(string \<Rightarrow> string) \<Rightarrow> expert_context \<Rightarrow> pv \<Rightarrow> agent_plan \<Rightarrow> pv list \<Rightarrow> pv" where
  "assessment_payload sha context assessment plan bindings =
     (let output = (case pl_output plan of None \<Rightarrow> PNone | Some v \<Rightarrow> v) in
      PDict [(''schema_version'', PStr ''expert_assessment_v1''), (''origin'', PStr ''model''),
        (''scope'', PDict [(''source_job_id'', PStr (ec_source context)), (''entity_id'', PStr (ec_entity context)),
           (''cluster'', ec_cluster context), (''evidence_hash'', PStr (ec_evidence_hash context))]),
        (''context_hash'', PStr (ec_hash context)), (''assessment'', assessment),
        (''model_response_hash'', PStr (canonical_fingerprint sha output)), (''model_response'', output),
        (''rule_bindings'', PList bindings)])"

definition reserve_planning :: "rt_env \<Rightarrow> string \<Rightarrow> bool rt" where
  "reserve_planning env run_id = on_store env (\<lambda>t db. reserve_model_planning (en_clock env t) run_id db)"

definition save_plan :: "rt_env \<Rightarrow> string \<Rightarrow> agent_plan \<Rightarrow> bool \<Rightarrow> run_view rt" where
  "save_plan env run_id plan preserve = on_store env (\<lambda>t db. replace_plan (en_clock env t) run_id plan preserve db)"

text \<open>The plan of a run that is not an expert's.\<close>

definition plan_simple :: "rt_env \<Rightarrow> agent_run \<Rightarrow> (string \<times> pv) list \<Rightarrow> string \<Rightarrow> run_view rt" where
  "plan_simple env run summary goal =
     rt_bind (run_planner env run goal summary None (ag_max_steps run)) (\<lambda>plan.
     rt_bind (save_plan env (ag_id run) plan False) (\<lambda>view.
     rt_bind (rt_event env (ag_id run) ''plan_created''
       [(''step_count'', PInt (int (length (rv_steps view)))), (''model_context_hash'', PNone)]) (\<lambda>_. rt_return view)))"

text \<open>The plan of an expert, bound to the context it has read and the rules it may refer to.\<close>

definition plan_expert ::
  "rt_env \<Rightarrow> tool_context \<Rightarrow> agent_run \<Rightarrow> int \<Rightarrow> (string \<times> pv) list \<Rightarrow> string \<Rightarrow> run_view rt" where
  "plan_expert env ctx run started summary goal =
     (let run_id = ag_id run in
      rt_bind (expert_context_of env ctx run started) (\<lambda>(context, facts).
      rt_bind (rt_res (expert_rule_bindings context)) (\<lambda>bindings.
      let ctx' = ctx\<lparr>cx_bindings := bindings\<rparr> in
      rt_bind (validate_rule_bindings env ctx') (\<lambda>_.
      rt_bind (check_active env run_id started) (\<lambda>latest.
      let room = ag_max_steps (rv_run latest) - int (length (rv_steps latest)) in
      rt_bind (run_planner env run goal (filter (\<lambda>(k, _). k \<noteq> ''dependency_artifacts'') summary) (Some (context, facts)) room) (\<lambda>plan.
      rt_bind (check_active env run_id started) (\<lambda>_.
      rt_bind (current_evidence_hash env ctx') (\<lambda>_.
      rt_bind (rt_res (validate_assessment (case pl_assessment plan of None \<Rightarrow> PNone | Some a \<Rightarrow> a) context (pl_steps plan)))
        (\<lambda>assessment.
      rt_bind (validate_rule_bindings env ctx') (\<lambda>_.
      rt_bind (save_plan env run_id plan True) (\<lambda>view.
      rt_bind (on_store env (\<lambda>t. add_artifact (en_clock env t) (en_fresh env t) run_id ''expert_assessment_v1''
        (assessment_payload (en_sha env) context assessment plan bindings) None None
        (Some (\<lambda>_. bindings_check env ctx' t)))) (\<lambda>_.
      rt_bind (rt_event env run_id ''plan_created''
        [(''step_count'', PInt (int (length (rv_steps view)))), (''model_context_hash'', PStr (ec_hash context))]) (\<lambda>_.
      rt_return view)))))))))))))"

text \<open>The one persisted opinion of an expert, the rules it is bound to, and the run, reloaded when the opinion is not yet in view.\<close>

definition bound_context :: "rt_env \<Rightarrow> tool_context \<Rightarrow> run_view \<Rightarrow> (tool_context \<times> run_view) rt" where
  "bound_context env ctx view =
     rt_bind (if expert_artifacts view = [] then rt_get env (ag_id (rv_run view)) else rt_return view) (\<lambda>now.
     case expert_artifacts now of
       [opinion] \<Rightarrow>
         rt_bind (rt_res (get_of (af_payload opinion) ''rule_bindings'')) (\<lambda>raw.
         rt_bind (rt_res (py_iter (py_or raw (PList [])))) (\<lambda>bindings.
         rt_bind (rt_res (bind_res (item_at (af_payload opinion) ''assessment'') (\<lambda>a.
           bind_res (item_at a ''rule_refs'') py_set))) (\<lambda>refs.
         rt_bind (rt_res (map_res (\<lambda>b. item_at b ''reference'') bindings)) (\<lambda>known.
         rt_bind (rt_when (\<not> py_subset refs known) (code_error ''agent_rule_reference_changed'')) (\<lambda>_.
         let ctx' = ctx\<lparr>cx_bindings := bindings\<rparr> in
         rt_bind (validate_rule_bindings env ctx') (\<lambda>_. rt_return (ctx', now)))))))
     | _ \<Rightarrow> rt_raise (code_error ''agent_rule_reference_changed''))"

subsection \<open>The execution of a run\<close>

definition summary_of :: "agent_run \<Rightarrow> pv" where
  "summary_of run = (case ag_snapshot run of PDict d \<Rightarrow> dget d ''evidence_summary'' | _ \<Rightarrow> PNone)"

text \<open>\<open>_planner_evidence_summary\<close>.\<close>

definition planner_summary :: "agent_run \<Rightarrow> (string \<times> pv) list res" where
  "planner_summary run =
     bind_res (validate_evidence_scope (summary_of run) (PStr (ag_source run)) (PStr (ag_entity run)) ''agent_scope_invalid'') (\<lambda>_.
     bind_res (dict_of (summary_of run)) (\<lambda>d.
     Inr (dset (dset d ''source_job_id'' (PStr (ag_source run))) ''entity_id'' (PStr (ag_entity run)))))"

definition first_context :: "agent_run \<Rightarrow> (string \<times> pv) list \<Rightarrow> tool_context" where
  "first_context run summary =
     \<lparr>cx_run = ag_id run, cx_source = ag_source run, cx_entity = ag_entity run, cx_allowed = ag_tools run,
      cx_evidence = dget summary ''locked_evidence_hash'', cx_cluster = dget summary ''locked_evidence_cluster'', cx_bindings = []\<rparr>"

definition is_expert :: "rt_env \<Rightarrow> agent_run \<Rightarrow> bool" where
  "is_expert env run =
     (en_planner env = ModelPlanner
      \<and> (case ag_snapshot run of PDict d \<Rightarrow> dget d ''workflow_role_id'' \<in> PStr ` set expert_roles | _ \<Rightarrow> False))"

definition has_plan :: "run_view \<Rightarrow> bool" where
  "has_plan view = list_ex (\<lambda>e. ev_type e = ''plan_created'') (rv_events view)"

definition goal_of :: "agent_run \<Rightarrow> string" where
  "goal_of run = (case ag_snapshot run of PDict d \<Rightarrow> py_str (py_or (dget d ''goal'') (PStr default_goal)) | _ \<Rightarrow> default_goal)"

definition expert_goal_of :: "agent_run \<Rightarrow> string" where
  "expert_goal_of run =
     (case ag_snapshot run of
        PDict d \<Rightarrow> expert_goal (py_str (dget d ''workflow_role_id'')) (dget d ''goal'')
      | _ \<Rightarrow> default_goal)"

definition needs_plan :: "bool \<Rightarrow> run_view \<Rightarrow> bool" where
  "needs_plan expert view =
     (ag_status (rv_run view) = RQueued
      \<or> (ag_status (rv_run view) = RPlanning \<and> (if expert then \<not> has_plan view else rv_steps view = [])))"

text \<open>\<open>None\<close>: the planning of the expert was already reserved, and the run is returned as it is.\<close>

definition plan_run ::
  "rt_env \<Rightarrow> tool_context \<Rightarrow> run_view \<Rightarrow> int \<Rightarrow> (string \<times> pv) list \<Rightarrow> run_view option rt" where
  "plan_run env ctx view started summary =
     (let run_id = ag_id (rv_run view); expert = is_expert env (rv_run view) in
      if \<not> needs_plan expert view then rt_return (Some view) else
      rt_bind (if ag_status (rv_run view) = RQueued then rt_transition env run_id RPlanning {RQueued} None None
               else rt_return view) (\<lambda>v.
      if \<not> expert then rt_bind (plan_simple env (rv_run v) summary (goal_of (rv_run v))) (\<lambda>w. rt_return (Some w))
      else rt_bind (reserve_planning env run_id) (\<lambda>granted.
           if \<not> granted then rt_return None
           else rt_bind (plan_expert env ctx (rv_run v) started summary (expert_goal_of (rv_run v))) (\<lambda>w. rt_return (Some w)))))"

definition work_off :: "rt_env \<Rightarrow> tool_context \<Rightarrow> run_view \<Rightarrow> int \<Rightarrow> run_view rt" where
  "work_off env ctx view started =
     (let run_id = ag_id (rv_run view) in
      rt_bind (if ag_status (rv_run view) = RRunning then rt_return view
               else rt_transition env run_id RRunning {RPlanning, RPaused} None None) (\<lambda>v.
      rt_bind (rt_trace (Loaded (rv_artifacts v))) (\<lambda>_.
      rt_bind (run_steps env ctx run_id started (passed_evaluations (en_sha env) (cx_evidence ctx) (rv_artifacts v)) (rv_steps v)) (\<lambda>left.
      case left of
        Some w \<Rightarrow> rt_return w
      | None \<Rightarrow> rt_transition env run_id RAwaiting {RRunning} None None))))"

definition execute_body :: "rt_env \<Rightarrow> run_view \<Rightarrow> int \<Rightarrow> run_view rt" where
  "execute_body env view started =
     (let run = rv_run view; expert = is_expert env run in
      rt_bind (rt_res (planner_summary run)) (\<lambda>summary.
      let ctx0 = first_context run (case summary_of run of PDict d \<Rightarrow> d | _ \<Rightarrow> []) in
      rt_bind (current_evidence_hash env ctx0) (\<lambda>hash.
      let ctx = ctx0\<lparr>cx_evidence := PStr (if hash = [] then canonical_fingerprint (en_sha env) (summary_of run) else hash)\<rparr> in
      rt_bind (rt_when (expert \<and> \<not> has_plan view \<and> ag_status run \<notin> {RQueued, RPlanning})
        (code_error ''agent_plan_indeterminate'')) (\<lambda>_.
      rt_bind (plan_run env ctx view started summary) (\<lambda>planned.
      case planned of
        None \<Rightarrow> rt_get env (ag_id run)
      | Some v \<Rightarrow>
          rt_bind (if expert then bound_context env ctx v else rt_return (ctx, v)) (\<lambda>(ctx', w).
          work_off env ctx' w started))))))"

text \<open>The last \<open>except\<close>: an interrupted run is returned as it is, any other run is failed if that is still possible.\<close>

definition settle_failure :: "rt_env \<Rightarrow> string \<Rightarrow> exc \<Rightarrow> run_view rt" where
  "settle_failure env run_id e =
     (let code = failure_code ''agent_run_failed'' e in
      if code = ''agent_interrupted'' then rt_get env run_id
      else rt_try (rt_transition env run_id RFailed {RQueued, RPlanning, RRunning, RPaused} (Some code) (Some code))
             (\<lambda>err. case err of AgenticErr _ _ \<Rightarrow> rt_get env run_id | _ \<Rightarrow> rt_raise err))"

definition agent_execute :: "rt_env \<Rightarrow> string \<Rightarrow> run_view rt" where
  "agent_execute env run_id =
     rt_bind (rt_get env run_id) (\<lambda>view.
     if ag_status (rv_run view) \<in> {RCancelled, RCompleted, RAwaiting, RFailed} then rt_return view
     else rt_bind (rt_clock env) (\<lambda>started.
          rt_try (execute_body env view started) (settle_failure env run_id)))"

end
