(* ===== verification/Workflow_Runs.thy ===== *)
theory Workflow_Runs
  imports Agent_Runs Agent_Compiler
begin

text \<open>
  \<open>WorkflowRepository\<close> (\<open>agentic/workflow_repository.py\<close>): stored workflows, their runs, the nodes of a
  run and its events, in the same database as the agent runs (\<open>wdb\<close> extends \<open>adb\<close>), with the constraints of the
  tables. A stored definition and a locked snapshot are records instead of their JSON text. The node of an event
  is the entry \<open>node_id\<close> of its payload.
\<close>

subsection \<open>State\<close>

record workflow_row =
  wf_id :: string
  wf_def :: compiled_workflow
  wf_actor :: string
  wf_key :: string
  wf_created :: string

record run_snapshot =
  sn_def :: compiled_workflow
  sn_evidence :: "(string \<times> pv) list"
  sn_runtime :: "(string \<times> pv) list"

record workflow_run =
  wr_id :: string
  wr_workflow :: string
  wr_parent :: "string option"
  wr_source :: string
  wr_entity :: string
  wr_entity_type :: string
  wr_profile :: string
  wr_prompt :: string
  wr_status :: run_status
  wr_concurrency :: int
  wr_max_calls :: int
  wr_used :: int
  wr_timeout :: fl
  wr_attempts :: int
  wr_snapshot :: run_snapshot
  wr_error :: "string option"
  wr_summary :: "string option"
  wr_actor :: string
  wr_roles :: "string list"
  wr_request :: string
  wr_key :: string
  wr_version :: int
  wr_created :: string
  wr_updated :: string
  wr_started :: "string option"
  wr_completed :: "string option"

record workflow_node =
  wn_run :: string
  wn_id :: string
  wn_seq :: int
  wn_role :: string
  wn_deps :: "string list"
  wn_tools :: "string list"
  wn_steps :: int
  wn_calls :: int
  wn_timeout :: fl
  wn_status :: step_status
  wn_attempt :: int
  wn_child :: "string option"
  wn_used :: int
  wn_result :: pv
  wn_error :: "string option"
  wn_summary :: "string option"
  wn_created :: string
  wn_updated :: string
  wn_started :: "string option"
  wn_completed :: "string option"

record wdb = adb +
  w_flows :: "workflow_row list"
  w_runs :: "workflow_run list"
  w_nodes :: "workflow_node list"
  w_events :: "event_row list"

definition find_wrun :: "string \<Rightarrow> wdb \<Rightarrow> workflow_run option" where
  "find_wrun run_id db = find (\<lambda>r. wr_id r = run_id) (w_runs db)"

definition nodes_of :: "string \<Rightarrow> wdb \<Rightarrow> workflow_node list" where
  "nodes_of run_id db = sort_key wn_seq (filter (\<lambda>n. wn_run n = run_id) (w_nodes db))"

definition workflow_event ::
  "string \<Rightarrow> string \<Rightarrow> string \<Rightarrow> string option \<Rightarrow> (string \<times> pv) list \<Rightarrow> string option \<Rightarrow> wdb \<Rightarrow> wdb res" where
  "workflow_event now run_id event_type node_id attributes idem db =
     (if find_wrun run_id db = None \<or> (idem \<noteq> None \<and> has_idem run_id (the idem) (w_events db))
      then Inl (DatabaseErr ''workflow_event'')
      else Inr (db\<lparr>w_events := append_row (- 1) run_id event_type (PDict ((''node_id'', opt_str node_id) # attributes))
             idem now (w_events db)\<rparr>))"

text \<open>\<open>UPDATE ... WHERE\<close> a row that must be there exactly once.\<close>

definition update_one :: "string \<Rightarrow> ('r \<Rightarrow> bool) \<Rightarrow> ('r \<Rightarrow> 'r) \<Rightarrow> 'r list \<Rightarrow> 'r list res" where
  "update_one code mine f rows = (if count_where mine rows \<noteq> 1 then conflict code else Inr (upd_where mine f rows))"

subsection \<open>Stored workflows\<close>

definition get_workflow :: "string \<Rightarrow> wdb \<Rightarrow> workflow_row res" where
  "get_workflow workflow_id db =
     (case find (\<lambda>w. wf_id w = workflow_id) (w_flows db) of
        None \<Rightarrow> missing ''workflow_not_found''
      | Some w \<Rightarrow> Inr w)"

definition list_workflows :: "wdb \<Rightarrow> workflow_row list res" where
  "list_workflows db =
     map_res (\<lambda>w. get_workflow (wf_id w) db) (rev (sort_key (\<lambda>w. (wf_created w, wf_id w)) (w_flows db)))"

definition create_workflow ::
  "string \<Rightarrow> string \<Rightarrow> compiled_workflow \<Rightarrow> string \<Rightarrow> string \<Rightarrow> wdb \<Rightarrow> (wdb \<times> workflow_row \<times> bool) res" where
  "create_workflow now fresh workflow actor idem db =
     (case find (\<lambda>w. wf_actor w = actor \<and> wf_key w = idem) (w_flows db) of
        Some w \<Rightarrow> bind_res (get_workflow (wf_id w) db) (\<lambda>v. Inr (db, v, True))
      | None \<Rightarrow>
          if exists_where (\<lambda>w. wf_id w = fresh) (w_flows db) then Inl (DatabaseErr ''workflow_id'')
          else
            let db' = db\<lparr>w_flows := w_flows db @ [\<lparr>wf_id = fresh, wf_def = workflow, wf_actor = actor, wf_key = idem,
                  wf_created = now\<rparr>]\<rparr>
            in bind_res (get_workflow fresh db') (\<lambda>v. Inr (db', v, False)))"

subsection \<open>Views of a run\<close>

record artifact_row =
  na_id :: string
  na_type :: string
  na_node :: string
  na_role :: string
  na_child :: "string option"
  na_payload :: pv

record workflow_view =
  wv_run :: workflow_run
  wv_nodes :: "workflow_node list"
  wv_events :: "event_row list"
  wv_artifacts :: "artifact_row list"

definition node_artifact :: "workflow_node \<Rightarrow> string \<Rightarrow> string \<Rightarrow> pv \<Rightarrow> artifact_row" where
  "node_artifact node artifact_id artifact_type payload =
     \<lparr>na_id = artifact_id, na_type = artifact_type, na_node = wn_id node, na_role = wn_role node, na_child = wn_child node,
      na_payload = payload\<rparr>"

definition str_or_else :: "pv \<Rightarrow> string \<Rightarrow> string" where
  "str_or_else v d = py_str (py_or v (PStr d))"

definition child_artifact :: "workflow_node \<Rightarrow> nat \<times> pv \<Rightarrow> artifact_row list" where
  "child_artifact node = (\<lambda>(index, artifact).
     case artifact of
       PDict a \<Rightarrow>
         [node_artifact node (str_or_else (dget a ''artifact_id'') (wn_id node @ ''-artifact-'' @ int_str (int index)))
            (str_or_else (dget a ''artifact_type'') ''candidate'')
            (case dget a ''payload'' of PDict p \<Rightarrow> PDict p | _ \<Rightarrow> artifact)]
     | _ \<Rightarrow> [])"

definition result_artifacts :: "workflow_node \<Rightarrow> artifact_row list" where
  "result_artifacts node =
     (let summary = py_or (wn_result node) (PDict []);
          child = (case summary of PDict d \<Rightarrow> dget d ''artifacts'' | _ \<Rightarrow> PNone)
      in case child of
           PList items \<Rightarrow> concat (map (child_artifact node) (enumerate 0 items))
         | _ \<Rightarrow> if truthy summary then [node_artifact node (wn_id node @ ''-result'') ''node_result'' summary] else [])"

definition get_wrun :: "string \<Rightarrow> wdb \<Rightarrow> workflow_view res" where
  "get_wrun run_id db =
     (case find_wrun run_id db of
        None \<Rightarrow> missing ''workflow_run_not_found''
      | Some run \<Rightarrow>
          Inr \<lparr>wv_run = run, wv_nodes = nodes_of run_id db,
               wv_events = sort_key ev_seq (filter (\<lambda>e. ev_key e = run_id) (w_events db)),
               wv_artifacts = concat (map result_artifacts (nodes_of run_id db))\<rparr>)"

definition wview :: "string \<Rightarrow> bool \<Rightarrow> wdb \<Rightarrow> (wdb \<times> workflow_view \<times> bool) res" where
  "wview run_id replay db = bind_res (get_wrun run_id db) (\<lambda>v. Inr (db, v, replay))"

definition list_wruns :: "int \<Rightarrow> string \<Rightarrow> wdb \<Rightarrow> workflow_view list res" where
  "list_wruns limit workflow_id db =
     map_res (\<lambda>r. get_wrun (wr_id r) db)
       (take (nat (clamp 1 500 limit)) (rev (sort_key (\<lambda>r. (wr_created r, wr_id r))
          (filter (\<lambda>r. workflow_id = [] \<or> wr_workflow r = workflow_id) (w_runs db)))))"

subsection \<open>Creating a run\<close>

record wrun_request =
  wq_source :: pv
  wq_entity :: pv
  wq_entity_type :: string
  wq_profile :: string
  wq_prompt :: string
  wq_actor :: string
  wq_roles :: "string list"
  wq_request :: string
  wq_key :: string
  wq_parent :: "string option"
  wq_evidence :: pv
  wq_runtime :: pv

definition positive :: "int \<Rightarrow> fl \<Rightarrow> bool" where
  "positive n t = (0 < n \<and> fl_lt (FFin 0 0) t)"

definition new_node :: "string \<Rightarrow> string \<Rightarrow> int \<Rightarrow> node_def \<Rightarrow> workflow_node" where
  "new_node run_id now sq n =
     \<lparr>wn_run = run_id, wn_id = nd_id n, wn_seq = sq, wn_role = nd_role n, wn_deps = nd_deps n, wn_tools = nd_tools n,
      wn_steps = nd_steps n, wn_calls = nd_calls n, wn_timeout = nd_timeout n, wn_status = SPending, wn_attempt = 0,
      wn_child = None, wn_used = 0, wn_result = PDict [], wn_error = None, wn_summary = None, wn_created = now,
      wn_updated = now, wn_started = None, wn_completed = None\<rparr>"

fun insert_nodes :: "string \<Rightarrow> string \<Rightarrow> int \<Rightarrow> node_def list \<Rightarrow> wdb \<Rightarrow> wdb res" where
  "insert_nodes run_id now sq [] db = Inr db"
| "insert_nodes run_id now sq (n # ns) db =
     (if exists_where (\<lambda>x. wn_run x = run_id \<and> (wn_id x = nd_id n \<or> wn_seq x = sq)) (w_nodes db)
         \<or> \<not> (0 < nd_steps n \<and> positive (nd_calls n) (nd_timeout n))
      then Inl (DatabaseErr ''workflow_node'')
      else insert_nodes run_id now (sq + 1) ns (db\<lparr>w_nodes := w_nodes db @ [new_node run_id now sq n]\<rparr>))"

definition new_wrun ::
  "wrun_request \<Rightarrow> string \<Rightarrow> string \<Rightarrow> string \<Rightarrow> run_snapshot \<Rightarrow> string \<Rightarrow> string \<Rightarrow> workflow_run" where
  "new_wrun q workflow_id source ent snapshot run_id now =
     (let d = sn_def snapshot in
      \<lparr>wr_id = run_id, wr_workflow = workflow_id, wr_parent = wq_parent q, wr_source = source, wr_entity = ent,
       wr_entity_type = wq_entity_type q, wr_profile = wq_profile q, wr_prompt = wq_prompt q, wr_status = RQueued,
       wr_concurrency = wb_concurrency (cw_budget d), wr_max_calls = wb_calls (cw_budget d), wr_used = 0,
       wr_timeout = wb_timeout (cw_budget d), wr_attempts = cw_attempts d, wr_snapshot = snapshot, wr_error = None,
       wr_summary = None, wr_actor = wq_actor q, wr_roles = wq_roles q, wr_request = wq_request q, wr_key = wq_key q,
       wr_version = 1, wr_created = now, wr_updated = now, wr_started = None, wr_completed = None\<rparr>)"

definition find_wkey :: "string \<Rightarrow> string \<Rightarrow> wdb \<Rightarrow> string option" where
  "find_wkey actor idem db = map_option wr_id (find (\<lambda>r. wr_actor r = actor \<and> wr_key r = idem) (w_runs db))"

definition insert_wrun ::
  "string \<Rightarrow> string \<Rightarrow> string \<Rightarrow> wrun_request \<Rightarrow> string \<Rightarrow> string \<Rightarrow> run_snapshot \<Rightarrow> wdb \<Rightarrow> wdb res" where
  "insert_wrun now fresh workflow_id q source ent snapshot db =
     (let r = new_wrun q workflow_id source ent snapshot fresh now in
      if find_wrun fresh db \<noteq> None \<or> (wq_parent q \<noteq> None \<and> find_wrun (the (wq_parent q)) db = None)
         \<or> \<not> (0 < wr_concurrency r \<and> 0 < wr_attempts r \<and> positive (wr_max_calls r) (wr_timeout r))
      then Inl (DatabaseErr ''workflow_run'')
      else bind_res (insert_nodes fresh now 0 (cw_nodes (sn_def snapshot)) (db\<lparr>w_runs := w_runs db @ [r]\<rparr>))
        (workflow_event now fresh ''workflow_run_created'' None [(''status'', PStr ''queued'')] None))"

definition create_wrun ::
  "string \<Rightarrow> string \<Rightarrow> string \<Rightarrow> wrun_request \<Rightarrow> wdb \<Rightarrow> (wdb \<times> workflow_view \<times> bool) res" where
  "create_wrun now fresh workflow_id q db =
     (case py_or (wq_evidence q) (PDict []) of
        PDict evidence \<Rightarrow>
          bind_res (validate_run_scope (wq_source q) (wq_entity q)) (\<lambda>(source, ent).
          bind_res (validate_evidence_scope (PDict evidence) (PStr source) (PStr ent) ''workflow_scope_invalid'') (\<lambda>_.
          bind_res (reject_sensitive (PDict evidence)) (\<lambda>_.
          bind_res (validate_runtime_snapshot (wq_runtime q) (wq_profile q) (wq_prompt q)) (\<lambda>runtime.
          case find_wkey (wq_actor q) (wq_key q) db of
            Some existing \<Rightarrow> wview existing True db
          | None \<Rightarrow>
              bind_res (get_workflow workflow_id db) (\<lambda>w.
              bind_res (insert_wrun now fresh workflow_id q source ent
                  \<lparr>sn_def = wf_def w, sn_evidence = evidence, sn_runtime = runtime\<rparr> db)
                (wview fresh False))))))
      | _ \<Rightarrow> agentic ''workflow_evidence_invalid'')"

subsection \<open>Transitions of a run\<close>

text \<open>The update is guarded by the version the same transaction has read; its row count is not checked.\<close>

definition moved_wrun ::
  "string \<Rightarrow> run_status \<Rightarrow> string option \<Rightarrow> string option \<Rightarrow> workflow_run \<Rightarrow> workflow_run" where
  "moved_wrun now status error_code error_summary r =
     r\<lparr>wr_status := status, wr_error := error_code, wr_summary := error_summary,
       wr_started := (if wr_started r \<noteq> None then wr_started r else if status = RRunning then Some now else None),
       wr_completed := (if status \<in> {RCompleted, RFailed, RCancelled, RAwaiting} then Some now else None),
       wr_updated := now, wr_version := wr_version r + 1\<rparr>"

definition transition_run ::
  "string \<Rightarrow> string \<Rightarrow> run_status \<Rightarrow> run_status set \<Rightarrow> string option \<Rightarrow> string option \<Rightarrow> string option
     \<Rightarrow> wdb \<Rightarrow> (wdb \<times> workflow_view \<times> bool) res" where
  "transition_run now run_id status allowed_from idem error_code error_summary db =
     (case find_wrun run_id db of
        None \<Rightarrow> missing ''workflow_run_not_found''
      | Some run \<Rightarrow>
          if idem \<noteq> None \<and> idem \<noteq> Some [] \<and> has_idem run_id (the idem) (w_events db) then wview run_id True db
          else if wr_status run \<notin> allowed_from then conflict ''workflow_state_conflict''
          else
            bind_res (workflow_event now run_id (''workflow_run_'' @ status_text status) None
                 [(''status'', PStr (status_text status)), (''error_code'', opt_str error_code)] idem
                 (db\<lparr>w_runs := upd_where (\<lambda>r. wr_id r = run_id \<and> wr_version r = wr_version run)
                   (moved_wrun now status error_code error_summary) (w_runs db)\<rparr>))
                 (wview run_id False))"

subsection \<open>Nodes\<close>

definition find_node :: "string \<Rightarrow> string \<Rightarrow> wdb \<Rightarrow> workflow_node option" where
  "find_node run_id node_id db = find (\<lambda>n. wn_run n = run_id \<and> wn_id n = node_id) (w_nodes db)"

definition ready_nodes :: "workflow_node list \<Rightarrow> workflow_node list" where
  "ready_nodes nodes =
     (let completed = map wn_id (filter (\<lambda>n. wn_status n = SCompleted) nodes)
      in filter (\<lambda>n. wn_status n = SPending \<and> list_all (\<lambda>d. d \<in> set completed) (wn_deps n)) nodes)"

definition the_node :: "string \<Rightarrow> string \<Rightarrow> step_status set \<Rightarrow> workflow_node \<Rightarrow> bool" where
  "the_node run_id node_id states n = (wn_run n = run_id \<and> wn_id n = node_id \<and> wn_status n \<in> states)"

definition step_text :: "step_status \<Rightarrow> string" where
  "step_text s = (case s of SPending \<Rightarrow> ''pending'' | SRunning \<Rightarrow> ''running'' | SCompleted \<Rightarrow> ''completed''
     | SFailed \<Rightarrow> ''failed'' | SCancelled \<Rightarrow> ''cancelled'' | SSkipped \<Rightarrow> ''skipped'')"

definition change_node ::
  "string \<Rightarrow> string \<Rightarrow> string \<Rightarrow> step_status set \<Rightarrow> (workflow_node \<Rightarrow> workflow_node) \<Rightarrow> string
     \<Rightarrow> (string \<times> pv) list \<Rightarrow> string option \<Rightarrow> (wdb \<Rightarrow> wdb) \<Rightarrow> wdb \<Rightarrow> wdb res" where
  "change_node now run_id node_id states f event attributes idem also_do db =
     bind_res (update_one ''workflow_node_conflict'' (the_node run_id node_id states) f (w_nodes db)) (\<lambda>nodes.
     workflow_event now run_id event (Some node_id) attributes idem (also_do (db\<lparr>w_nodes := nodes\<rparr>)))"

definition claim_node :: "string \<Rightarrow> string \<Rightarrow> string \<Rightarrow> wdb \<Rightarrow> wdb res" where
  "claim_node now run_id node_id =
     change_node now run_id node_id {SPending} (\<lambda>n. n\<lparr>wn_status := SRunning, wn_attempt := wn_attempt n + 1,
       wn_started := Some now, wn_updated := now\<rparr>) ''workflow_node_running'' [] None id"

definition attach_child_run :: "string \<Rightarrow> string \<Rightarrow> string \<Rightarrow> string \<Rightarrow> wdb \<Rightarrow> wdb res" where
  "attach_child_run now run_id node_id child db =
     (let mine = the_node run_id node_id {SRunning} in
      if exists_where mine (w_nodes db) \<and> find_run child db = None then Inl (DatabaseErr ''child_agent_run_id'')
      else Inr (db\<lparr>w_nodes := upd_where mine (\<lambda>n. n\<lparr>wn_child := Some child, wn_updated := now\<rparr>) (w_nodes db)\<rparr>))"

definition charge_run :: "string \<Rightarrow> string \<Rightarrow> int \<Rightarrow> wdb \<Rightarrow> wdb" where
  "charge_run now run_id calls db =
     db\<lparr>w_runs := upd_where (\<lambda>r. wr_id r = run_id) (\<lambda>r. r\<lparr>wr_used := wr_used r + calls, wr_updated := now,
       wr_version := wr_version r + 1\<rparr>) (w_runs db)\<rparr>"

definition finish_node ::
  "string \<Rightarrow> string \<Rightarrow> string \<Rightarrow> step_status \<Rightarrow> int \<Rightarrow> pv \<Rightarrow> string option \<Rightarrow> string option \<Rightarrow> wdb \<Rightarrow> wdb res" where
  "finish_node now run_id node_id status used_tool_calls result error_code error_summary db =
     (if exists_where (\<lambda>n. the_node run_id node_id {SRunning} n \<and> wn_used n + used_tool_calls < 0) (w_nodes db)
         \<or> (exists_where (the_node run_id node_id {SRunning}) (w_nodes db)
             \<and> exists_where (\<lambda>r. wr_id r = run_id \<and> wr_used r + used_tool_calls < 0) (w_runs db))
      then Inl (DatabaseErr ''used_tool_calls'')
      else
        change_node now run_id node_id {SRunning} (\<lambda>n. n\<lparr>wn_status := status, wn_used := wn_used n + used_tool_calls,
          wn_result := py_or result (PDict []), wn_error := error_code, wn_summary := error_summary,
          wn_completed := Some now, wn_updated := now\<rparr>) (''workflow_node_'' @ step_text status)
          [(''error_code'', opt_str error_code)] None (charge_run now run_id used_tool_calls) db)"

definition requeue_node :: "string \<Rightarrow> string \<Rightarrow> string \<Rightarrow> string \<Rightarrow> wdb \<Rightarrow> wdb res" where
  "requeue_node now run_id node_id reason =
     change_node now run_id node_id {SRunning} (\<lambda>n. n\<lparr>wn_status := SPending, wn_child := None, wn_result := PDict [],
       wn_error := None, wn_summary := None, wn_completed := None, wn_updated := now\<rparr>) ''workflow_node_pending''
       [(''reason'', PStr reason)] None id"

text \<open>A child run that has reserved its model planning stays attached.\<close>

definition kept_child :: "event_row list \<Rightarrow> string option \<Rightarrow> string option" where
  "kept_child events child =
     (case child of None \<Rightarrow> None
      | Some c \<Rightarrow> if has_event c ''model_planning_reserved'' events then Some c else None)"

definition back_to_pending :: "string \<Rightarrow> event_row list \<Rightarrow> workflow_node \<Rightarrow> workflow_node" where
  "back_to_pending now events n =
     n\<lparr>wn_status := SPending, wn_child := kept_child events (wn_child n), wn_error := None, wn_summary := None,
       wn_completed := None, wn_updated := now\<rparr>"

definition reset_node :: "string \<Rightarrow> string \<Rightarrow> string \<Rightarrow> string option \<Rightarrow> wdb \<Rightarrow> (wdb \<times> bool) res" where
  "reset_node now run_id node_id idem db =
     (if idem \<noteq> None \<and> idem \<noteq> Some [] \<and> has_idem run_id (the idem) (w_events db)
      then (if find_wrun run_id db = None then missing ''workflow_run_not_found''
            else if find_node run_id node_id db = None then Inl StopErr else Inr (db, True))
      else bind_res (change_node now run_id node_id {SRunning, SFailed} (back_to_pending now (a_events db))
          ''workflow_node_retry_queued'' [] idem id db) (\<lambda>db'. Inr (db', False)))"

subsection \<open>Recovery\<close>

definition requeue_running :: "string \<Rightarrow> string \<Rightarrow> wdb \<Rightarrow> wdb" where
  "requeue_running now run_id db =
     db\<lparr>w_nodes := upd_where (\<lambda>n. wn_run n = run_id \<and> wn_status n = SRunning) (back_to_pending now (a_events db))
       (w_nodes db)\<rparr>"

definition active_wruns :: "wdb \<Rightarrow> string list" where
  "active_wruns db =
     map wr_id (sort_key (\<lambda>r. (wr_created r, wr_id r)) (filter (\<lambda>r. wr_status r \<in> {RQueued, RRunning}) (w_runs db)))"

fun recover_each_wrun :: "string \<Rightarrow> string list \<Rightarrow> wdb \<Rightarrow> wdb res" where
  "recover_each_wrun now [] db = Inr db"
| "recover_each_wrun now (k # ks) db =
     bind_res (workflow_event now k ''workflow_run_recovered'' None [] None (requeue_running now k db))
       (recover_each_wrun now ks)"

definition recover_active_wruns :: "string \<Rightarrow> wdb \<Rightarrow> (wdb \<times> string list) res" where
  "recover_active_wruns now db =
     bind_res (recover_each_wrun now (active_wruns db) db) (\<lambda>db'. Inr (db', active_wruns db))"

definition recover_wrun :: "string \<Rightarrow> string \<Rightarrow> wdb \<Rightarrow> (wdb \<times> workflow_view) res" where
  "recover_wrun now run_id db =
     (case find_wrun run_id db of
        None \<Rightarrow> missing ''workflow_run_not_found''
      | Some run \<Rightarrow>
          if wr_status run \<notin> {RQueued, RRunning} then conflict ''workflow_state_conflict''
          else bind_res (workflow_event now run_id ''workflow_run_recovered'' None [] None (requeue_running now run_id db))
            (\<lambda>db'. bind_res (get_wrun run_id db') (\<lambda>v. Inr (db', v))))"

end
