(* ===== verification/Workflow_Scheduler.thy ===== *)
theory Workflow_Scheduler
  imports Workflow_Runs
begin

text \<open>
  \<open>WorkflowScheduler.execute\<close> (\<open>agentic/workflow_scheduler.py\<close>). The nodes of a batch run in a thread pool
  while other requests may pause or cancel the run; \<open>as_completed\<close> hands their results back one by one. The
  environment of the scheduler is a parameter: the wall clock, the time since the start of \<open>execute\<close>, and the
  next future that completes, with its result and the store as it is by then. \<open>while True\<close> runs on fuel.
\<close>

subsection \<open>The environment\<close>

record node_result =
  nr_status :: run_status
  nr_child :: "string option"
  nr_used :: int
  nr_artifacts :: "pv list"
  nr_error :: "string option"
  nr_reserved :: bool

record 'e sched_env =
  se_now :: "'e \<Rightarrow> string"
  se_elapsed :: "'e \<Rightarrow> fl \<times> 'e"
  se_next :: "string list \<Rightarrow> wdb \<Rightarrow> 'e \<Rightarrow> string \<times> (node_result res) \<times> wdb \<times> 'e"

text \<open>\<open>getattr(exc, "code", default)\<close>.\<close>

fun exc_code :: "exc \<Rightarrow> string \<Rightarrow> string" where
  "exc_code (AgenticErr c _) d = c"
| "exc_code (CodedErr _ c) d = c"
| "exc_code _ d = d"

definition future_result :: "node_result res \<Rightarrow> node_result" where
  "future_result r =
     (case r of Inr x \<Rightarrow> x
      | Inl e \<Rightarrow> \<lparr>nr_status = RFailed, nr_child = None, nr_used = 0, nr_artifacts = [],
          nr_error = Some (exc_code e ''workflow_node_failed''), nr_reserved = False\<rparr>)"

subsection \<open>Admission\<close>

text \<open>The ready nodes whose limits together fit into the remaining budget, in order.\<close>

fun admit :: "int \<Rightarrow> int \<Rightarrow> workflow_node list \<Rightarrow> workflow_node list" where
  "admit remaining reserved [] = []"
| "admit remaining reserved (n # ns) =
     (if reserved + wn_calls n \<le> remaining then n # admit remaining (reserved + wn_calls n) ns
      else admit remaining reserved ns)"

definition first_error :: "workflow_node list \<Rightarrow> string" where
  "first_error failed = (case failed of [] \<Rightarrow> ''workflow_node_failed''
     | n # _ \<Rightarrow> (case wn_error n of Some c \<Rightarrow> if c = [] then ''workflow_node_failed'' else c | None \<Rightarrow> ''workflow_node_failed''))"

text \<open>What the loop does with the run it has read: raise, hand the run to a human, or start a batch.\<close>

datatype sched_step = Stop exc | Hand_Over | Batch "workflow_node list"

definition plan_batch :: "workflow_view \<Rightarrow> sched_step" where
  "plan_batch v =
     (let run = wv_run v; nodes = wv_nodes v;
          pending = filter (\<lambda>n. wn_status n = SPending) nodes;
          terminal_failed = filter (\<lambda>n. wn_status n = SFailed \<and> wr_attempts run \<le> wn_attempt n) nodes;
          failed = filter (\<lambda>n. wn_status n = SFailed) nodes;
          ready = take (nat (wr_concurrency run)) (ready_nodes nodes);
          admitted = admit (wr_max_calls run - wr_used run) 0 ready
      in if list_ex (\<lambda>n. wr_attempts run \<le> wn_attempt n) pending then Stop (AgenticErr ''workflow_retry_exhausted'' 422)
         else if terminal_failed \<noteq> [] then Stop (AgenticErr (first_error terminal_failed) 422)
         else if pending = [] then
           (if failed \<noteq> [] then Stop (AgenticErr (first_error failed) 422) else Hand_Over)
         else if ready = [] then Stop (AgenticErr ''workflow_dependency_blocked'' 422)
         else if admitted = [] then Stop (AgenticErr ''workflow_budget_exhausted'' 422)
         else Batch admitted)"

fun claim_nodes :: "string \<Rightarrow> string \<Rightarrow> string list \<Rightarrow> wdb \<Rightarrow> wdb \<times> exc option" where
  "claim_nodes now run_id [] db = (db, None)"
| "claim_nodes now run_id (k # ks) db =
     (case claim_node now run_id k db of
        Inl e \<Rightarrow> (db, Some e)
      | Inr db' \<Rightarrow> claim_nodes now run_id ks db')"

subsection \<open>Settling a finished node\<close>

definition over_budget :: "workflow_run \<Rightarrow> workflow_node \<Rightarrow> int \<Rightarrow> bool" where
  "over_budget run node used = (used < 0 \<or> wn_calls node < used \<or> wr_max_calls run < wr_used run + used)"

definition lift_store :: "wdb \<Rightarrow> wdb res \<Rightarrow> wdb \<times> exc option" where
  "lift_store db r = (case r of Inl e \<Rightarrow> (db, Some e) | Inr db' \<Rightarrow> (db', None))"

definition budget_error :: exc where
  "budget_error = AgenticErr ''workflow_budget_exhausted'' 422"

text \<open>
  One pass of the loop over \<open>as_completed\<close>. The store of the transactions already committed survives an
  exception. \<open>max_attempts\<close> is that of the run read before the batch. The code tests the budget a second time,
  with the values of the first test, so that branch is the first one.
\<close>

definition settle_node :: "string \<Rightarrow> string \<Rightarrow> int \<Rightarrow> string \<Rightarrow> node_result \<Rightarrow> wdb \<Rightarrow> wdb \<times> exc option" where
  "settle_node now run_id max_attempts node_id result db =
     (case get_wrun run_id db of
        Inl e \<Rightarrow> (db, Some e)
      | Inr v \<Rightarrow>
        (case find (\<lambda>n. wn_id n = node_id) (wv_nodes v) of
           None \<Rightarrow> (db, Some StopErr)
         | Some node \<Rightarrow>
           let used = nr_used result; status = wr_status (wv_run v) in
           if over_budget (wv_run v) node used then (db, Some budget_error)
           else if status = RPaused \<or> nr_status result = RPaused then
             (if nr_reserved result
              then lift_store db (finish_node now run_id node_id SFailed used PNone (Some ''agent_plan_indeterminate'')
                     (Some ''paused planning is not resent'') db)
              else lift_store db (requeue_node now run_id node_id ''workflow_paused'' db))
           else if status = RCancelled \<or> nr_status result = RCancelled then
             lift_store db (finish_node now run_id node_id SCancelled used PNone (Some ''workflow_cancelled'')
               (Some ''cancelled while the node ran'') db)
           else if nr_status result \<in> {RAwaiting, RCompleted} then
             lift_store db (finish_node now run_id node_id SCompleted used
               (PDict [(''child_agent_run_id'', opt_str (nr_child result)), (''artifacts'', PList (nr_artifacts result))])
               None None db)
           else
             let code = (case nr_error result of Some c \<Rightarrow> if c = [] then None else Some c | None \<Rightarrow> None) in
             (case finish_node now run_id node_id SFailed used PNone
                     (Some (case code of Some c \<Rightarrow> c | None \<Rightarrow> ''workflow_node_failed'')) (Some ''node failed'') db of
                Inl e \<Rightarrow> (db, Some e)
              | Inr db1 \<Rightarrow>
                  if nr_reserved result
                  then (db1, Some (AgenticErr (case code of Some c \<Rightarrow> c | None \<Rightarrow> ''agent_plan_indeterminate'') 422))
                  else if wn_attempt node < max_attempts
                  then lift_store db1 (bind_res (reset_node now run_id node_id None db1) (\<lambda>(db2, _). Inr db2))
                  else (db1, None))))"

text \<open>
  The loop over the outstanding nodes of a batch. After an exception the pool still waits for the other
  threads, whose results are dropped.
\<close>

fun settle_batch ::
  "'e sched_env \<Rightarrow> string \<Rightarrow> int \<Rightarrow> nat \<Rightarrow> string list \<Rightarrow> bool \<Rightarrow> wdb \<Rightarrow> 'e \<Rightarrow> wdb \<times> 'e \<times> exc option" where
  "settle_batch env run_id max_attempts 0 outstanding raised db e = (db, e, None)"
| "settle_batch env run_id max_attempts (Suc n) outstanding raised db e =
     (case se_next env outstanding db e of
        (node_id, r, db1, e1) \<Rightarrow>
          let rest = remove1 node_id outstanding in
          if raised then settle_batch env run_id max_attempts n rest True db1 e1
          else
            (case settle_node (se_now env e1) run_id max_attempts node_id (future_result r) db1 of
               (db2, None) \<Rightarrow> settle_batch env run_id max_attempts n rest False db2 e1
             | (db2, Some ex) \<Rightarrow>
                 (case settle_batch env run_id max_attempts n rest True db2 e1 of
                    (db3, e3, _) \<Rightarrow> (db3, e3, Some ex))))"

subsection \<open>The loop and \<open>execute\<close>\<close>

datatype sched_out = Returned | Raised exc

text \<open>A pass through \<open>while True\<close> that does not leave the loop recurs with the next fuel.\<close>

fun sched_loop :: "'e sched_env \<Rightarrow> string \<Rightarrow> nat \<Rightarrow> wdb \<Rightarrow> 'e \<Rightarrow> (wdb \<times> 'e \<times> sched_out) option" where
  "sched_loop env run_id 0 db e = None"
| "sched_loop env run_id (Suc fuel) db e =
     (case get_wrun run_id db of
        Inl ex \<Rightarrow> Some (db, e, Raised ex)
      | Inr v \<Rightarrow>
          if wr_status (wv_run v) \<in> {RPaused, RCancelled} then Some (db, e, Returned)
          else
            (case se_elapsed env e of (elapsed, e1) \<Rightarrow>
             if fl_lt (wr_timeout (wv_run v)) elapsed then Some (db, e1, Raised (AgenticErr ''workflow_timeout'' 422))
             else
               (case plan_batch v of
                  Stop ex \<Rightarrow> Some (db, e1, Raised ex)
                | Hand_Over \<Rightarrow>
                    (case transition_run (se_now env e1) run_id RAwaiting {RRunning} None None None db of
                       Inl ex \<Rightarrow> Some (db, e1, Raised ex)
                     | Inr (db1, _, _) \<Rightarrow> Some (db1, e1, Returned))
                | Batch admitted \<Rightarrow>
                    (case claim_nodes (se_now env e1) run_id (map wn_id admitted) db of
                       (db1, Some ex) \<Rightarrow> Some (db1, e1, Raised ex)
                     | (db1, None) \<Rightarrow>
                         (case settle_batch env run_id (wr_attempts (wv_run v)) (length admitted) (map wn_id admitted) False db1 e1 of
                            (db2, e2, Some ex) \<Rightarrow> Some (db2, e2, Raised ex)
                          | (db2, e2, None) \<Rightarrow> sched_loop env run_id fuel db2 e2)))))"

definition fail_wrun :: "'e sched_env \<Rightarrow> string \<Rightarrow> exc \<Rightarrow> wdb \<Rightarrow> 'e \<Rightarrow> (wdb \<times> 'e \<times> workflow_view) res" where
  "fail_wrun env run_id ex db e =
     (case transition_run (se_now env e) run_id RFailed {RQueued, RRunning, RPaused} None
             (Some (exc_code ex ''workflow_run_failed'')) (Some ''workflow failed'') db of
        Inr (db', v, _) \<Rightarrow> Inr (db', e, v)
      | Inl (AgenticErr c s) \<Rightarrow> bind_res (get_wrun run_id db) (\<lambda>v. Inr (db, e, v))
      | Inl ex' \<Rightarrow> Inl ex')"

definition start_wrun :: "'e sched_env \<Rightarrow> string \<Rightarrow> run_status \<Rightarrow> wdb \<Rightarrow> 'e \<Rightarrow> wdb \<times> exc option" where
  "start_wrun env run_id status db e =
     (if status = RQueued
      then (case transition_run (se_now env e) run_id RRunning {RQueued} None None None db of
              Inl ex \<Rightarrow> (db, Some ex)
            | Inr (db1, _, _) \<Rightarrow> (db1, None))
      else (db, None))"

definition execute_wrun ::
  "'e sched_env \<Rightarrow> nat \<Rightarrow> string \<Rightarrow> wdb \<Rightarrow> 'e \<Rightarrow> ((wdb \<times> 'e \<times> workflow_view) res) option" where
  "execute_wrun env fuel run_id db e =
     (case get_wrun run_id db of
        Inl ex \<Rightarrow> Some (Inl ex)
      | Inr v \<Rightarrow>
          if wr_status (wv_run v) \<in> {RPaused, RCancelled, RAwaiting, RCompleted} then Some (Inr (db, e, v))
          else
            (case start_wrun env run_id (wr_status (wv_run v)) db e of
               (db1, Some ex) \<Rightarrow> Some (fail_wrun env run_id ex db1 e)
             | (db1, None) \<Rightarrow>
                 (case sched_loop env run_id fuel db1 e of
                    None \<Rightarrow> None
                  | Some (db2, e2, Raised ex) \<Rightarrow> Some (fail_wrun env run_id ex db2 e2)
                  | Some (db2, e2, Returned) \<Rightarrow> Some (bind_res (get_wrun run_id db2) (\<lambda>v. Inr (db2, e2, v))))))"

end
