(* ===== verification/Agent_Services.thy ===== *)
theory Agent_Services
  imports Agent_Execute Workflow_Scheduler
begin

text \<open>
  The services around the agent runs and the workflows: \<open>AgentService\<close> (\<open>agentic/service.py\<close>), \<open>WorkflowWorker\<close>
  (\<open>agentic/workflow_worker.py\<close>), which runs a node of a workflow as a child agent run, and \<open>WorkflowService\<close>
  (\<open>agentic/workflow_service.py\<close>). A service call is a sequence of transactions on the common database; before each of them
  other processes may have changed it (\<open>wo_other\<close>). The clock, fresh identifiers, the evidence of the feature jobs and the
  environment of the execution of a child run are those of the step.
\<close>

subsection \<open>Steps of a service\<close>

record wk_env =
  wo_clock :: "nat \<Rightarrow> string"
  wo_fresh :: "nat \<Rightarrow> string"
  wo_other :: "nat \<Rightarrow> wdb \<Rightarrow> wdb"
  wo_evidence :: "nat \<Rightarrow> pv res"
  wo_sha :: "string \<Rightarrow> string"
  wo_runtime :: "nat \<Rightarrow> rt_env"

record wk_state =
  wk_db :: wdb
  wk_tick :: nat

type_synonym 'a wk = "(wk_state, 'a) comp"

definition wk_tx :: "wk_env \<Rightarrow> (nat \<Rightarrow> wdb \<Rightarrow> (wdb \<times> 'a) res) \<Rightarrow> 'a wk" where
  "wk_tx env f s =
     (let t = wk_tick s; db = wo_other env t (wk_db s) in
      case f t db of
        Inl e \<Rightarrow> (Inl e, s\<lparr>wk_db := db, wk_tick := Suc t\<rparr>)
      | Inr (db', x) \<Rightarrow> (Inr x, s\<lparr>wk_db := db', wk_tick := Suc t\<rparr>))"

definition wk_read :: "wk_env \<Rightarrow> (wdb \<Rightarrow> 'a res) \<Rightarrow> 'a wk" where
  "wk_read env f = wk_tx env (\<lambda>t db. bind_res (f db) (\<lambda>x. Inr (db, x)))"

definition wk_write :: "wk_env \<Rightarrow> (nat \<Rightarrow> wdb \<Rightarrow> wdb res) \<Rightarrow> unit wk" where
  "wk_write env f = wk_tx env (\<lambda>t db. bind_res (f t db) (\<lambda>db'. Inr (db', ())))"

definition wk_ask :: "(nat \<Rightarrow> 'a res) \<Rightarrow> 'a wk" where
  "wk_ask f s = (f (wk_tick s), s\<lparr>wk_tick := Suc (wk_tick s)\<rparr>)"

text \<open>The agent tables of the database and what the runtime leaves there.\<close>

definition agents_of :: "wdb \<Rightarrow> adb" where
  "agents_of db = adb.truncate db"

definition put_agents :: "adb \<Rightarrow> wdb \<Rightarrow> wdb" where
  "put_agents agents db =
     db\<lparr>a_runs := a_runs agents, a_steps := a_steps agents, a_calls := a_calls agents, a_artifacts := a_artifacts agents,
        a_events := a_events agents\<rparr>"

definition wk_execute :: "wk_env \<Rightarrow> string \<Rightarrow> run_view wk" where
  "wk_execute env run_id s =
     (let t = wk_tick s; db = wo_other env t (wk_db s) in
      case agent_execute (wo_runtime env t) run_id \<lparr>ex_db = agents_of db, ex_tick = 0, ex_trace = []\<rparr> of
        (r, x) \<Rightarrow> (r, s\<lparr>wk_db := put_agents (ex_db x) db, wk_tick := Suc t\<rparr>))"

subsection \<open>\<open>AgentService\<close>\<close>

definition service_key :: "string \<Rightarrow> string res" where
  "service_key v = (if blank v then agentic ''idempotency_required'' else Inr (py_strip v))"

text \<open>\<open>ToolRegistry.lock_evidence\<close> with the evidence loader of the agent tools.\<close>

definition lock_evidence :: "(string \<Rightarrow> string) \<Rightarrow> tool_context \<Rightarrow> pv \<Rightarrow> (string \<times> pv) res" where
  "lock_evidence sha ctx raw =
     bind_res (load_evidence sha ctx raw) (\<lambda>evidence.
     bind_res (validate_material evidence (cx_source ctx) (cx_entity ctx)
       (case cx_cluster ctx of PStr c \<Rightarrow> Some c | _ \<Rightarrow> None)) (\<lambda>_.
     Inr (canonical_fingerprint sha evidence, cluster_of evidence)))"

definition lock_evidence_summary :: "(string \<Rightarrow> string) \<Rightarrow> pv res \<Rightarrow> pv \<Rightarrow> pv \<Rightarrow> pv \<Rightarrow> pv res" where
  "lock_evidence_summary sha raw summary source ent =
     bind_res (validate_evidence_scope summary source ent ''agent_scope_invalid'') (\<lambda>_.
     bind_res (validate_run_scope source ent) (\<lambda>(j, e).
     bind_res (dict_of summary) (\<lambda>value.
     bind_res (dict_of (py_or (dget value ''entity'') (PDict []))) (\<lambda>entity.
     bind_res raw (\<lambda>loaded.
     bind_res (lock_evidence sha \<lparr>cx_run = ''scope-lock'', cx_source = j, cx_entity = e, cx_allowed = [], cx_evidence = PNone,
         cx_cluster = dget entity ''cluster'', cx_bindings = []\<rparr> loaded) (\<lambda>(hash, cluster).
     if dget value ''locked_evidence_hash'' \<noteq> PNone \<and> dget value ''locked_evidence_hash'' \<noteq> PStr hash
     then agentic ''agent_evidence_changed''
     else Inr (PDict (dset (dset value ''locked_evidence_hash'' (PStr hash)) ''locked_evidence_cluster'' cluster))))))))"

definition wk_lock :: "wk_env \<Rightarrow> pv \<Rightarrow> pv \<Rightarrow> pv \<Rightarrow> pv wk" where
  "wk_lock env summary source ent = wk_ask (\<lambda>t. lock_evidence_summary (wo_sha env) (wo_evidence env t) summary source ent)"

text \<open>The flag of the result says whether it is a replay.\<close>

definition service_create :: "wk_env \<Rightarrow> run_request \<Rightarrow> (string \<times> pv) list \<Rightarrow> (run_view \<times> bool) wk" where
  "service_create env r locked =
     rt_bind (rt_res (post_init r)) (\<lambda>_.
     rt_bind (wk_read env (\<lambda>db. Inr (by_idempotency (rq_actor r) (rq_key r) db))) (\<lambda>existing.
     case existing of
       Some k \<Rightarrow>
         rt_bind (wk_read env (get_run k)) (\<lambda>saved.
         if PStr (ag_source (rv_run saved)) \<noteq> rq_source r \<or> PStr (ag_entity (rv_run saved)) \<noteq> rq_entity r
         then rt_raise (code_error ''agent_idempotency_scope_conflict'')
         else rt_return (saved, True))
     | None \<Rightarrow>
         rt_bind (if truthy (dget locked ''workflow_role_id'')
                  then rt_bind (wk_lock env (py_or (dget locked ''evidence_summary'') (PDict [])) (rq_source r) (rq_entity r))
                    (\<lambda>s. rt_return (dset locked ''evidence_summary'' s))
                  else rt_return locked) (\<lambda>value.
         wk_tx env (\<lambda>t db. create_run (wo_clock env t) (wo_fresh env t) r (PDict value) db))))"

definition wk_transition ::
  "wk_env \<Rightarrow> string \<Rightarrow> run_status \<Rightarrow> run_status set \<Rightarrow> string option \<Rightarrow> string option \<Rightarrow> string option
     \<Rightarrow> (run_view \<times> bool) wk" where
  "wk_transition env run_id status allowed_from ec es idem =
     wk_tx env (\<lambda>t db. transition (wo_clock env t) run_id status allowed_from ec es idem db)"

definition service_pause :: "wk_env \<Rightarrow> string \<Rightarrow> string \<Rightarrow> (run_view \<times> bool) wk" where
  "service_pause env run_id idem =
     rt_bind (rt_res (service_key idem)) (\<lambda>key.
     wk_transition env run_id RPaused {RQueued, RPlanning, RRunning} None None (Some key))"

definition service_resume :: "wk_env \<Rightarrow> string \<Rightarrow> string \<Rightarrow> (run_view \<times> bool) wk" where
  "service_resume env run_id idem =
     rt_bind (wk_read env (get_run run_id)) (\<lambda>run.
     rt_bind (rt_res (service_key idem)) (\<lambda>key.
     wk_transition env run_id (if rv_steps run \<noteq> [] then RRunning else RQueued) {RPaused} None None (Some key)))"

definition service_cancel :: "wk_env \<Rightarrow> string \<Rightarrow> string \<Rightarrow> (run_view \<times> bool) wk" where
  "service_cancel env run_id idem =
     rt_bind (rt_res (service_key idem)) (\<lambda>key.
     wk_transition env run_id RCancelled {RQueued, RPlanning, RRunning, RPaused, RAwaiting} None None (Some key))"

definition retry_request :: "agent_run \<Rightarrow> string \<Rightarrow> string \<Rightarrow> string \<Rightarrow> run_request" where
  "retry_request source run_id key request_id =
     \<lparr>rq_source = PStr (ag_source source), rq_entity = PStr (ag_entity source), rq_entity_type = ag_entity_type source,
      rq_profile = ag_profile source, rq_prompt = ag_prompt source, rq_max_steps = ag_max_steps source,
      rq_max_tool_calls = ag_max_calls source, rq_timeout = ag_timeout source, rq_tools = ag_tools source, rq_key = key,
      rq_actor = ag_actor source, rq_roles = ag_roles source, rq_request = request_id, rq_parent = Some run_id\<rparr>"

definition service_retry :: "wk_env \<Rightarrow> string \<Rightarrow> string \<Rightarrow> string \<Rightarrow> (run_view \<times> bool) wk" where
  "service_retry env run_id idem request_id =
     rt_bind (rt_res (service_key idem)) (\<lambda>key.
     rt_bind (wk_read env (get_run run_id)) (\<lambda>source.
     wk_tx env (\<lambda>t db. create_run (wo_clock env t) (wo_fresh env t) (retry_request (rv_run source) run_id key request_id)
       (ag_snapshot (rv_run source)) db)))"

definition mark_dispatch_failed :: "wk_env \<Rightarrow> string \<Rightarrow> string \<Rightarrow> (run_view \<times> bool) wk" where
  "mark_dispatch_failed env run_id error_code =
     wk_transition env run_id RFailed {RQueued, RPlanning, RRunning} (Some error_code)
       (Some (''Agent Airflow '' @ bytes [0xE5, 0x88, 0x86, 0xE6, 0xB4, 0xBE, 0xE5, 0xA4, 0xB1, 0xE8, 0xB4, 0xA5])) None"

end
