(* ===== verification/Workflow_Services.thy ===== *)
theory Workflow_Services
  imports Agent_Services
begin

text \<open>
  \<open>WorkflowWorker\<close> (\<open>agentic/workflow_worker.py\<close>) and \<open>WorkflowService\<close> (\<open>agentic/workflow_service.py\<close>) on the steps of
  \<open>Agent_Services\<close>. \<open>execute_node\<close> is what a thread of the scheduler runs for an admitted node.
\<close>

subsection \<open>The inputs of a child run\<close>

definition child_key :: "string \<Rightarrow> workflow_node \<Rightarrow> string" where
  "child_key run_id node = ''workflow:'' @ run_id @ '':'' @ wn_id node @ '':'' @ int_str (wn_attempt node)"

definition node_goal :: "string \<Rightarrow> string" where
  "node_goal role =
     bytes [0xE4, 0xBB, 0xA5] @ role @ bytes [
       0xE8, 0xA7, 0x92, 0xE8, 0x89, 0xB2, 0xE5, 0xA4, 0x84, 0xE7, 0x90, 0x86, 0xE5, 0xBD, 0x93, 0xE5, 0x89, 0x8D, 0xE9, 0xA3, 0x8E,
       0xE9, 0x99, 0xA9, 0xE5, 0xAE, 0x9E, 0xE4, 0xBD, 0x93]"

definition node_evidence :: "workflow_view \<Rightarrow> workflow_node \<Rightarrow> pv res" where
  "node_evidence v node =
     (let run = wv_run v; evidence = sn_evidence (wr_snapshot run) in
      bind_res (validate_evidence_scope (PDict evidence) (PStr (wr_source run)) (PStr (wr_entity run)) ''workflow_scope_invalid'') (\<lambda>_.
      bind_res (dependency_artifacts (map (\<lambda>n. (wn_id n, wn_result n)) (wv_nodes v)) (wn_deps node)) (\<lambda>artifacts.
      let summary = PDict (dset (dset (dset evidence ''source_job_id'' (PStr (wr_source run))) ''entity_id'' (PStr (wr_entity run)))
            ''dependency_artifacts'' artifacts)
      in bind_res (reject_sensitive summary) (\<lambda>_. Inr summary))))"

definition node_inputs :: "workflow_view \<Rightarrow> workflow_node \<Rightarrow> (string \<times> pv) list res" where
  "node_inputs v node =
     bind_res (node_evidence v node) (\<lambda>summary.
     let run = wv_run v; runtime = sn_runtime (wr_snapshot run);
         locked = [(''schema_version'', PStr ''1.0''), (''goal'', PStr (node_goal (wn_role node))), (''evidence_summary'', summary),
           (''workflow_run_id'', PStr (wr_id run)), (''workflow_node_id'', PStr (wn_id node)), (''workflow_role_id'', PStr (wn_role node)),
           (''dependency_nodes'', PList (map PStr (wn_deps node))),
           (''dependency_artifact_refs'', PList (map (\<lambda>n. PDict [(''node_id'', PStr (wn_id n)),
               (''child_agent_run_id'', opt_str (wn_child n))]) (filter (\<lambda>n. wn_id n \<in> set (wn_deps node)) (wv_nodes v))))]
     in if list_ex (\<lambda>key. \<not> truthy (dget runtime key)) runtime_keys then agentic ''workflow_runtime_snapshot_invalid''
        else Inr (locked @ map (\<lambda>key. (key, dget runtime key)) runtime_keys))"

definition node_request :: "workflow_run \<Rightarrow> workflow_node \<Rightarrow> run_request" where
  "node_request run node =
     \<lparr>rq_source = PStr (wr_source run), rq_entity = PStr (wr_entity run), rq_entity_type = wr_entity_type run,
      rq_profile = wr_profile run, rq_prompt = wr_prompt run, rq_max_steps = wn_steps node, rq_max_tool_calls = wn_calls node,
      rq_timeout = wn_timeout node, rq_tools = wn_tools node, rq_key = child_key (wr_id run) node, rq_actor = wr_actor run,
      rq_roles = wr_roles run, rq_request = wr_request run, rq_parent = None\<rparr>"

subsection \<open>\<open>execute_node\<close>\<close>

definition agent_artifact_pv :: "agent_artifact \<Rightarrow> pv" where
  "agent_artifact_pv a =
     PDict [(''artifact_id'', PStr (af_id a)), (''run_id'', PStr (af_run a)), (''step_id'', opt_str (af_step a)),
       (''artifact_type'', PStr (af_type a)), (''fingerprint'', opt_str (af_fingerprint a)), (''created_at'', PStr (af_created a)),
       (''schema_version'', PStr ''1.0''), (''payload'', af_payload a)]"

definition stopped_result :: "run_status \<Rightarrow> workflow_node \<Rightarrow> node_result" where
  "stopped_result status node =
     \<lparr>nr_status = status, nr_child = wn_child node, nr_used = 0, nr_artifacts = [], nr_error = None, nr_reserved = False\<rparr>"

definition child_result :: "string \<Rightarrow> run_view \<Rightarrow> node_result" where
  "child_result child v =
     \<lparr>nr_status = ag_status (rv_run v), nr_child = Some child, nr_used = ag_used (rv_run v),
      nr_artifacts = map agent_artifact_pv (rv_artifacts v), nr_error = ag_error (rv_run v),
      nr_reserved = list_ex (\<lambda>e. ev_type e = ''model_planning_reserved'') (rv_events v)\<rparr>"

text \<open>The child run of an earlier attempt to run the node is taken up again only inside the same workflow node.\<close>

definition child_in_scope :: "workflow_run \<Rightarrow> workflow_node \<Rightarrow> agent_run \<Rightarrow> bool" where
  "child_in_scope run node child =
     (ag_source child = wr_source run \<and> ag_entity child = wr_entity run
      \<and> (case ag_snapshot child of
           PDict d \<Rightarrow> dget d ''workflow_run_id'' = PStr (wr_id run) \<and> dget d ''workflow_node_id'' = PStr (wn_id node)
         | _ \<Rightarrow> False))"

definition node_child :: "wk_env \<Rightarrow> workflow_run \<Rightarrow> workflow_node \<Rightarrow> (string \<times> pv) list \<Rightarrow> run_view wk" where
  "node_child env run node locked =
     (if wn_child node \<noteq> None \<and> wn_child node \<noteq> Some []
      then rt_bind (wk_read env (get_run (the (wn_child node)))) (\<lambda>child.
           rt_bind (rt_when (\<not> child_in_scope run node (rv_run child)) (code_error ''agent_upstream_scope_invalid'')) (\<lambda>_.
           rt_return child))
      else rt_bind (service_create env (node_request run node) locked) (\<lambda>(child, _). rt_return child))"

definition execute_node :: "wk_env \<Rightarrow> string \<Rightarrow> string \<Rightarrow> node_result wk" where
  "execute_node env run_id node_id =
     rt_bind (wk_read env (get_wrun run_id)) (\<lambda>v.
     case find (\<lambda>n. wn_id n = node_id) (wv_nodes v) of
       None \<Rightarrow> rt_raise StopErr
     | Some node \<Rightarrow>
         let run = wv_run v in
         if wr_status run \<in> {RCancelled, RPaused} then rt_return (stopped_result (wr_status run) node)
         else
           rt_bind (rt_res (node_inputs v node)) (\<lambda>locked.
           rt_bind (node_child env run node locked) (\<lambda>child.
           let k = ag_id (rv_run child) in
           rt_bind (wk_write env (\<lambda>t. attach_child_run (wo_clock env t) run_id node_id k)) (\<lambda>_.
           rt_bind (wk_execute env k) (\<lambda>result. rt_return (child_result k result))))))"

text \<open>\<open>pause_active\<close> and \<open>cancel_active\<close>: one transaction per running node with a child.\<close>

fun stop_children ::
  "(wk_env \<Rightarrow> string \<Rightarrow> string \<Rightarrow> (run_view \<times> bool) wk) \<Rightarrow> wk_env \<Rightarrow> string \<Rightarrow> workflow_node list \<Rightarrow> unit wk" where
  "stop_children stop env key [] = rt_return ()"
| "stop_children stop env key (n # ns) =
     (if wn_status n = SRunning \<and> wn_child n \<noteq> None \<and> wn_child n \<noteq> Some []
      then rt_bind (stop env (the (wn_child n)) (key @ '':'' @ wn_id n)) (\<lambda>_. stop_children stop env key ns)
      else stop_children stop env key ns)"

definition pause_active :: "wk_env \<Rightarrow> workflow_view \<Rightarrow> string \<Rightarrow> unit wk" where
  "pause_active env run key = stop_children service_pause env key (wv_nodes run)"

definition cancel_active :: "wk_env \<Rightarrow> workflow_view \<Rightarrow> string \<Rightarrow> unit wk" where
  "cancel_active env run key = stop_children service_cancel env key (wv_nodes run)"

subsection \<open>\<open>WorkflowService\<close>\<close>

definition wservice_create_workflow ::
  "wk_env \<Rightarrow> agent_role list \<Rightarrow> workflow_limits \<Rightarrow> pv \<Rightarrow> string \<Rightarrow> string \<Rightarrow> (workflow_row \<times> bool) wk" where
  "wservice_create_workflow env roles limits document actor idem =
     rt_bind (rt_res (compile_workflow document roles limits)) (\<lambda>workflow.
     rt_bind (rt_res (service_key idem)) (\<lambda>key.
     wk_tx env (\<lambda>t db. create_workflow (wo_clock env t) (wo_fresh env t) workflow actor key db)))"

definition wservice_create :: "wk_env \<Rightarrow> string \<Rightarrow> wrun_request \<Rightarrow> (workflow_view \<times> bool) wk" where
  "wservice_create env workflow_id q =
     rt_bind (rt_res (reject_sensitive (wq_evidence q))) (\<lambda>_.
     rt_bind (rt_res (validate_run_scope (wq_source q) (wq_entity q))) (\<lambda>(source, ent).
     rt_bind (rt_res (validate_evidence_scope (wq_evidence q) (PStr source) (PStr ent) ''workflow_scope_invalid'')) (\<lambda>_.
     rt_bind (rt_res (validate_runtime_snapshot (wq_runtime q) (wq_profile q) (wq_prompt q))) (\<lambda>runtime.
     rt_bind (rt_res (service_key (wq_key q))) (\<lambda>key.
     rt_bind (rt_when (blank (wq_actor q) \<or> blank (wq_request q)) (code_error ''workflow_identity_invalid'')) (\<lambda>_.
     rt_bind (wk_lock env (wq_evidence q) (PStr source) (PStr ent)) (\<lambda>evidence.
     wk_tx env (\<lambda>t db. create_wrun (wo_clock env t) (wo_fresh env t) workflow_id
       (q\<lparr>wq_source := PStr source, wq_entity := PStr ent, wq_key := key, wq_evidence := evidence, wq_runtime := PDict runtime\<rparr>)
       db))))))))"

definition wk_transition_run ::
  "wk_env \<Rightarrow> string \<Rightarrow> run_status \<Rightarrow> run_status set \<Rightarrow> string option \<Rightarrow> (workflow_view \<times> bool) wk" where
  "wk_transition_run env run_id status allowed_from idem =
     wk_tx env (\<lambda>t db. transition_run (wo_clock env t) run_id status allowed_from idem None None db)"

definition wservice_pause :: "wk_env \<Rightarrow> string \<Rightarrow> string \<Rightarrow> (workflow_view \<times> bool) wk" where
  "wservice_pause env run_id idem =
     rt_bind (rt_res (service_key idem)) (\<lambda>key.
     rt_bind (wk_read env (get_wrun run_id)) (\<lambda>run.
     rt_bind (pause_active env run key) (\<lambda>_.
     wk_transition_run env run_id RPaused {RQueued, RRunning} (Some key))))"

definition wservice_resume :: "wk_env \<Rightarrow> string \<Rightarrow> string \<Rightarrow> (workflow_view \<times> bool) wk" where
  "wservice_resume env run_id idem =
     rt_bind (rt_res (service_key idem)) (\<lambda>key. wk_transition_run env run_id RRunning {RPaused} (Some key))"

definition wservice_cancel :: "wk_env \<Rightarrow> string \<Rightarrow> string \<Rightarrow> (workflow_view \<times> bool) wk" where
  "wservice_cancel env run_id idem =
     rt_bind (rt_res (service_key idem)) (\<lambda>key.
     rt_bind (wk_read env (get_wrun run_id)) (\<lambda>run.
     rt_bind (cancel_active env run key) (\<lambda>_.
     wk_transition_run env run_id RCancelled {RQueued, RRunning, RPaused, RFailed, RAwaiting} (Some key))))"

text \<open>The flag of the result is that of \<open>reset_node\<close>; the transition has no key.\<close>

definition wservice_retry_node :: "wk_env \<Rightarrow> string \<Rightarrow> string \<Rightarrow> string \<Rightarrow> (workflow_view \<times> bool) wk" where
  "wservice_retry_node env run_id node_id idem =
     rt_bind (rt_res (service_key idem)) (\<lambda>key.
     rt_bind (wk_tx env (\<lambda>t db. reset_node (wo_clock env t) run_id node_id (Some key) db)) (\<lambda>replay.
     rt_bind (wk_read env (get_wrun run_id)) (\<lambda>run.
     if wr_status (wv_run run) = RFailed
     then rt_bind (wk_transition_run env run_id RQueued {RFailed} None) (\<lambda>(v, _). rt_return (v, replay))
     else rt_return (run, replay))))"

definition wservice_retry :: "wk_env \<Rightarrow> string \<Rightarrow> string \<Rightarrow> string \<Rightarrow> (workflow_view \<times> bool) wk" where
  "wservice_retry env run_id idem request_id =
     rt_bind (wk_read env (get_wrun run_id)) (\<lambda>source.
     rt_bind (rt_res (service_key idem)) (\<lambda>key.
     let r = wv_run source; runtime = concat (map (\<lambda>k. case map_of (sn_runtime (wr_snapshot r)) k of None \<Rightarrow> [] | Some v \<Rightarrow> [(k, v)]) runtime_keys) in
     wservice_create env (wr_workflow r)
       \<lparr>wq_source = PStr (wr_source r), wq_entity = PStr (wr_entity r), wq_entity_type = wr_entity_type r,
        wq_profile = wr_profile r, wq_prompt = wr_prompt r, wq_actor = wr_actor r, wq_roles = wr_roles r, wq_request = request_id,
        wq_key = key, wq_parent = Some run_id, wq_evidence = PDict (sn_evidence (wr_snapshot r)),
        wq_runtime = (if runtime = [] then PNone else PDict runtime)\<rparr>))"

end
