(* ===== verification/Agent_Gate.thy ===== *)
theory Agent_Gate
  imports Agent_Execute
begin

text \<open>
  Reasoning about computations of the runtime: \<open>keeps f m\<close> says that \<open>m\<close> never changes the part \<open>f\<close> of the state, and
  \<open>triple P m Q E\<close> that \<open>m\<close>, started in \<open>P\<close>, ends in \<open>Q\<close> or with an exception in \<open>E\<close>. With them the human gate: a handler
  that writes candidates only runs after a passed evaluation of the same feature and the same evidence.
\<close>

named_theorems keeps_intros \<open>computations that leave a part of the state alone\<close>

definition keeps :: "('s \<Rightarrow> 'x) \<Rightarrow> ('s, 'a) comp \<Rightarrow> bool" where
  "keeps f m \<longleftrightarrow> (\<forall>s. f (snd (m s)) = f s)"

definition triple :: "('s \<Rightarrow> bool) \<Rightarrow> ('s, 'a) comp \<Rightarrow> ('a \<Rightarrow> 's \<Rightarrow> bool) \<Rightarrow> ('s \<Rightarrow> bool) \<Rightarrow> bool" where
  "triple P m Q E \<longleftrightarrow> (\<forall>s. P s \<longrightarrow> (case m s of (Inr x, s') \<Rightarrow> Q x s' | (Inl _, s') \<Rightarrow> E s'))"

lemmas rt_defs = rt_return_def rt_raise_def rt_bind_def rt_try_def rt_res_def rt_when_def rt_ask_def rt_trace_def

subsection \<open>Rules\<close>

lemma keeps_return [keeps_intros]: "keeps f (rt_return x)"
  by (simp add: keeps_def rt_defs)

lemma keeps_raise [keeps_intros]: "keeps f (rt_raise e)"
  by (simp add: keeps_def rt_defs)

lemma keeps_res [keeps_intros]: "keeps f (rt_res m)"
  by (simp add: keeps_def rt_defs)

lemma keeps_when [keeps_intros]: "keeps f (rt_when c e)"
  by (simp add: keeps_def rt_defs)

lemma keeps_bind [keeps_intros]: "keeps f m \<Longrightarrow> (\<And>x. keeps f (g x)) \<Longrightarrow> keeps f (rt_bind m g)"
  unfolding keeps_def rt_bind_def by (auto split: prod.split sum.split) (metis snd_conv)+

lemma keeps_try [keeps_intros]: "keeps f m \<Longrightarrow> (\<And>e. keeps f (h e)) \<Longrightarrow> keeps f (rt_try m h)"
  unfolding keeps_def rt_try_def by (auto split: prod.split sum.split) (metis snd_conv)+

lemma keeps_if [keeps_intros]: "(c \<Longrightarrow> keeps f a) \<Longrightarrow> (\<not> c \<Longrightarrow> keeps f b) \<Longrightarrow> keeps f (if c then a else b)"
  by simp

lemma keeps_option [keeps_intros]:
  "keeps f a \<Longrightarrow> (\<And>x. keeps f (b x)) \<Longrightarrow> keeps f (case v of None \<Rightarrow> a | Some x \<Rightarrow> b x)"
  by (cases v) simp_all

lemma keeps_pair [keeps_intros]: "(\<And>x y. keeps f (b x y)) \<Longrightarrow> keeps f (case v of (x, y) \<Rightarrow> b x y)"
  by (cases v) simp

lemma keeps_let [keeps_intros]: "(\<And>x. keeps f (b x)) \<Longrightarrow> keeps f (let x = v in b x)"
  by simp

lemma tripleI:
  "(\<And>s x s'. P s \<Longrightarrow> m s = (Inr x, s') \<Longrightarrow> Q x s') \<Longrightarrow> (\<And>s e s'. P s \<Longrightarrow> m s = (Inl e, s') \<Longrightarrow> E s') \<Longrightarrow> triple P m Q E"
  by (auto simp: triple_def split: prod.split sum.split)

lemma triple_Inr: "triple P m Q E \<Longrightarrow> P s \<Longrightarrow> m s = (Inr x, s') \<Longrightarrow> Q x s'"
  by (auto simp: triple_def dest: spec [of _ s])

lemma triple_Inl: "triple P m Q E \<Longrightarrow> P s \<Longrightarrow> m s = (Inl e, s') \<Longrightarrow> E s'"
  by (auto simp: triple_def dest: spec [of _ s])

lemma triple_bind:
  assumes "triple P m R E" and "\<And>x. triple (R x) (g x) Q E"
  shows "triple P (rt_bind m g) Q E"
  by (rule tripleI) (auto simp: rt_bind_def split: prod.splits sum.splits
      dest: triple_Inr [OF assms(1)] triple_Inl [OF assms(1)] triple_Inr [OF assms(2)] triple_Inl [OF assms(2)])

lemma triple_try:
  assumes "triple P m Q R" and "\<And>e. triple R (h e) Q E"
  shows "triple P (rt_try m h) Q E"
  by (rule tripleI) (auto simp: rt_try_def split: prod.splits sum.splits
      dest: triple_Inr [OF assms(1)] triple_Inl [OF assms(1)] triple_Inr [OF assms(2)] triple_Inl [OF assms(2)])

lemma triple_weaken:
  assumes "triple P' m Q' E'" and "\<And>s. P s \<Longrightarrow> P' s" and "\<And>x s. Q' x s \<Longrightarrow> Q x s" and "\<And>s. E' s \<Longrightarrow> E s"
  shows "triple P m Q E"
  by (rule tripleI) (blast intro: assms(2-4) triple_Inr [OF assms(1)] triple_Inl [OF assms(1)])+

lemma triple_pre: "triple P' m Q E \<Longrightarrow> (\<And>s. P s \<Longrightarrow> P' s) \<Longrightarrow> triple P m Q E"
  by (simp add: triple_def)

lemma triple_return: "(\<And>s. P s \<Longrightarrow> Q x s) \<Longrightarrow> triple P (rt_return x) Q E"
  by (simp add: triple_def rt_defs)

lemma triple_raise: "(\<And>s. P s \<Longrightarrow> E s) \<Longrightarrow> triple P (rt_raise e) Q E"
  by (simp add: triple_def rt_defs)

lemma triple_res: "(\<And>s x. P s \<Longrightarrow> v = Inr x \<Longrightarrow> Q x s) \<Longrightarrow> (\<And>s. P s \<Longrightarrow> E s) \<Longrightarrow> triple P (rt_res v) Q E"
  by (auto simp: triple_def rt_defs split: sum.split)

lemma triple_when: "(\<And>s. P s \<Longrightarrow> \<not> c \<Longrightarrow> Q () s) \<Longrightarrow> (\<And>s. P s \<Longrightarrow> E s) \<Longrightarrow> triple P (rt_when c e) Q E"
  by (auto simp: triple_def rt_defs)

lemma triple_keeps: "keeps f m \<Longrightarrow> triple (\<lambda>s. R (f s)) m (\<lambda>_ s. R (f s)) (\<lambda>s. R (f s))"
  by (rule tripleI) (simp_all add: keeps_def, metis snd_conv, metis snd_conv)

lemma triple_keeps_pre:
  "keeps f m \<Longrightarrow> (\<And>s. P s \<Longrightarrow> R (f s)) \<Longrightarrow> triple P m (\<lambda>_ s. R (f s)) (\<lambda>s. R (f s))"
  by (rule triple_pre [OF triple_keeps])

subsection \<open>What the calls of the repository leave alone\<close>

lemma keeps_ask [keeps_intros]: "(\<And>s t. f (s\<lparr>ex_tick := t\<rparr>) = f s) \<Longrightarrow> keeps f (rt_ask g)"
  by (simp add: keeps_def rt_defs)

lemma trace_store [keeps_intros]: "keeps ex_trace (on_store env g)"
  by (auto simp: keeps_def on_store_def Let_def split: sum.splits)

lemma trace_ask [keeps_intros]: "keeps ex_trace (rt_ask g)"
  by (rule keeps_ask) simp

lemmas rt_calls = rt_get_def rt_transition_def rt_event_def rt_start_step_def rt_finish_step_def rt_record_def
  rt_artifact_def rt_clock_def step_event_def fail_step_def context_event_def reserve_planning_def save_plan_def
  run_planner_def current_evidence_hash_def validate_rule_bindings_def

lemma trace_calls [keeps_intros]:
  "keeps ex_trace (rt_get env k)" "keeps ex_trace (rt_transition env k st al ec es)" "keeps ex_trace (rt_event env k ty xs)"
  "keeps ex_trace (rt_start_step env k i)" "keeps ex_trace (rt_finish_step env k i ss v ec)"
  "keeps ex_trace (rt_record env k i n a ss key c v l ec)" "keeps ex_trace (rt_artifact env k ty v j fp)"
  "keeps ex_trace (rt_clock env)" "keeps ex_trace (step_event env k ty step xs)" "keeps ex_trace (fail_step env k step code)"
  "keeps ex_trace (context_event env k ty i n)" "keeps ex_trace (reserve_planning env k)"
  "keeps ex_trace (save_plan env k pl b)" "keeps ex_trace (run_planner env r goal sm ex z)"
  "keeps ex_trace (current_evidence_hash env ctx)" "keeps ex_trace (validate_rule_bindings env ctx)"
  by (simp_all add: rt_calls trace_store trace_ask Let_def)

lemma trace_helpers [keeps_intros]:
  "keeps ex_trace (check_timeout env started timeout)" "keeps ex_trace (human_gate env ctx tool fp passed)"
  "keeps ex_trace (note_failure env k step tool key retry began code)"
  "keeps ex_trace (late_call env k started timeout step tool key began)"
  "keeps ex_trace (keep_result env ctx k step tool fp call_id out passed)"
  "keeps ex_trace (follow_parent env k v)" "keeps ex_trace (check_active env k started)"
  "keeps ex_trace (bound_context env ctx v)" "keeps ex_trace (settle_failure env k e)"
  "keeps ex_trace (plan_simple env r sm goal)"
proof -
  show "keeps ex_trace (check_timeout env started timeout)" for started timeout
    by (simp add: check_timeout_def) (intro keeps_intros)
  show "keeps ex_trace (human_gate env ctx tool fp passed)"
    by (simp add: human_gate_def) (intro keeps_intros impI conjI)
  show "keeps ex_trace (note_failure env k step tool key retry began code)"
    unfolding note_failure_def by (intro keeps_intros)
  show "keeps ex_trace (late_call env k started timeout step tool key began)"
    unfolding late_call_def by (intro keeps_intros)
  show "keeps ex_trace (keep_result env ctx k step tool fp call_id out passed)"
    unfolding keep_result_def by (intro keeps_intros)
  show fp: "keeps ex_trace (follow_parent env k v)" for v
    unfolding follow_parent_def by (intro keeps_intros)
  show "keeps ex_trace (check_active env k started)"
    unfolding check_active_def check_timeout_def by (intro keeps_intros fp)
  show "keeps ex_trace (bound_context env ctx v)"
    unfolding bound_context_def by (intro keeps_intros) (auto split: list.split intro!: keeps_intros)
  show "keeps ex_trace (settle_failure env k e)"
    unfolding settle_failure_def by (intro keeps_intros) (auto split: exc.split intro!: keeps_intros)
  show "keeps ex_trace (plan_simple env r sm goal)"
    unfolding plan_simple_def by (intro keeps_intros)
qed

subsection \<open>Approvals\<close>

definition writes_tool :: "registry \<Rightarrow> string \<Rightarrow> bool" where
  "writes_tool tools name = (case find (\<lambda>t. tl_name t = name) tools of None \<Rightarrow> False | Some t \<Rightarrow> tl_writes t)"

text \<open>What counts as a passed evaluation of the feature with fingerprint \<open>fp\<close> on the evidence with hash \<open>h\<close>.\<close>

fun approves :: "(string \<Rightarrow> string) \<Rightarrow> pv \<Rightarrow> string \<Rightarrow> trace_event \<Rightarrow> bool" where
  "approves sha h fp (Loaded artifacts) = (fp \<in> set (passed_evaluations sha h artifacts))"
| "approves sha h fp (Executed x) =
     (xe_tool x = ''evaluate_candidate''
      \<and> (case xe_outcome x of Inl _ \<Rightarrow> False | Inr out \<Rightarrow> evaluation_fingerprint sha out h = Some fp))"

definition approved :: "(string \<Rightarrow> string) \<Rightarrow> pv \<Rightarrow> string \<Rightarrow> trace_event list \<Rightarrow> bool" where
  "approved sha h fp tr = list_ex (approves sha h fp) tr"

definition may_run :: "rt_env \<Rightarrow> pv \<Rightarrow> string \<Rightarrow> pv \<Rightarrow> trace_event list \<Rightarrow> bool" where
  "may_run env h name args tr =
     (writes_tool (en_tools env) name \<longrightarrow>
        feature_of args \<noteq> PNone \<and> approved (en_sha env) h (canonical_fingerprint (en_sha env) (feature_of args)) tr)"

text \<open>Every executed call was allowed to run by what came before it.\<close>

definition gated :: "rt_env \<Rightarrow> pv \<Rightarrow> trace_event list \<Rightarrow> bool" where
  "gated env h tr = (\<forall>pre x post. tr = pre @ Executed x # post \<longrightarrow> may_run env h (xe_tool x) (xe_args x) pre)"

definition gate_inv :: "rt_env \<Rightarrow> pv \<Rightarrow> string list \<Rightarrow> trace_event list \<Rightarrow> bool" where
  "gate_inv env h passed tr = (gated env h tr \<and> (\<forall>fp \<in> set passed. approved (en_sha env) h fp tr))"

definition learned :: "rt_env \<Rightarrow> pv \<Rightarrow> string \<Rightarrow> pv \<Rightarrow> trace_event list \<Rightarrow> bool" where
  "learned env h name out tr =
     (\<forall>fp. name = ''evaluate_candidate'' \<longrightarrow> evaluation_fingerprint (en_sha env) out h = Some fp \<longrightarrow> approved (en_sha env) h fp tr)"

lemma approved_append [simp]: "approved sha h fp (tr @ tr') \<longleftrightarrow> approved sha h fp tr \<or> approved sha h fp tr'"
  by (simp add: approved_def)

lemma may_run_append: "may_run env h name args tr \<Longrightarrow> may_run env h name args (tr @ tr')"
  by (simp add: may_run_def)

lemma gated_Nil [simp]: "gated env h []"
  by (simp add: gated_def)

lemma snoc_split: "tr @ [e] = pre @ y # post \<longleftrightarrow> (post = [] \<and> pre = tr \<and> e = y) \<or> (\<exists>p. post = p @ [e] \<and> tr = pre @ y # p)"
  by (cases post rule: rev_cases) auto

lemma gated_Executed:
  "gated env h tr \<Longrightarrow> may_run env h (xe_tool x) (xe_args x) tr \<Longrightarrow> gated env h (tr @ [Executed x])"
  unfolding gated_def snoc_split by blast

lemma gated_Loaded: "gated env h tr \<Longrightarrow> gated env h (tr @ [Loaded a])"
  unfolding gated_def snoc_split by blast

lemma frame_bind:
  assumes "keeps f m" and "\<And>x. triple (\<lambda>s. R (f s)) (g x) Q (\<lambda>s. E (f s))" and "\<And>y. R y \<Longrightarrow> E y"
  shows "triple (\<lambda>s. R (f s)) (rt_bind m g) Q (\<lambda>s. E (f s))"
  by (rule triple_bind [OF triple_weaken [OF triple_keeps [OF assms(1), of R]] assms(2)]) (auto intro: assms(3))

lemma call_tool_gated:
  "triple (\<lambda>s. gate_inv env h passed (ex_trace s) \<and> may_run env h name args (ex_trace s)) (call_tool env ctx i name args)
     (\<lambda>out s. gate_inv env h passed (ex_trace s) \<and> may_run env h name args (ex_trace s) \<and> learned env h name out (ex_trace s))
     (\<lambda>s. gate_inv env h passed (ex_trace s) \<and> may_run env h name args (ex_trace s))"
proof -
  define I where "I = (\<lambda>tr. gate_inv env h passed tr \<and> may_run env h name args tr)"
  have extend: "I (tr @ [Executed \<lparr>xe_step = i, xe_tool = name, xe_args = args, xe_outcome = o'\<rparr>])" if "I tr" for tr o'
    using that by (auto simp: I_def gate_inv_def intro: gated_Executed may_run_append)
  have "triple (\<lambda>s. I (ex_trace s)) (call_tool env ctx i name args)
     (\<lambda>out s. I (ex_trace s) \<and> learned env h name out (ex_trace s)) (\<lambda>s. I (ex_trace s))"
    by (rule tripleI)
      (auto simp: call_tool_def rt_defs learned_def approved_def intro!: extend split: prod.splits sum.splits)
  then show ?thesis by (simp add: I_def)
qed

end
