(* ===== verification/Agent_Steps.thy ===== *)
theory Agent_Steps
  imports Agent_Runs
begin

text \<open>
  Sequences of \<open>AgentRepository\<close> calls: \<open>aop\<close> names one call, \<open>a_apply\<close> runs it, and \<open>areach\<close> is
  the set of stores reachable from the empty one. The invariants: unique keys, consecutively numbered
  events that are never deleted, and a budget counter that covers the recorded calls.
\<close>

subsection \<open>What a single operation does\<close>

lemma run_event_Inr [res_simps]:
  "run_event now k t p idem db = Inr db' \<longleftrightarrow>
     find_run k db \<noteq> None \<and> (idem = None \<or> \<not> has_idem k (the idem) (a_events db))
     \<and> db' = db\<lparr>a_events := append_row (- 1) k t p idem now (a_events db)\<rparr>"
  by (auto simp: run_event_def missing_def)

lemma view_of_Inr [res_simps]:
  "view_of k b db = Inr (db', v, b') \<longleftrightarrow> get_run k db = Inr v \<and> db' = db \<and> b' = b"
  by (auto simp: view_of_def res_simps)

lemma get_run_find: "get_run k db = Inr v \<Longrightarrow> find_run k db = Some (rv_run v)"
  by (auto simp: get_run_def missing_def split: option.splits)

lemma get_run_exists: "find_run k db = Some r \<Longrightarrow> \<exists>v. get_run k db = Inr v \<and> rv_run v = r"
  by (simp add: get_run_def)

lemma find_run_fields [simp]:
  "find_run k (db\<lparr>a_events := e\<rparr>) = find_run k db" "find_run k (db\<lparr>a_steps := s\<rparr>) = find_run k db"
  "find_run k (db\<lparr>a_calls := c\<rparr>) = find_run k db" "find_run k (db\<lparr>a_artifacts := a\<rparr>) = find_run k db"
  "find_run k (delete_steps j db) = find_run k db" "find_run k (reset_steps now j db) = find_run k db"
  by (simp_all add: find_run_def delete_steps_def reset_steps_def)

lemma find_run_id: "find_run k db = Some r \<Longrightarrow> ag_id r = k \<and> r \<in> set (a_runs db)"
  by (auto simp: find_run_def dest: find_Some_in)

lemma update_runs_fields [simp]:
  "a_events (update_runs k f db) = a_events db" "a_steps (update_runs k f db) = a_steps db"
  "a_calls (update_runs k f db) = a_calls db" "a_artifacts (update_runs k f db) = a_artifacts db"
  by (simp_all add: update_runs_def)

lemma find_run_update:
  "(\<And>r. ag_id (f r) = ag_id r) \<Longrightarrow>
   find_run j (update_runs k f db) = map_option (\<lambda>r. if j = k then f r else r) (find_run j db)"
  unfolding find_run_def update_runs_def
  by (auto simp: find_upd_where dest!: find_Some_in intro!: option.map_cong)

lemma insert_steps_fields:
  "insert_steps k n now ps db = Inr db' \<Longrightarrow>
     a_runs db' = a_runs db \<and> a_events db' = a_events db \<and> a_calls db' = a_calls db \<and> a_artifacts db' = a_artifacts db
     \<and> a_steps db' = a_steps db @ map (\<lambda>(i, p). new_step k (n + int i) now p) (enumerate 0 ps)"
proof (induction ps arbitrary: n db)
  case (Cons p ps)
  then obtain db1 where "insert_step k n now p db = Inr db1" "insert_steps k (n + 1) now ps db1 = Inr db'"
    by (auto simp: res_simps)
  with Cons.IH [of "n + 1" db1] show ?case
    by (auto simp: insert_step_def enumerate_Suc_eq split_def add.assoc split: if_splits)
qed simp

lemma find_run_runs: "a_runs db' = a_runs db \<Longrightarrow> find_run k db' = find_run k db"
  by (simp add: find_run_def)

subsection \<open>Calls\<close>

datatype aop =
    ACreate string string run_request pv
  | APlan string string agent_plan bool
  | AReserve string string
  | AContext string string plan_step
  | AEvent string string string pv "string option"
  | AArtifact string string string string pv "string option" "string option" "(adb \<Rightarrow> unit res) option"
  | ATransition string string run_status "run_status set" "string option" "string option" "string option"
  | AStart string string string
  | AFinish string string string step_status pv "string option" "string option"
  | ACall string string string string string pv step_status string int pv "int option" "string option" "string option"
  | ARecoverAll string
  | ARecover string string

fun a_apply :: "aop \<Rightarrow> adb \<Rightarrow> adb res" where
  "a_apply (ACreate now fresh r s) db = bind_res (create_run now fresh r s db) (\<lambda>(db', _). Inr db')"
| "a_apply (APlan now k p ctx) db = bind_res (replace_plan now k p ctx db) (\<lambda>(db', _). Inr db')"
| "a_apply (AReserve now k) db = bind_res (reserve_model_planning now k db) (\<lambda>(db', _). Inr db')"
| "a_apply (AContext now k p) db = add_context_step now k p db"
| "a_apply (AEvent now k t p i) db = append_agent_event now k t p i db"
| "a_apply (AArtifact now fresh k t p s f pre) db = bind_res (add_artifact now fresh k t p s f pre db) (\<lambda>(db', _). Inr db')"
| "a_apply (ATransition now k st al ec es i) db = bind_res (transition now k st al ec es i db) (\<lambda>(db', _). Inr db')"
| "a_apply (AStart now k s) db = start_step now k s db"
| "a_apply (AFinish now k s st r ec es) db = finish_step now k s st r ec es db"
| "a_apply (ACall now fresh k s t p st i c r l ec es) db =
     bind_res (record_tool_call now fresh k s t p st i c r l ec es db) (\<lambda>(db', _). Inr db')"
| "a_apply (ARecoverAll now) db = bind_res (recover_active_runs now db) (\<lambda>(db', _). Inr db')"
| "a_apply (ARecover now k) db = bind_res (recover_run now k db) (\<lambda>(db', _). Inr db')"

definition adb_empty :: adb where
  "adb_empty = \<lparr>a_runs = [], a_steps = [], a_calls = [], a_artifacts = [], a_events = []\<rparr>"

inductive areach :: "adb \<Rightarrow> adb \<Rightarrow> bool" for db0 where
  refl: "areach db0 db0"
| step: "areach db0 db \<Longrightarrow> a_apply op db = Inr db' \<Longrightarrow> areach db0 db'"

inductive_cases areach_cases: "areach db0 db"

fun a_run :: "aop list \<Rightarrow> adb \<Rightarrow> adb res" where
  "a_run [] db = Inr db"
| "a_run (op # ops) db = bind_res (a_apply op db) (a_run ops)"

lemma areach_trans: "areach b c \<Longrightarrow> areach a b \<Longrightarrow> areach a c"
  by (induction rule: areach.induct) (auto intro: areach.step)

lemma a_run_reach: "a_run ops db = Inr db' \<Longrightarrow> areach db db'"
proof (induction ops arbitrary: db)
  case (Cons op ops)
  then obtain db1 where "a_apply op db = Inr db1" "a_run ops db1 = Inr db'" by (auto simp: res_simps)
  then show ?case using Cons.IH [of db1] areach.step [OF areach.refl, of op db db1] by (simp add: areach_trans)
qed (auto intro: areach.refl)

subsection \<open>A relation that every call keeps\<close>

text \<open>
  Only \<open>create_run\<close> adds a run, no call removes one, and the identity of a run never changes. The
  events of the store only grow.
\<close>

definition same_run :: "agent_run \<Rightarrow> agent_run \<Rightarrow> bool" where
  "same_run r r' = (ag_id r' = ag_id r \<and> ag_actor r' = ag_actor r \<and> ag_key r' = ag_key r \<and> ag_source r' = ag_source r
     \<and> ag_entity r' = ag_entity r \<and> ag_max_calls r' = ag_max_calls r \<and> ag_max_steps r' = ag_max_steps r
     \<and> ag_snapshot r' = ag_snapshot r)"

lemma same_run_refl [simp]: "same_run r r"
  by (simp add: same_run_def)

lemma same_run_trans: "same_run a b \<Longrightarrow> same_run b c \<Longrightarrow> same_run a c"
  by (simp add: same_run_def)

definition same_step :: "agent_step \<Rightarrow> agent_step \<Rightarrow> bool" where
  "same_step s s' = (st_run s' = st_run s \<and> st_id s' = st_id s \<and> st_seq s' = st_seq s \<and> st_tool s' = st_tool s
     \<and> st_args s' = st_args s)"

definition add_call :: "string \<Rightarrow> tool_call \<Rightarrow> adb \<Rightarrow> adb" where
  "add_call now c db = update_runs (tc_run c) (\<lambda>r. r\<lparr>ag_used := ag_used r + tc_cost c, ag_updated := now,
     ag_version := ag_version r + 1\<rparr>) (db\<lparr>a_calls := a_calls db @ [c]\<rparr>)"

text \<open>The writes the operations are made of, each with what the code has checked before it.\<close>

inductive awrite :: "adb \<Rightarrow> adb \<Rightarrow> bool" where
  event: "find_run k db \<noteq> None \<Longrightarrow> idem = None \<or> \<not> has_idem k (the idem) (a_events db)
    \<Longrightarrow> awrite db (db\<lparr>a_events := append_row (- 1) k t p idem now (a_events db)\<rparr>)"
| run: "find_run (ag_id r) db = None \<Longrightarrow> by_idempotency (ag_actor r) (ag_key r) db = None \<Longrightarrow> ag_used r = 0
    \<Longrightarrow> awrite db (db\<lparr>a_runs := a_runs db @ [r]\<rparr>)"
| update: "(\<And>r. same_run r (f r)) \<Longrightarrow> (\<And>r. ag_used (f r) = ag_used r)
    \<Longrightarrow> awrite db (db\<lparr>a_runs := upd_where q f (a_runs db)\<rparr>)"
| step: "find_run k db \<noteq> None \<Longrightarrow> insert_step k n now p db = Inr db' \<Longrightarrow> awrite db db'"
| clear: "awrite db (delete_steps k db)"
| mark: "(\<And>s. same_step s (g s)) \<Longrightarrow> awrite db (db\<lparr>a_steps := upd_where q g (a_steps db)\<rparr>)"
| call: "find (\<lambda>x. tc_run x = tc_run c \<and> tc_key x = tc_key c) (a_calls db) = None \<Longrightarrow> 0 < tc_cost c
    \<Longrightarrow> exists_where (\<lambda>s. st_run s = tc_run c \<and> st_id s = tc_step c) (a_steps db) \<Longrightarrow> awrite db (add_call now c db)"
| artifact: "awrite db (db\<lparr>a_artifacts := a\<rparr>)"

inductive_cases awrite_cases: "awrite db db'"

abbreviation awrites :: "adb \<Rightarrow> adb \<Rightarrow> bool" where
  "awrites \<equiv> awrite\<^sup>*\<^sup>*"

lemma awrites_trans: "awrites a b \<Longrightarrow> awrites b c \<Longrightarrow> awrites a c"
  by (rule rtranclp_trans)

lemma awrites_event: "run_event now k t p i x = Inr db' \<Longrightarrow> awrites db x \<Longrightarrow> awrites db db'"
  by (auto simp: run_event_Inr intro: awrite.event rtranclp.rtrancl_into_rtrancl)

lemma awrites_update_runs:
  "(\<And>r. same_run r (f r)) \<Longrightarrow> (\<And>r. ag_used (f r) = ag_used r) \<Longrightarrow> awrites db (update_runs k f db)"
  unfolding update_runs_def by (blast intro: awrite.update)

lemma awrites_upd:
  "(\<And>r. same_run r (f r)) \<Longrightarrow> (\<And>r. ag_used (f r) = ag_used r)
   \<Longrightarrow> awrites db (db\<lparr>a_runs := upd_where q f (a_runs db)\<rparr>)"
  by (blast intro: awrite.update)

lemma awrites_reset: "awrites db (reset_steps now k db)"
  unfolding reset_steps_def by (rule r_into_rtranclp, rule awrite.mark) (simp add: same_step_def)

lemma awrites_insert:
  "insert_steps k n now ps db = Inr db' \<Longrightarrow> find_run k db \<noteq> None \<Longrightarrow> awrites db db'"
proof (induction ps arbitrary: n db)
  case (Cons p ps)
  then obtain db1 where 1: "insert_step k n now p db = Inr db1" and 2: "insert_steps k (n + 1) now ps db1 = Inr db'"
    by (auto simp: res_simps)
  have "find_run k db1 = find_run k db"
    using 1 by (intro find_run_runs) (auto simp: insert_step_def split: if_split_asm)
  with Cons.IH [OF 2] Cons.prems(2) have "awrites db1 db'" by simp
  with awrite.step [OF Cons.prems(2) 1] show ?case by (rule converse_rtranclp_into_rtranclp)
qed simp

lemma awrites_block: "block_uncertain_planning now k db = Inr (db', b) \<Longrightarrow> awrites db db'"
  by (auto simp: block_uncertain_planning_def bind_res_Inr_iff same_run_def split: if_split_asm
      intro: awrites_update_runs elim!: awrites_event)

lemma awrites_recover_each: "recover_each now ks db = Inr (db', ids) \<Longrightarrow> awrites db db'"
proof (induction ks arbitrary: db ids)
  case (Cons k ks)
  then obtain db1 b where b: "block_uncertain_planning now k db = Inr (db1, b)" by (auto simp: res_simps)
  show ?case
  proof (cases b)
    case True
    with Cons b show ?thesis by (auto intro: awrites_trans awrites_block)
  next
    case False
    with Cons.prems b obtain db2 ids' where
      "run_event now k ''run_recovered'' (PDict [(''status'', PStr ''recoverable'')]) None (reset_steps now k db1) = Inr db2"
      and r: "recover_each now ks db2 = Inr (db', ids')" by (auto simp: res_simps)
    then have "awrites db1 db2" by (auto intro: awrites_reset elim!: awrites_event)
    with Cons.IH [OF r] awrites_block [OF b] show ?thesis by (blast intro: awrites_trans)
  qed
qed simp

lemmas agent_defs = create_run_def replace_plan_def reserve_model_planning_def add_context_step_def insert_step_def
  append_agent_event_def add_artifact_def transition_def start_step_def finish_step_def update_step_def
  record_tool_call_def recover_active_runs_def recover_run_def

lemma recover_run_E:
  assumes "recover_run now k db = Inr (db', v)"
  obtains run db1 blocked where "find_run k db = Some run" and "ag_status run \<in> {RQueued, RPlanning, RRunning}"
    and "block_uncertain_planning now k db = Inr (db1, blocked)"
    and "run_event now k ''run_recovered'' (PDict [(''status'', PStr (status_text (ag_status run)))]) None
           (if exists_where (\<lambda>r. ag_id r = k \<and> ag_status r = RFailed) (a_runs db1) then db1
            else reset_steps now k db1) = Inr db'"
    and "get_run k db' = Inr v"
proof -
  from assms obtain run where run: "find_run k db = Some run"
    by (cases "find_run k db") (auto simp: recover_run_def missing_def)
  have act: "ag_status run \<in> {RQueued, RPlanning, RRunning}"
    using assms run by (rule_tac ccontr) (simp add: recover_run_def conflict_def)
  with assms run show ?thesis
    by (auto simp only: recover_run_def Let_def bind_res_Inr_iff option.case if_False not_not split_paired_Ex
        prod.case Inr_inject prod.inject simp_thms intro!: that)
qed

lemma awrites_one: "awrite db db' \<Longrightarrow> awrites db db'"
  by (rule r_into_rtranclp)

lemma awrites_plan: "replace_plan now k p ctx db = Inr (db', v) \<Longrightarrow> awrites db db'"
  by (auto simp: replace_plan_def Let_def bind_res_Inr_iff missing_def agentic_def same_run_def split: if_split_asm
      intro!: awrites_trans [OF _ awrites_update_runs] elim!: awrites_insert
        awrites_trans [OF awrites_one [OF awrite.clear] awrites_insert])

lemma awrites_call:
  assumes "record_tool_call now fresh k s t p st i c r l ec es db = Inr (db', x)"
  shows "awrites db db'"
proof (cases "find (\<lambda>c. tc_run c = k \<and> tc_key c = i) (a_calls db)")
  case None
  with assms have x: "tc_run x = k" "tc_key x = i" "0 < tc_cost x"
      "exists_where (\<lambda>s. st_run s = k \<and> st_id s = tc_step x) (a_steps db)"
    and db': "db' = add_call now x db"
    by (auto simp: record_tool_call_def Let_def add_call_def split: if_split_asm)
  with None have "awrite db (add_call now x db)" by (intro awrite.call) simp_all
  with db' show ?thesis by (auto intro: awrites_one)
qed (use assms in \<open>auto simp: record_tool_call_def\<close>)

lemma awrites_update_step:
  "update_step k s st g db = Inr db' \<Longrightarrow> (\<And>x. same_step x (g x)) \<Longrightarrow> awrites db db'"
  by (auto simp: update_step_def Let_def conflict_def split: if_split_asm intro!: awrites_one awrite.mark)

lemma awrites_step:
  assumes "a_apply op db = Inr db'"
  shows "awrites db db'"
proof (cases op)
  case (ACreate now fresh r s)
  with assms obtain v b where r: "create_run now fresh r s db = Inr (db', v, b)" by (auto simp: res_simps)
  show ?thesis
  proof (cases "by_idempotency (rq_actor r) (rq_key r) db")
    case None
    with r obtain source ent where f: "find_run fresh db = None"
      and e: "run_event now fresh ''run_created'' (PDict [(''status'', PStr ''queued'')]) None
        (db\<lparr>a_runs := a_runs db @ [new_run r source ent s fresh now]\<rparr>) = Inr db'"
      by (auto simp: create_run_def bind_res_Inr_iff view_of_Inr split: if_split_asm)
    have "awrite db (db\<lparr>a_runs := a_runs db @ [new_run r source ent s fresh now]\<rparr>)"
      by (rule awrite.run) (simp_all add: new_run_def f None)
    then show ?thesis by (blast intro: awrites_event [OF e] awrites_one)
  qed (use r in \<open>auto simp: create_run_def bind_res_Inr_iff view_of_Inr\<close>)
next
  case (APlan now k p ctx)
  with assms show ?thesis by (auto simp: bind_res_Inr_iff dest: awrites_plan)
next
  case (AReserve now k)
  with assms show ?thesis
    by (auto simp: reserve_model_planning_def bind_res_Inr_iff agentic_def split: option.split_asm if_split_asm
        elim!: awrites_event)
next
  case (AContext now k p)
  with assms show ?thesis
    by (auto simp: add_context_step_def Let_def agentic_def split: option.split_asm if_split_asm
        intro!: awrites_one elim!: awrite.step [rotated])
next
  case (AEvent now k t p i)
  with assms show ?thesis
    by (auto simp: append_agent_event_def split: option.split_asm if_split_asm elim!: awrites_event)
next
  case (AArtifact now fresh k t p s f pre)
  with assms show ?thesis
    by (auto simp: add_artifact_def Let_def bind_res_Inr_iff split: if_split_asm intro!: awrites_one awrite.artifact)
next
  case (ATransition now k st al ec es i)
  with assms show ?thesis
    by (auto simp: transition_def Let_def bind_res_Inr_iff view_of_Inr missing_def conflict_def same_run_def
        split: option.split_asm if_split_asm intro: awrites_upd elim!: awrites_event)
next
  case (ACall now fresh k s t p st i c r l ec es)
  with assms show ?thesis by (auto simp: bind_res_Inr_iff dest: awrites_call)
next
  case (ARecoverAll now)
  with assms show ?thesis by (auto simp: recover_active_runs_def bind_res_Inr_iff dest: awrites_recover_each)
next
  case (ARecover now k)
  with assms obtain v where r: "recover_run now k db = Inr (db', v)" by (auto simp: res_simps)
  show ?thesis
    by (rule recover_run_E [OF r]) (auto intro: awrites_block awrites_trans [OF awrites_block awrites_reset]
        elim!: awrites_event)
next
  case (AStart now k s)
  with assms show ?thesis by (auto simp: start_step_def same_step_def elim!: awrites_update_step)
next
  case (AFinish now k s st r ec es)
  with assms show ?thesis by (auto simp: finish_step_def same_step_def elim!: awrites_update_step)
qed

lemma areach_awrites: "areach db0 db \<Longrightarrow> awrites db0 db"
  by (induction rule: areach.induct) (auto intro: awrites_trans awrites_step)

lemma awrites_has_idem: "awrites db db' \<Longrightarrow> has_idem k i (a_events db) \<Longrightarrow> has_idem k i (a_events db')"
proof (induction rule: rtranclp_induct)
  case (step y z)
  from step.hyps(2) show ?case
    by cases (use step in \<open>auto simp: insert_step_def delete_steps_def add_call_def split: if_split_asm\<close>)
qed

subsection \<open>The invariant\<close>

definition call_costs :: "string \<Rightarrow> adb \<Rightarrow> int" where
  "call_costs k db = sum_list (map tc_cost (filter (\<lambda>c. tc_run c = k) (a_calls db)))"

definition step_key :: "agent_step \<Rightarrow> string \<times> string" where
  "step_key s = (st_run s, st_id s)"

text \<open>The keys of the tables, and the foreign keys the operations rely on.\<close>

definition a_keys :: "adb \<Rightarrow> bool" where
  "a_keys db = (distinct (map ag_id (a_runs db)) \<and> distinct (map (\<lambda>r. (ag_actor r, ag_key r)) (a_runs db))
     \<and> distinct (map step_key (a_steps db)) \<and> distinct (map (\<lambda>s. (st_run s, st_seq s)) (a_steps db))
     \<and> distinct (map (\<lambda>c. (tc_run c, tc_key c)) (a_calls db)))"

definition a_links :: "adb \<Rightarrow> bool" where
  "a_links db = ((\<forall>s \<in> set (a_steps db). st_run s \<in> ag_id ` set (a_runs db))
     \<and> (\<forall>c \<in> set (a_calls db). (tc_run c, tc_step c) \<in> step_key ` set (a_steps db) \<and> 0 < tc_cost c))"

definition a_budget :: "adb \<Rightarrow> bool" where
  "a_budget db = (\<forall>r \<in> set (a_runs db). call_costs (ag_id r) db \<le> ag_used r)"

definition a_log :: "adb \<Rightarrow> bool" where
  "a_log db = (\<forall>k. gapless (- 1) (seqs_of k (a_events db)))"

definition add_agent_event :: "string \<Rightarrow> string \<times> pv \<times> string option \<times> string \<Rightarrow> adb \<Rightarrow> adb" where
  "add_agent_event k = (\<lambda>(t, p, i, now) db. db\<lparr>a_events := append_row (- 1) k t p i now (a_events db)\<rparr>)"

interpretation agent_events: sequenced_log "- 1" "\<lambda>db k. seqs_of k (a_events db)" add_agent_event
  by unfold_locales (auto simp: add_agent_event_def seqs_of_append_row)

lemma map_upd_where: "(\<And>x. g (f x) = g x) \<Longrightarrow> map g (upd_where q f xs) = map g xs"
  by (simp add: upd_where_def)

lemma find_run_None: "find_run k db = None \<longleftrightarrow> k \<notin> ag_id ` set (a_runs db)"
  by (auto simp: find_run_def find_None_iff_all)

lemma by_idempotency_None:
  "by_idempotency a i db = None \<longleftrightarrow> (a, i) \<notin> (\<lambda>r. (ag_actor r, ag_key r)) ` set (a_runs db)"
  by (auto simp: by_idempotency_def find_None_iff_all)

lemma a_keys_write: "awrite db db' \<Longrightarrow> a_keys db \<Longrightarrow> a_keys db'"
proof (induction rule: awrite.induct)
  case (run r db)
  then show ?case by (auto simp: a_keys_def find_run_None by_idempotency_None)
next
  case (update f db q)
  then show ?case by (simp add: a_keys_def same_run_def map_upd_where del: set_map)
next
  case (step k db n now p db')
  then show ?case
    by (auto simp: a_keys_def insert_step_def new_step_def step_key_def exists_where_iff split: if_split_asm) blast+
next
  case (clear db k)
  then show ?case by (auto simp: a_keys_def delete_steps_def intro!: distinct_map_filter)
next
  case (mark g db q)
  then show ?case by (simp add: a_keys_def same_step_def step_key_def map_upd_where del: set_map)
next
  case (call c db now)
  then show ?case
    by (simp add: a_keys_def add_call_def update_runs_def map_upd_where find_None_iff_all del: set_map) auto
qed (simp_all add: a_keys_def)

lemma image_upd_where: "(\<And>x. g (f x) = g x) \<Longrightarrow> g ` set (upd_where q f xs) = g ` set xs"
  by (metis map_upd_where set_map)

lemma a_links_write: "awrite db db' \<Longrightarrow> a_links db \<Longrightarrow> a_links db'"
proof (induction rule: awrite.induct)
  case (update f db q)
  then show ?case by (simp add: a_links_def same_run_def image_upd_where)
next
  case (step k db n now p db')
  then show ?case
    by (auto simp: a_links_def insert_step_def new_step_def split: if_split_asm dest!: find_run_id)
next
  case (clear db k)
  then show ?case by (fastforce simp: a_links_def delete_steps_def step_key_def)
next
  case (mark g db q)
  then have "step_key ` set (upd_where q g (a_steps db)) = step_key ` set (a_steps db)"
    "st_run ` set (upd_where q g (a_steps db)) = st_run ` set (a_steps db)"
    by (simp_all add: same_step_def step_key_def image_upd_where)
  with mark show ?case
    by (simp add: a_links_def flip: image_subset_iff [of st_run, simplified subset_iff])
next
  case (call c db now)
  then show ?case
    by (auto simp: a_links_def add_call_def update_runs_def image_upd_where exists_where_iff step_key_def image_iff) metis
qed (simp_all add: a_links_def)

lemma call_costs_cong: "a_calls db' = a_calls db \<Longrightarrow> call_costs k db' = call_costs k db"
  by (simp add: call_costs_def)

lemma call_costs_new: "a_links db \<Longrightarrow> k \<notin> ag_id ` set (a_runs db) \<Longrightarrow> call_costs k db = 0"
proof -
  assume l: "a_links db" and k: "k \<notin> ag_id ` set (a_runs db)"
  have "filter (\<lambda>c. tc_run c = k) (a_calls db) = []"
    using l k by (fastforce simp: a_links_def step_key_def filter_empty_conv)
  then show ?thesis by (simp add: call_costs_def)
qed

lemma call_costs_nonneg: "a_links db \<Longrightarrow> 0 \<le> call_costs k db"
  unfolding call_costs_def by (rule sum_list_nonneg) (auto simp: a_links_def intro: less_imp_le)

lemma a_runs_delete: "a_runs (delete_steps k db) = a_runs db"
  by (simp add: delete_steps_def)

lemma call_costs_clear: "a_links db \<Longrightarrow> call_costs j (delete_steps k db) \<le> call_costs j db"
proof (cases "j = k")
  case True
  assume "a_links db"
  with True show ?thesis
    using call_costs_nonneg [of db k] by (simp add: call_costs_def delete_steps_def)
qed (simp add: call_costs_def delete_steps_def conj_commute cong: conj_cong)

lemma call_costs_add:
  "call_costs k (add_call now c db) = call_costs k db + (if tc_run c = k then tc_cost c else 0)"
  by (simp add: call_costs_def add_call_def)

lemma a_budget_write: "awrite db db' \<Longrightarrow> a_links db \<Longrightarrow> a_budget db \<Longrightarrow> a_budget db'"
proof (induction rule: awrite.induct)
  case (run r db)
  then show ?case
    by (auto simp: a_budget_def find_run_None call_costs_new call_costs_cong [of "db\<lparr>a_runs := _\<rparr>" db])
next
  case (update f db q)
  then show ?case
    by (auto simp: a_budget_def same_run_def upd_where_def call_costs_cong [of "db\<lparr>a_runs := _\<rparr>" db])
next
  case (step k db n now p db')
  then show ?case
    by (auto simp: a_budget_def insert_step_def call_costs_cong [of "db\<lparr>a_steps := _\<rparr>" db] split: if_split_asm)
next
  case (clear db k)
  then show ?case
    using order.trans [OF call_costs_clear] by (simp add: a_budget_def a_runs_delete)
next
  case (mark g db q)
  then show ?case by (simp add: a_budget_def call_costs_cong [of "db\<lparr>a_steps := _\<rparr>" db])
next
  case (call c db now)
  show ?case unfolding a_budget_def
  proof
    fix r' assume "r' \<in> set (a_runs (add_call now c db))"
    then obtain r where r: "r \<in> set (a_runs db)" and id: "ag_id r' = ag_id r"
      and used: "ag_used r' = ag_used r + (if tc_run c = ag_id r then tc_cost c else 0)"
      by (auto simp: add_call_def update_runs_def upd_where_def)
    from r call.prems(2) have "call_costs (ag_id r) db \<le> ag_used r" by (simp add: a_budget_def)
    then show "call_costs (ag_id r') (add_call now c db) \<le> ag_used r'"
      by (simp add: call_costs_add id used)
  qed
qed (simp_all add: a_budget_def call_costs_def)

lemma a_log_write: "awrite db db' \<Longrightarrow> a_log db \<Longrightarrow> a_log db'"
proof (induction rule: awrite.induct)
  case (event k db idem t p now)
  then show ?case
    using agent_events.add_gapless [where s = db and e = "(t, p, idem, now)" and k = k]
    by (simp add: a_log_def add_agent_event_def)
next
  case (step k db n now p db')
  then show ?case by (auto simp: a_log_def insert_step_def split: if_split_asm)
qed (simp_all add: a_log_def delete_steps_def add_call_def)

definition a_inv :: "adb \<Rightarrow> bool" where
  "a_inv db = (a_keys db \<and> a_links db \<and> a_budget db \<and> a_log db)"

lemma a_inv_empty [simp]: "a_inv adb_empty"
  by (simp add: a_inv_def adb_empty_def a_keys_def a_links_def a_budget_def a_log_def seqs_of_def)

lemma a_inv_writes: "awrites db db' \<Longrightarrow> a_inv db \<Longrightarrow> a_inv db'"
  by (induction rule: rtranclp_induct) (auto simp: a_inv_def intro: a_keys_write a_links_write a_budget_write a_log_write)

lemma a_inv_reach: "areach adb_empty db \<Longrightarrow> a_inv db"
  using a_inv_writes areach_awrites a_inv_empty by blast

end
