(* ===== verification/Agent_Budget.thy ===== *)
theory Agent_Budget
  imports Agent_Gate Agent_Steps
begin

text \<open>
  The tool budget of an execution: whatever the tools, the clock and the model do, and as long as other processes leave
  the budget of the run alone, the cost on record never exceeds the maximum.
\<close>

subsection \<open>The budget of a run\<close>

definition budget_of :: "string \<Rightarrow> 'z adb_scheme \<Rightarrow> (int \<times> int) option" where
  "budget_of k db = map_option (\<lambda>r. (ag_used r, ag_max_calls r)) (find_run k db)"

definition room :: "int \<Rightarrow> (int \<times> int) option \<Rightarrow> bool" where
  "room c b = (case b of None \<Rightarrow> True | Some (used, most) \<Rightarrow> used + c \<le> most)"

abbreviation (input) in_budget :: "(int \<times> int) option \<Rightarrow> bool" where
  "in_budget \<equiv> room 0"

definition budget :: "string \<Rightarrow> rt_state \<Rightarrow> (int \<times> int) option" where
  "budget k s = budget_of k (ex_db s)"

definition fair :: "rt_env \<Rightarrow> string \<Rightarrow> bool" where
  "fair env k = (\<forall>t db. budget_of k (en_other env t db) = budget_of k db)"

lemma room_less: "0 \<le> c \<Longrightarrow> room c b \<Longrightarrow> in_budget b"
  by (auto simp: room_def split: option.splits)

lemma keeps_store:
  assumes "fair env k" and "\<And>t db db' x. g t db = Inr (db', x) \<Longrightarrow> budget_of k db' = budget_of k db"
  shows "keeps (budget k) (on_store env g)"
  using assms by (auto simp: keeps_def on_store_def budget_def fair_def Let_def split: sum.splits)

lemma budget_ask [keeps_intros]: "keeps (budget k) (rt_ask g)"
  by (rule keeps_ask) (simp add: budget_def)

lemma budget_trace [keeps_intros]: "keeps (budget k) (rt_trace e)"
  by (simp add: keeps_def rt_trace_def budget_def)

subsection \<open>Operations that leave it alone\<close>

lemma budget_runs: "a_runs db' = a_runs db \<Longrightarrow> budget_of k db' = budget_of k db"
  by (simp add: budget_of_def find_run_def)

lemma budget_fields [simp]:
  "budget_of k (db\<lparr>a_events := e\<rparr>) = budget_of k db" "budget_of k (db\<lparr>a_steps := st\<rparr>) = budget_of k db"
  "budget_of k (db\<lparr>a_calls := c\<rparr>) = budget_of k db" "budget_of k (db\<lparr>a_artifacts := a\<rparr>) = budget_of k db"
  by (simp_all add: budget_of_def)

lemma budget_update:
  "(\<And>r. ag_id (f r) = ag_id r \<and> ag_used (f r) = ag_used r \<and> ag_max_calls (f r) = ag_max_calls r)
   \<Longrightarrow> budget_of k (db\<lparr>a_runs := upd_where p f (a_runs db)\<rparr>) = budget_of k db"
  by (auto simp: budget_of_def find_run_def find_upd_where option.map_comp comp_def intro!: option.map_cong)

lemma budget_update_runs:
  "(\<And>r. ag_id (f r) = ag_id r \<and> ag_used (f r) = ag_used r \<and> ag_max_calls (f r) = ag_max_calls r)
   \<Longrightarrow> budget_of k (update_runs j f db) = budget_of k db"
  unfolding update_runs_def by (rule budget_update)

lemma event_budget: "run_event now j ty p i db = Inr db' \<Longrightarrow> budget_of k db' = budget_of k db"
  by (auto simp: run_event_Inr intro: budget_runs)

lemma append_budget: "append_agent_event now j ty p i db = Inr db' \<Longrightarrow> budget_of k db' = budget_of k db"
  by (auto simp: append_agent_event_def split: option.splits if_splits dest: event_budget)

lemma transition_budget:
  assumes "transition now j st al ec es i db = Inr (db', v, b)"
  shows "budget_of k db' = budget_of k db"
proof (cases "find_run j db")
  case (Some run)
  let ?db1 = "db\<lparr>a_runs := upd_where (\<lambda>r. ag_id r = j \<and> ag_version r = ag_version run) (\<lambda>r. r\<lparr>ag_status := st,
     ag_error := ec, ag_summary := es, ag_started := started_mark st now (ag_started r),
     ag_completed := completed_mark st now (ag_completed r), ag_updated := now, ag_version := ag_version r + 1\<rparr>) (a_runs db)\<rparr>"
  have "budget_of k ?db1 = budget_of k db" by (rule budget_update) simp
  with assms Some show ?thesis
    by (auto simp: transition_def Let_def res_simps conflict_def view_of_Inr split: if_splits dest: event_budget)
qed (use assms in \<open>simp add: transition_def missing_def\<close>)

lemma update_step_budget: "update_step j i st f db = Inr db' \<Longrightarrow> budget_of k db' = budget_of k db"
  by (auto simp: update_step_def Let_def conflict_def split: if_splits intro: budget_runs)

lemma artifact_budget: "add_artifact now fresh j ty p i fp pre db = Inr (db', a) \<Longrightarrow> budget_of k db' = budget_of k db"
  by (auto simp: add_artifact_def Let_def bind_res_Inr_iff split: if_splits intro: budget_runs)

lemma insert_step_budget: "insert_step j n now p db = Inr db' \<Longrightarrow> budget_of k db' = budget_of k db"
  by (auto simp: insert_step_def split: if_splits intro: budget_runs)

lemma context_budget: "add_context_step now j p db = Inr db' \<Longrightarrow> budget_of k db' = budget_of k db"
  by (auto simp: add_context_step_def Let_def agentic_def split: option.splits if_splits dest: insert_step_budget)

lemma reserve_budget: "reserve_model_planning now j db = Inr (db', b) \<Longrightarrow> budget_of k db' = budget_of k db"
  by (auto simp: reserve_model_planning_def agentic_def bind_res_Inr_iff split: option.splits if_splits dest: event_budget)

lemma plan_budget:
  assumes "replace_plan now j plan preserve db = Inr (db', v)"
  shows "budget_of k db' = budget_of k db"
proof -
  from assms obtain db1 n where i: "insert_steps j n now (pl_steps plan) (if preserve then db else delete_steps j db) = Inr db1"
    and db': "db' = update_runs j (\<lambda>r. r\<lparr>ag_goal := Some (pl_goal plan), ag_updated := now, ag_version := ag_version r + 1\<rparr>) db1"
    by (auto simp: replace_plan_def Let_def bind_res_Inr_iff missing_def agentic_def split: if_splits)
  have "budget_of k db' = budget_of k db1" unfolding db' by (rule budget_update_runs) simp
  also have "\<dots> = budget_of k db"
    using insert_steps_fields [OF i] by (intro budget_runs) (simp add: delete_steps_def)
  finally show ?thesis .
qed

lemma budget_calls [keeps_intros]:
  assumes "fair env k"
  shows "keeps (budget k) (rt_get env j)" "keeps (budget k) (rt_transition env j st al ec es)"
    "keeps (budget k) (rt_event env j ty xs)" "keeps (budget k) (rt_start_step env j i)"
    "keeps (budget k) (rt_finish_step env j i ss v ec)" "keeps (budget k) (rt_artifact env j ty v i' fp)"
    "keeps (budget k) (reserve_planning env j)" "keeps (budget k) (save_plan env j pl b)"
  unfolding rt_calls with_unit_def start_step_def finish_step_def
  by (rule keeps_store [OF assms]; auto simp: bind_res_Inr_iff
      dest: transition_budget append_budget update_step_budget artifact_budget reserve_budget plan_budget)+

lemma budget_events [keeps_intros]:
  assumes "fair env k"
  shows "keeps (budget k) (step_event env j ty step xs)" "keeps (budget k) (fail_step env j step code)"
    "keeps (budget k) (context_event env j ty i n)"
  unfolding step_event_def fail_step_def context_event_def by (rule budget_calls [OF assms])+

lemma budget_asks [keeps_intros]:
  "keeps (budget k) (rt_clock env)" "keeps (budget k) (run_planner env r goal sm ex z)"
  "keeps (budget k) (current_evidence_hash env ctx)" "keeps (budget k) (validate_rule_bindings env ctx)"
  "keeps (budget k) (check_timeout env started timeout)" "keeps (budget k) (human_gate env ctx tool fp passed)"
  "keeps (budget k) (call_tool env ctx i name args)"
  unfolding rt_calls Let_def check_timeout_def human_gate_def call_tool_def by (intro keeps_intros)+

end
