(* ===== verification/Agent_Budget_Props.thy ===== *)
theory Agent_Budget_Props
  imports Agent_Budget
begin

text \<open>The budget through the steps, the reads of an expert and the whole execution.\<close>

abbreviation (input) has_room :: "string \<Rightarrow> int \<Rightarrow> rt_state \<Rightarrow> bool" where
  "has_room k c \<equiv> \<lambda>s. room c (budget k s)"

text \<open>A computation that stays within the budget when it starts there.\<close>

definition frugal :: "string \<Rightarrow> 'a rt \<Rightarrow> bool" where
  "frugal k m \<longleftrightarrow> triple (has_room k 0) m (\<lambda>_. has_room k 0) (has_room k 0)"

lemma frugal_keeps: "keeps (budget k) m \<Longrightarrow> frugal k m"
  unfolding frugal_def by (rule triple_keeps)

lemma frugal_bind: "frugal k m \<Longrightarrow> (\<And>x. frugal k (g x)) \<Longrightarrow> frugal k (rt_bind m g)"
  unfolding frugal_def by (rule triple_bind)

lemma frugal_try: "frugal k m \<Longrightarrow> (\<And>e. frugal k (h e)) \<Longrightarrow> frugal k (rt_try m h)"
  unfolding frugal_def by (rule triple_try)

lemma frugal_if: "frugal k a \<Longrightarrow> frugal k b \<Longrightarrow> frugal k (if c then a else b)"
  by simp

lemma frugal_option: "frugal k a \<Longrightarrow> (\<And>x. frugal k (b x)) \<Longrightarrow> frugal k (case v of None \<Rightarrow> a | Some x \<Rightarrow> b x)"
  by (cases v) simp_all

lemma frugal_pair: "(\<And>x y. frugal k (b x y)) \<Longrightarrow> frugal k (case v of (x, y) \<Rightarrow> b x y)"
  by (cases v) simp

lemmas frugal_intros = frugal_bind frugal_try frugal_if frugal_option frugal_pair

lemma spend_bind:
  assumes "keeps (budget k) m" and "\<And>x. triple (has_room k c) (g x) Q (has_room k 0)" and "0 \<le> c"
  shows "triple (has_room k c) (rt_bind m g) Q (has_room k 0)"
  by (rule frame_bind [where f = "budget k" and R = "room c" and E = "room 0", OF assms(1,2)])
    (auto intro: room_less [OF assms(3)])

subsection \<open>Recording a call\<close>

lemma record_spends:
  assumes "record_tool_call now fresh k i n a ss key c v l ec es db = Inr (db', call)" and "0 \<le> c" and "room c (budget_of k db)"
  shows "room 0 (budget_of k db')"
proof (cases "find (\<lambda>x. tc_run x = k \<and> tc_key x = key) (a_calls db)")
  case None
  from None assms(1) obtain x where db': "db' = update_runs k (\<lambda>r. r\<lparr>ag_used := ag_used r + c, ag_updated := now,
      ag_version := ag_version r + 1\<rparr>) (db\<lparr>a_calls := a_calls db @ [x]\<rparr>)"
    by (auto simp: record_tool_call_def Let_def split: if_splits)
  show ?thesis
    using assms(3) unfolding db' budget_of_def by (cases "find_run k db") (auto simp: find_run_update room_def)
qed (use assms in \<open>auto simp: record_tool_call_def intro: room_less\<close>)

lemma record_triple:
  assumes "fair env k" and "0 \<le> c"
  shows "triple (has_room k c) (rt_record env k i n a ss key c v l ec) (\<lambda>_. has_room k 0) (has_room k 0)"
  by (rule tripleI)
    (use assms in \<open>auto simp: rt_record_def on_store_def budget_def fair_def Let_def split: sum.splits
      intro: record_spends room_less\<close>)

text \<open>The store just read holds the run of the view.\<close>

definition seen :: "string \<Rightarrow> run_view \<Rightarrow> rt_state \<Rightarrow> bool" where
  "seen k v s = (budget k s = Some (ag_used (rv_run v), ag_max_calls (rv_run v)) \<and> room 0 (budget k s))"

lemma seen_room: "seen k v s \<Longrightarrow> room 0 (budget k s)"
  unfolding seen_def by blast

lemma get_triple:
  assumes "fair env k"
  shows "triple (has_room k 0) (rt_get env k) (seen k) (has_room k 0)"
proof (rule tripleI)
  fix s v s' assume p: "room 0 (budget k s)" and r: "rt_get env k s = (Inr v, s')"
  have "budget k s' = budget k s" using budget_calls(1) [OF assms, of k] r by (metis keeps_def snd_conv)
  moreover have "find_run k (ex_db s') = Some (rv_run v)"
    using r by (auto simp: rt_get_def on_store_def Let_def bind_res_Inr_iff split: sum.splits dest!: get_run_find)
  ultimately show "seen k v s'"
    using p by (simp add: seen_def budget_def budget_of_def)
next
  fix s e s' assume "room 0 (budget k s)" and r: "rt_get env k s = (Inl e, s')"
  moreover have "budget k s' = budget k s" using budget_calls(1) [OF assms, of k] r by (metis keeps_def snd_conv)
  ultimately show "room 0 (budget k s')" by simp
qed

lemma not_over_room:
  "\<not> call_over_budget run tool \<Longrightarrow> b = Some (ag_used run, ag_max_calls run) \<Longrightarrow> room (tl_cost tool) b"
  by (simp add: call_over_budget_def room_def)

subsection \<open>Steps\<close>

lemma note_failure_spends:
  assumes "fair env k" and "0 \<le> tl_cost tool"
  shows "triple (has_room k (tl_cost tool)) (note_failure env k step tool key retry began code) (\<lambda>_. has_room k 0) (has_room k 0)"
  unfolding note_failure_def
  by (rule spend_bind, rule keeps_intros, rule triple_bind [OF record_triple [OF assms]])
    (auto intro: triple_keeps keeps_intros assms)

lemma budget_frame:
  "keeps (budget k) m \<Longrightarrow> (\<And>x. triple (has_room k 0) (g x) Q (has_room k 0)) \<Longrightarrow> triple (has_room k 0) (rt_bind m g) Q (has_room k 0)"
  by (rule spend_bind) simp_all

text \<open>The guard in front of a call: what passes it has room for the cost of the tool.\<close>

lemma guard_triple:
  assumes "keeps (budget k) m"
  shows "triple (seen k v)
    (if call_over_budget (rv_run v) tool then rt_bind m (\<lambda>_. rt_raise e) else rt_return ()) (\<lambda>_. has_room k (tl_cost tool)) (has_room k 0)"
proof (cases "call_over_budget (rv_run v) tool")
  case True
  have "triple (has_room k 0) (rt_bind m (\<lambda>_. rt_raise e)) (\<lambda>_. has_room k (tl_cost tool)) (has_room k 0)"
    by (rule budget_frame [OF assms(1)]) (auto intro: triple_raise)
  then show ?thesis unfolding if_P [OF True] by (rule triple_pre) (rule seen_room)
next
  case False
  then show ?thesis
    by (auto simp: seen_def intro!: triple_return not_over_room)
qed

lemma attempt_spends:
  assumes f: "fair env k" and c: "0 \<le> tl_cost tool"
  shows "triple (has_room k 0) (attempt_step env ctx k started step tool attempt retry)
     (\<lambda>r. has_room k (case r of None \<Rightarrow> 0 | Some _ \<Rightarrow> tl_cost tool)) (has_room k 0)"
  (is "triple ?B _ ?Q ?B")
proof -
  note fk = budget_calls [OF f] budget_events [OF f]
  have handler: "triple (has_room k (tl_cost tool)) (rt_bind (note_failure env k step tool key retry began code) (\<lambda>_.
        if retry = 0 \<and> code \<noteq> ''agent_rule_reference_changed''
        then rt_bind (step_event env k ''tool_call_retrying'' step []) (\<lambda>_. rt_return None)
        else rt_bind (fail_step env k step code) (\<lambda>_. rt_raise e))) ?Q ?B" for key began code e
    by (rule triple_bind [OF note_failure_spends [OF f c]])
      (auto intro!: budget_frame fk triple_return triple_raise)
  have call: "triple (has_room k (tl_cost tool)) (rt_bind (call_tool env ctx (st_id step) (st_tool step) (st_args step)) (\<lambda>out.
        rt_return (Some (out, key, began)))) ?Q (has_room k (tl_cost tool))" for key began
    by (rule frame_bind [where f = "budget k" and R = "room (tl_cost tool)"])
      (auto intro: keeps_intros triple_return)
  have started_call: "triple (has_room k (tl_cost tool)) (rt_bind (if retry = 0 then rt_return ()
              else rt_bind (rt_clock env) (\<lambda>now.
                   if elapsed_over started now timeout
                   then rt_bind (fail_step env k step ''agent_timeout'') (\<lambda>_. rt_raise (code_error ''agent_timeout''))
                   else rt_return ())) (\<lambda>_.
     rt_bind (rt_clock env) (\<lambda>began.
     rt_bind (step_event env k ''tool_call_started'' step [(''attempt'', PInt (retry + 1))]) (\<lambda>_.
     rt_try
       (rt_bind (call_tool env ctx (st_id step) (st_tool step) (st_args step)) (\<lambda>out.
        rt_return (Some (out, key, began))))
       (\<lambda>e. rt_bind (note_failure env k step tool key retry began (failure_code ''tool_failed'' e)) (\<lambda>_.
          if retry = 0 \<and> failure_code ''tool_failed'' e \<noteq> ''agent_rule_reference_changed''
          then rt_bind (step_event env k ''tool_call_retrying'' step []) (\<lambda>_. rt_return None)
          else rt_bind (fail_step env k step (failure_code ''tool_failed'' e)) (\<lambda>_. rt_raise e))))))) ?Q ?B" for timeout key
    by (intro spend_bind keeps_intros fk f c triple_try [OF call] handler)
  show ?thesis
    unfolding attempt_step_def Let_def
    by (rule triple_bind [OF get_triple [OF f]], rule triple_bind [OF guard_triple [OF budget_events(2) [OF f]]],
        rule started_call)
qed

lemma call_with_retry_spends:
  assumes "fair env k" and "0 \<le> tl_cost tool"
  shows "triple (has_room k 0) (call_with_retry env ctx k started step tool attempt)
     (\<lambda>_. has_room k (tl_cost tool)) (has_room k 0)"
proof -
  note once = attempt_spends [OF assms]
  have again: "triple (has_room k 0) (rt_bind (attempt_step env ctx k started step tool attempt 1)
       (\<lambda>second. case second of Some r \<Rightarrow> rt_return r | None \<Rightarrow> rt_raise (StateErr ''assertion'')))
     (\<lambda>_. has_room k (tl_cost tool)) (has_room k 0)"
    by (rule triple_bind [OF once]) (auto intro: triple_return triple_raise split: option.split)
  show ?thesis
    unfolding call_with_retry_def
    by (rule triple_bind [OF once]) (auto intro: triple_return again split: option.split)
qed

lemma late_call_spends:
  assumes f: "fair env k" and c: "0 \<le> tl_cost tool"
  shows "triple (has_room k (tl_cost tool)) (late_call env k started timeout step tool key began)
     (\<lambda>_. has_room k (tl_cost tool)) (has_room k 0)"
proof -
  note fk = budget_calls [OF f] budget_events [OF f]
  have late: "triple (has_room k (tl_cost tool)) (rt_bind (rt_clock env) (\<lambda>later.
     rt_bind (rt_record env k (st_id step) (st_tool step) (st_args step) SFailed key (tl_cost tool) PNone
       (latency began later) (Some ''agent_timeout'')) (\<lambda>_.
     rt_bind (fail_step env k step ''agent_timeout'') (\<lambda>_.
     rt_bind (step_event env k ''tool_call_failed'' step [(''error_code'', PStr ''agent_timeout'')]) (\<lambda>_.
     rt_raise (code_error ''agent_timeout'')))))) (\<lambda>_. has_room k (tl_cost tool)) (has_room k 0)"
    by (rule spend_bind, rule keeps_intros, rule triple_bind [OF record_triple [OF f c]])
      (auto intro!: budget_frame fk triple_raise c)
  show ?thesis
    unfolding late_call_def
    by (rule spend_bind, rule keeps_intros) (auto intro: triple_return late c)
qed

lemma keep_result_frugal:
  assumes "fair env k"
  shows "keeps (budget k) (keep_result env ctx k step tool fp i out passed)"
  unfolding keep_result_def by (intro keeps_intros assms)

lemma complete_step_frugal:
  assumes f: "fair env k" and c: "0 \<le> tl_cost tool"
  shows "triple (has_room k (tl_cost tool)) (complete_step env ctx k started timeout step tool passed result)
     (\<lambda>_. has_room k 0) (has_room k 0)"
proof -
  obtain out key began where r: "result = (out, key, began)" by (cases result)
  have tail: "triple (has_room k 0) (rt_bind (keep_result env ctx k step tool fp i out passed) (\<lambda>passed'.
     rt_bind (rt_finish_step env k (st_id step) SCompleted out None) (\<lambda>_.
     rt_bind (step_event env k ''tool_call_completed'' step []) (\<lambda>_. rt_return passed')))) (\<lambda>_. has_room k 0) (has_room k 0)" for fp i
    by (rule triple_keeps) (intro keeps_intros keep_result_frugal f)
  show ?thesis
    unfolding complete_step_def r prod.case
    by (rule triple_bind [OF late_call_spends [OF f c]], rule spend_bind, rule keeps_intros,
        rule triple_bind [OF record_triple [OF f c] tail], rule c)
qed

lemma perform_step_frugal:
  assumes f: "fair env k" and c: "\<forall>t \<in> set (en_tools env). 0 \<le> tl_cost t"
  shows "frugal k (perform_step env ctx k started current step passed)"
proof -
  have step: "frugal k (rt_bind (rt_start_step env k (st_id step)) (\<lambda>attempt.
     rt_bind (call_with_retry env ctx k started step tool attempt)
       (complete_step env ctx k started (ag_timeout current) step tool passed)))"
    if "0 \<le> tl_cost tool" for tool
    unfolding frugal_def
    by (rule budget_frame, rule budget_calls [OF f], rule triple_bind [OF call_with_retry_spends [OF f that]],
        rule complete_step_frugal [OF f that])
  have body: "frugal k (rt_bind (rt_when (call_over_budget current tool) e) (\<lambda>_.
     rt_bind (human_gate env ctx tool (step_fingerprint (en_sha env) step) passed) (\<lambda>_.
     rt_bind (rt_start_step env k (st_id step)) (\<lambda>attempt.
     rt_bind (call_with_retry env ctx k started step tool attempt)
       (complete_step env ctx k started (ag_timeout current) step tool passed)))))"
    if "0 \<le> tl_cost tool" for tool e
    by (intro frugal_bind step [OF that]; rule frugal_keeps; intro keeps_intros)
  have found: "triple (has_room k 0) (rt_res (tool_get (en_tools env) (st_tool step)))
      (\<lambda>tool s. room 0 (budget k s) \<and> 0 \<le> tl_cost tool) (has_room k 0)"
    by (rule triple_res) (use c in \<open>auto simp: tool_get_def split: option.splits dest!: find_Some_in\<close>)
  show ?thesis
    unfolding perform_step_def frugal_def
  proof (rule budget_frame [OF budget_asks(5)], rule triple_bind [OF found])
    show "triple (\<lambda>s. room 0 (budget k s) \<and> 0 \<le> tl_cost tool) (rt_bind (rt_when (call_over_budget current tool) (code_error ''agent_budget_exhausted'')) (\<lambda>_.
     rt_bind (human_gate env ctx tool (step_fingerprint (en_sha env) step) passed) (\<lambda>_.
     rt_bind (rt_start_step env k (st_id step)) (\<lambda>attempt.
     rt_bind (call_with_retry env ctx k started step tool attempt)
       (complete_step env ctx k started (ag_timeout current) step tool passed))))) (\<lambda>_. has_room k 0) (has_room k 0)" for tool
      using body [of tool] by (cases "0 \<le> tl_cost tool") (auto simp: frugal_def triple_def)
  qed
qed

lemma run_steps_frugal:
  assumes f: "fair env k" and c: "\<forall>t \<in> set (en_tools env). 0 \<le> tl_cost t"
  shows "frugal k (run_steps env ctx k started passed steps)"
proof (induction steps arbitrary: passed)
  case Nil
  show ?case by (auto intro: frugal_keeps keeps_intros)
next
  case (Cons step steps)
  show ?case
    unfolding run_steps.simps
    by (intro frugal_bind frugal_if Cons.IH perform_step_frugal [OF assms]; rule frugal_keeps; intro keeps_intros f)
qed

subsection \<open>The reads of an expert\<close>

lemma transition_view: "transition now k st al ec es i db = Inr (db', v, b) \<Longrightarrow> find_run k db' = Some (rv_run v)"
  by (auto simp: transition_def Let_def bind_res_Inr_iff view_of_Inr missing_def conflict_def
      split: option.splits if_splits dest: get_run_find)

lemma transition_seen:
  assumes "fair env k"
  shows "triple (has_room k 0) (rt_transition env k st al ec es) (seen k) (has_room k 0)"
proof (rule tripleI)
  fix s v s' assume p: "room 0 (budget k s)" and r: "rt_transition env k st al ec es s = (Inr v, s')"
  have "budget k s' = budget k s" using budget_calls(2) [OF assms, of k] r by (metis keeps_def snd_conv)
  moreover have "find_run k (ex_db s') = Some (rv_run v)"
    using r by (auto simp: rt_transition_def on_store_def Let_def bind_res_Inr_iff split: sum.splits dest!: transition_view)
  ultimately show "seen k v s'" using p by (simp add: seen_def budget_def budget_of_def)
next
  fix s e s' assume "room 0 (budget k s)" and r: "rt_transition env k st al ec es s = (Inl e, s')"
  moreover have "budget k s' = budget k s" using budget_calls(2) [OF assms, of k] r by (metis keeps_def snd_conv)
  ultimately show "room 0 (budget k s')" by simp
qed

lemma seen_frame:
  assumes "keeps (budget k) m" and "\<And>x. triple (seen k v) (g x) Q (has_room k 0)"
  shows "triple (seen k v) (rt_bind m g) Q (has_room k 0)"
proof -
  let ?R = "\<lambda>b. b = Some (ag_used (rv_run v), ag_max_calls (rv_run v)) \<and> room 0 b"
  have r: "seen k v = (\<lambda>s. ?R (budget k s))" by (rule ext) (rule seen_def)
  show ?thesis
    using frame_bind [where R = ?R and E = "room 0", OF assms(1)] assms(2) unfolding r by blast
qed

lemma check_active_seen:
  assumes f: "fair env k"
  shows "triple (has_room k 0) (check_active env k started) (seen k) (has_room k 0)"
proof -
  have follow: "triple (seen k w) (follow_parent env k w) (seen k) (has_room k 0)" for w
  proof (cases "parent_of (rv_run w)")
    case (Some parent)
    have stop: "triple (seen k w) (rt_transition env k st active_statuses None None) (seen k) (has_room k 0)" for st
      by (rule triple_pre [OF transition_seen [OF f]]) (rule seen_room)
    show ?thesis
      unfolding follow_parent_def Some option.case
      by (cases "ag_status (rv_run w) \<notin> active_statuses")
        (auto intro: triple_return stop intro!: seen_frame keeps_intros)
  qed (auto simp: follow_parent_def intro: triple_return)
  have tail: "triple (seen k v) (rt_bind (rt_when c e) (\<lambda>_.
     rt_bind (check_timeout env started (ag_timeout (rv_run v))) (\<lambda>_. rt_return v))) (seen k) (has_room k 0)" for v c e
    by (intro seen_frame keeps_intros triple_return)
  show ?thesis
    unfolding check_active_def
    by (rule triple_bind [OF get_triple [OF f]], rule triple_bind [OF follow tail])
qed

lemma expert_read_frugal:
  assumes f: "fair env k" and c: "\<forall>t \<in> set (en_tools env). 0 \<le> tl_cost t"
  shows "frugal k (expert_read env ctx k started n name args)"
proof -
  let ?B = "has_room k 0"
  note fk = budget_calls [OF f] budget_events [OF f]
  have step: "keeps (budget k) (on_store env (\<lambda>t db. with_unit (add_context_step (en_clock env t) k st db)))" for st
    by (rule keeps_store [OF f]) (auto simp: with_unit_def bind_res_Inr_iff dest: context_budget)
  have active: "frugal k (check_active env k started)"
    unfolding frugal_def by (rule triple_weaken [OF check_active_seen [OF f]]) (auto dest: seen_room)
  have called: "triple (has_room k (tl_cost tool)) (rt_try (call_tool env ctx i name args) (\<lambda>e.
       rt_bind (rt_record env k i name args SFailed key (tl_cost tool) PNone None (Some (failure_code ''tool_failed'' e))) (\<lambda>_.
       rt_bind (rt_finish_step env k i SFailed PNone (Some (failure_code ''tool_failed'' e))) (\<lambda>_. rt_raise e))))
     (\<lambda>_. has_room k (tl_cost tool)) ?B" if "0 \<le> tl_cost tool" for tool i key
    by (rule triple_try [OF triple_keeps [OF budget_asks(7)]], rule triple_bind [OF record_triple [OF f that]])
      (auto intro!: budget_frame fk triple_raise)
  have recorded: "frugal k (rt_bind (rt_res (read_tool_artifact (artifact_of_call ctx name (tc_id call) out))) (\<lambda>payload.
     rt_bind (rt_artifact env k (the (read_artifact_type name)) payload (Some i) None) (\<lambda>_.
     rt_bind (rt_finish_step env k i SCompleted out None) (\<lambda>_.
     rt_bind (context_event env k ''tool_call_completed'' i name) (\<lambda>_.
     rt_bind (check_active env k started) (\<lambda>_.
     rt_return (out, \<lparr>rd_call = tc_id call, rd_tool = name, rd_hash = canonical_fingerprint (en_sha env) out\<rparr>)))))))"
    for call out i
    by (intro frugal_bind active; rule frugal_keeps; intro keeps_intros f)
  have spend: "triple (has_room k (tl_cost tool))
     (rt_bind (on_store env (\<lambda>t db. with_unit (add_context_step (en_clock env t) k st db))) (\<lambda>_.
     rt_bind (rt_start_step env k i) (\<lambda>_.
     rt_bind (rt_clock env) (\<lambda>began.
     rt_bind (context_event env k ''tool_call_started'' i name) (\<lambda>_.
     rt_bind (rt_try (call_tool env ctx i name args) (\<lambda>e.
       rt_bind (rt_record env k i name args SFailed key (tl_cost tool) PNone None (Some (failure_code ''tool_failed'' e))) (\<lambda>_.
       rt_bind (rt_finish_step env k i SFailed PNone (Some (failure_code ''tool_failed'' e))) (\<lambda>_. rt_raise e)))) (\<lambda>out.
     rt_bind (rt_clock env) (\<lambda>now.
     rt_bind (rt_record env k i name args SCompleted key (tl_cost tool) out (latency began now) None) (\<lambda>call.
     rt_bind (rt_res (read_tool_artifact (artifact_of_call ctx name (tc_id call) out))) (\<lambda>payload.
     rt_bind (rt_artifact env k (the (read_artifact_type name)) payload (Some i) None) (\<lambda>_.
     rt_bind (rt_finish_step env k i SCompleted out None) (\<lambda>_.
     rt_bind (context_event env k ''tool_call_completed'' i name) (\<lambda>_.
     rt_bind (check_active env k started) (\<lambda>_.
     rt_return (out, \<lparr>rd_call = tc_id call, rd_tool = name, rd_hash = canonical_fingerprint (en_sha env) out\<rparr>))))))))))))))
     (\<lambda>_. ?B) ?B" if "0 \<le> tl_cost tool" for tool i key st
    by (rule spend_bind [OF step], rule spend_bind, rule fk, rule spend_bind, rule keeps_intros, rule spend_bind, rule fk,
        rule triple_bind [OF called [OF that]], rule spend_bind, rule keeps_intros,
        rule triple_bind [OF record_triple [OF f that] recorded [unfolded frugal_def]], (rule that)+)
  have found: "triple (seen k v) (rt_res (tool_get (en_tools env) name)) (\<lambda>tool s. seen k v s \<and> 0 \<le> tl_cost tool) ?B" for v
    by (rule triple_res) (use c in \<open>auto simp: tool_get_def seen_def split: option.splits dest!: find_Some_in\<close>)
  have guard: "triple (\<lambda>s. seen k v s \<and> 0 \<le> tl_cost tool) (rt_when (call_over_budget (rv_run v) tool) e)
      (\<lambda>_ s. has_room k (tl_cost tool) s \<and> 0 \<le> tl_cost tool) ?B" for v tool e
    by (rule triple_when) (auto simp: seen_def dest: not_over_room)
  have allowed: "triple (\<lambda>s. seen k v s \<and> 0 \<le> tl_cost tool) (rt_when q e) (\<lambda>_ s. seen k v s \<and> 0 \<le> tl_cost tool) ?B" for v q e tool
    by (rule triple_when) (auto dest: seen_room)
  have go: "triple (\<lambda>s. has_room k (tl_cost tool) s \<and> 0 \<le> tl_cost tool) m (\<lambda>_. ?B) ?B"
    if "0 \<le> tl_cost tool \<Longrightarrow> triple (has_room k (tl_cost tool)) m (\<lambda>_. ?B) ?B" for tool and m :: "(pv \<times> read_receipt) rt"
    using that by (cases "0 \<le> tl_cost tool") (auto simp: triple_def)
  show ?thesis
    unfolding expert_read_def frugal_def Let_def
    by (rule triple_bind [OF check_active_seen [OF f]], rule triple_bind [OF found], rule triple_bind [OF allowed],
        rule triple_bind [OF guard], rule go, rule spend)
qed

subsection \<open>Other runs\<close>

lemma record_other:
  assumes "fair env k" and "j \<noteq> k"
  shows "keeps (budget k) (rt_record env j i n a ss key c v l ec)"
proof -
  have "budget_of k db' = budget_of k db"
    if r: "record_tool_call now fresh j i n a ss key c v l ec' es db = Inr (db', call)" for now fresh ec' es db db' call
  proof (cases "find (\<lambda>x. tc_run x = j \<and> tc_key x = key) (a_calls db)")
    case None
    with r obtain x where db': "db' = update_runs j (\<lambda>r. r\<lparr>ag_used := ag_used r + c, ag_updated := now,
        ag_version := ag_version r + 1\<rparr>) (db\<lparr>a_calls := a_calls db @ [x]\<rparr>)"
      by (auto simp: record_tool_call_def Let_def split: if_splits)
    show ?thesis
      unfolding db' using assms(2) by (cases "find_run k db") (auto simp: budget_of_def find_run_update)
  qed (use r in \<open>simp add: record_tool_call_def\<close>)
  then show ?thesis unfolding rt_record_def by (intro keeps_store [OF assms(1)]) blast
qed

lemma steps_other:
  assumes f: "fair env k" and "j \<noteq> k"
  shows "keeps (budget k) (run_steps env ctx j started passed steps)"
proof (induction steps arbitrary: passed)
  case (Cons step steps)
  note other = record_other [OF assms]
  have "keeps (budget k) (attempt_step env ctx j started step tool attempt retry)" for tool attempt retry
    unfolding attempt_step_def Let_def note_failure_def by (intro keeps_intros other f)
  then have retry: "keeps (budget k) (call_with_retry env ctx j started step tool attempt)" for tool attempt
    unfolding call_with_retry_def by (intro keeps_intros)
  have rest: "keeps (budget k) (complete_step env ctx j started timeout step tool passed r)" for timeout tool passed r
    unfolding complete_step_def late_call_def keep_result_def Let_def by (intro keeps_intros other f)
  have "keeps (budget k) (perform_step env ctx j started current step passed)" for current passed
    unfolding perform_step_def by (intro keeps_intros retry rest f)
  with Cons.IH show ?case unfolding run_steps.simps by (intro keeps_intros f)
qed (auto intro: keeps_intros)

lemma check_active_budget:
  assumes "fair env k"
  shows "keeps (budget k) (check_active env j started)"
  unfolding check_active_def follow_parent_def by (intro keeps_intros assms)

lemma read_other:
  assumes f: "fair env k" and "j \<noteq> k"
  shows "keeps (budget k) (expert_read env ctx j started n name args)"
proof -
  have step: "keeps (budget k) (on_store env (\<lambda>t db. with_unit (add_context_step (en_clock env t) j st db)))" for st
    by (rule keeps_store [OF f]) (auto simp: with_unit_def bind_res_Inr_iff dest: context_budget)
  show ?thesis
    unfolding expert_read_def Let_def
    by (intro keeps_intros step check_active_budget record_other assms)
qed

lemma steps_frugal:
  "fair env k \<Longrightarrow> \<forall>t \<in> set (en_tools env). 0 \<le> tl_cost t \<Longrightarrow> frugal k (run_steps env ctx j started passed steps)"
  by (cases "j = k") (auto intro: run_steps_frugal frugal_keeps steps_other)

lemma read_frugal:
  "fair env k \<Longrightarrow> \<forall>t \<in> set (en_tools env). 0 \<le> tl_cost t \<Longrightarrow> frugal k (expert_read env ctx j started n name args)"
  by (cases "j = k") (auto intro: expert_read_frugal frugal_keeps read_other)

subsection \<open>The execution\<close>

lemma context_frugal:
  assumes f: "fair env k" and c: "\<forall>t \<in> set (en_tools env). 0 \<le> tl_cost t"
  shows "frugal k (expert_context_of env ctx run started)"
proof -
  have up: "keeps (budget k) (on_store env (\<lambda>t db. bind_res (completed_upstream sha run ev h db) (\<lambda>u. Inr (db, u))))" for sha ev h
    by (rule keeps_store [OF f]) (auto simp: bind_res_Inr_iff)
  show ?thesis
    unfolding expert_context_of_def Let_def
    by (intro frugal_intros read_frugal f c; rule frugal_keeps; intro keeps_intros up f)
qed

lemma plan_run_frugal:
  assumes f: "fair env k" and c: "\<forall>t \<in> set (en_tools env). 0 \<le> tl_cost t"
  shows "frugal k (plan_run env ctx v started sm)"
proof -
  have opinion: "keeps (budget k) (on_store env (\<lambda>t. add_artifact (en_clock env t) (en_fresh env t) j ty p i fp (pre t)))" for j ty p i fp pre
    by (rule keeps_store [OF f]) (auto dest: artifact_budget)
  have expert: "frugal k (plan_expert env ctx run started sm goal)" for run goal
    unfolding plan_expert_def Let_def
    by (intro frugal_intros context_frugal f c; rule frugal_keeps; intro keeps_intros check_active_budget opinion f)
  show ?thesis
    unfolding plan_run_def plan_simple_def Let_def
    by (intro frugal_intros expert; rule frugal_keeps; intro keeps_intros f)
qed

lemma agent_execute_frugal:
  assumes f: "fair env k" and c: "\<forall>t \<in> set (en_tools env). 0 \<le> tl_cost t"
  shows "frugal k (agent_execute env j)"
proof -
  have settle: "frugal k (settle_failure env j e)" for e
    unfolding settle_failure_def Let_def
    by (rule frugal_keeps) (auto split: exc.split intro!: keeps_intros f)
  have bound: "keeps (budget k) (bound_context env ctx v)" for ctx v
    unfolding bound_context_def Let_def
    by (auto split: list.split intro!: keeps_intros f)
  have work: "frugal k (work_off env ctx v started)" for ctx v started
    unfolding work_off_def Let_def
    by (intro frugal_intros steps_frugal f c; rule frugal_keeps; intro keeps_intros f)
  have body: "frugal k (execute_body env v started)" for v started
    unfolding execute_body_def Let_def
    by (intro frugal_intros work plan_run_frugal f c; rule frugal_keeps; intro keeps_intros bound f)
  show ?thesis
    unfolding agent_execute_def
    by (intro frugal_intros body settle; rule frugal_keeps; intro keeps_intros f)
qed

end
