(* ===== verification/Agent_Views.thy ===== *)
theory Agent_Views
  imports Agent_Budget_Props
begin

text \<open>
  The view of a run that an execution returns: the cost it shows is within the maximum it shows, and the maximum of a run never
  changes during an execution. A workflow charges its budget with that cost.
\<close>

subsection \<open>The maximum stays\<close>

definition limit :: "string \<Rightarrow> rt_state \<Rightarrow> int option" where
  "limit k s = map_option snd (budget k s)"

named_theorems limit_intros \<open>calls that leave the maximum of a run alone\<close>

lemma limit_keeps: "keeps (budget k) m \<Longrightarrow> keeps (limit k) m"
  by (simp add: keeps_def limit_def)

lemmas limit_calls [limit_intros] =
  budget_calls [THEN limit_keeps] budget_events [THEN limit_keeps] budget_asks [THEN limit_keeps]
  budget_ask [THEN limit_keeps] budget_trace [THEN limit_keeps]

lemma limit_store:
  assumes "fair env k" and "\<And>t db db' x. g t db = Inr (db', x) \<Longrightarrow> map_option snd (budget_of k db') = map_option snd (budget_of k db)"
  shows "keeps (limit k) (on_store env g)"
  using assms by (auto simp: keeps_def on_store_def limit_def budget_def fair_def Let_def split: sum.splits)

lemma limit_record [limit_intros]:
  assumes "fair env k"
  shows "keeps (limit k) (rt_record env j i n a ss key c v l ec)"
proof -
  have "map_option snd (budget_of k db') = map_option snd (budget_of k db)"
    if r: "record_tool_call now fresh j i n a ss key c v l ec' es db = Inr (db', call)" for now fresh ec' es db db' call
  proof (cases "find (\<lambda>x. tc_run x = j \<and> tc_key x = key) (a_calls db)")
    case None
    with r obtain x where db': "db' = update_runs j (\<lambda>r. r\<lparr>ag_used := ag_used r + c, ag_updated := now,
        ag_version := ag_version r + 1\<rparr>) (db\<lparr>a_calls := a_calls db @ [x]\<rparr>)"
      by (auto simp: record_tool_call_def Let_def split: if_splits)
    show ?thesis
      unfolding db' by (cases "find_run k db") (auto simp: budget_of_def find_run_update)
  qed (use r in \<open>simp add: record_tool_call_def\<close>)
  then show ?thesis unfolding rt_record_def by (intro limit_store [OF assms]) blast
qed

lemma limit_perform [limit_intros]:
  assumes f: "fair env k"
  shows "keeps (limit k) (perform_step env ctx j started current step passed)"
proof -
  have "keeps (limit k) (attempt_step env ctx j started step tool attempt retry)" for tool attempt retry
    unfolding attempt_step_def Let_def note_failure_def by (intro keeps_intros limit_intros f)
  then have retry: "keeps (limit k) (call_with_retry env ctx j started step tool attempt)" for tool attempt
    unfolding call_with_retry_def by (intro keeps_intros)
  have rest: "keeps (limit k) (complete_step env ctx j started timeout step tool passed r)" for timeout tool r
    unfolding complete_step_def late_call_def keep_result_def Let_def by (intro keeps_intros limit_intros f)
  show ?thesis
    unfolding perform_step_def by (intro keeps_intros limit_intros retry rest f)
qed

lemma limit_steps [limit_intros]:
  "fair env k \<Longrightarrow> keeps (limit k) (run_steps env ctx j started passed steps)"
proof (induction steps arbitrary: passed)
  case (Cons step steps)
  then show ?case unfolding run_steps.simps by (intro keeps_intros limit_intros Cons)
qed (auto intro: keeps_intros)

lemma limit_active [limit_intros]: "fair env k \<Longrightarrow> keeps (limit k) (check_active env j started)"
  by (rule limit_keeps) (rule check_active_budget)

lemma limit_read [limit_intros]:
  assumes f: "fair env k"
  shows "keeps (limit k) (expert_read env ctx j started n name args)"
proof -
  have step: "keeps (limit k) (on_store env (\<lambda>t db. with_unit (add_context_step (en_clock env t) j st db)))" for st
    by (rule limit_store [OF f]) (auto simp: with_unit_def bind_res_Inr_iff intro: arg_cong [where f = "map_option snd"] context_budget)
  show ?thesis
    unfolding expert_read_def Let_def by (intro keeps_intros step limit_intros f)
qed

lemma limit_plan [limit_intros]:
  assumes f: "fair env k"
  shows "keeps (limit k) (plan_run env ctx v started sm)"
proof -
  have up: "keeps (limit k) (on_store env (\<lambda>t db. bind_res (completed_upstream sha run ev h db) (\<lambda>u. Inr (db, u))))" for sha run ev h
    by (rule limit_store [OF f]) (auto simp: bind_res_Inr_iff)
  have material: "keeps (limit k) (expert_context_of env ctx run started)" for run
    unfolding expert_context_of_def Let_def by (intro keeps_intros limit_intros up f)
  have opinion: "keeps (limit k) (on_store env (\<lambda>t. add_artifact (en_clock env t) (en_fresh env t) j ty p i fp (pre t)))" for j ty p i fp pre
    by (rule limit_store [OF f]) (rule arg_cong [where f = "map_option snd"], erule artifact_budget)
  have expert: "keeps (limit k) (plan_expert env ctx run started sm goal)" for run goal
    unfolding plan_expert_def Let_def by (intro keeps_intros material opinion limit_intros f)
  show ?thesis
    unfolding plan_run_def plan_simple_def Let_def by (intro keeps_intros expert limit_intros f)
qed

lemma limit_bound [limit_intros]: "fair env k \<Longrightarrow> keeps (limit k) (bound_context env ctx v)"
  unfolding bound_context_def Let_def by (auto split: list.split intro!: keeps_intros limit_intros)

lemma agent_execute_limit:
  assumes f: "fair env k"
  shows "keeps (limit k) (agent_execute env j)"
proof -
  have settle: "keeps (limit k) (settle_failure env j e)" for e
    unfolding settle_failure_def Let_def
    by (intro keeps_intros limit_intros f) (auto split: exc.split intro!: keeps_intros limit_intros f)
  have "keeps (limit k) (execute_body env v started)" for v started
    unfolding execute_body_def work_off_def Let_def
    by (intro keeps_intros limit_intros f)
  with settle show ?thesis
    unfolding agent_execute_def by (intro keeps_intros limit_intros f)
qed

subsection \<open>The view is that of the run\<close>

definition gives :: "('a \<Rightarrow> bool) \<Rightarrow> ('s, 'a) comp \<Rightarrow> bool" where
  "gives Q m = (\<forall>s x s'. m s = (Inr x, s') \<longrightarrow> Q x)"

definition named :: "string \<Rightarrow> run_view \<Rightarrow> bool" where
  "named k v = (ag_id (rv_run v) = k)"

lemma gives_return: "gives Q (rt_return x) \<longleftrightarrow> Q x"
  by (simp add: gives_def rt_return_def)

lemma gives_raise: "gives Q (rt_raise e)"
  by (simp add: gives_def rt_raise_def)

lemma gives_bind: "(\<And>x. gives Q (g x)) \<Longrightarrow> gives Q (rt_bind m g)"
  by (auto simp: gives_def rt_bind_def split: prod.splits sum.splits)

lemma gives_after: "gives R m \<Longrightarrow> (\<And>x. R x \<Longrightarrow> gives Q (g x)) \<Longrightarrow> gives Q (rt_bind m g)"
  by (fastforce simp: gives_def rt_bind_def split: prod.splits sum.splits)

lemma gives_if: "gives Q a \<Longrightarrow> gives Q b \<Longrightarrow> gives Q (if c then a else b)"
  by simp

lemma gives_let: "(\<And>x. gives Q (b x)) \<Longrightarrow> gives Q (let x = v in b x)"
  by simp

lemma gives_pair: "(\<And>x y. gives Q (b x y)) \<Longrightarrow> gives Q (case v of (x, y) \<Rightarrow> b x y)"
  by (cases v) simp

lemmas gives_intros = gives_bind gives_if gives_let gives_pair gives_raise

lemma get_named: "gives (named k) (rt_get env k)"
  by (auto simp: gives_def named_def rt_get_def on_store_def Let_def bind_res_Inr_iff split: sum.splits
      dest!: get_run_find find_run_id)

lemma transition_named: "gives (named k) (rt_transition env k st al ec es)"
  by (auto simp: gives_def named_def rt_transition_def on_store_def Let_def bind_res_Inr_iff split: sum.splits
      dest!: transition_view find_run_id)

lemma save_named: "gives (named k) (save_plan env k plan preserve)"
  by (auto simp: gives_def named_def save_plan_def on_store_def replace_plan_def Let_def bind_res_Inr_iff missing_def agentic_def
      split: sum.splits if_splits dest!: get_run_find find_run_id)

lemma plan_run_named:
  assumes "named k v"
  shows "gives (\<lambda>planned. \<forall>w. planned = Some w \<longrightarrow> named k w) (plan_run env ctx v started sm)"
proof -
  from assms have id: "ag_id (rv_run v) = k" by (simp add: named_def)
  have some: "gives (\<lambda>planned. \<forall>w. planned = Some w \<longrightarrow> named k w) (rt_bind m (\<lambda>w. rt_return (Some w)))"
    if "gives (named k) m" for m :: "run_view rt"
    by (rule gives_after [OF that]) (simp add: gives_return)
  have saved: "gives (named k) (rt_bind (save_plan env k plan True) (\<lambda>w. rt_bind (m w) (\<lambda>_. rt_bind (m' w) (\<lambda>_. rt_return w))))"
    for plan and m :: "run_view \<Rightarrow> agent_artifact rt" and m' :: "run_view \<Rightarrow> unit rt"
    by (rule gives_after [OF save_named]) (intro gives_bind, simp add: gives_return)
  have simple: "gives (named k) (plan_simple env run summary goal)" if "ag_id run = k" for run summary goal
    unfolding plan_simple_def that
    by (rule gives_bind, rule gives_after [OF save_named]) (intro gives_bind, simp add: gives_return)
  have expert: "gives (named k) (plan_expert env ctx run started summary goal)" if "ag_id run = k" for run summary goal
    unfolding plan_expert_def that Let_def
    by (rule saved | rule gives_bind | rule gives_pair)+
  have first: "gives (named k) (if ag_status (rv_run v) = RQueued then rt_transition env k RPlanning {RQueued} None None else rt_return v)"
    using assms by (intro gives_if transition_named) (simp add: gives_return)
  show ?thesis
    unfolding plan_run_def id Let_def
  proof (intro gives_if gives_after [OF first])
    fix w assume "named k w"
    then have w: "ag_id (rv_run w) = k" by (simp add: named_def)
    show "gives (\<lambda>planned. \<forall>w. planned = Some w \<longrightarrow> named k w)
       (rt_bind (plan_simple env (rv_run w) sm (goal_of (rv_run w))) (\<lambda>w. rt_return (Some w)))"
      by (rule some) (rule simple [OF w])
    show "gives (\<lambda>planned. \<forall>w. planned = Some w \<longrightarrow> named k w)
       (rt_bind (reserve_planning env k) (\<lambda>granted. if \<not> granted then rt_return None
         else rt_bind (plan_expert env ctx (rv_run w) started sm (expert_goal_of (rv_run w))) (\<lambda>w. rt_return (Some w))))"
      by (intro gives_bind gives_if some expert w) (simp add: gives_return)
  qed (use assms in \<open>simp add: gives_return\<close>)
qed

lemma bound_named:
  assumes "named k v"
  shows "gives (\<lambda>(_, w). named k w) (bound_context env ctx v)"
proof -
  from assms have id: "ag_id (rv_run v) = k" by (simp add: named_def)
  have first: "gives (named k) (if expert_artifacts v = [] then rt_get env k else rt_return v)"
    using assms by (intro gives_if get_named) (simp add: gives_return)
  show ?thesis
    unfolding bound_context_def id Let_def
    by (rule gives_after [OF first])
      (auto split: list.split intro!: gives_raise gives_bind simp: gives_return)
qed

lemma bound_frugal: "fair env k \<Longrightarrow> frugal k (bound_context env ctx v)"
  unfolding bound_context_def Let_def
  by (rule frugal_keeps) (auto split: list.split intro!: keeps_intros)

subsection \<open>The view is within the budget\<close>

definition affordable :: "int \<Rightarrow> run_view \<Rightarrow> bool" where
  "affordable m v = (ag_used (rv_run v) \<le> ag_max_calls (rv_run v) \<and> ag_max_calls (rv_run v) = m)"

text \<open>
  A computation that keeps the run \<open>k\<close> within its budget and at its maximum \<open>m\<close> (\<open>steady\<close>), and one whose views of it show so.
\<close>

definition held :: "string \<Rightarrow> int \<Rightarrow> rt_state \<Rightarrow> bool" where
  "held k m s = (room 0 (budget k s) \<and> (\<forall>m'. limit k s = Some m' \<longrightarrow> m' = m))"

definition shows_budget :: "string \<Rightarrow> int \<Rightarrow> ('a \<Rightarrow> bool) \<Rightarrow> 'a rt \<Rightarrow> bool" where
  "shows_budget k m Q c \<longleftrightarrow> triple (held k m) c (\<lambda>x s. Q x \<and> held k m s) (held k m)"

definition steady :: "string \<Rightarrow> int \<Rightarrow> 'a rt \<Rightarrow> bool" where
  "steady k m c \<longleftrightarrow> shows_budget k m (\<lambda>_. True) c"

lemma keeps_apply: "keeps f m \<Longrightarrow> m s = (r, s') \<Longrightarrow> f s' = f s"
  by (auto simp: keeps_def dest: spec [of _ s])

lemma steady_both: "frugal k c \<Longrightarrow> keeps (limit k) c \<Longrightarrow> steady k m c"
  unfolding steady_def shows_budget_def frugal_def
  by (rule tripleI) (auto simp: held_def dest: keeps_apply triple_Inr triple_Inl)

lemma steady_keeps: "keeps (budget k) c \<Longrightarrow> steady k m c"
  by (intro steady_both frugal_keeps limit_keeps)

lemma shows_seen:
  assumes "triple (has_room k 0) c (seen k) (has_room k 0)" and "keeps (limit k) c"
  shows "shows_budget k m (affordable m) c"
  unfolding shows_budget_def
proof (rule tripleI)
  fix s v s' assume h: "held k m s" and r: "c s = (Inr v, s')"
  from h have "seen k v s'" by (intro triple_Inr [OF assms(1) _ r]) (simp add: held_def)
  with h keeps_apply [OF assms(2) r] show "affordable m v \<and> held k m s'"
    by (cases "budget k s") (auto simp: held_def seen_def affordable_def limit_def room_def)
next
  fix s e s' assume h: "held k m s" and r: "c s = (Inl e, s')"
  from h have "room 0 (budget k s')" by (intro triple_Inl [OF assms(1) _ r]) (simp add: held_def)
  with h keeps_apply [OF assms(2) r] show "held k m s'" by (simp add: held_def)
qed

lemma shows_get: "fair env k \<Longrightarrow> shows_budget k m (affordable m) (rt_get env k)"
  by (intro shows_seen get_triple limit_intros)

lemma shows_transition: "fair env k \<Longrightarrow> shows_budget k m (affordable m) (rt_transition env k st al ec es)"
  by (intro shows_seen transition_seen limit_intros)

lemma shows_return: "Q x \<Longrightarrow> shows_budget k m Q (rt_return x)"
  unfolding shows_budget_def by (rule triple_return) simp

lemma shows_after: "shows_budget k m R c \<Longrightarrow> (\<And>x. R x \<Longrightarrow> shows_budget k m Q (g x)) \<Longrightarrow> shows_budget k m Q (rt_bind c g)"
  unfolding shows_budget_def
  by (rule triple_bind, assumption) (auto simp: triple_def split: prod.splits sum.splits)

lemma shows_bind: "steady k m c \<Longrightarrow> (\<And>x. shows_budget k m Q (g x)) \<Longrightarrow> shows_budget k m Q (rt_bind c g)"
  unfolding steady_def by (rule shows_after)

lemma shows_try: "shows_budget k m Q c \<Longrightarrow> (\<And>e. shows_budget k m Q (h e)) \<Longrightarrow> shows_budget k m Q (rt_try c h)"
  unfolding shows_budget_def by (rule triple_try)

lemma shows_if: "shows_budget k m Q a \<Longrightarrow> shows_budget k m Q b \<Longrightarrow> shows_budget k m Q (if c then a else b)"
  by simp

lemma shows_raise: "shows_budget k m Q (rt_raise e)"
  unfolding shows_budget_def by (rule triple_raise) simp

lemma shows_gives: "steady k m c \<Longrightarrow> gives R c \<Longrightarrow> shows_budget k m R c"
  by (fastforce simp: shows_budget_def steady_def gives_def triple_def split: prod.splits sum.splits)

lemma shows_named:
  "steady k m c \<Longrightarrow> gives R c \<Longrightarrow> (\<And>x. R x \<Longrightarrow> shows_budget k m Q (g x)) \<Longrightarrow> shows_budget k m Q (rt_bind c g)"
  by (rule shows_after [OF shows_gives])

lemma run_steps_shows:
  assumes f: "fair env k" and c: "\<forall>t \<in> set (en_tools env). 0 \<le> tl_cost t"
  shows "shows_budget k m (\<lambda>left. \<forall>w. left = Some w \<longrightarrow> affordable m w) (run_steps env ctx k started passed steps)"
proof (induction steps arbitrary: passed)
  case (Cons step steps)
  show ?case
    unfolding run_steps.simps
    by (rule shows_after [OF shows_get [OF f]])
      (intro shows_if shows_bind steady_both perform_step_frugal [OF assms] limit_intros Cons.IH f, simp add: shows_return)
qed (auto intro: shows_return)

lemma work_off_shows:
  assumes f: "fair env k" and c: "\<forall>t \<in> set (en_tools env). 0 \<le> tl_cost t" and "named k v"
  shows "shows_budget k m (affordable m) (work_off env ctx v started)"
proof -
  have tail: "shows_budget k m (affordable m) (case left of None \<Rightarrow> rt_transition env k RAwaiting {RRunning} None None | Some w \<Rightarrow> rt_return w)"
    if "\<forall>w. left = Some w \<longrightarrow> affordable m w" for left
    using that by (cases left) (simp_all add: shows_transition [OF f] shows_return)
  show ?thesis
    unfolding work_off_def assms(3) [unfolded named_def] Let_def
    by (rule shows_after [OF run_steps_shows [OF f c] tail] | assumption | rule shows_bind steady_keeps | intro keeps_intros f)+
qed

lemma agent_execute_shows:
  assumes f: "fair env k" and c: "\<forall>t \<in> set (en_tools env). 0 \<le> tl_cost t"
  shows "shows_budget k m (affordable m) (agent_execute env k)"
proof -
  have settle: "shows_budget k m (affordable m) (settle_failure env k e)" for e
  proof -
    have "shows_budget k m (affordable m) (case err of AgenticErr _ _ \<Rightarrow> rt_get env k | _ \<Rightarrow> rt_raise err)" for err
      by (cases err) (simp_all add: shows_get [OF f] shows_raise)
    then show ?thesis
      unfolding settle_failure_def Let_def by (intro shows_if shows_try shows_get shows_transition f)
  qed
  have body: "shows_budget k m (affordable m) (execute_body env v started)" if n: "named k v" for v started
  proof -
    have tail: "shows_budget k m (affordable m) (case planned of None \<Rightarrow> rt_get env k
        | Some v \<Rightarrow> rt_bind (if expert then bound_context env ctx v else rt_return (ctx, v)) (\<lambda>(ctx', w). work_off env ctx' w started))"
      if p: "\<forall>v. planned = Some v \<longrightarrow> named k v" for planned expert ctx
    proof (cases planned)
      case (Some w)
      with p have w: "named k w" by simp
      have "steady k m (if expert then bound_context env ctx w else rt_return (ctx, w))"
        using steady_both [OF bound_frugal [OF f] limit_bound [OF f]] by (auto intro: steady_keeps keeps_intros)
      moreover have "gives (\<lambda>(_, x). named k x) (if expert then bound_context env ctx w else rt_return (ctx, w))"
        using bound_named [OF w] w by (simp add: gives_return)
      ultimately show ?thesis
        unfolding Some option.case by (rule shows_named) (auto intro: work_off_shows [OF f c])
    qed (simp add: shows_get [OF f])
    from n have id: "ag_id (rv_run v) = k" by (simp add: named_def)
    show ?thesis
      unfolding execute_body_def id Let_def
      by (rule shows_named [OF steady_both [OF plan_run_frugal [OF f c] limit_plan [OF f]] plan_run_named [OF n] tail] | assumption
          | rule shows_bind steady_keeps | intro keeps_intros f)+
  qed
  show ?thesis
    unfolding agent_execute_def
  proof (rule shows_after)
    show "shows_budget k m (\<lambda>v. affordable m v \<and> named k v) (rt_get env k)"
      using shows_get [OF f, of m] get_named [of k env]
      by (fastforce simp: shows_budget_def gives_def triple_def split: prod.splits sum.splits)
  next
    fix v assume v: "affordable m v \<and> named k v"
    then show "shows_budget k m (affordable m) (if ag_status (rv_run v) \<in> {RCancelled, RCompleted, RAwaiting, RFailed} then rt_return v
        else rt_bind (rt_clock env) (\<lambda>started. rt_try (execute_body env v started) (settle_failure env k)))"
      by (intro shows_if shows_return shows_bind shows_try body settle steady_keeps keeps_intros) simp_all
  qed
qed

end
