(* ===== verification/Workflow_Props.thy ===== *)
theory Workflow_Props
  imports Workflow_Scheduler
begin

text \<open>
  Properties of the workflow scheduler: the tool budget of a run, the order of its nodes, and the
  termination of its loop. \<open>calm\<close> is what every operation other than a claim keeps; the environment of the scheduler
  is assumed to be calm, and the operations other requests use are shown to be.
\<close>

subsection \<open>What operations keep\<close>

definition run_nodes :: "string \<Rightarrow> wdb \<Rightarrow> workflow_node list" where
  "run_nodes k db = filter (\<lambda>n. wn_run n = k) (w_nodes db)"

definition started :: "workflow_node \<Rightarrow> bool" where
  "started n = (0 < wn_attempt n \<or> wn_status n \<noteq> SPending)"

definition evolve :: "workflow_node \<Rightarrow> workflow_node \<Rightarrow> bool" where
  "evolve n n' = (wn_run n' = wn_run n \<and> wn_id n' = wn_id n \<and> wn_deps n' = wn_deps n \<and> wn_calls n' = wn_calls n
     \<and> wn_attempt n \<le> wn_attempt n' \<and> (wn_status n = SCompleted \<longrightarrow> wn_status n' = SCompleted)
     \<and> (started n' \<longrightarrow> started n))"

definition same_limits :: "workflow_run \<Rightarrow> workflow_run \<Rightarrow> bool" where
  "same_limits r r' = (wr_max_calls r' = wr_max_calls r \<and> wr_attempts r' = wr_attempts r
     \<and> wr_concurrency r' = wr_concurrency r \<and> wr_timeout r' = wr_timeout r)"

definition calm :: "string \<Rightarrow> wdb \<Rightarrow> wdb \<Rightarrow> bool" where
  "calm k db db' = (list_all2 evolve (run_nodes k db) (run_nodes k db')
     \<and> (\<forall>r. find_wrun k db = Some r \<longrightarrow> (\<exists>r'. find_wrun k db' = Some r' \<and> same_limits r r'
          \<and> (wr_used r \<le> wr_max_calls r \<longrightarrow> wr_used r' \<le> wr_max_calls r'))))"

lemma evolve_refl [simp]: "evolve n n"
  by (simp add: evolve_def)

lemma evolve_trans: "evolve a b \<Longrightarrow> evolve b c \<Longrightarrow> evolve a c"
  by (auto simp: evolve_def)

lemma calm_refl [simp]: "calm k db db"
  by (simp add: calm_def same_limits_def list_all2_refl)

lemma calm_trans:
  assumes "calm k a b" and "calm k b c"
  shows "calm k a c"
proof -
  have "list_all2 evolve (run_nodes k a) (run_nodes k c)"
    using assms unfolding calm_def by (blast intro: list_all2_trans [of evolve evolve evolve] evolve_trans)
  moreover have "\<exists>r'. find_wrun k c = Some r' \<and> same_limits r r' \<and> (wr_used r \<le> wr_max_calls r \<longrightarrow> wr_used r' \<le> wr_max_calls r')"
    if r: "find_wrun k a = Some r" for r
  proof -
    from assms(1) r obtain r1 where 1: "find_wrun k b = Some r1" "same_limits r r1"
      "wr_used r \<le> wr_max_calls r \<longrightarrow> wr_used r1 \<le> wr_max_calls r1" by (auto simp: calm_def)
    from assms(2) 1(1) obtain r2 where "find_wrun k c = Some r2" "same_limits r1 r2"
      "wr_used r1 \<le> wr_max_calls r1 \<longrightarrow> wr_used r2 \<le> wr_max_calls r2" by (auto simp: calm_def)
    with 1 show ?thesis by (simp add: same_limits_def)
  qed
  ultimately show ?thesis by (simp add: calm_def)
qed

lemma calm_same: "w_nodes db' = w_nodes db \<Longrightarrow> w_runs db' = w_runs db \<Longrightarrow> calm k db db'"
  by (simp add: calm_def same_limits_def run_nodes_def find_wrun_def list_all2_refl)

lemma calm_runs:
  assumes "\<And>r. q r \<Longrightarrow> same_limits r (f r) \<and> wr_id (f r) = wr_id r \<and> wr_used (f r) = wr_used r"
  shows "calm k db (db\<lparr>w_runs := upd_where q f (w_runs db)\<rparr>)"
proof -
  have "find_wrun k (db\<lparr>w_runs := upd_where q f (w_runs db)\<rparr>) =
      map_option (\<lambda>r. if q r then f r else r) (find_wrun k db)"
  proof -
    have "find (\<lambda>r. wr_id r = k) (upd_where q f rs) = map_option (\<lambda>r. if q r then f r else r) (find (\<lambda>r. wr_id r = k) rs)" for rs
      using assms by (induction rs) (auto simp: upd_where_def)
    then show ?thesis by (simp add: find_wrun_def)
  qed
  with assms show ?thesis
    by (auto simp: calm_def run_nodes_def same_limits_def list_all2_refl)
qed

lemma calm_nodes:
  assumes "\<And>n. q n \<Longrightarrow> evolve n (f n)"
  shows "calm k db (db\<lparr>w_nodes := upd_where q f (w_nodes db)\<rparr>)"
proof -
  have "list_all2 evolve (filter (\<lambda>n. wn_run n = k) ns) (filter (\<lambda>n. wn_run n = k) (upd_where q f ns))" for ns
    using assms by (induction ns) (auto simp: upd_where_def evolve_def)
  then show ?thesis by (simp add: calm_def run_nodes_def find_wrun_def same_limits_def)
qed

lemma calm_event: "workflow_event now j t n a i db = Inr db' \<Longrightarrow> calm k db db'"
  by (auto simp: workflow_event_def split: if_split_asm intro!: calm_same)

lemma calm_then_event: "workflow_event now j t n a i x = Inr db' \<Longrightarrow> calm k db x \<Longrightarrow> calm k db db'"
  by (blast intro: calm_trans calm_event)

lemma update_one_Inr: "update_one c q f rows = Inr rows' \<longleftrightarrow> count_where q rows = 1 \<and> rows' = upd_where q f rows"
  by (auto simp: update_one_def)

lemma change_node_E:
  assumes "change_node now j nid S f ev ats i g db = Inr db'"
  obtains "count_where (the_node j nid S) (w_nodes db) = 1"
    and "workflow_event now j ev (Some nid) ats i (g (db\<lparr>w_nodes := upd_where (the_node j nid S) f (w_nodes db)\<rparr>)) = Inr db'"
  using assms by (auto simp: change_node_def bind_res_Inr_iff update_one_Inr)

lemma calm_change:
  assumes "change_node now j nid S f ev ats i g db = Inr db'"
    and "\<And>n. the_node j nid S n \<Longrightarrow> evolve n (f n)" and "\<And>x. calm k x (g x)"
  shows "calm k db db'"
  using assms(1)
proof (rule change_node_E)
  assume "workflow_event now j ev (Some nid) ats i (g (db\<lparr>w_nodes := upd_where (the_node j nid S) f (w_nodes db)\<rparr>)) = Inr db'"
  from calm_event [OF this, of k] show ?thesis
    using assms(3) calm_nodes [OF assms(2)] by (blast intro: calm_trans)
qed

lemma calm_transition: "transition_run now j st al i ec es db = Inr (db', v, b) \<Longrightarrow> calm k db db'"
  by (auto simp: transition_run_def wview_def bind_res_Inr_iff missing_def conflict_def
      split: option.split_asm if_split_asm intro!: calm_runs elim!: calm_then_event)
    (simp_all add: moved_wrun_def same_limits_def)

lemma calm_attach: "attach_child_run now j nid c db = Inr db' \<Longrightarrow> calm k db db'"
  by (auto simp: attach_child_run_def Let_def evolve_def started_def split: if_split_asm intro!: calm_nodes)

lemma calm_requeue: "requeue_node now j nid reason db = Inr db' \<Longrightarrow> calm k db db'"
  unfolding requeue_node_def by (erule calm_change) (auto simp: evolve_def started_def the_node_def)

lemma calm_reset: "reset_node now j nid i db = Inr (db', b) \<Longrightarrow> calm k db db'"
  by (auto simp: reset_node_def bind_res_Inr_iff missing_def split: if_split_asm
      elim!: calm_change simp: evolve_def started_def the_node_def back_to_pending_def)

lemma calm_recover: "workflow_event now j t n a i (requeue_running now j db) = Inr db' \<Longrightarrow> calm k db db'"
  unfolding requeue_running_def
  by (erule calm_then_event, rule calm_nodes) (auto simp: evolve_def started_def back_to_pending_def)

lemma calm_recover_all: "recover_active_wruns now db = Inr (db', ids) \<Longrightarrow> calm k db db'"
proof -
  have "recover_each_wrun now ks x = Inr y \<Longrightarrow> calm k x y" for ks x y
    by (induction ks arbitrary: x) (auto simp: bind_res_Inr_iff intro: calm_trans calm_recover)
  then show "recover_active_wruns now db = Inr (db', ids) \<Longrightarrow> calm k db db'"
    by (auto simp: recover_active_wruns_def bind_res_Inr_iff)
qed

subsection \<open>Settling nodes\<close>

lemma find_upd_id:
  "(\<And>r. wr_id (f r) = wr_id r) \<Longrightarrow>
   find (\<lambda>r. wr_id r = k) (upd_where (\<lambda>r. wr_id r = k) f rs) = map_option f (find (\<lambda>r. wr_id r = k) rs)"
  by (induction rs) (auto simp: upd_where_def)

lemma find_wrun_charge:
  "find_wrun k (charge_run now k u db) = map_option (\<lambda>r. r\<lparr>wr_used := wr_used r + u, wr_updated := now,
     wr_version := wr_version r + 1\<rparr>) (find_wrun k db)"
  unfolding find_wrun_def charge_run_def by (simp add: find_upd_id)

lemma calm_charge:
  "find_wrun k db = Some r \<Longrightarrow> wr_used r + u \<le> wr_max_calls r \<Longrightarrow> calm k db (charge_run now k u db)"
  by (simp add: calm_def find_wrun_charge same_limits_def)
    (simp add: run_nodes_def charge_run_def list_all2_refl)

lemma calm_finish:
  assumes "finish_node now k nid st u res ec es db = Inr db'" and "st \<noteq> SPending"
    and "find_wrun k db = Some r" and "wr_used r + u \<le> wr_max_calls r"
  shows "calm k db db'"
proof -
  define f where "f = (\<lambda>n::workflow_node. n\<lparr>wn_status := st, wn_used := wn_used n + u, wn_result := py_or res (PDict []), wn_error := ec,
    wn_summary := es, wn_completed := Some now, wn_updated := now\<rparr>)"
  define x where "x = db\<lparr>w_nodes := upd_where (the_node k nid {SRunning}) f (w_nodes db)\<rparr>"
  from assms(1) have "change_node now k nid {SRunning} f (''workflow_node_'' @ step_text st) [(''error_code'', opt_str ec)]
      None (charge_run now k u) db = Inr db'"
    by (simp add: finish_node_def f_def split: if_split_asm)
  then have e: "workflow_event now k (''workflow_node_'' @ step_text st) (Some nid) [(''error_code'', opt_str ec)] None
      (charge_run now k u x) = Inr db'"
    unfolding x_def by (rule change_node_E)
  have "calm k db x"
    unfolding x_def by (rule calm_nodes) (simp add: the_node_def f_def evolve_def started_def)
  moreover have "find_wrun k x = Some r" using assms(3) by (simp add: x_def find_wrun_def)
  ultimately show ?thesis
    using calm_charge [of k x r u now] assms(4) calm_then_event [OF e] by (blast intro: calm_trans)
qed

lemma calm_lift: "(\<And>db'. r = Inr db' \<Longrightarrow> calm k db db') \<Longrightarrow> lift_store db r = (db', x) \<Longrightarrow> calm k db db'"
  by (cases r) (auto simp: lift_store_def)

lemma calm_lift_after:
  "lift_store y r = (db', x) \<Longrightarrow> calm k db y \<Longrightarrow> (\<And>db'. r = Inr db' \<Longrightarrow> calm k y db') \<Longrightarrow> calm k db db'"
  by (blast intro: calm_trans calm_lift)

lemma calm_settle:
  assumes "settle_node now k ma nid res db = (db', x)"
  shows "calm k db db'"
proof (cases "get_wrun k db")
  case (Inr v)
  then have run: "find_wrun k db = Some (wv_run v)"
    by (auto simp: get_wrun_def missing_def split: option.split_asm)
  show ?thesis
  proof (cases "find (\<lambda>n. wn_id n = nid) (wv_nodes v)")
    case (Some node)
    define u where "u = nr_used res"
    show ?thesis
    proof (cases "over_budget (wv_run v) node u")
      case False
      then have le: "wr_used (wv_run v) + u \<le> wr_max_calls (wv_run v)" by (simp add: over_budget_def)
      note fin = calm_finish [OF _ _ run le]
      from assms Inr Some False show ?thesis
        by (auto simp: settle_node_def Let_def u_def [symmetric] bind_res_Inr_iff split: if_split_asm sum.split_asm option.split_asm
            elim!: calm_lift [rotated] calm_lift_after intro: fin calm_requeue calm_reset)
    qed (use assms Inr Some u_def in \<open>auto simp: settle_node_def\<close>)
  qed (use assms Inr in \<open>auto simp: settle_node_def\<close>)
qed (use assms in \<open>auto simp: settle_node_def\<close>)

definition env_calm :: "'e sched_env \<Rightarrow> string \<Rightarrow> bool" where
  "env_calm env k = (\<forall>outs db e nid r db' e'. se_next env outs db e = (nid, r, db', e') \<longrightarrow> calm k db db')"

lemma calm_batch:
  "env_calm env k \<Longrightarrow> settle_batch env k ma n outs raised db e = (db', e', x) \<Longrightarrow> calm k db db'"
proof (induction n arbitrary: outs raised db e db' e' x)
  case (Suc n)
  obtain nid r db1 e1 where n: "se_next env outs db e = (nid, r, db1, e1)" by (metis prod_cases4)
  have c1: "calm k db db1" using Suc.prems(1) n unfolding env_calm_def by blast
  obtain db2 y where s: "settle_node (se_now env e1) k ma nid (future_result r) db1 = (db2, y)" by fastforce
  have c2: "calm k db1 db2" by (rule calm_settle [OF s])
  obtain db3 e3 z where t: "settle_batch env k ma n (remove1 nid outs) True db2 e1 = (db3, e3, z)" by (metis prod_cases3)
  have "calm k db2 db3" by (rule Suc.IH [OF Suc.prems(1) t])
  with c1 c2 t s n Suc show ?case
    by (auto simp: Let_def split: if_split_asm option.split_asm intro: calm_trans)
qed simp

subsection \<open>The invariant of a run\<close>

definition ready_in :: "workflow_node list \<Rightarrow> workflow_node \<Rightarrow> bool" where
  "ready_in ns n = (\<forall>d \<in> set (wn_deps n). \<exists>m \<in> set ns. wn_id m = d \<and> wn_status m = SCompleted)"

definition wrun_inv :: "string \<Rightarrow> wdb \<Rightarrow> bool" where
  "wrun_inv k db = ((\<exists>r. find_wrun k db = Some r \<and> wr_used r \<le> wr_max_calls r)
     \<and> distinct (map wn_id (run_nodes k db))
     \<and> (\<forall>n \<in> set (run_nodes k db). started n \<longrightarrow> ready_in (run_nodes k db) n))"

lemma evolve_ids: "list_all2 evolve ns ns' \<Longrightarrow> map wn_id ns' = map wn_id ns"
  by (induction rule: list_all2_induct) (auto simp: evolve_def)

lemma list_all2_set1: "list_all2 P xs ys \<Longrightarrow> x \<in> set xs \<Longrightarrow> \<exists>y \<in> set ys. P x y"
  by (induction rule: list_all2_induct) auto

lemma list_all2_set2: "list_all2 P xs ys \<Longrightarrow> y \<in> set ys \<Longrightarrow> \<exists>x \<in> set xs. P x y"
  by (induction rule: list_all2_induct) auto

lemma ready_evolve:
  assumes "list_all2 evolve ns ns'" and "ready_in ns n" and "wn_deps n' = wn_deps n"
  shows "ready_in ns' n'"
  unfolding ready_in_def
proof
  fix d assume "d \<in> set (wn_deps n')"
  with assms(2,3) obtain m where m: "m \<in> set ns" "wn_id m = d" "wn_status m = SCompleted" by (auto simp: ready_in_def)
  from list_all2_set1 [OF assms(1) m(1)] m show "\<exists>m \<in> set ns'. wn_id m = d \<and> wn_status m = SCompleted"
    by (auto simp: evolve_def)
qed

lemma calm_inv:
  assumes "calm k db db'" and "wrun_inv k db"
  shows "wrun_inv k db'"
proof -
  have l: "list_all2 evolve (run_nodes k db) (run_nodes k db')" using assms(1) by (simp add: calm_def)
  have "ready_in (run_nodes k db') n'" if "n' \<in> set (run_nodes k db')" "started n'" for n'
  proof -
    from list_all2_set2 [OF l that(1)] obtain n where n: "n \<in> set (run_nodes k db)" "evolve n n'" by blast
    with that assms(2) have "ready_in (run_nodes k db) n" by (auto simp: wrun_inv_def evolve_def)
    with n show ?thesis by (intro ready_evolve [OF l]) (auto simp: evolve_def)
  qed
  moreover have "\<exists>r. find_wrun k db' = Some r \<and> wr_used r \<le> wr_max_calls r"
    using assms by (auto simp: calm_def wrun_inv_def same_limits_def)
  ultimately show ?thesis
    using assms(2) evolve_ids [OF l] by (simp add: wrun_inv_def)
qed

definition slack :: "int \<Rightarrow> workflow_node list \<Rightarrow> nat" where
  "slack ma ns = sum_list (map (\<lambda>n. nat (ma - wn_attempt n)) ns)"

lemma slack_evolve: "list_all2 evolve ns ns' \<Longrightarrow> slack ma ns' \<le> slack ma ns"
  by (induction rule: list_all2_induct) (auto simp: slack_def evolve_def)

subsection \<open>Claims\<close>

definition claimed :: "string \<Rightarrow> workflow_node \<Rightarrow> workflow_node" where
  "claimed now n = n\<lparr>wn_status := SRunning, wn_attempt := wn_attempt n + 1, wn_started := Some now, wn_updated := now\<rparr>"

lemma claimed_simps [simp]:
  "wn_attempt (claimed now n) = wn_attempt n + 1" "wn_id (claimed now n) = wn_id n" "wn_deps (claimed now n) = wn_deps n"
  "wn_run (claimed now n) = wn_run n" "wn_status (claimed now n) = SRunning"
  by (simp_all add: claimed_def)

lemma slack_Cons: "slack ma (n # ns) = nat (ma - wn_attempt n) + slack ma ns"
  by (simp add: slack_def)

lemma upd_where_Cons: "upd_where q f (x # xs) = (if q x then f x else x) # upd_where q f xs"
  by (simp add: upd_where_def)

lemma claim_effect:
  assumes "claim_node now k nid db = Inr db'"
  shows "run_nodes k db' = upd_where (the_node k nid {SPending}) (claimed now) (run_nodes k db)"
    and "w_runs db' = w_runs db" and "count_where (the_node k nid {SPending}) (run_nodes k db) = 1"
proof -
  have claim: "claim_node now k nid = change_node now k nid {SPending} (claimed now) ''workflow_node_running'' [] None id"
    by (simp add: claim_node_def claimed_def [abs_def])
  have e: "count_where (the_node k nid {SPending}) (w_nodes db) = 1"
    "workflow_event now k ''workflow_node_running'' (Some nid) [] None
       (db\<lparr>w_nodes := upd_where (the_node k nid {SPending}) (claimed now) (w_nodes db)\<rparr>) = Inr db'"
    using assms unfolding claim by (auto elim!: change_node_E)
  have f: "filter (\<lambda>n. wn_run n = k) (upd_where (the_node k nid {SPending}) (claimed now) ns) =
      upd_where (the_node k nid {SPending}) (claimed now) (filter (\<lambda>n. wn_run n = k) ns)" for ns
    by (induction ns) (auto simp: upd_where_def the_node_def claimed_def)
  from e(2) f show "run_nodes k db' = upd_where (the_node k nid {SPending}) (claimed now) (run_nodes k db)"
    and "w_runs db' = w_runs db"
    by (auto simp: workflow_event_def run_nodes_def split: if_split_asm)
  have "filter (the_node k nid {SPending}) (filter (\<lambda>n. wn_run n = k) ns) = filter (the_node k nid {SPending}) ns" for ns
    by (induction ns) (auto simp: the_node_def)
  with e(1) show "count_where (the_node k nid {SPending}) (run_nodes k db) = 1"
    by (simp add: count_where_def run_nodes_def)
qed

lemma ready_claim:
  "ready_in (upd_where (the_node k nid {SPending}) (claimed now) ns) n = ready_in ns n"
proof -
  have "(\<exists>m \<in> set (upd_where (the_node k nid {SPending}) (claimed now) ns). wn_id m = d \<and> wn_status m = SCompleted) \<longleftrightarrow>
      (\<exists>m \<in> set ns. wn_id m = d \<and> wn_status m = SCompleted)" for d
    by (induction ns) (auto simp: upd_where_def the_node_def claimed_def)
  then show ?thesis by (simp add: ready_in_def)
qed

lemma slack_claim:
  assumes "count_where (the_node k nid {SPending}) ns = 1" and "\<And>n. n \<in> set ns \<Longrightarrow> wn_id n = nid \<Longrightarrow> wn_attempt n < ma"
  shows "slack ma (upd_where (the_node k nid {SPending}) (claimed now) ns) < slack ma ns"
  using assms
proof (induction ns)
  case (Cons n ns)
  show ?case
  proof (cases "the_node k nid {SPending} n")
    case True
    then have "wn_attempt n < ma" using Cons.prems(2) by (auto simp: the_node_def)
    moreover have "slack ma (upd_where (the_node k nid {SPending}) (claimed now) ns) = slack ma ns"
    proof -
      have "filter (the_node k nid {SPending}) ns = []" using Cons.prems(1) True by (simp add: count_where_def)
      then have "upd_where (the_node k nid {SPending}) (claimed now) ns = ns"
        by (induction ns) (auto simp: upd_where_def split: if_split_asm)
      then show ?thesis by simp
    qed
    ultimately show ?thesis using True by (simp add: slack_Cons upd_where_Cons)
  next
    case False
    with Cons show ?thesis by (simp add: slack_Cons upd_where_Cons count_where_def)
  qed
qed (simp add: count_where_def)

lemma claims_inv:
  assumes "claim_nodes now k ids db = (db', x)" and "wrun_inv k db"
    and "\<And>nid n. nid \<in> set ids \<Longrightarrow> n \<in> set (run_nodes k db) \<Longrightarrow> wn_id n = nid \<Longrightarrow> ready_in (run_nodes k db) n"
  shows "wrun_inv k db' \<and> w_runs db' = w_runs db"
  using assms
proof (induction ids arbitrary: db)
  case (Cons nid ids)
  show ?case
  proof (cases "claim_node now k nid db")
    case (Inr db1)
    note c = claim_effect [OF Inr]
    have inv: "wrun_inv k db1"
      unfolding wrun_inv_def
    proof (intro conjI ballI impI)
      show "\<exists>r. find_wrun k db1 = Some r \<and> wr_used r \<le> wr_max_calls r"
        using Cons.prems(2) c(2) by (simp add: wrun_inv_def find_wrun_def)
      have "map wn_id (upd_where (the_node k nid {SPending}) (claimed now) ns) = map wn_id ns" for ns
        by (simp add: upd_where_def claimed_def)
      then show "distinct (map wn_id (run_nodes k db1))"
        using Cons.prems(2) by (simp add: wrun_inv_def c(1))
      fix n assume n: "n \<in> set (run_nodes k db1)" "started n"
      then obtain m where m: "m \<in> set (run_nodes k db)" "n = (if the_node k nid {SPending} m then claimed now m else m)"
        by (auto simp: c(1) upd_where_def)
      then have "the_node k nid {SPending} m \<or> started m" using n(2) by (auto split: if_split_asm)
      then have "ready_in (run_nodes k db) m"
        using Cons.prems(2) Cons.prems(3) [of nid m] m(1) by (auto simp: wrun_inv_def the_node_def)
      with m(2) show "ready_in (run_nodes k db1) n"
        by (simp add: c(1) ready_claim) (simp add: ready_in_def claimed_def)
    qed
    have "ready_in (run_nodes k db1) n" if "j \<in> set ids" "n \<in> set (run_nodes k db1)" "wn_id n = j" for j n
    proof -
      from that(2) obtain m where m: "m \<in> set (run_nodes k db)" "n = (if the_node k nid {SPending} m then claimed now m else m)"
        by (auto simp: c(1) upd_where_def)
      with that Cons.prems(3) [of j m] have "ready_in (run_nodes k db) m" by (auto simp: claimed_def split: if_split_asm)
      with m(2) show ?thesis by (simp add: c(1) ready_claim) (simp add: ready_in_def claimed_def)
    qed
    with Cons.IH [of db1] inv Cons.prems(1) Inr c(2) show ?thesis by simp
  qed (use Cons.prems in auto)
qed simp

lemma slack_claim_le: "slack ma (upd_where (the_node k nid {SPending}) (claimed now) ns) \<le> slack ma ns"
  by (induction ns) (auto simp: slack_def upd_where_def)

lemma claims_slack:
  assumes "claim_nodes now k ids db = (db', None)"
  shows "slack ma (run_nodes k db') \<le> slack ma (run_nodes k db)"
    and "ids \<noteq> [] \<Longrightarrow> (\<And>n. n \<in> set (run_nodes k db) \<Longrightarrow> wn_id n = hd ids \<Longrightarrow> wn_attempt n < ma)
      \<Longrightarrow> slack ma (run_nodes k db') < slack ma (run_nodes k db)"
proof -
  have le: "slack ma (run_nodes k y) \<le> slack ma (run_nodes k x)" if "claim_nodes now k js x = (y, None)" for js x y
    using that
  proof (induction js arbitrary: x)
    case (Cons j js)
    then obtain x1 where 1: "claim_node now k j x = Inr x1" "claim_nodes now k js x1 = (y, None)"
      by (auto split: sum.split_asm)
    from Cons.IH [OF 1(2)] claim_effect(1) [OF 1(1)] slack_claim_le [of ma k j now "run_nodes k x"] show ?case by simp
  qed simp
  from le [OF assms] show "slack ma (run_nodes k db') \<le> slack ma (run_nodes k db)" .
  assume "ids \<noteq> []" and lt: "\<And>n. n \<in> set (run_nodes k db) \<Longrightarrow> wn_id n = hd ids \<Longrightarrow> wn_attempt n < ma"
  then obtain j js where ids: "ids = j # js" by (cases ids) auto
  with assms obtain db1 where 1: "claim_node now k j db = Inr db1" "claim_nodes now k js db1 = (db', None)"
    by (auto split: sum.split_asm)
  have "slack ma (run_nodes k db1) < slack ma (run_nodes k db)"
    using slack_claim [OF claim_effect(3) [OF 1(1)], of ma now] lt ids by (simp add: claim_effect(1) [OF 1(1)])
  with le [OF 1(2)] show "slack ma (run_nodes k db') < slack ma (run_nodes k db)" by simp
qed

subsection \<open>The loop\<close>

lemma admit_subset: "set (admit m r ns) \<subseteq> set ns"
  by (induction m r ns rule: admit.induct) auto

lemma admit_fits: "r \<le> m \<Longrightarrow> r + sum_list (map wn_calls (admit m r ns)) \<le> m"
  by (induction m r ns rule: admit.induct) (auto simp: add.assoc [symmetric])

lemma plan_batch_Batch:
  assumes "plan_batch v = Batch admitted"
  shows "admitted \<noteq> []" and "set admitted \<subseteq> set (ready_nodes (wv_nodes v))"
    and "\<forall>n \<in> set (wv_nodes v). wn_status n = SPending \<longrightarrow> wn_attempt n < wr_attempts (wv_run v)"
    and "admitted = admit (wr_max_calls (wv_run v) - wr_used (wv_run v)) 0
           (take (nat (wr_concurrency (wv_run v))) (ready_nodes (wv_nodes v)))"
proof -
  show adm: "admitted = admit (wr_max_calls (wv_run v) - wr_used (wv_run v)) 0
      (take (nat (wr_concurrency (wv_run v))) (ready_nodes (wv_nodes v)))" and "admitted \<noteq> []"
    and "\<forall>n \<in> set (wv_nodes v). wn_status n = SPending \<longrightarrow> wn_attempt n < wr_attempts (wv_run v)"
    using assms by (auto simp: plan_batch_def Let_def list_ex_iff not_le split: if_split_asm)
  show "set admitted \<subseteq> set (ready_nodes (wv_nodes v))"
    unfolding adm using admit_subset set_take_subset by (metis order_trans)
qed

lemma get_wrun_Inr:
  "get_wrun k db = Inr v \<Longrightarrow> find_wrun k db = Some (wv_run v) \<and> set (wv_nodes v) = set (run_nodes k db)"
  by (auto simp: get_wrun_def missing_def nodes_of_def run_nodes_def split: option.split_asm)

lemma ready_nodes_ready:
  "n \<in> set (ready_nodes ns) \<Longrightarrow> n \<in> set ns \<and> wn_status n = SPending \<and> ready_in ns n"
  by (auto simp: ready_nodes_def ready_in_def list_all_iff)

lemma batch_claim:
  assumes "get_wrun k db = Inr v" and "plan_batch v = Batch admitted" and "wrun_inv k db"
    and "wn_id n \<in> set (map wn_id admitted)" and "n \<in> set (run_nodes k db)"
  shows "ready_in (run_nodes k db) n" and "wn_attempt n < wr_attempts (wv_run v)"
proof -
  note v = get_wrun_Inr [OF assms(1)] and b = plan_batch_Batch [OF assms(2)]
  from assms(4) obtain m where m: "m \<in> set admitted" "wn_id m = wn_id n" by auto
  with b(2) have r: "m \<in> set (wv_nodes v)" "wn_status m = SPending" "ready_in (wv_nodes v) m"
    using ready_nodes_ready by blast+
  have "m = n"
    using r(1) m(2) v assms(3,5) by (auto simp: wrun_inv_def dest: map_of_is_SomeI distinct_map [THEN iffD1] inj_onD)
  with r b(3) v show "ready_in (run_nodes k db) n" and "wn_attempt n < wr_attempts (wv_run v)"
    by (auto simp: ready_in_def)
qed

lemma loop_pass:
  assumes "env_calm env k" and "wrun_inv k db" and "get_wrun k db = Inr v" and "plan_batch v = Batch admitted"
    and "claim_nodes now k (map wn_id admitted) db = (db1, x)"
  shows "wrun_inv k db1"
    and "x = None \<Longrightarrow> slack (wr_attempts (wv_run v)) (run_nodes k db1) < slack (wr_attempts (wv_run v)) (run_nodes k db)"
    and "find_wrun k db1 = Some (wv_run v)"
proof -
  have "wrun_inv k db1 \<and> w_runs db1 = w_runs db"
    using claims_inv [OF assms(5,2)] batch_claim(1) [OF assms(3,4,2)] by blast
  with get_wrun_Inr [OF assms(3)] show "wrun_inv k db1" "find_wrun k db1 = Some (wv_run v)"
    by (auto simp: find_wrun_def)
  have "hd (map wn_id admitted) \<in> set (map wn_id admitted)"
    using plan_batch_Batch(1) [OF assms(4)] by (intro hd_in_set) simp
  then show "x = None \<Longrightarrow> slack (wr_attempts (wv_run v)) (run_nodes k db1) < slack (wr_attempts (wv_run v)) (run_nodes k db)"
    using claims_slack(2) [of now k "map wn_id admitted" db db1 "wr_attempts (wv_run v)"] assms(5)
      plan_batch_Batch(1) [OF assms(4)] batch_claim(2) [OF assms(3,4,2)] by (metis Nil_is_map_conv)
qed

lemma loop_inv:
  assumes "env_calm env k"
  shows "wrun_inv k db \<Longrightarrow> sched_loop env k fuel db e = Some (db', e', out) \<Longrightarrow> wrun_inv k db'"
proof (induction fuel arbitrary: db e)
  case (Suc fuel)
  show ?case
  proof (cases "get_wrun k db")
    case (Inr v)
    obtain el e1 where el: "se_elapsed env e = (el, e1)" by fastforce
    show ?thesis
    proof (cases "plan_batch v")
      case (Batch admitted)
      obtain db1 x where c: "claim_nodes (se_now env e1) k (map wn_id admitted) db = (db1, x)" by fastforce
      have i1: "wrun_inv k db1" by (rule loop_pass(1) [OF assms Suc.prems(1) Inr Batch c])
      obtain db2 e2 y where b: "settle_batch env k (wr_attempts (wv_run v)) (length admitted) (map wn_id admitted) False db1 e1
          = (db2, e2, y)" by (metis prod_cases3)
      have i2: "wrun_inv k db2" by (rule calm_inv [OF calm_batch [OF assms b] i1])
      from Suc.prems Inr el Batch c b i1 i2 show ?thesis
        by (auto split: if_split_asm option.split_asm intro: Suc.IH [OF i2])
    qed (use Suc.prems Inr el in \<open>auto split: if_split_asm sum.split_asm intro: calm_inv [OF calm_transition]\<close>)
  qed (use Suc.prems in auto)
qed simp

lemma loop_terminates:
  assumes "env_calm env k"
  shows "wrun_inv k db \<Longrightarrow> find_wrun k db = Some r \<Longrightarrow> slack (wr_attempts r) (run_nodes k db) < fuel
    \<Longrightarrow> sched_loop env k fuel db e \<noteq> None"
proof (induction fuel arbitrary: db e r)
  case (Suc fuel)
  show ?case
  proof (cases "get_wrun k db")
    case (Inr v)
    with Suc.prems(2) get_wrun_Inr have r: "wv_run v = r" by fastforce
    obtain el e1 where el: "se_elapsed env e = (el, e1)" by fastforce
    show ?thesis
    proof (cases "plan_batch v")
      case (Batch admitted)
      obtain db1 x where c: "claim_nodes (se_now env e1) k (map wn_id admitted) db = (db1, x)" by fastforce
      note p = loop_pass [OF assms Suc.prems(1) Inr Batch c]
      obtain db2 e2 y where b: "settle_batch env k (wr_attempts (wv_run v)) (length admitted) (map wn_id admitted) False db1 e1
          = (db2, e2, y)" by (metis prod_cases3)
      note cb = calm_batch [OF assms b]
      obtain r2 where r2: "find_wrun k db2 = Some r2" "wr_attempts r2 = wr_attempts r"
        using cb p(3) r by (auto simp: calm_def same_limits_def)
      have "x = None \<Longrightarrow> slack (wr_attempts r2) (run_nodes k db2) < fuel"
        using slack_evolve [of "run_nodes k db1" "run_nodes k db2" "wr_attempts r"] cb p(2) Suc.prems(3) r r2(2)
        by (auto simp: calm_def)
      then have "x = None \<Longrightarrow> sched_loop env k fuel db2 e2 \<noteq> None"
        by (rule Suc.IH [OF calm_inv [OF cb p(1)] r2(1)])
      with Inr el Batch c b show ?thesis by (auto split: option.split)
    qed (use Inr el in \<open>auto split: sum.split\<close>)
  qed simp
qed simp

lemma calm_start: "start_wrun env k st db e = (db', x) \<Longrightarrow> calm k db db'"
  by (auto simp: start_wrun_def split: if_split_asm sum.split_asm intro: calm_transition)

lemma execute_inv:
  assumes "env_calm env k" and "wrun_inv k db" and "execute_wrun env fuel k db e = Some (Inr (db', e', v))"
  shows "wrun_inv k db'"
proof -
  have fail: "wrun_inv k y" if "fail_wrun env k ex x e1 = Inr (y, e2, w)" "wrun_inv k x" for ex x e1 y e2 w
    using that by (auto simp: fail_wrun_def bind_res_Inr_iff split: sum.split_asm exc.split_asm
        intro: calm_inv [OF calm_transition])
  have loop: "wrun_inv k y" if "sched_loop env k fuel x e1 = Some (y, e2, out)" "wrun_inv k x" for x e1 y e2 out
    using loop_inv [OF assms(1) that(2,1)] .
  obtain v0 where v0: "get_wrun k db = Inr v0"
    using assms(3) by (cases "get_wrun k db") (simp_all add: execute_wrun_def)
  show ?thesis
  proof (cases "wr_status (wv_run v0) \<in> {RPaused, RCancelled, RAwaiting, RCompleted}")
    case True
    with assms(3) v0 have "db' = db" unfolding execute_wrun_def by simp
    with assms(2) show ?thesis by simp
  next
    case False
    obtain db1 x where st: "start_wrun env k (wr_status (wv_run v0)) db e = (db1, x)" by fastforce
    have i1: "wrun_inv k db1" by (rule calm_inv [OF calm_start [OF st] assms(2)])
    show ?thesis
    proof (cases x)
      case (Some ex)
      with assms(3) v0 False st have "fail_wrun env k ex db1 e = Inr (db', e', v)"
        unfolding execute_wrun_def by simp
      then show ?thesis using i1 by (rule fail)
    next
      case None
      with assms(3) v0 False st obtain db2 e2 out where l: "sched_loop env k fuel db1 e = Some (db2, e2, out)"
        unfolding execute_wrun_def by (cases "sched_loop env k fuel db1 e") auto
      note i2 = loop [OF l i1]
      with assms(3) v0 False st None l show ?thesis
        unfolding execute_wrun_def by (cases out) (simp_all add: bind_res_Inr_iff, blast intro: fail)
    qed
  qed
qed

end
