(* ===== verification/Agent_Compiler_Props.thy ===== *)
theory Agent_Compiler_Props
  imports Agent_Compiler
begin

text \<open>
  Correctness of the workflow compiler: the layers are a topological order of the nodes, planning
  succeeds exactly on acyclic graphs, and an accepted workflow respects the platform limits.
\<close>

subsection \<open>Layers\<close>

definition deps_of :: "(string \<times> string list) list \<Rightarrow> string \<Rightarrow> string set" where
  "deps_of g k = (case map_of g k of None \<Rightarrow> {} | Some ds \<Rightarrow> set ds)"

text \<open>Every layer is non-empty and depends on earlier layers only.\<close>

fun layered :: "(string \<Rightarrow> string set) \<Rightarrow> string set \<Rightarrow> string list list \<Rightarrow> bool" where
  "layered deps known [] = True"
| "layered deps known (l # ls) =
     (l \<noteq> [] \<and> (\<forall>k \<in> set l. deps k \<subseteq> known) \<and> layered deps (known \<union> set l) ls)"

text \<open>The keys of a graph that still has to be planned after the nodes in \<open>known\<close>.\<close>

definition rest :: "(string \<times> string list) list \<Rightarrow> string set \<Rightarrow> (string \<times> string list) list" where
  "rest g known = map (\<lambda>(k, ds). (k, filter (\<lambda>d. d \<notin> known) ds)) (filter (\<lambda>(k, _). k \<notin> known) g)"

lemma rest_keys: "map fst (rest g known) = filter (\<lambda>k. k \<notin> known) (map fst g)"
  by (induction g) (auto simp: rest_def)

lemma rest_empty [simp]: "rest g {} = g"
  by (induction g) (auto simp: rest_def)

lemma rest_next: "set ready = r \<Longrightarrow> next_remaining ready (rest g known) = rest g (known \<union> r)"
  by (induction g) (auto simp: rest_def next_remaining_def filter_filter intro: filter_cong)

lemma ready_rest:
  "distinct (map fst g) \<Longrightarrow>
   set (ready_ids (rest g known)) = {k \<in> set (map fst g) - known. deps_of g k \<subseteq> known}"
proof (induction g)
  case (Cons p g)
  obtain k ds where p: "p = (k, ds)" by (cases p)
  have "k \<notin> set (map fst g)" using Cons.prems p by simp
  then have d: "deps_of (p # g) k' = (if k' = k then set ds else deps_of g k')" for k'
    by (auto simp: deps_of_def p)
  have k: "x \<noteq> k" if "x \<in> set (map fst g)" for x using that \<open>k \<notin> set (map fst g)\<close> by blast
  have "ready_ids (rest (p # g) known) =
      (if k \<notin> known \<and> filter (\<lambda>d. d \<notin> known) ds = [] then [k] else []) @ ready_ids (rest g known)"
    by (simp add: p rest_def ready_ids_def)
  then have "set (ready_ids (rest (p # g) known)) =
      (if k \<notin> known \<and> set ds \<subseteq> known then {k} else {}) \<union> set (ready_ids (rest g known))"
    by (auto simp: filter_empty_conv)
  with Cons.IH Cons.prems p show ?case using k by (auto simp: d [unfolded p] simp del: set_map)
qed (simp add: rest_def ready_ids_def)

lemma distinct_ready: "distinct (map fst g) \<Longrightarrow> distinct (ready_ids (rest g known))"
  using distinct_map_filter [of fst "rest g known" "\<lambda>(_, ds). ds = []"] rest_keys [of g known]
  by (simp add: ready_ids_def)

lemma plan_layers_rest:
  assumes "distinct (map fst g)" and "plan_layers ids (rest g known) = Inr ls"
  shows "layered (deps_of g) known ls \<and> distinct (concat ls) \<and> set (concat ls) = set (map fst g) - known"
  using assms(2)
proof (induction "length (rest g known)" arbitrary: known ls rule: less_induct)
  case less
  define ready where "ready = sort_key (order_hint ids) (ready_ids (rest g known))"
  have set_ready: "set ready = {k \<in> set (map fst g) - known. deps_of g k \<subseteq> known}"
    using ready_rest [OF assms(1)] by (simp add: ready_def)
  show ?case
  proof (cases "rest g known")
    case Nil
    then have "filter (\<lambda>k. k \<notin> known) (map fst g) = []" using rest_keys [of g known] by simp
    then have "set (map fst g) - known = {}" unfolding filter_empty_conv by blast
    with Nil less.prems show ?thesis by simp
  next
    case (Cons p ps)
    with less.prems obtain ls' where ne: "ready_ids (rest g known) \<noteq> []" and ls: "ls = ready # ls'"
      and rec: "plan_layers ids (next_remaining ready (rest g known)) = Inr ls'"
      by (auto simp: Let_def res_simps ready_def split: if_split_asm)
    have nxt: "next_remaining ready (rest g known) = rest g (known \<union> set ready)" by (rule rest_next) simp
    have "length (rest g (known \<union> set ready)) < length (rest g known)"
      using next_remaining_less [OF ne, of ready] nxt by (simp add: ready_def)
    from less.hyps [OF this] rec nxt
    have ih: "layered (deps_of g) (known \<union> set ready) ls'" "distinct (concat ls')"
      "set (concat ls') = set (map fst g) - (known \<union> set ready)" by simp_all
    have "ready \<noteq> []" using ne by (metis ready_def set_empty set_sort)
    with ih set_ready distinct_ready [OF assms(1), of known] show ?thesis
      by (auto simp: ls ready_def simp del: set_map)
  qed
qed

lemma plan_layers_fails:
  assumes "distinct (map fst g)" and "plan_layers ids (rest g known) = Inl e"
  shows "e = AgenticErr ''workflow_cycle'' 422
    \<and> (\<exists>S. S \<noteq> {} \<and> S \<subseteq> set (map fst g) \<and> (\<forall>k \<in> S. \<exists>d \<in> deps_of g k. d \<in> S \<or> d \<notin> set (map fst g) \<union> known))"
  using assms(2)
proof (induction "length (rest g known)" arbitrary: known rule: less_induct)
  case less
  define ready where "ready = sort_key (order_hint ids) (ready_ids (rest g known))"
  from less.prems obtain p ps where ps: "rest g known = p # ps" by (cases "rest g known") auto
  show ?case
  proof (cases "ready_ids (rest g known) = []")
    case True
    define S where "S = set (map fst g) - known"
    have "S = set (map fst (rest g known))" unfolding S_def rest_keys by auto
    then have ne: "S \<noteq> {}" by (simp add: ps)
    have stuck: "\<exists>d \<in> deps_of g k. d \<in> S \<or> d \<notin> set (map fst g) \<union> known" if "k \<in> S" for k
      using that True ready_rest [OF assms(1), of known] by (auto simp: S_def simp del: set_map)
    have e: "e = AgenticErr ''workflow_cycle'' 422" using less.prems True ps by (simp add: agentic_def)
    have sub: "S \<subseteq> set (map fst g)" by (simp only: S_def Diff_subset)
    show ?thesis by (intro conjI exI [of _ S] ballI) (fact e, fact ne, fact sub, erule stuck)
  next
    case False
    have nxt: "next_remaining ready (rest g known) = rest g (known \<union> set ready)" by (rule rest_next) simp
    have less: "length (rest g (known \<union> set ready)) < length (rest g known)"
      using next_remaining_less [OF False, of ready] nxt by (simp add: ready_def)
    have "plan_layers ids (rest g (known \<union> set ready)) = Inl e"
      using less.prems False ps nxt by (auto simp: Let_def res_simps ready_def)
    note ih = less.hyps [OF less this]
    from ih have e: "e = AgenticErr ''workflow_cycle'' 422" by (rule conjunct1)
    from ih [THEN conjunct2] obtain S where S: "S \<noteq> {}" "S \<subseteq> set (map fst g)"
      and "\<forall>k \<in> S. \<exists>d \<in> deps_of g k. d \<in> S \<or> d \<notin> set (map fst g) \<union> (known \<union> set ready)"
      by (elim exE conjE) (rule that)
    then have "\<forall>k \<in> S. \<exists>d \<in> deps_of g k. d \<in> S \<or> d \<notin> set (map fst g) \<union> known" by (simp only: Un_iff) blast
    with e S show ?thesis by blast
  qed
qed

subsection \<open>Cycles\<close>

definition dep_edges :: "(string \<times> string list) list \<Rightarrow> (string \<times> string) set" where
  "dep_edges g = {(d, k). d \<in> deps_of g k}"

lemma acyclic_no_stuck:
  assumes "finite r" and "acyclic r" and "S \<noteq> {}"
  shows "\<exists>k \<in> S. \<forall>d. (d, k) \<in> r \<longrightarrow> d \<notin> S"
  using finite_acyclic_wf [OF assms(1,2)] assms(3) unfolding wf_eq_minimal by blast

lemma layered_wf:
  assumes "layered deps known ls" and "known \<inter> set (concat ls) = {}" and "distinct (concat ls)"
  shows "wf {(d, k). d \<in> deps k \<and> k \<in> set (concat ls)}"
  using assms
proof (induction ls arbitrary: known)
  case (Cons l ls)
  define r where "r = {(d, k). d \<in> deps k \<and> k \<in> set (concat ls)}"
  define s where "s = {(d, k). d \<in> deps k \<and> k \<in> set l}"
  have "(known \<union> set l) \<inter> set (concat ls) = {}" using Cons.prems by auto
  with Cons.prems Cons.IH [of "known \<union> set l"] have "wf r" unfolding r_def by simp
  moreover have "wf s"
    using Cons.prems(1,2) by (intro wfI_min) (auto simp: s_def, blast)
  moreover have "Domain s \<inter> Range r = {}" using Cons.prems by (auto simp: r_def s_def)
  ultimately have "wf (s \<union> r)" by (intro wf_Un) auto
  moreover have "{(d, k). d \<in> deps k \<and> k \<in> set (concat (l # ls))} = s \<union> r" by (auto simp: r_def s_def)
  ultimately show ?case by simp
qed simp

lemma deps_of_outside: "k \<notin> set (map fst g) \<Longrightarrow> deps_of g k = {}"
  by (simp add: deps_of_def map_of_eq_None_iff [THEN iffD2])

lemma finite_dep_edges: "finite (dep_edges g)"
proof -
  have "dep_edges g \<subseteq> (\<Union>p \<in> set g. set (snd p) \<times> {fst p})"
    by (force simp: dep_edges_def deps_of_def dest!: map_of_SomeD split: option.split_asm)
  then show ?thesis by (rule finite_subset) auto
qed

lemma plan_layers_iff:
  assumes "distinct (map fst g)" and "\<And>k. deps_of g k \<subseteq> set (map fst g)"
  shows "(\<exists>ls. plan_layers ids g = Inr ls) \<longleftrightarrow> acyclic (dep_edges g)"
proof
  assume "\<exists>ls. plan_layers ids g = Inr ls"
  then obtain ls where "layered (deps_of g) {} ls" "distinct (concat ls)" "set (concat ls) = set (map fst g)"
    using plan_layers_rest [OF assms(1), of ids "{}"] by auto
  moreover from this have "dep_edges g = {(d, k). d \<in> deps_of g k \<and> k \<in> set (concat ls)}"
    using deps_of_outside [of _ g] by (auto simp: dep_edges_def simp del: set_map)
  ultimately show "acyclic (dep_edges g)" using layered_wf [of "deps_of g" "{}" ls] by (simp add: wf_acyclic)
next
  assume ac: "acyclic (dep_edges g)"
  show "\<exists>ls. plan_layers ids g = Inr ls"
  proof (cases "plan_layers ids g")
    case (Inl e)
    then have "plan_layers ids (rest g {}) = Inl e" by simp
    from plan_layers_fails [OF assms(1) this, THEN conjunct2] obtain S where S: "S \<noteq> {}"
      and stuck: "\<forall>k \<in> S. \<exists>d \<in> deps_of g k. d \<in> S \<or> d \<notin> set (map fst g) \<union> {}"
      by (elim exE conjE) (rule that)
    from acyclic_no_stuck [OF finite_dep_edges ac S] obtain k where
      "k \<in> S" "\<forall>d. d \<in> deps_of g k \<longrightarrow> d \<notin> S" by (auto simp: dep_edges_def)
    with stuck assms(2) [of k] have False by blast
    then show ?thesis by blast
  qed blast
qed

subsection \<open>Compiled workflows\<close>

lemma read_nodes_Inr:
  assumes "read_nodes roles seen raws = Inr nodes"
  shows "length nodes = length raws \<and> distinct (map nd_id nodes) \<and> set seen \<inter> set (map nd_id nodes) = {}
    \<and> (\<forall>n \<in> set nodes. node_id_ok (nd_id n) \<and> (\<exists>role k. role_get roles k = Some role \<and> nd_role n = ar_id role
          \<and> nd_tools n = ar_tools role \<and> nd_steps n = ar_steps role \<and> nd_calls n = ar_calls role \<and> nd_timeout n = ar_timeout role))"
  using assms
proof (induction roles seen raws arbitrary: nodes rule: read_nodes.induct)
  case (2 roles seen raw raws)
  then obtain n ns where n: "read_node roles seen raw = Inr n" and ns: "read_nodes roles (nd_id n # seen) raws = Inr ns"
    and nodes: "nodes = n # ns" by (auto simp: res_simps)
  from n have "nd_id n \<notin> set seen \<and> node_id_ok (nd_id n) \<and> (\<exists>role k. role_get roles k = Some role \<and> nd_role n = ar_id role
          \<and> nd_tools n = ar_tools role \<and> nd_steps n = ar_steps role \<and> nd_calls n = ar_calls role \<and> nd_timeout n = ar_timeout role)"
    by (auto simp: read_node_def Let_def split: pv.splits option.splits if_split_asm)
  with "2.IH" [OF n ns] show ?case by (auto simp: nodes)
qed auto

lemma check_dependencies_Inr:
  "check_dependencies ids nodes = Inr () \<longleftrightarrow>
     (\<forall>n \<in> set nodes. nd_id n \<notin> set (nd_deps n) \<and> distinct (nd_deps n) \<and> set (nd_deps n) \<subseteq> set ids)"
  by (induction ids nodes rule: check_dependencies.induct) (auto simp: list_all_iff)

definition node_graph :: "node_def list \<Rightarrow> (string \<times> string list) list" where
  "node_graph nodes = map (\<lambda>n. (nd_id n, nd_deps n)) nodes"

lemma node_graph_keys: "map fst (node_graph nodes) = map nd_id nodes"
  by (simp add: node_graph_def comp_def)

lemma deps_of_node_graph:
  assumes "distinct (map nd_id nodes)" and "n \<in> set nodes"
  shows "deps_of (node_graph nodes) (nd_id n) = set (nd_deps n)"
proof -
  have "distinct (map fst (node_graph nodes))" "(nd_id n, nd_deps n) \<in> set (node_graph nodes)"
    using assms by (simp_all add: node_graph_keys) (simp add: node_graph_def)
  then have "map_of (node_graph nodes) (nd_id n) = Some (nd_deps n)" by (rule map_of_is_SomeI)
  then show ?thesis by (simp add: deps_of_def)
qed

text \<open>What an accepted document went through.\<close>

lemma read_workflow_Inr:
  assumes "read_workflow value roles limits = Inr (v, budget, nodes)"
  shows "\<exists>raws rb rt. read_nodes roles [] raws = Inr nodes \<and> raws \<noteq> [] \<and> read_budget limits (length raws) rb rt = Inr budget"
proof (cases "value")
  case (PDict d)
  with assms obtain raws rb rt where d: "dget d ''nodes'' = PList raws" "dget d ''budget'' = PDict rb"
      "dget d ''retry_policy'' = PDict rt"
    by (auto simp: read_workflow_def split: pv.split_asm if_split_asm)
  with assms PDict show ?thesis by (auto simp: read_workflow_def res_simps split: if_split_asm)
qed (use assms in \<open>simp_all add: read_workflow_def\<close>)

lemma order_workflow_Inr:
  assumes "order_workflow v budget nodes = Inr w"
  shows "check_dependencies (map nd_id nodes) nodes = Inr ()"
    and "plan_layers (map nd_id nodes) (node_graph nodes) = Inr (cw_layers w)"
    and "cw_order w = concat (cw_layers w)"
    and "cw_nodes w = map (\<lambda>k. the (find (\<lambda>n. nd_id n = k) nodes)) (cw_order w)"
    and "cw_budget w = fst budget" and "cw_attempts w = snd budget"
  using assms by (auto simp: order_workflow_def node_graph_def Let_def bind_res_Inr_iff)

lemma compile_workflowE:
  assumes "compile_workflow value roles limits = Inr w"
  obtains raws budget nodes where
    "read_nodes roles [] raws = Inr nodes" "raws \<noteq> []"
    "\<exists>rb rt. read_budget limits (length raws) rb rt = Inr budget"
    "check_dependencies (map nd_id nodes) nodes = Inr ()"
    "plan_layers (map nd_id nodes) (node_graph nodes) = Inr (cw_layers w)"
    "cw_order w = concat (cw_layers w)" "cw_nodes w = map (\<lambda>k. the (find (\<lambda>n. nd_id n = k) nodes)) (cw_order w)"
    "cw_budget w = fst budget" "cw_attempts w = snd budget"
proof -
  from assms obtain v budget nodes where r: "read_workflow value roles limits = Inr (v, budget, nodes)"
    and o: "order_workflow v budget nodes = Inr w"
    by (auto simp: compile_workflow_def bind_res_Inr_iff)
  from read_workflow_Inr [OF r] obtain raws rb rt where "read_nodes roles [] raws = Inr nodes" "raws \<noteq> []"
    "read_budget limits (length raws) rb rt = Inr budget" by blast
  with order_workflow_Inr [OF o] show ?thesis by (intro that) blast+
qed


lemma find_node:
  assumes "distinct (map nd_id nodes)" and "k \<in> set (map nd_id nodes)"
  shows "the (find (\<lambda>n. nd_id n = k) nodes) \<in> set nodes \<and> nd_id (the (find (\<lambda>n. nd_id n = k) nodes)) = k"
proof -
  from assms(2) have "find (\<lambda>n. nd_id n = k) nodes \<noteq> None" by (auto simp: find_None_iff)
  then show ?thesis by (auto dest: find_Some_in)
qed

text \<open>C17: a compiled workflow is a topological order of its nodes: the order names every node once, a node only
  depends on nodes of earlier layers, and each node carries the tools and budgets of a registered
  role.\<close>

theorem compile_topological:
  assumes "compile_workflow value roles limits = Inr w"
  shows "distinct (cw_order w) \<and> map nd_id (cw_nodes w) = cw_order w \<and> cw_order w = concat (cw_layers w)
     \<and> layered (deps_of (node_graph (cw_nodes w))) {} (cw_layers w)
     \<and> (\<forall>n \<in> set (cw_nodes w). node_id_ok (nd_id n) \<and> set (nd_deps n) \<subseteq> set (cw_order w) - {nd_id n}
          \<and> (\<exists>role \<in> set roles. nd_role n = ar_id role \<and> nd_tools n = ar_tools role \<and> nd_calls n = ar_calls role))"
  using assms
proof (rule compile_workflowE)
  fix raws nodes budget
  assume rn: "read_nodes roles [] raws = Inr nodes"
    and cd: "check_dependencies (map nd_id nodes) nodes = Inr ()"
    and pl: "plan_layers (map nd_id nodes) (node_graph nodes) = Inr (cw_layers w)"
    and ord: "cw_order w = concat (cw_layers w)"
    and nodes: "cw_nodes w = map (\<lambda>k. the (find (\<lambda>n. nd_id n = k) nodes)) (cw_order w)"
  note n = read_nodes_Inr [OF rn]
  have dist: "distinct (map nd_id nodes)" using n by simp
  then have dk: "distinct (map fst (node_graph nodes))" by (simp add: node_graph_keys)
  from plan_layers_rest [OF dk, of _ "{}"] pl
  have l: "layered (deps_of (node_graph nodes)) {} (cw_layers w)" and d: "distinct (cw_order w)"
    and s: "set (cw_order w) = set (map nd_id nodes)"
    unfolding ord by (simp_all add: node_graph_keys)
  have found: "the (find (\<lambda>n. nd_id n = k) nodes) \<in> set nodes"
      "nd_id (the (find (\<lambda>n. nd_id n = k) nodes)) = k" if "k \<in> set (cw_order w)" for k
    using find_node [OF dist, of k] that s by simp_all
  then have ids: "map nd_id (cw_nodes w) = cw_order w" by (simp add: nodes map_idI)
  have sub: "set (cw_nodes w) \<subseteq> set nodes" using found by (auto simp: nodes)
  have "deps_of (node_graph (cw_nodes w)) k = deps_of (node_graph nodes) k" for k
  proof (cases "k \<in> set (cw_order w)")
    case True
    then obtain m where m: "m \<in> set (cw_nodes w)" "nd_id m = k" using ids by (metis imageE set_map)
    from deps_of_node_graph [OF _ m(1)] deps_of_node_graph [OF dist, of m] m sub d ids
    show ?thesis by auto
  next
    case False
    then show ?thesis using ids s by (simp add: deps_of_outside node_graph_keys)
  qed
  then have g: "deps_of (node_graph (cw_nodes w)) = deps_of (node_graph nodes)" by (simp add: fun_eq_iff)
  have m: "node_id_ok (nd_id m) \<and> set (nd_deps m) \<subseteq> set (cw_order w) - {nd_id m}
      \<and> (\<exists>role \<in> set roles. nd_role m = ar_id role \<and> nd_tools m = ar_tools role \<and> nd_calls m = ar_calls role)"
    if "m \<in> set (cw_nodes w)" for m
  proof -
    from that sub have m: "m \<in> set nodes" by blast
    with n obtain role k where role: "node_id_ok (nd_id m)" "role_get roles k = Some role" "nd_role m = ar_id role"
      "nd_tools m = ar_tools role" "nd_calls m = ar_calls role" by blast
    then have "role \<in> set roles" by (auto simp: role_get_def dest: find_Some_in)
    moreover from m cd s have "set (nd_deps m) \<subseteq> set (cw_order w) - {nd_id m}"
      by (auto simp: check_dependencies_Inr)
    ultimately show ?thesis using role by blast
  qed
  have "\<forall>m \<in> set (cw_nodes w). node_id_ok (nd_id m) \<and> set (nd_deps m) \<subseteq> set (cw_order w) - {nd_id m}
      \<and> (\<exists>role \<in> set roles. nd_role m = ar_id role \<and> nd_tools m = ar_tools role \<and> nd_calls m = ar_calls role)"
    using m by (rule ballI)
  with l d ids ord show ?thesis unfolding g by (intro conjI)
qed

text \<open>C18: cycle detection is exact: when the document passes the earlier checks and every dependency is known, the
  compiler accepts it if and only if the dependency graph is acyclic.\<close>

theorem compile_iff_acyclic:
  assumes "read_workflow value roles limits = Inr (v, budget, nodes)"
    and "\<forall>n \<in> set nodes. distinct (nd_deps n) \<and> set (nd_deps n) \<subseteq> set (map nd_id nodes)"
  shows "(\<exists>w. compile_workflow value roles limits = Inr w) \<longleftrightarrow> acyclic (dep_edges (node_graph nodes))"
proof -
  from read_workflow_Inr [OF assms(1)] obtain raws where rn: "read_nodes roles [] raws = Inr nodes" by blast
  have dist: "distinct (map nd_id nodes)" using read_nodes_Inr [OF rn] by simp
  then have dk: "distinct (map fst (node_graph nodes))" by (simp add: node_graph_keys)
  have sub: "deps_of (node_graph nodes) k \<subseteq> set (map fst (node_graph nodes))" for k
  proof (cases "k \<in> set (map fst (node_graph nodes))")
    case True
    then obtain n where "n \<in> set nodes" "nd_id n = k" by (auto simp: node_graph_def)
    with deps_of_node_graph [OF dist, of n] assms(2) show ?thesis by (simp add: node_graph_keys)
  next
    case False
    from deps_of_outside [OF this] show ?thesis by simp
  qed
  note iff = plan_layers_iff [OF dk sub, of "map nd_id nodes"]
  have loop: "\<not> acyclic (dep_edges (node_graph nodes))" if "n \<in> set nodes" "nd_id n \<in> set (nd_deps n)" for n
    using that deps_of_node_graph [OF dist that(1)] by (auto simp: acyclic_def dep_edges_def)
  have "(\<exists>w. compile_workflow value roles limits = Inr w) \<longleftrightarrow>
      check_dependencies (map nd_id nodes) nodes = Inr ()
      \<and> (\<exists>ls. plan_layers (map nd_id nodes) (node_graph nodes) = Inr ls)"
    by (auto simp: compile_workflow_def assms(1) order_workflow_def bind_res_Inr_iff Let_def node_graph_def)
  also have "\<dots> \<longleftrightarrow> acyclic (dep_edges (node_graph nodes))"
    using iff loop assms(2) by (auto simp: check_dependencies_Inr)
  finally show ?thesis .
qed


subsection \<open>A concrete workflow\<close>

definition demo_node :: "string \<Rightarrow> string \<Rightarrow> string list \<Rightarrow> pv" where
  "demo_node k r ds = PDict [(''node_id'', PStr k), (''role_id'', PStr r), (''depends_on'', PList (map PStr ds))]"

definition demo_doc :: "pv \<Rightarrow> pv list \<Rightarrow> (string \<times> pv) list" where
  "demo_doc timeout nodes =
     [(''schema_version'', PStr ''1.0''), (''name'', PStr ''n''), (''description'', PStr ''d''), (''nodes'', PList nodes),
      (''budget'', PDict [(''max_nodes'', PInt 3), (''max_concurrency'', PInt 2), (''max_tool_calls'', PInt 20),
         (''timeout_seconds'', timeout)]),
      (''retry_policy'', PDict [(''max_attempts'', PInt 2)])]"

definition demo_nodes :: "pv list" where
  "demo_nodes = [demo_node ''c'' ''feature_specialist'' [''a'', ''b''], demo_node ''a'' ''evidence_specialist'' [],
     demo_node ''b'' ''rule_specialist'' [''a'']]"

definition demo_workflow :: compiled_workflow where
  "demo_workflow = projr (compile_workflow (PDict (demo_doc (PInt 60) demo_nodes)) fixed_roles default_limits)"

lemma demo_workflow: "compile_workflow (PDict (demo_doc (PInt 60) demo_nodes)) fixed_roles default_limits = Inr demo_workflow"
proof -
  have "\<not> isl (compile_workflow (PDict (demo_doc (PInt 60) demo_nodes)) fixed_roles default_limits)" by code_simp
  then show ?thesis by (simp add: demo_workflow_def)
qed

theorem compile_topological_witness:
  "cw_layers demo_workflow = [[''a''], [''b''], [''c'']] \<and> distinct (cw_order demo_workflow)"
proof -
  have "cw_layers demo_workflow = [[''a''], [''b''], [''c'']]" by code_simp
  with compile_topological [OF demo_workflow] show ?thesis by blast
qed


theorem compile_iff_acyclic_witness:
  "isl (compile_workflow (PDict (demo_doc (PInt 60)
     [demo_node ''a'' ''rule_specialist'' [''b''], demo_node ''b'' ''rule_specialist'' [''a'']])) fixed_roles default_limits)"
proof -
  define raws where "raws = [demo_node ''a'' ''rule_specialist'' [''b''], demo_node ''b'' ''rule_specialist'' [''a'']]"
  define doc where "doc = PDict (demo_doc (PInt 60) raws)"
  define r where "r = projr (read_workflow doc fixed_roles default_limits)"
  define nodes where "nodes = snd (snd r)"
  have "\<not> isl (read_workflow doc fixed_roles default_limits)" unfolding doc_def raws_def by code_simp
  then have 1: "read_workflow doc fixed_roles default_limits = Inr (fst r, fst (snd r), nodes)"
    by (simp add: r_def nodes_def)
  have n: "map (\<lambda>n. (nd_id n, nd_deps n)) nodes = [(''a'', [''b'']), (''b'', [''a''])]"
    unfolding nodes_def r_def doc_def raws_def by code_simp
  then have "node_graph nodes = [(''a'', [''b'']), (''b'', [''a''])]" by (simp add: node_graph_def)
  then have "(''a'', ''b'') \<in> dep_edges (node_graph nodes)" "(''b'', ''a'') \<in> dep_edges (node_graph nodes)"
    by (simp_all add: dep_edges_def deps_of_def)
  then have "\<not> acyclic (dep_edges (node_graph nodes))" unfolding acyclic_def by (meson trancl.simps)
  moreover have "\<forall>n \<in> set nodes. distinct (nd_deps n) \<and> set (nd_deps n) \<subseteq> set (map nd_id nodes)"
  proof -
    have "list_all (\<lambda>(k, ds). distinct ds \<and> set ds \<subseteq> {''a'', ''b''}) (map (\<lambda>n. (nd_id n, nd_deps n)) nodes)"
      unfolding n by simp
    moreover have "map nd_id nodes = [''a'', ''b'']" using arg_cong [OF n, of "map fst"] by (simp add: comp_def)
    ultimately show ?thesis by (auto simp: list_all_iff)
  qed
  ultimately have "\<not> (\<exists>w. compile_workflow doc fixed_roles default_limits = Inr w)"
    using compile_iff_acyclic [OF 1] by simp
  then have "isl (compile_workflow doc fixed_roles default_limits)"
    by (cases "compile_workflow doc fixed_roles default_limits") auto
  then show ?thesis unfolding doc_def raws_def .
qed

text \<open>the range check on the timeout does not see a NaN: the budget \<open>"nan"\<close> is accepted, and against that
  timeout no elapsed time counts as exceeded.\<close>

theorem compile_accepts_nan_timeout:
  "\<exists>w. compile_workflow (PDict (demo_doc (PStr ''nan'') demo_nodes)) fixed_roles default_limits = Inr w
     \<and> (\<forall>elapsed. \<not> fl_lt (wb_timeout (cw_budget w)) elapsed)"
proof -
  have "case compile_workflow (PDict (demo_doc (PStr ''nan'') demo_nodes)) fixed_roles default_limits of
      Inl _ \<Rightarrow> False | Inr w \<Rightarrow> wb_timeout (cw_budget w) = FNaN" by code_simp
  then show ?thesis
    by (cases "compile_workflow (PDict (demo_doc (PStr ''nan'') demo_nodes)) fixed_roles default_limits") auto
qed

end
