(* ===== verification/Workflow_Thms.thy ===== *)
theory Workflow_Thms
  imports Workflow_Props Agent_Compiler_Props
begin

text \<open>
  The properties of agent workflow runs, with a small workflow of three nodes as the concrete instance.
\<close>

subsection \<open>A new run satisfies the invariant\<close>

definition nodes_linked :: "wdb \<Rightarrow> bool" where
  "nodes_linked db = list_all (\<lambda>n. find_wrun (wn_run n) db \<noteq> None) (w_nodes db)"

lemma insert_nodes_effect:
  "insert_nodes k now sq ns db = Inr db' \<Longrightarrow>
     w_runs db' = w_runs db \<and> (\<exists>ms. w_nodes db' = w_nodes db @ ms \<and> map wn_id ms = map nd_id ns
        \<and> (\<forall>m \<in> set ms. wn_run m = k \<and> \<not> started m))
     \<and> (distinct (map wn_id (run_nodes k db)) \<longrightarrow> distinct (map wn_id (run_nodes k db')))"
proof (induction ns arbitrary: sq db)
  case (Cons n ns)
  define db1 where "db1 = db\<lparr>w_nodes := w_nodes db @ [new_node k now sq n]\<rparr>"
  from Cons.prems have new: "\<not> exists_where (\<lambda>x. wn_run x = k \<and> (wn_id x = nd_id n \<or> wn_seq x = sq)) (w_nodes db)"
    and r: "insert_nodes k now (sq + 1) ns db1 = Inr db'"
    by (auto simp: db1_def split: if_split_asm)
  from new have "distinct (map wn_id (run_nodes k db)) \<longrightarrow> distinct (map wn_id (run_nodes k db1))"
    by (auto simp: db1_def run_nodes_def new_node_def exists_where_iff)
  moreover have "\<not> started (new_node k now sq n)" "wn_id (new_node k now sq n) = nd_id n" "wn_run (new_node k now sq n) = k"
    by (simp_all add: started_def new_node_def)
  moreover obtain ms where "w_runs db' = w_runs db1" "w_nodes db' = w_nodes db1 @ ms" "map wn_id ms = map nd_id ns"
    "\<forall>m \<in> set ms. wn_run m = k \<and> \<not> started m" "distinct (map wn_id (run_nodes k db1)) \<longrightarrow> distinct (map wn_id (run_nodes k db'))"
    using Cons.IH [OF r] by blast
  ultimately show ?case
    by (intro conjI exI [of _ "new_node k now sq n # ms"]) (simp_all add: db1_def)
qed simp

lemma create_inv:
  assumes "create_wrun now fresh w q db = Inr (db', v, False)" and "nodes_linked db"
  shows "wrun_inv fresh db'"
proof -
  from assms(1) obtain source ent sn where i0: "insert_wrun now fresh w q source ent sn db = Inr db'"
    by (auto simp: create_wrun_def bind_res_Inr_iff wview_def split: pv.split_asm option.split_asm)
  define r where "r = new_wrun q w source ent sn fresh now"
  from i0 obtain db1 where new: "find_wrun fresh db = None" and pos: "0 < wr_max_calls r"
    and i: "insert_nodes fresh now 0 (cw_nodes (sn_def sn)) (db\<lparr>w_runs := w_runs db @ [r]\<rparr>) = Inr db1"
    and ev: "workflow_event now fresh ''workflow_run_created'' None [(''status'', PStr ''queued'')] None db1 = Inr db'"
    by (auto simp: insert_wrun_def Let_def bind_res_Inr_iff positive_def r_def [symmetric] split: if_split_asm)
  have r: "wr_id r = fresh" "wr_used r = 0" by (simp_all add: r_def new_wrun_def Let_def)
  from ev have e: "w_nodes db' = w_nodes db1" "w_runs db' = w_runs db1"
    by (auto simp: workflow_event_def split: if_split_asm)
  have none: "filter (\<lambda>n. wn_run n = fresh) (w_nodes db) = []"
    using assms(2) new by (auto simp: nodes_linked_def list_all_iff filter_empty_conv)
  obtain ms where ms: "w_runs db1 = w_runs db @ [r]" "w_nodes db1 = w_nodes db @ ms" "\<forall>m \<in> set ms. wn_run m = fresh \<and> \<not> started m"
    and "distinct (map wn_id (run_nodes fresh (db\<lparr>w_runs := w_runs db @ [r]\<rparr>))) \<longrightarrow> distinct (map wn_id (run_nodes fresh db1))"
    using insert_nodes_effect [OF i] by auto
  with none have d: "distinct (map wn_id (run_nodes fresh db1))" by (simp add: run_nodes_def)
  have nodes: "run_nodes fresh db' = run_nodes fresh db1" "\<forall>n \<in> set (run_nodes fresh db1). \<not> started n"
    using none ms e by (auto simp: run_nodes_def)
  have "find_wrun fresh db' = Some r"
    using new r(1) by (simp add: find_wrun_def e ms find_append)
  with r(2) pos d nodes show ?thesis by (simp add: wrun_inv_def)
qed

subsection \<open>A concrete run\<close>

definition wdb_empty :: wdb where
  "wdb_empty = \<lparr>a_runs = [], a_steps = [], a_calls = [], a_artifacts = [], a_events = [], w_flows = [], w_runs = [],
     w_nodes = [], w_events = []\<rparr>"

definition demo_wrequest :: wrun_request where
  "demo_wrequest = \<lparr>wq_source = PStr ''src'', wq_entity = PStr ''node'', wq_entity_type = ''node'', wq_profile = ''p1'',
     wq_prompt = ''pr'', wq_actor = ''alice'', wq_roles = [''operator''], wq_request = ''req'', wq_key = ''key-1'',
     wq_parent = None, wq_evidence = PDict [],
     wq_runtime = PDict [(''profile_snapshot'', PDict [(''profile_id'', PStr ''p1''), (''connection_id'', PStr ''c1'')]),
       (''connection_snapshot'', PDict [(''connection_id'', PStr ''c1''), (''enabled'', PBool True)]),
       (''prompt_id'', PStr ''pr''), (''prompt_sha256'', PStr ''sha'')]\<rparr>"

definition demo_env :: "unit sched_env" where
  "demo_env = \<lparr>se_now = (\<lambda>_. ''t2''), se_elapsed = (\<lambda>_. (FFin 1 0, ())),
     se_next = (\<lambda>outs db e. (hd outs, Inr \<lparr>nr_status = RAwaiting, nr_child = None, nr_used = 1, nr_artifacts = [],
        nr_error = None, nr_reserved = False\<rparr>, db, ()))\<rparr>"

lemma demo_env_calm: "env_calm demo_env k"
  by (simp add: env_calm_def demo_env_def)

definition demo_base :: wdb where
  "demo_base = projr (bind_res (create_workflow ''t0'' ''w1'' demo_workflow ''alice'' ''wf-1'' wdb_empty) (\<lambda>(db, _, _). Inr db))"


lemma plan_exhausted:
  assumes "n \<in> set (wv_nodes v)" and "wn_status n = SPending" and "wr_attempts (wv_run v) \<le> wn_attempt n"
  shows "plan_batch v = Stop (AgenticErr ''workflow_retry_exhausted'' 422)"
proof -
  have "list_ex (\<lambda>n. wr_attempts (wv_run v) \<le> wn_attempt n) (filter (\<lambda>n. wn_status n = SPending) (wv_nodes v))"
    using assms by (auto simp: list_ex_iff)
  then show ?thesis unfolding plan_batch_def Let_def by (rule if_P)
qed

subsection \<open>Properties\<close>



text \<open>C22: The scheduler always returns: a claim uses up an attempt of its node, so one pass per node and remaining
  attempt is enough, whatever other requests do meanwhile.\<close>

theorem workflow_scheduler_terminates:
  assumes "env_calm env k" and "wrun_inv k db" and "find_wrun k db = Some r"
    and "slack (wr_attempts r) (run_nodes k db) < fuel"
  shows "\<exists>out. execute_wrun env fuel k db e = Some out"
proof -
  have loop: "\<exists>db2 e2 out. sched_loop env k fuel x e1 = Some (db2, e2, out)" if "calm k db x" for x e1
  proof -
    from that assms(3) obtain r' where r': "find_wrun k x = Some r'" "wr_attempts r' = wr_attempts r"
      by (auto simp: calm_def same_limits_def)
    have "slack (wr_attempts r') (run_nodes k x) < fuel"
      using slack_evolve [of "run_nodes k db" "run_nodes k x" "wr_attempts r"] that assms(4) r'(2) by (simp add: calm_def)
    from loop_terminates [OF assms(1) calm_inv [OF that assms(2)] r'(1) this, of e1]
    show ?thesis by (cases "sched_loop env k fuel x e1") auto
  qed
  show ?thesis
  proof (cases "get_wrun k db")
    case (Inr v)
    obtain db1 x where st: "start_wrun env k (wr_status (wv_run v)) db e = (db1, x)" by fastforce
    obtain db2 e2 out where "sched_loop env k fuel db1 e = Some (db2, e2, out)"
      using loop [OF calm_start [OF st]] by blast
    with Inr st show ?thesis by (cases x; cases out) (simp_all add: execute_wrun_def)
  qed (simp add: execute_wrun_def)
qed

theorem workflow_scheduler_terminates_witness:
  "\<exists>db out. execute_wrun demo_env 7 ''r1'' db () = Some out \<and> slack 2 (run_nodes ''r1'' db) = 6"
proof -
  have "case create_wrun ''t1'' ''r1'' ''w1'' demo_wrequest demo_base of Inl _ \<Rightarrow> False
    | Inr x \<Rightarrow> (case x of (db, v, b) \<Rightarrow> \<not> b \<and> nodes_linked demo_base \<and> slack 2 (run_nodes ''r1'' db) = 6
        \<and> (case find_wrun ''r1'' db of None \<Rightarrow> False | Some r \<Rightarrow> wr_attempts r = 2))" by code_simp
  then obtain db v r where d: "create_wrun ''t1'' ''r1'' ''w1'' demo_wrequest demo_base = Inr (db, v, False)"
    "nodes_linked demo_base" "slack 2 (run_nodes ''r1'' db) = 6" "find_wrun ''r1'' db = Some r" "wr_attempts r = 2"
    unfolding res_witness opt_witness by auto
  have "slack (wr_attempts r) (run_nodes ''r1'' db) < 7" using d by simp
  from workflow_scheduler_terminates [OF demo_env_calm create_inv [OF d(1,2)] d(4) this] d(3) show ?thesis by blast
qed

text \<open>The nodes admitted to a batch are pending, have all their dependencies completed and attempts left, are at most
  as many as the run allows at once, and their limits together fit into the budget that is left.\<close>

theorem workflow_batch_admissible:
  assumes "get_wrun k db = Inr v" and "plan_batch v = Batch admitted" and "wr_used (wv_run v) \<le> wr_max_calls (wv_run v)"
  shows "wr_used (wv_run v) + sum_list (map wn_calls admitted) \<le> wr_max_calls (wv_run v)
     \<and> length admitted \<le> nat (wr_concurrency (wv_run v))
     \<and> (\<forall>n \<in> set admitted. n \<in> set (run_nodes k db) \<and> wn_status n = SPending \<and> ready_in (run_nodes k db) n
          \<and> wn_attempt n < wr_attempts (wv_run v))"
proof (intro conjI ballI)
  note b = plan_batch_Batch [OF assms(2)] and v = get_wrun_Inr [OF assms(1)]
  show "wr_used (wv_run v) + sum_list (map wn_calls admitted) \<le> wr_max_calls (wv_run v)"
    using admit_fits [of 0 "wr_max_calls (wv_run v) - wr_used (wv_run v)"] assms(3) by (simp add: b(4) [symmetric])
      (metis (no_types, lifting) b(4) add.commute diff_ge_0_iff_ge le_diff_eq)
  have "length (admit m r ns) \<le> length ns" for m r ns
    by (induction m r ns rule: admit.induct) auto
  then show "length admitted \<le> nat (wr_concurrency (wv_run v))"
    unfolding b(4) by (rule order_trans) simp
  fix n assume "n \<in> set admitted"
  with b(2) have r: "n \<in> set (wv_nodes v) \<and> wn_status n = SPending \<and> ready_in (wv_nodes v) n"
    using ready_nodes_ready by blast
  with v b(3) show "n \<in> set (run_nodes k db)" "wn_status n = SPending" "ready_in (run_nodes k db) n"
    "wn_attempt n < wr_attempts (wv_run v)"
    by (auto simp: ready_in_def)
qed

theorem workflow_batch_admissible_witness:
  "\<exists>db v n. get_wrun ''r1'' db = Inr v \<and> plan_batch v = Batch [n] \<and> wn_id n = ''a'' \<and> wn_calls n \<le> wr_max_calls (wv_run v)"
proof -
  have "case create_wrun ''t1'' ''r1'' ''w1'' demo_wrequest demo_base of Inl _ \<Rightarrow> False
    | Inr x \<Rightarrow> (case get_wrun ''r1'' (fst x) of Inl _ \<Rightarrow> False | Inr v \<Rightarrow> wr_used (wv_run v) = 0 \<and> 0 \<le> wr_max_calls (wv_run v)
        \<and> (case plan_batch v of Batch ns \<Rightarrow> map wn_id ns = [''a''] | _ \<Rightarrow> False))" by code_simp
  then obtain db v where v: "get_wrun ''r1'' db = Inr v" "wr_used (wv_run v) = 0" "0 \<le> wr_max_calls (wv_run v)"
    and "case plan_batch v of Batch ns \<Rightarrow> map wn_id ns = [''a''] | _ \<Rightarrow> False"
    unfolding res_witness by (elim exE conjE) (rule that)
  then obtain n where d: "get_wrun ''r1'' db = Inr v" "plan_batch v = Batch [n]" "wn_id n = ''a''"
    "wr_used (wv_run v) = 0" "0 \<le> wr_max_calls (wv_run v)"
    by (cases "plan_batch v") auto
  have "wr_used (wv_run v) \<le> wr_max_calls (wv_run v)" using d by simp
  from workflow_batch_admissible [OF d(1,2) this] d show ?thesis by auto
qed

text \<open>A node that was paused while it ran has lost the attempt: when its last attempt was only interrupted by a
  pause, the resumed run stops with exhausted retries, although the node never failed.\<close>

theorem pause_uses_up_attempt:
  assumes "claim_node now k nid db = Inr db1" and "requeue_node now' k nid reason db1 = Inr db2"
    and "get_wrun k db2 = Inr v" and "wrun_inv k db"
    and "\<exists>n \<in> set (run_nodes k db). wn_id n = nid \<and> wr_attempts (wv_run v) \<le> wn_attempt n + 1"
  shows "plan_batch v = Stop (AgenticErr ''workflow_retry_exhausted'' 422)"
proof -
  from assms(5) obtain n where n: "n \<in> set (run_nodes k db)" "wn_id n = nid" "wr_attempts (wv_run v) \<le> wn_attempt n + 1"
    by blast
  note c = claim_effect [OF assms(1)]
  have nid: "wn_run n = k" using n(1) by (simp add: run_nodes_def)
  have pend: "the_node k nid {SPending} n"
  proof -
    from c(3) have "filter (the_node k nid {SPending}) (run_nodes k db) \<noteq> []" by (auto simp: count_where_def)
    then obtain m where m: "m \<in> set (run_nodes k db)" "the_node k nid {SPending} m" by (auto simp: filter_empty_conv)
    with n assms(4) have "m = n"
      by (auto simp: wrun_inv_def the_node_def distinct_map dest: inj_onD)
    with m show ?thesis by simp
  qed
  have "claimed now n \<in> set (run_nodes k db1)"
    using n(1) pend by (force simp: c(1) upd_where_def)
  moreover obtain f where f: "requeue_node now' k nid reason = change_node now' k nid {SRunning} f ''workflow_node_pending''
      [(''reason'', PStr reason)] None id" "wn_status (f (claimed now n)) = SPending"
      "wn_attempt (f (claimed now n)) = wn_attempt n + 1" "wn_run (f (claimed now n)) = k"
    using nid by (simp add: requeue_node_def)
  moreover have "w_nodes db2 = upd_where (the_node k nid {SRunning}) f (w_nodes db1)"
    using assms(2) unfolding f(1) by (auto simp: workflow_event_def elim!: change_node_E split: if_split_asm)
  ultimately have "f (claimed now n) \<in> set (run_nodes k db2)"
    using n(2) nid by (force simp: run_nodes_def upd_where_def the_node_def)
  then have "f (claimed now n) \<in> set (wv_nodes v)" using get_wrun_Inr [OF assms(3)] by simp
  then show ?thesis by (rule plan_exhausted) (use f n(3) in simp_all)
qed

text \<open>The run of the demo with one attempt per node.\<close>

definition demo_single :: wdb where
  "demo_single = projr (bind_res (create_workflow ''t0'' ''w1'' (demo_workflow\<lparr>cw_attempts := 1\<rparr>) ''alice'' ''wf-1'' wdb_empty)
     (\<lambda>(db, _, _). bind_res (create_wrun ''t1'' ''r1'' ''w1'' demo_wrequest db) (\<lambda>(db, _, _).
      bind_res (transition_run ''t2'' ''r1'' RRunning {RQueued} None None None db) (\<lambda>(db, _, _). Inr db))))"

lemma demo_single_inv: "wrun_inv ''r1'' demo_single"
proof -
  have "find_wrun ''r1'' demo_single \<noteq> None \<and> distinct (map wn_id (run_nodes ''r1'' demo_single))
    \<and> list_all (\<lambda>n. \<not> started n) (run_nodes ''r1'' demo_single)
    \<and> (case find_wrun ''r1'' demo_single of None \<Rightarrow> False | Some r \<Rightarrow> wr_used r \<le> wr_max_calls r)" by code_simp
  then show ?thesis unfolding wrun_inv_def opt_witness by (auto simp: list_all_iff)
qed

theorem pause_uses_up_attempt_witness:
  "\<exists>db1 db2 v. claim_node ''t3'' ''r1'' ''a'' demo_single = Inr db1 \<and> requeue_node ''t4'' ''r1'' ''a'' ''pause'' db1 = Inr db2
     \<and> get_wrun ''r1'' db2 = Inr v \<and> plan_batch v = Stop (AgenticErr ''workflow_retry_exhausted'' 422)"
proof -
  have "case claim_node ''t3'' ''r1'' ''a'' demo_single of Inl _ \<Rightarrow> False | Inr db1 \<Rightarrow>
      (case requeue_node ''t4'' ''r1'' ''a'' ''pause'' db1 of Inl _ \<Rightarrow> False | Inr db2 \<Rightarrow>
         (case get_wrun ''r1'' db2 of Inl _ \<Rightarrow> False | Inr v \<Rightarrow> wr_attempts (wv_run v) = 1))"
    by code_simp
  then obtain db1 db2 v where d: "claim_node ''t3'' ''r1'' ''a'' demo_single = Inr db1"
    "requeue_node ''t4'' ''r1'' ''a'' ''pause'' db1 = Inr db2" "get_wrun ''r1'' db2 = Inr v" "wr_attempts (wv_run v) = 1"
    unfolding res_witness by blast
  have "list_ex (\<lambda>n. wn_id n = ''a'' \<and> wn_attempt n = 0) (run_nodes ''r1'' demo_single)" by code_simp
  then have "\<exists>n \<in> set (run_nodes ''r1'' demo_single). wn_id n = ''a'' \<and> wr_attempts (wv_run v) \<le> wn_attempt n + 1"
    using d(4) by (auto simp: list_ex_iff)
  from pause_uses_up_attempt [OF d(1-3) demo_single_inv this] d show ?thesis by blast
qed

text \<open>Retrying a failed node by hand does not help once its attempts are used up: the node is pending again, but the next
  pass of the scheduler stops the run with exhausted retries before anything is executed.\<close>

theorem manual_retry_exhausted:
  assumes "reset_node now k nid i db = Inr (db1, False)" and "get_wrun k db1 = Inr v"
    and "\<exists>n \<in> set (run_nodes k db). wn_id n = nid \<and> wn_status n = SFailed \<and> wr_attempts (wv_run v) \<le> wn_attempt n"
  shows "plan_batch v = Stop (AgenticErr ''workflow_retry_exhausted'' 422)"
proof -
  from assms(3) obtain n where n: "n \<in> set (run_nodes k db)" "wn_id n = nid" "wn_status n = SFailed"
    "wr_attempts (wv_run v) \<le> wn_attempt n" by blast
  have "w_nodes db1 = upd_where (the_node k nid {SRunning, SFailed}) (back_to_pending now (a_events db)) (w_nodes db)"
    using assms(1) by (auto simp: reset_node_def bind_res_Inr_iff missing_def workflow_event_def
        elim!: change_node_E split: if_split_asm)
  then have "back_to_pending now (a_events db) n \<in> set (run_nodes k db1)"
    using n by (force simp: run_nodes_def upd_where_def the_node_def back_to_pending_def)
  then have "back_to_pending now (a_events db) n \<in> set (wv_nodes v)" using get_wrun_Inr [OF assms(2)] by simp
  then show ?thesis by (rule plan_exhausted) (use n(4) in \<open>simp_all add: back_to_pending_def\<close>)
qed

definition demo_failed :: wdb where
  "demo_failed = projr (bind_res (claim_node ''t3'' ''r1'' ''a'' demo_single) (\<lambda>db.
     finish_node ''t4'' ''r1'' ''a'' SFailed 1 PNone (Some ''x'') None db))"

theorem manual_retry_exhausted_witness:
  "\<exists>db1 v. reset_node ''t5'' ''r1'' ''a'' (Some ''retry-1'') demo_failed = Inr (db1, False) \<and> get_wrun ''r1'' db1 = Inr v
     \<and> plan_batch v = Stop (AgenticErr ''workflow_retry_exhausted'' 422)"
proof -
  have "case reset_node ''t5'' ''r1'' ''a'' (Some ''retry-1'') demo_failed of Inl _ \<Rightarrow> False | Inr x \<Rightarrow> \<not> snd x \<and>
      (case get_wrun ''r1'' (fst x) of Inl _ \<Rightarrow> False | Inr v \<Rightarrow> wr_attempts (wv_run v) = 1)"
    by code_simp
  then obtain db1 v where d: "reset_node ''t5'' ''r1'' ''a'' (Some ''retry-1'') demo_failed = Inr (db1, False)"
    "get_wrun ''r1'' db1 = Inr v" "wr_attempts (wv_run v) = 1"
    unfolding res_witness by auto
  have "list_ex (\<lambda>n. wn_id n = ''a'' \<and> wn_status n = SFailed \<and> wn_attempt n = 1) (run_nodes ''r1'' demo_failed)" by code_simp
  then have "\<exists>n \<in> set (run_nodes ''r1'' demo_failed). wn_id n = ''a'' \<and> wn_status n = SFailed \<and> wr_attempts (wv_run v) \<le> wn_attempt n"
    using d(3) by (auto simp: list_ex_iff)
  from manual_retry_exhausted [OF d(1,2) this] d show ?thesis by blast
qed

text \<open>When a node reports more tool calls than the budget allows, the node stays running: the store is left as it is
  and the loop is left with the budget error, so the failed run keeps a running node.\<close>

theorem overshoot_leaves_node_running:
  assumes "get_wrun k db = Inr v" and "find (\<lambda>n. wn_id n = nid) (wv_nodes v) = Some node"
    and "over_budget (wv_run v) node (nr_used res)" and "wr_status (wv_run v) = RRunning"
    and "wn_status node = SRunning"
  shows "settle_node now k ma nid res db = (db, Some budget_error)
    \<and> (\<forall>db' e' v'. fail_wrun env k budget_error db e = Inr (db', e', v') \<longrightarrow>
        node \<in> set (wv_nodes v'))"
proof (intro conjI allI impI)
  show "settle_node now k ma nid res db = (db, Some budget_error)"
    using assms by (simp add: settle_node_def)
  fix db' e' v' assume f: "fail_wrun env k budget_error db e = Inr (db', e', v')"
  have same: "w_nodes y = w_nodes db" if "transition_run n k RFailed S None ec es db = Inr (y, w, b)" for n y w b S ec es
    using that by (auto simp: transition_run_def wview_def bind_res_Inr_iff missing_def conflict_def workflow_event_def
        split: option.split_asm if_split_asm)
  have got: "get_wrun k y = Inr w" if "transition_run n k RFailed S None ec es db = Inr (y, w, b)" for n y w b S ec es
    using that by (auto simp: transition_run_def wview_def bind_res_Inr_iff missing_def conflict_def
        split: option.split_asm if_split_asm)
  from f have "get_wrun k db' = Inr v' \<and> w_nodes db' = w_nodes db"
    by (auto simp: fail_wrun_def bind_res_Inr_iff dest: same got split: sum.split_asm exc.split_asm)
  moreover have "node \<in> set (run_nodes k db)"
    using assms(1,2) get_wrun_Inr find_Some_in by fastforce
  ultimately show "node \<in> set (wv_nodes v')"
    using get_wrun_Inr [of k db' v'] by (simp add: run_nodes_def)
qed

theorem overshoot_leaves_node_running_witness:
  "\<exists>db v (node :: workflow_node) res. claim_node ''t3'' ''r1'' ''a'' demo_single = Inr db \<and> get_wrun ''r1'' db = Inr v
     \<and> wn_status node = SRunning \<and> settle_node ''t4'' ''r1'' 1 ''a'' res db = (db, Some budget_error)"
proof -
  define res where "res = \<lparr>nr_status = RAwaiting, nr_child = None, nr_used = 7, nr_artifacts = [], nr_error = None, nr_reserved = False\<rparr>"
  have "case claim_node ''t3'' ''r1'' ''a'' demo_single of Inl _ \<Rightarrow> False | Inr db \<Rightarrow>
      (case get_wrun ''r1'' db of Inl _ \<Rightarrow> False | Inr v \<Rightarrow> wr_status (wv_run v) = RRunning \<and>
        (case find (\<lambda>n. wn_id n = ''a'') (wv_nodes v) of None \<Rightarrow> False | Some node \<Rightarrow>
          wn_status node = SRunning \<and> over_budget (wv_run v) node 7))"
    by code_simp
  then obtain db v node where d: "claim_node ''t3'' ''r1'' ''a'' demo_single = Inr db" "get_wrun ''r1'' db = Inr v"
    "find (\<lambda>n. wn_id n = ''a'') (wv_nodes v) = Some node" "over_budget (wv_run v) node 7" "wr_status (wv_run v) = RRunning"
    "wn_status node = SRunning"
    unfolding res_witness opt_witness by blast
  have "over_budget (wv_run v) node (nr_used res)" using d(4) by (simp add: res_def)
  from conjunct1 [OF overshoot_leaves_node_running [OF d(2,3) this d(5,6), of "''t4''" 1 demo_env "()"]] d(1,2,6)
  show ?thesis by blast
qed

end
