(* ===== verification/Agent_Gate_Props.thy ===== *)
theory Agent_Gate_Props
  imports Agent_Gate
begin

text \<open>The human gate through the steps of a plan and the whole execution of a run.\<close>

subsection \<open>Steps\<close>

text \<open>The invariant inside a step: the gate so far, and the permission to call its tool.\<close>

definition step_inv :: "rt_env \<Rightarrow> pv \<Rightarrow> string list \<Rightarrow> agent_step \<Rightarrow> trace_event list \<Rightarrow> bool" where
  "step_inv env h passed step tr = (gate_inv env h passed tr \<and> may_run env h (st_tool step) (st_args step) tr)"

abbreviation (input) on_trace :: "(trace_event list \<Rightarrow> bool) \<Rightarrow> rt_state \<Rightarrow> bool" where
  "on_trace R \<equiv> \<lambda>s. R (ex_trace s)"

lemma fail_then_raise:
  "keeps ex_trace m \<Longrightarrow> triple (on_trace R) (rt_bind m (\<lambda>_. rt_raise e)) Q (on_trace R)"
  by (rule frame_bind) (auto intro: triple_raise)

lemma trace_frame:
  "keeps ex_trace m \<Longrightarrow> (\<And>x. triple (on_trace R) (g x) Q (on_trace R)) \<Longrightarrow> triple (on_trace R) (rt_bind m g) Q (on_trace R)"
  by (rule frame_bind)

lemma attempt_gated:
  "triple (on_trace (step_inv env h passed step)) (attempt_step env ctx k started step tool attempt retry)
     (\<lambda>r s. step_inv env h passed step (ex_trace s)
            \<and> (case r of None \<Rightarrow> True | Some (out, _) \<Rightarrow> learned env h (st_tool step) out (ex_trace s)))
     (on_trace (step_inv env h passed step))"
  (is "triple ?I _ ?Q ?I")
proof -
  have base: "triple ?I (call_tool env ctx (st_id step) (st_tool step) (st_args step))
      (\<lambda>out s. step_inv env h passed step (ex_trace s) \<and> learned env h (st_tool step) out (ex_trace s)) ?I"
    using call_tool_gated [of env h passed "st_tool step" "st_args step" ctx "st_id step"] by (simp add: step_inv_def)
  have call: "triple ?I (rt_bind (call_tool env ctx (st_id step) (st_tool step) (st_args step)) (\<lambda>output.
        rt_return (Some (output, key, began)))) ?Q ?I" for key began
    by (rule triple_bind [OF base]) (simp add: triple_return)
  have handler: "triple ?I (rt_bind (note_failure env k step tool key retry began code) (\<lambda>_.
        if retry = 0 \<and> code \<noteq> ''agent_rule_reference_changed''
        then rt_bind (step_event env k ''tool_call_retrying'' step []) (\<lambda>_. rt_return None)
        else rt_bind (fail_step env k step code) (\<lambda>_. rt_raise e))) ?Q ?I" for key began code e
    by (intro trace_frame keeps_intros) (auto intro!: trace_frame keeps_intros triple_return triple_raise)
  show ?thesis
    unfolding attempt_step_def Let_def
    by (intro trace_frame keeps_intros triple_try [OF call] handler)
qed

lemma call_with_retry_gated:
  "triple (on_trace (step_inv env h passed step)) (call_with_retry env ctx k started step tool attempt)
     (\<lambda>(out, _) s. step_inv env h passed step (ex_trace s) \<and> learned env h (st_tool step) out (ex_trace s))
     (on_trace (step_inv env h passed step))"
proof -
  have again: "triple (on_trace (step_inv env h passed step))
     (rt_bind (attempt_step env ctx k started step tool attempt 1)
       (\<lambda>second. case second of Some r \<Rightarrow> rt_return r | None \<Rightarrow> rt_raise (StateErr ''assertion'')))
     (\<lambda>(out, _) s. step_inv env h passed step (ex_trace s) \<and> learned env h (st_tool step) out (ex_trace s))
     (on_trace (step_inv env h passed step))"
    by (rule triple_bind [OF attempt_gated]) (auto intro: triple_return triple_raise split: option.split)
  show ?thesis
    unfolding call_with_retry_def
    by (rule triple_bind [OF attempt_gated])
      (auto intro: triple_return triple_pre [OF again] split: option.split)
qed

lemma keep_result_known:
  "triple (\<lambda>s. gate_inv env (cx_evidence ctx) passed (ex_trace s) \<and> learned env (cx_evidence ctx) (st_tool step) out (ex_trace s))
     (keep_result env ctx k step tool fp call_id out passed)
     (\<lambda>passed' s. gate_inv env (cx_evidence ctx) passed' (ex_trace s))
     (on_trace (gated env (cx_evidence ctx)))"
proof (rule tripleI)
  fix s passed' s'
  assume pre: "gate_inv env (cx_evidence ctx) passed (ex_trace s) \<and> learned env (cx_evidence ctx) (st_tool step) out (ex_trace s)"
    and run: "keep_result env ctx k step tool fp call_id out passed s = (Inr passed', s')"
  have tr: "ex_trace s' = ex_trace s"
    using trace_helpers(5) [of env ctx k step tool fp call_id out passed] run by (metis keeps_def snd_conv)
  have "passed' = passed \<or> (\<exists>x. passed' = x # passed \<and> st_tool step = ''evaluate_candidate''
      \<and> evaluation_fingerprint (en_sha env) out (cx_evidence ctx) = Some x)"
    using run by (auto simp: keep_result_def rt_defs Let_def split: if_splits option.splits prod.splits sum.splits)
  with pre tr show "gate_inv env (cx_evidence ctx) passed' (ex_trace s')"
    by (auto simp: gate_inv_def learned_def)
next
  fix s e s'
  assume "gate_inv env (cx_evidence ctx) passed (ex_trace s) \<and> learned env (cx_evidence ctx) (st_tool step) out (ex_trace s)"
    and "keep_result env ctx k step tool fp call_id out passed s = (Inl e, s')"
  with trace_helpers(5) [of env ctx k step tool fp call_id out passed] show "gated env (cx_evidence ctx) (ex_trace s')"
    by (metis keeps_def snd_conv gate_inv_def)
qed

text \<open>The gate itself: what passes it may run.\<close>

lemma human_gate_opens:
  assumes "tool_get (en_tools env) (st_tool step) = Inr tool"
  shows "triple (on_trace (gate_inv env h passed))
     (human_gate env ctx tool (step_fingerprint (en_sha env) step) passed)
     (\<lambda>_ s. step_inv env h passed step (ex_trace s)) (on_trace (gate_inv env h passed))"
proof (rule tripleI)
  fix s u s'
  assume pre: "gate_inv env h passed (ex_trace s)"
    and run: "human_gate env ctx tool (step_fingerprint (en_sha env) step) passed s = (Inr u, s')"
  have tr: "ex_trace s' = ex_trace s"
    using trace_helpers(2) [of env ctx tool "step_fingerprint (en_sha env) step" passed] run by (metis keeps_def snd_conv)
  have tool: "writes_tool (en_tools env) (st_tool step) = tl_writes tool"
    using assms by (auto simp: tool_get_def writes_tool_def split: option.splits)
  have "tl_writes tool \<Longrightarrow> \<exists>fp. step_fingerprint (en_sha env) step = Some fp \<and> fp \<in> set passed"
    using run by (auto simp: human_gate_def rt_defs split: if_splits option.splits)
  then show "step_inv env h passed step (ex_trace s')"
    using pre tr tool by (auto simp: step_inv_def may_run_def gate_inv_def step_fingerprint_def split: if_splits)
next
  fix s e s'
  assume "gate_inv env h passed (ex_trace s)"
    and "human_gate env ctx tool (step_fingerprint (en_sha env) step) passed s = (Inl e, s')"
  with trace_helpers(2) [of env ctx tool "step_fingerprint (en_sha env) step" passed]
  show "gate_inv env h passed (ex_trace s')" by (metis keeps_def snd_conv)
qed

lemma gate_inv_gated: "gate_inv env h p tr \<Longrightarrow> gated env h tr"
  by (simp add: gate_inv_def)

lemma step_inv_gated: "step_inv env h p st tr \<Longrightarrow> gated env h tr"
  by (simp add: step_inv_def gate_inv_def)

lemmas inv_gated = gate_inv_gated step_inv_gated

lemma complete_step_gated:
  "triple (\<lambda>s. gate_inv env (cx_evidence ctx) passed (ex_trace s)
             \<and> learned env (cx_evidence ctx) (st_tool step) (fst result) (ex_trace s))
     (complete_step env ctx k started timeout step tool passed result)
     (\<lambda>passed' s. gate_inv env (cx_evidence ctx) passed' (ex_trace s)) (on_trace (gated env (cx_evidence ctx)))"
  (is "triple ?K _ ?Q ?E")
proof -
  let ?known = "\<lambda>out tr. gate_inv env (cx_evidence ctx) passed tr \<and> learned env (cx_evidence ctx) (st_tool step) out tr"
  have finish: "triple (on_trace (gate_inv env (cx_evidence ctx) p))
      (rt_bind (rt_finish_step env k (st_id step) SCompleted out None) (\<lambda>_.
       rt_bind (step_event env k ''tool_call_completed'' step []) (\<lambda>_. rt_return p))) ?Q ?E" for out p
    by (rule frame_bind [where R = "gate_inv env (cx_evidence ctx) p"], rule keeps_intros,
        rule frame_bind [where R = "gate_inv env (cx_evidence ctx) p"], rule keeps_intros)
      (auto intro: triple_return inv_gated)
  obtain out key began where r: "result = (out, key, began)" by (cases result)
  show ?thesis
    unfolding complete_step_def r prod.case fst_conv
    by (rule frame_bind [where R = "?known out"], rule keeps_intros,
        rule frame_bind [where R = "?known out"], rule keeps_intros,
        rule frame_bind [where R = "?known out"], rule keeps_intros,
        rule triple_bind [OF keep_result_known], rule finish)
      (auto intro: inv_gated)
qed

lemma perform_step_gated:
  "triple (on_trace (gate_inv env (cx_evidence ctx) passed)) (perform_step env ctx k started current step passed)
     (\<lambda>passed' s. gate_inv env (cx_evidence ctx) passed' (ex_trace s)) (on_trace (gated env (cx_evidence ctx)))"
  (is "triple ?G _ ?Q ?E")
proof -
  let ?S = "on_trace (step_inv env (cx_evidence ctx) passed step)"
  let ?T = "\<lambda>tool s. ?G s \<and> tool_get (en_tools env) (st_tool step) = Inr tool"
  have retry: "triple ?S (call_with_retry env ctx k started step tool attempt)
      (\<lambda>r s. gate_inv env (cx_evidence ctx) passed (ex_trace s)
             \<and> learned env (cx_evidence ctx) (st_tool step) (fst r) (ex_trace s)) ?E" for tool attempt
    by (rule triple_weaken [OF call_with_retry_gated]) (auto simp: step_inv_def intro: inv_gated)
  have called: "triple ?S (rt_bind (rt_start_step env k (st_id step)) (\<lambda>attempt.
      rt_bind (call_with_retry env ctx k started step tool attempt)
        (complete_step env ctx k started (ag_timeout current) step tool passed))) ?Q ?E" for tool
    by (rule frame_bind [where R = "step_inv env (cx_evidence ctx) passed step"], rule keeps_intros,
        rule triple_bind [OF retry complete_step_gated])
      (rule inv_gated)
  have gate: "triple (?T tool) (human_gate env ctx tool (step_fingerprint (en_sha env) step) passed) (\<lambda>_. ?S) ?E" for tool
    by (rule tripleI) (blast intro: triple_Inr [OF human_gate_opens] inv_gated triple_Inl [OF human_gate_opens])+
  have budget: "triple (?T tool) (rt_when c e) (\<lambda>_. ?T tool) ?E" for tool c e
    by (rule triple_when) (auto intro: inv_gated)
  have found: "triple ?G (rt_res (tool_get (en_tools env) (st_tool step))) ?T ?E"
    by (rule triple_res) (auto intro: inv_gated)
  show ?thesis
    unfolding perform_step_def
    by (rule frame_bind [where R = "gate_inv env (cx_evidence ctx) passed"], rule keeps_intros,
        rule triple_bind [OF found triple_bind [OF budget triple_bind [OF gate called]]])
      (rule inv_gated)
qed

lemma run_steps_gated:
  "triple (on_trace (gate_inv env (cx_evidence ctx) passed)) (run_steps env ctx k started passed steps)
     (\<lambda>_. on_trace (gated env (cx_evidence ctx))) (on_trace (gated env (cx_evidence ctx)))"
proof (induction steps arbitrary: passed)
  case Nil
  show ?case by (auto intro: triple_return inv_gated)
next
  case (Cons step steps)
  show ?case
    unfolding run_steps.simps
    by (rule frame_bind [where R = "gate_inv env (cx_evidence ctx) passed"], rule keeps_intros)
      (auto intro: triple_return triple_bind [OF perform_step_gated] Cons.IH inv_gated)
qed

subsection \<open>Planning\<close>

text \<open>A computation that preserves a predicate of the trace, however it ends.\<close>

definition maintains :: "(trace_event list \<Rightarrow> bool) \<Rightarrow> 'a rt \<Rightarrow> bool" where
  "maintains R m \<longleftrightarrow> triple (on_trace R) m (\<lambda>_. on_trace R) (on_trace R)"

lemma maintains_keeps: "keeps ex_trace m \<Longrightarrow> maintains R m"
  unfolding maintains_def by (rule triple_keeps)

lemma maintains_bind: "maintains R m \<Longrightarrow> (\<And>x. maintains R (g x)) \<Longrightarrow> maintains R (rt_bind m g)"
  unfolding maintains_def by (rule triple_bind)

lemma maintains_try: "maintains R m \<Longrightarrow> (\<And>e. maintains R (h e)) \<Longrightarrow> maintains R (rt_try m h)"
  unfolding maintains_def by (rule triple_try)

lemma maintains_if: "maintains R a \<Longrightarrow> maintains R b \<Longrightarrow> maintains R (if c then a else b)"
  by simp

lemma maintains_pair: "(\<And>x y. maintains R (b x y)) \<Longrightarrow> maintains R (case v of (x, y) \<Rightarrow> b x y)"
  by (cases v) simp

lemmas maintains_intros = maintains_bind maintains_try maintains_if maintains_pair

lemma maintains_call:
  "\<not> writes_tool (en_tools env) name \<Longrightarrow> maintains (gated env h) (call_tool env ctx i name args)"
  unfolding maintains_def
  by (rule triple_weaken [OF call_tool_gated [of env h "[]" name args]]) (simp_all add: gate_inv_def may_run_def)

lemma maintains_read:
  assumes "\<not> writes_tool (en_tools env) name"
  shows "maintains (gated env h) (expert_read env ctx k started n name args)"
  unfolding expert_read_def Let_def
  by (intro maintains_intros maintains_call [OF assms]; rule maintains_keeps; intro keeps_intros)

definition reads_only :: "registry \<Rightarrow> bool" where
  "reads_only tools = (\<not> writes_tool tools ''get_sanitized_evidence'' \<and> \<not> writes_tool tools ''find_approved_rules'')"

lemma maintains_context:
  "reads_only (en_tools env) \<Longrightarrow> maintains (gated env h) (expert_context_of env ctx run started)"
  unfolding expert_context_of_def Let_def reads_only_def
  by (intro maintains_intros maintains_read; (elim conjE, assumption)?; rule maintains_keeps; intro keeps_intros)

lemma maintains_plan_expert:
  "reads_only (en_tools env) \<Longrightarrow> maintains (gated env h) (plan_expert env ctx run started sm goal)"
  unfolding plan_expert_def Let_def
  by (intro maintains_intros maintains_context; assumption?; rule maintains_keeps; intro keeps_intros)

lemma maintains_plan_run:
  "reads_only (en_tools env) \<Longrightarrow> maintains (gated env h) (plan_run env ctx v started sm)"
  unfolding plan_run_def Let_def
  by (intro maintains_intros maintains_plan_expert; assumption?; rule maintains_keeps; intro keeps_intros)

subsection \<open>The execution\<close>

lemma bound_context_evidence:
  "bound_context env ctx v s = (Inr (ctx', w), s') \<Longrightarrow> cx_evidence ctx' = cx_evidence ctx"
  by (auto simp: bound_context_def rt_defs Let_def split: if_splits prod.splits sum.splits list.splits)

lemma work_off_gated:
  "triple (on_trace (gated env (cx_evidence ctx))) (work_off env ctx v started)
     (\<lambda>_. on_trace (gated env (cx_evidence ctx))) (on_trace (gated env (cx_evidence ctx)))"
  (is "triple ?G _ ?Q ?E")
proof -
  have load: "triple ?G (rt_trace (Loaded a))
      (\<lambda>_ s. gate_inv env (cx_evidence ctx) (passed_evaluations (en_sha env) (cx_evidence ctx) a) (ex_trace s)) ?E" for a
    by (rule tripleI) (auto simp: rt_defs gate_inv_def approved_def intro: gated_Loaded)
  have last: "triple ?G (case left of Some w \<Rightarrow> rt_return w | None \<Rightarrow> rt_transition env j RAwaiting {RRunning} None None) ?Q ?E"
    for left j
    by (rule triple_keeps) (intro keeps_intros)
  show ?thesis
    unfolding work_off_def Let_def
    by (rule trace_frame, intro keeps_intros, rule triple_bind [OF load], rule triple_bind [OF run_steps_gated last])
qed

text \<open>What is known of the trace of an execution: nothing yet, or the gate for the evidence of one of its steps.\<close>

definition fully_gated :: "rt_env \<Rightarrow> trace_event list \<Rightarrow> bool" where
  "fully_gated env tr =
     (tr = [] \<or> (\<exists>t evidence. en_evidence env t = Inr evidence
        \<and> gated env (PStr (canonical_fingerprint (en_sha env) evidence)) tr))"

lemma current_evidence_hash_Inr:
  "current_evidence_hash env ctx s = (Inr hash, s') \<Longrightarrow>
     \<exists>t evidence. en_evidence env t = Inr evidence \<and> hash = canonical_fingerprint (en_sha env) evidence"
proof -
  have loaded: "load_evidence sha c e = Inr e' \<Longrightarrow> e' = e" for sha c e e'
    by (auto simp: load_evidence_def bind_res_Inr_iff split: if_splits)
  assume "current_evidence_hash env ctx s = (Inr hash, s')"
  then show ?thesis
    by (auto simp: current_evidence_hash_def rt_defs bind_res_Inr_iff dest!: loaded)
qed

lemma execute_body_gated:
  assumes tools: "reads_only (en_tools env)" and sha: "\<And>x. en_sha env x \<noteq> []"
  shows "triple (on_trace (\<lambda>tr. tr = [])) (execute_body env view started)
     (\<lambda>_. on_trace (fully_gated env)) (on_trace (fully_gated env))"
proof -
  let ?N = "on_trace (\<lambda>tr. tr = [])" and ?F = "on_trace (fully_gated env)"
  define now where "now h = (\<exists>t evidence. en_evidence env t = Inr evidence \<and> h = canonical_fingerprint (en_sha env) evidence)" for h
  have empty: "fully_gated env []" by (simp add: fully_gated_def)
  have ask: "triple ?N (current_evidence_hash env c) (\<lambda>h s. ex_trace s = [] \<and> now h) ?F" for c
  proof (rule tripleI)
    fix s h s' assume "ex_trace s = []" and r: "current_evidence_hash env c s = (Inr h, s')"
    then show "ex_trace s' = [] \<and> now h"
      using current_evidence_hash_Inr [OF r] trace_calls(15) [of env c] by (metis keeps_def snd_conv now_def)
  next
    fix s e s' assume "ex_trace s = []" and "current_evidence_hash env c s = (Inl e, s')"
    then show "fully_gated env (ex_trace s')"
      using trace_calls(15) [of env c] by (metis keeps_def snd_conv empty)
  qed
  have rest: "triple (\<lambda>s. ex_trace s = [] \<and> now h) m (\<lambda>_. ?F) ?F"
    if "now h \<Longrightarrow> maintains (gated env (PStr h)) m" for h and m :: "run_view rt"
  proof (cases "now h")
    case True
    show ?thesis
      by (rule triple_weaken [OF that [OF True, unfolded maintains_def]]) (use True in \<open>auto simp: fully_gated_def now_def\<close>)
  qed (simp add: triple_def)
  have work: "maintains (gated env (PStr h)) (work_off env c w started)" if "cx_evidence c = PStr h" for c w h
    using work_off_gated [of env c] that by (simp add: maintains_def)
  have bound: "maintains (gated env (PStr h))
      (rt_bind (if expert then bound_context env c v else rt_return (c, v)) (\<lambda>(ctx', w). work_off env ctx' w started))"
    if "cx_evidence c = PStr h" for c v h expert
    unfolding maintains_def
  proof (rule triple_bind [where R = "\<lambda>(ctx', w) s. gated env (PStr h) (ex_trace s) \<and> cx_evidence ctx' = PStr h"])
    let ?m = "if expert then bound_context env c v else rt_return (c, v)"
    have "keeps ex_trace ?m" by (intro keeps_intros)
    then show "triple (on_trace (gated env (PStr h))) ?m
        (\<lambda>(ctx', w) s. gated env (PStr h) (ex_trace s) \<and> cx_evidence ctx' = PStr h) (on_trace (gated env (PStr h)))"
      by (intro tripleI)
        (auto simp: keeps_def that rt_return_def dest: bound_context_evidence split: if_splits, (metis snd_conv)+)
  next
    show "triple (case x of (ctx', w) \<Rightarrow> \<lambda>s. gated env (PStr h) (ex_trace s) \<and> cx_evidence ctx' = PStr h)
        (case x of (ctx', w) \<Rightarrow> work_off env ctx' w started) (\<lambda>_. on_trace (gated env (PStr h)))
        (on_trace (gated env (PStr h)))" for x
      using work [unfolded maintains_def, of "fst x" h "snd x"]
      by (cases x) (auto simp: triple_def split: prod.splits)
  qed
  have tail: "maintains (gated env (PStr h)) (rt_bind (rt_when q err) (\<lambda>_.
      rt_bind (plan_run env c view started sm) (\<lambda>planned.
      case planned of
        None \<Rightarrow> rt_get env j
      | Some v \<Rightarrow> rt_bind (if expert then bound_context env c v else rt_return (c, v)) (\<lambda>(ctx', w). work_off env ctx' w started))))"
    if c: "cx_evidence c = PStr h" for c h q err sm j expert
  proof (rule maintains_bind [OF maintains_keeps [OF keeps_when] maintains_bind [OF maintains_plan_run [OF tools]]])
    fix planned
    show "maintains (gated env (PStr h)) (case planned of
        None \<Rightarrow> rt_get env j
      | Some v \<Rightarrow> rt_bind (if expert then bound_context env c v else rt_return (c, v)) (\<lambda>(ctx', w). work_off env ctx' w started))"
      using bound [OF c] by (cases planned) (auto intro: maintains_keeps keeps_intros)
  qed
  have fresh: "now h \<Longrightarrow> h \<noteq> []" for h
    by (auto simp: now_def canonical_fingerprint_def sha)
  show ?thesis
    unfolding execute_body_def Let_def
    by (rule frame_bind [where R = "\<lambda>tr. tr = []"], rule keeps_intros, rule triple_bind [OF ask], rule rest, rule tail)
      (simp_all add: fresh empty)
qed

lemma agent_execute_gated:
  assumes "reads_only (en_tools env)" and "\<And>x. en_sha env x \<noteq> []"
  shows "triple (on_trace (\<lambda>tr. tr = [])) (agent_execute env k) (\<lambda>_. on_trace (fully_gated env)) (on_trace (fully_gated env))"
proof -
  let ?F = "on_trace (fully_gated env)"
  have empty: "fully_gated env []" by (simp add: fully_gated_def)
  have settled: "triple ?F (settle_failure env k e) (\<lambda>_. ?F) ?F" for e
    by (rule triple_keeps) (rule keeps_intros)
  have run: "triple (on_trace (\<lambda>tr. tr = []))
      (rt_bind (rt_clock env) (\<lambda>started. rt_try (execute_body env v started) (settle_failure env k))) (\<lambda>_. ?F) ?F" for v
    by (rule frame_bind [where R = "\<lambda>tr. tr = []"], rule keeps_intros, rule triple_try [OF execute_body_gated settled])
      (simp_all add: assms empty)
  show ?thesis
    unfolding agent_execute_def
    by (rule frame_bind [where R = "\<lambda>tr. tr = []"], rule keeps_intros) (auto intro: run triple_return simp: empty)
qed

end
