(* ===== verification/Agent_Toolset.thy ===== *)
theory Agent_Toolset
  imports Agent_Gate_Props
begin

text \<open>
  The five tools of the agents (\<open>build_agent_tool_registry\<close> of \<open>agentic/tools.py\<close>): their argument schemas and the one
  of them that writes candidates. The handlers are outcomes of the environment.
\<close>

definition string_list :: "int option \<Rightarrow> pv" where
  "string_list least =
     PDict ([(''type'', PStr ''array'')] @ (case least of None \<Rightarrow> [] | Some n \<Rightarrow> [(''minItems'', PInt n)])
       @ [(''items'', nonempty_text)])"

definition choice_of :: "string list \<Rightarrow> pv" where
  "choice_of xs = PDict [(''type'', PStr ''string''), (''enum'', PList (map PStr xs))]"

definition text_or_null :: pv where
  "text_or_null = PDict [(''type'', PList [PStr ''string'', PStr ''null''])]"

definition boolean_schema :: pv where
  "boolean_schema = PDict [(''type'', PStr ''boolean'')]"

definition object_schema :: "string list option \<Rightarrow> (string \<times> pv) list \<Rightarrow> pv" where
  "object_schema required properties =
     PDict ([(''type'', PStr ''object''), (''additionalProperties'', PBool False)]
       @ (case required of None \<Rightarrow> [] | Some ks \<Rightarrow> [(''required'', PList (map PStr ks))])
       @ [(''properties'', PDict properties)])"

definition problem_resolution_schema :: pv where
  "problem_resolution_schema = object_schema None
     [(''confidence'', nonempty_text), (''semantic_safe'', boolean_schema), (''ambiguity'', boolean_schema),
      (''evidence_source'', nonempty_text), (''matched_rule'', text_or_null), (''supporting_codes'', string_list None),
      (''subtype'', text_or_null), (''missing_selected_ids'', string_list None), (''unresolved_selected_ids'', string_list None)]"

definition feature_properties :: "(string \<times> pv) list" where
  "feature_properties =
     [(''feature_type'', nonempty_text), (''title'', nonempty_text), (''summary'', nonempty_text),
      (''importance'', choice_of [''critical'', ''high'', ''medium'', ''low'']), (''template_hashes'', string_list (Some 1)),
      (''components'', string_list (Some 1)), (''tags'', string_list (Some 1)), (''selection_reason'', nonempty_text),
      (''match_mode'', choice_of [''semantic'', ''template_set'']), (''problem_resolution'', problem_resolution_schema)]"

definition feature_schema :: pv where
  "feature_schema = object_schema (Some [''feature_type'', ''title'', ''summary'', ''importance'', ''template_hashes'',
     ''components'', ''tags'', ''selection_reason'']) feature_properties"

definition feature_argument :: pv where
  "feature_argument = object_schema (Some [''feature'']) [(''feature'', feature_schema)]"

definition agent_registry :: "registry res" where
  "agent_registry =
     bind_res (tool_register ''get_sanitized_evidence'' (bytes [
     0xE8, 0xAF, 0xBB, 0xE5, 0x8F, 0x96, 0xE9, 0xA3, 0x8E, 0xE9, 0x99, 0xA9, 0xE5, 0xAE, 0x9E, 0xE4, 0xBD, 0x93, 0xE7, 0x9A,
     0x84, 0xE8, 0x81, 0x9A, 0xE5, 0x90, 0x88, 0xE8, 0x84, 0xB1, 0xE6, 0x95, 0x8F, 0x20, 0x45, 0x76, 0x69, 0x64, 0x65, 0x6E,
     0x63, 0x65])
       [''job_id'', ''entity_id''] [] (Some (object_schema (Some [''job_id'', ''entity_id''])
         [(''job_id'', nonempty_text), (''entity_id'', nonempty_text)])) 1 False []) (\<lambda>r1.
     bind_res (tool_register ''find_approved_rules'' (bytes [
     0xE6, 0x9F, 0xA5, 0xE8, 0xAF, 0xA2, 0xE5, 0x8C, 0xB9, 0xE9, 0x85, 0x8D, 0xE7, 0x9A, 0x84, 0xE5, 0xB7, 0xB2, 0xE6, 0x89,
     0xB9, 0xE5, 0x87, 0x86, 0xE8, 0xA7, 0x84, 0xE5, 0x88, 0x99])
       [] [''template_hashes'', ''components''] (Some (object_schema None
         [(''template_hashes'', string_list None), (''components'', string_list None)])) 1 False r1) (\<lambda>r2.
     bind_res (tool_register ''inspect_knowledge_assets'' (bytes [
     0xE6, 0x9F, 0xA5, 0xE8, 0xAF, 0xA2, 0xE5, 0xB7, 0xB2, 0xE5, 0xAE, 0x89, 0xE8, 0xA3, 0x85, 0xE7, 0x9A, 0x84, 0xE7, 0x9F,
     0xA5, 0xE8, 0xAF, 0x86, 0xE5, 0x8C, 0x85, 0xE6, 0x91, 0x98, 0xE8, 0xA6, 0x81])
       [] [] (Some (object_schema None [])) 1 False r2) (\<lambda>r3.
     bind_res (tool_register ''evaluate_candidate'' (bytes [
     0xE6, 0x89, 0xA7, 0xE8, 0xA1, 0x8C, 0xE7, 0xA1, 0xAE, 0xE5, 0xAE, 0x9A, 0xE6, 0x80, 0xA7, 0xE5, 0x80, 0x99, 0xE9, 0x80,
     0x89, 0xE8, 0xB4, 0xA8, 0xE9, 0x87, 0x8F, 0xE6, 0xA0, 0xA1, 0xE9, 0xAA, 0x8C])
       [''feature''] [] (Some feature_argument) 1 False r3) (\<lambda>r4.
     tool_register ''register_feature_candidate'' (bytes [
     0xE7, 0x99, 0xBB, 0xE8, 0xAE, 0xB0, 0xE7, 0xAD, 0x89, 0xE5, 0xBE, 0x85, 0xE4, 0xBA, 0xBA, 0xE5, 0xB7, 0xA5, 0xE5, 0xAE,
     0xA1, 0xE6, 0x89, 0xB9, 0xE7, 0x9A, 0x84, 0xE5, 0x80, 0x99, 0xE9, 0x80, 0x89, 0xE7, 0x89, 0xB9, 0xE5, 0xBE, 0x81])
       [''feature''] [] (Some feature_argument) 1 True r4))))"

definition agent_tools :: registry where
  "agent_tools = (case agent_registry of Inl _ \<Rightarrow> [] | Inr tools \<Rightarrow> tools)"

lemma agent_registry_ok: "agent_registry = Inr agent_tools"
  by (simp add: agent_tools_def agent_registry_def tool_register_def object_schema_def feature_argument_def dget_def
      Let_def)

lemma agent_tools_writes: "writes_tool agent_tools name \<longleftrightarrow> name = ''register_feature_candidate''"
  by (auto simp: agent_tools_def agent_registry_def tool_register_def object_schema_def feature_argument_def dget_def
      writes_tool_def Let_def)

lemma agent_tools_reads: "reads_only agent_tools"
  by (simp add: reads_only_def agent_tools_writes)

end
