(* ===== verification/Agent_Execute_Thms.thy ===== *)
theory Agent_Execute_Thms
  imports Agent_Toolset Agent_Budget_Props
begin

text \<open>The properties of the execution of an agent run.\<close>

subsection \<open>A run that evaluates and registers a candidate\<close>

definition gate_feature :: pv where
  "gate_feature = PDict [(''title'', PStr ''t'')]"

definition gate_plan :: agent_plan where
  "gate_plan = \<lparr>pl_goal = ''goal'', pl_steps =
       [\<lparr>ps_id = ''s1'', ps_tool = ''evaluate_candidate'', ps_args = PDict [(''feature'', gate_feature)]\<rparr>,
        \<lparr>ps_id = ''s2'', ps_tool = ''register_feature_candidate'', ps_args = PDict [(''feature'', gate_feature)]\<rparr>],
     pl_assessment = None, pl_output = None\<rparr>"

definition gate_request :: run_request where
  "gate_request = \<lparr>rq_source = PStr ''job'', rq_entity = PStr ''n1'', rq_entity_type = ''node'', rq_profile = ''p'',
     rq_prompt = ''q'', rq_max_steps = 4, rq_max_tool_calls = 4, rq_timeout = FFin 60 0,
     rq_tools = [''evaluate_candidate'', ''register_feature_candidate''], rq_key = ''k'', rq_actor = ''alice'', rq_roles = [],
     rq_request = ''r'', rq_parent = None\<rparr>"

definition gate_snapshot :: pv where
  "gate_snapshot = PDict [(''evidence_summary'', PDict [(''source_job_id'', PStr ''job'')])]"

definition gate_evidence :: pv where
  "gate_evidence = PDict [(''entity'', PDict [(''id'', PStr ''n1''), (''cluster'', PStr ''c1'')])]"

definition gate_sha :: "string \<Rightarrow> string" where "gate_sha x = ''fp''"

definition gate_handler :: "nat \<Rightarrow> string \<Rightarrow> pv \<Rightarrow> pv res" where
  "gate_handler t name args =
     (if name = ''evaluate_candidate''
      then Inr (PDict [(''passed'', PBool True), (''feature'', feature_of args), (''fingerprint'', PStr ''fp''),
             (''evidence_hash'', PStr ''fp''), (''evaluator_version'', PStr ''feature_output_v1'')])
      else Inr (PDict [(''candidate_id'', PStr ''1'')]))"

definition gate_tools :: registry where
  "gate_tools =
     [\<lparr>tl_name = ''evaluate_candidate'', tl_description = [], tl_required = [''feature''], tl_optional = [],
        tl_schema = PDict [(''type'', PStr ''object'')], tl_cost = 1, tl_writes = False\<rparr>,
      \<lparr>tl_name = ''register_feature_candidate'', tl_description = [], tl_required = [''feature''], tl_optional = [],
        tl_schema = PDict [(''type'', PStr ''object'')], tl_cost = 1, tl_writes = True\<rparr>]"

definition gate_env :: rt_env where
  "gate_env = \<lparr>en_clock = (\<lambda>t. ''now''), en_mono = (\<lambda>t. int t), en_fresh = (\<lambda>t. int_str (int t)), en_other = (\<lambda>t db. db),
     en_handler = gate_handler, en_ledger = (\<lambda>t. None), en_evidence = (\<lambda>t. Inr gate_evidence), en_rule = (\<lambda>t i. None),
     en_now_us = int, en_parent = (\<lambda>t p. None), en_model = (\<lambda>t p s. Inl ValueErr), en_sha = gate_sha,
     en_tools = gate_tools, en_planner = FakePlanner gate_plan\<rparr>"

definition no_runs :: adb where
  "no_runs = \<lparr>a_runs = [], a_steps = [], a_calls = [], a_artifacts = [], a_events = []\<rparr>"

definition gate_start :: rt_state where
  "gate_start = \<lparr>ex_db = (case create_run ''t0'' ''r1'' gate_request gate_snapshot no_runs of Inl _ \<Rightarrow> no_runs
       | Inr (db, _) \<Rightarrow> db), ex_tick = 0, ex_trace = []\<rparr>"

definition event_name :: "trace_event \<Rightarrow> string" where
  "event_name e = (case e of Loaded _ \<Rightarrow> ''loaded'' | Executed x \<Rightarrow> xe_tool x)"

lemma gate_run:
  "(case agent_execute gate_env ''r1'' gate_start of
      (r, s) \<Rightarrow> (map event_name (ex_trace s), r = Inl KeyErr, map (\<lambda>x. (ag_id x, ag_status x, ag_used x)) (a_runs (ex_db s))))
   = ([''loaded'', ''evaluate_candidate'', ''register_feature_candidate''], False, [(''r1'', RAwaiting, 2)])"
  by code_simp

lemma gate_trace:
  "\<exists>e0 e1 x. ex_trace (snd (agent_execute gate_env ''r1'' gate_start)) = [e0, e1] @ Executed x # []
     \<and> xe_tool x = ''register_feature_candidate''"
proof -
  have "map event_name (ex_trace (snd (agent_execute gate_env ''r1'' gate_start)))
      = [''loaded'', ''evaluate_candidate'', ''register_feature_candidate'']"
    using gate_run by (simp add: split_def)
  then obtain e0 e1 e2 where t: "ex_trace (snd (agent_execute gate_env ''r1'' gate_start)) = [e0, e1, e2]"
    and n: "event_name e2 = ''register_feature_candidate''"
    by (auto simp: map_eq_Cons_conv)
  from n obtain x where "e2 = Executed x" by (cases e2) (simp_all add: event_name_def)
  with t n show ?thesis by (auto simp: event_name_def)
qed

subsection \<open>The properties\<close>

text \<open>C5: Whatever the tools, the model and other processes do, a tool that writes candidates is only called after
  a passed evaluation of exactly that feature on the evidence that the execution has loaded: one stored in the artifacts of the run
  or one made earlier in the execution.\<close>

theorem candidate_needs_passed_evaluation:
  assumes "reads_only (en_tools env)" and "\<And>x. en_sha env x \<noteq> []" and "ex_trace s = []"
    and "ex_trace (snd (agent_execute env k s)) = pre @ Executed x # post" and "writes_tool (en_tools env) (xe_tool x)"
  shows "feature_of (xe_args x) \<noteq> PNone \<and>
    (\<exists>t evidence. en_evidence env t = Inr evidence
       \<and> (\<exists>e \<in> set pre. approves (en_sha env) (PStr (canonical_fingerprint (en_sha env) evidence))
            (canonical_fingerprint (en_sha env) (feature_of (xe_args x))) e))"
proof -
  obtain r s' where run: "agent_execute env k s = (r, s')" by (cases "agent_execute env k s")
  have "fully_gated env (ex_trace s')"
    using triple_Inr [OF agent_execute_gated [OF assms(1,2)]] triple_Inl [OF agent_execute_gated [OF assms(1,2)]] assms(3) run
    by (cases r) blast+
  with assms(4) run obtain t evidence where e: "en_evidence env t = Inr evidence"
    and "gated env (PStr (canonical_fingerprint (en_sha env) evidence)) (pre @ Executed x # post)"
    by (auto simp: fully_gated_def)
  then have "may_run env (PStr (canonical_fingerprint (en_sha env) evidence)) (xe_tool x) (xe_args x) pre"
    unfolding gated_def by blast
  with assms(5) e show ?thesis
    by (auto simp: may_run_def approved_def list_ex_iff)
qed

theorem candidate_needs_passed_evaluation_witness:
  "\<exists>pre x. ex_trace (snd (agent_execute gate_env ''r1'' gate_start)) = pre @ [Executed x]
     \<and> xe_tool x = ''register_feature_candidate''
     \<and> (\<exists>e \<in> set pre. approves gate_sha (PStr ''fp'') ''fp'' e)"
proof -
  obtain e0 e1 x where t: "ex_trace (snd (agent_execute gate_env ''r1'' gate_start)) = [e0, e1] @ Executed x # []"
    and x: "xe_tool x = ''register_feature_candidate''" using gate_trace by blast
  have "reads_only (en_tools gate_env)" and w: "writes_tool (en_tools gate_env) ''register_feature_candidate''"
    by code_simp+
  moreover have "en_sha gate_env y \<noteq> []" for y by (simp add: gate_env_def gate_sha_def)
  moreover have "ex_trace gate_start = []" by (simp add: gate_start_def)
  moreover have "writes_tool (en_tools gate_env) (xe_tool x)" using w x by simp
  ultimately have "\<exists>e \<in> set [e0, e1]. approves gate_sha (PStr ''fp'') ''fp'' e"
    using candidate_needs_passed_evaluation [OF _ _ _ t] by (simp add: gate_env_def canonical_fingerprint_def gate_sha_def)
  with t x show ?thesis by auto
qed



end
