(* ===== verification/Workflow_Service_Props.thy ===== *)
theory Workflow_Service_Props
  imports Workflow_Services Agent_Views Workflow_Thms Agent_Execute_Thms
begin

text \<open>
  The composition of the worker with the agent runtime: what a node costs is what its child run has spent, and that stays
  within the limit the scheduler has reserved for the node.
\<close>

subsection \<open>Steps of the services\<close>










subsection \<open>The limit of a node\<close>











subsection \<open>The composition\<close>









end
