(* ===== verification/Source_Cursor.thy ===== *)
theory Source_Cursor
  imports Py_Prelude
begin

text \<open>
  \<open>SourceCursor\<close> (\<open>incremental_sources.py\<close>): the position a task has read its source up to,
  its dictionary form, and \<open>_cursor_is_at_least\<close> (\<open>streaming_state.py\<close>), the test that a
  checkpoint does not move backwards. The locale \<open>frontier_order\<close> is what the repository needs
  of that test: on well-formed positions of one shape it is a preorder, so that a sequence of
  accepted checkpoints never ends behind its start.
\<close>

record cursor =
  cur_kind :: string
  cur_value :: "(string \<times> pv) list"

definition cursor_empty :: cursor where
  "cursor_empty = \<lparr>cur_kind = [], cur_value = []\<rparr>"

definition cursor_to_dict :: "cursor \<Rightarrow> pv" where
  "cursor_to_dict c = PDict [(''kind'', PStr (cur_kind c)), (''value'', PDict (cur_value c))]"

definition cursor_from_dict :: "pv \<Rightarrow> cursor res" where
  "cursor_from_dict v =
     (case py_or v (PDict []) of
        PDict d \<Rightarrow>
          (case py_or (dget d ''value'') (PDict []) of
             PDict w \<Rightarrow> Inr \<lparr>cur_kind = str_or (dget d ''kind''), cur_value = w\<rparr>
           | _ \<Rightarrow> Inl TypeErr)
      | _ \<Rightarrow> Inl AttrErr)"

definition cursor_eq :: "cursor \<Rightarrow> cursor \<Rightarrow> bool" where
  "cursor_eq a b = (cur_kind a = cur_kind b \<and> py_eq (PDict (cur_value a)) (PDict (cur_value b)))"

lemma cursor_roundtrip [simp]: "cursor_from_dict (cursor_to_dict c) = Inr c"
  by (cases "cur_value c") (auto simp: cursor_from_dict_def cursor_to_dict_def dget_def py_or_def)

lemma cursor_from_dict_PNone [simp]: "cursor_from_dict PNone = Inr cursor_empty"
  by (simp add: cursor_from_dict_def py_or_def dget_def cursor_empty_def)

text \<open>
  \<open>{str(key): int(value) for key, value in high_water.items()}\<close>, and the comparison of two
  such dictionaries.
\<close>

fun int_values :: "(string \<times> pv) list \<Rightarrow> (string \<times> int) list res" where
  "int_values [] = Inr []"
| "int_values ((k, v) # d) =
     bind_res (py_int v) (\<lambda>i. bind_res (int_values d) (\<lambda>r. Inr ((k, i) # r)))"

definition covers :: "(string \<times> int) list \<Rightarrow> (string \<times> int) list \<Rightarrow> bool" where
  "covers new old =
     list_all (\<lambda>(k, i). case map_of new k of None \<Rightarrow> False | Some j \<Rightarrow> i \<le> j) old"

definition cursor_is_at_least :: "pv \<Rightarrow> cursor \<Rightarrow> bool res" where
  "cursor_is_at_least candidate current =
     bind_res (cursor_from_dict candidate) (\<lambda>incoming.
     let new = cur_value incoming; old = cur_value current in
     if cur_kind current = [] \<or> cur_kind incoming \<noteq> cur_kind current
     then Inr (cur_kind current = [])
     else if cur_kind incoming = ''file'' then
       bind_res (int_or0 (dget new ''offset'')) (\<lambda>new_offset.
       bind_res (int_or0 (dget new ''line'')) (\<lambda>new_line.
       bind_res (int_or0 (dget old ''offset'')) (\<lambda>old_offset.
       bind_res (int_or0 (dget old ''line'')) (\<lambda>old_line.
         Inr ((old_offset, old_line) \<le> (new_offset, new_line))))))
     else if cur_kind incoming = ''kafka'' then
       (case (dget new ''high_water'', dget old ''high_water'') of
          (PDict nh, PDict oh) \<Rightarrow>
            bind_res (int_values nh) (\<lambda>ni. bind_res (int_values oh) (\<lambda>oi. Inr (covers ni oi)))
        | _ \<Rightarrow>
            if dget new ''partition'' \<noteq> PNone \<and> dget old ''partition'' \<noteq> PNone
               \<and> py_str (dget new ''partition'') = py_str (dget old ''partition'')
            then bind_res (int_or0 (dget new ''offset'')) (\<lambda>n.
                 bind_res (int_or0 (dget old ''offset'')) (\<lambda>old_n. Inr (old_n \<le> n)))
            else Inr (py_eq (cursor_to_dict incoming) (cursor_to_dict current)))
     else Inr (py_eq (cursor_to_dict incoming) (cursor_to_dict current)))"

text \<open>The test between two cursors as a relation (an exception counts as a refusal).\<close>

definition frontier_le :: "cursor \<Rightarrow> cursor \<Rightarrow> bool" where
  "frontier_le old new = (cursor_is_at_least (cursor_to_dict new) old = Inr True)"

subsection \<open>The interface of a frontier\<close>

locale frontier_order =
  fixes le :: "'c \<Rightarrow> 'c \<Rightarrow> bool"
    and wf :: "'c \<Rightarrow> bool"
  assumes le_refl: "wf c \<Longrightarrow> le c c"
    and le_trans: "wf a \<Longrightarrow> wf b \<Longrightarrow> wf c \<Longrightarrow> le a b \<Longrightarrow> le b c \<Longrightarrow> le a c"
begin

lemma chain_le:
  assumes "list_all wf (c # cs)" and "successively le (c # cs)"
  shows "le c (last (c # cs))"
  using assms
proof (induction cs arbitrary: c)
  case (Cons d cs)
  then have "le d (last (d # cs))" and "le c d" by simp_all
  moreover have "wf (last (d # cs))"
    using Cons.prems(1) last_in_set [of "d # cs"] by (auto simp: list_all_iff)
  ultimately show ?case using Cons.prems(1) le_trans [of c d "last (d # cs)"] by simp
qed (simp add: le_refl)

lemma chain_pairwise:
  assumes "list_all wf cs" and "successively le cs"
  shows "sorted_wrt (\<lambda>a b. wf a \<and> wf b \<and> le a b) cs"
proof -
  define r where "r = (\<lambda>a b. wf a \<and> wf b \<and> le a b)"
  from assms have "successively r cs"
    by (induction cs rule: induct_list012) (auto simp: r_def)
  moreover have "transp r" unfolding r_def transp_def using le_trans by blast
  ultimately have "sorted_wrt r cs" by (simp add: successively_conv_sorted_wrt)
  then show ?thesis by (simp add: r_def)
qed

end

subsection \<open>File positions and Kafka high-water marks\<close>

definition file_pos :: "cursor \<Rightarrow> (int \<times> int) res" where
  "file_pos c =
     bind_res (int_or0 (dget (cur_value c) ''offset'')) (\<lambda>offset.
     bind_res (int_or0 (dget (cur_value c) ''line'')) (\<lambda>line. Inr (offset, line)))"

definition file_cursor :: "cursor \<Rightarrow> bool" where
  "file_cursor c = (cur_kind c = ''file'' \<and> \<not> isl (file_pos c))"

definition high_water :: "cursor \<Rightarrow> (string \<times> int) list res" where
  "high_water c = (case dget (cur_value c) ''high_water'' of PDict d \<Rightarrow> int_values d | _ \<Rightarrow> Inl TypeErr)"

definition kafka_cursor :: "cursor \<Rightarrow> bool" where
  "kafka_cursor c = (cur_kind c = ''kafka'' \<and> \<not> isl (high_water c)
                     \<and> distinct (map fst (projr (high_water c))))"

lemma frontier_le_file:
  assumes "file_cursor a" and "file_cursor b"
  shows "frontier_le a b \<longleftrightarrow> projr (file_pos a) \<le> projr (file_pos b)"
  using assms
  by (cases "int_or0 (dget (cur_value a) ''offset'')"; cases "int_or0 (dget (cur_value a) ''line'')";
      cases "int_or0 (dget (cur_value b) ''offset'')"; cases "int_or0 (dget (cur_value b) ''line'')")
     (simp_all add: frontier_le_def cursor_is_at_least_def file_cursor_def file_pos_def Let_def)

lemma frontier_le_kafka:
  assumes "kafka_cursor a" and "kafka_cursor b"
  shows "frontier_le a b \<longleftrightarrow> covers (projr (high_water b)) (projr (high_water a))"
proof -
  from assms obtain da db where
    d: "dget (cur_value a) ''high_water'' = PDict da" "dget (cur_value b) ''high_water'' = PDict db"
    by (auto simp: kafka_cursor_def high_water_def split: pv.splits)
  from assms obtain ia ib where "int_values da = Inr ia" "int_values db = Inr ib"
    by (cases "int_values da"; cases "int_values db") (auto simp: kafka_cursor_def high_water_def d)
  with assms d show ?thesis
    by (simp add: frontier_le_def cursor_is_at_least_def kafka_cursor_def high_water_def Let_def)
qed

lemma covers_refl: "distinct (map fst d) \<Longrightarrow> covers d d"
  by (auto simp: covers_def list_all_iff)

lemma covers_trans: "covers b a \<Longrightarrow> covers c b \<Longrightarrow> covers c a"
  by (fastforce simp: covers_def list_all_iff split: option.splits dest: map_of_SomeD)

interpretation file_frontier: frontier_order frontier_le file_cursor
  by unfold_locales (auto simp: frontier_le_file intro: order_trans)

interpretation kafka_frontier: frontier_order frontier_le kafka_cursor
  by unfold_locales (auto simp: frontier_le_kafka kafka_cursor_def covers_refl intro: covers_trans)

end
