(* ===== verification/Streaming_Payload.thy ===== *)
theory Streaming_Payload
  imports Source_Cursor Iso_Time
begin

text \<open>
  What a streaming batch persists (\<open>streaming_state.py\<close>): the removal of raw log fields from
  windows and templates, the validation of a batch summary, and the two computations of the
  payload hash, \<open>_payload_hash\<close> from the batch in memory and \<open>_stored_payload_hash\<close> from the
  stored rows, read in pages of 250. SHA-256 is an argument \<open>sha\<close> of the definitions.
\<close>

subsection \<open>Raw log fields\<close>

definition raw_log_keys :: "string list" where
  "raw_log_keys = [''raw_sample'', ''samples'', ''message'', ''content'', ''raw_log'', ''log_line'']"

definition raw_key :: "string \<Rightarrow> bool" where
  "raw_key k = (py_lower k \<in> set raw_log_keys)"

fun has_raw :: "pv \<Rightarrow> bool" where
  "has_raw (PDict d) = list_ex (\<lambda>(k, v). raw_key k \<or> has_raw v) d"
| "has_raw (PList xs) = list_ex has_raw xs"
| "has_raw _ = False"

definition reject_raw_fields :: "pv \<Rightarrow> unit res" where
  "reject_raw_fields v = (if has_raw v then Inl (StateErr ''raw_field'') else Inr ())"

fun scrub :: "pv \<Rightarrow> pv" where
  "scrub (PDict d) = PDict (concat (map (\<lambda>(k, v). if raw_key k then [] else [(k, scrub v)]) d))"
| "scrub (PList xs) = PList (map scrub xs)"
| "scrub v = v"

lemma scrub_no_raw [simp]: "\<not> has_raw (scrub v)"
  by (induction v rule: scrub.induct) (auto simp: list_ex_iff split: if_splits)

lemma scrub_id: "\<not> has_raw v \<Longrightarrow> scrub v = v"
proof (induction v rule: scrub.induct)
  case (1 d)
  then have "concat (map (\<lambda>(k, v). if raw_key k then [] else [(k, scrub v)]) d) = d"
    by (induction d) (force split: if_splits)+
  then show ?case by simp
next
  case (2 xs)
  then show ?case by (simp add: list_ex_iff map_idI)
qed auto

text \<open>\<open>_safe_window\<close>: the dump and reload through JSON is the identity on the values of the model.\<close>

definition tz_aware :: "string \<Rightarrow> string \<Rightarrow> unit res" where
  "tz_aware tag acc =
     (case fromisoformat (replace_z acc) of
        Inl _ \<Rightarrow> Inl (StateErr (tag @ ''_invalid''))
      | Inr t \<Rightarrow> if dt_offset t = None then Inl (StateErr (tag @ ''_naive'')) else Inr ())"

definition safe_window :: "(string \<times> pv) list \<Rightarrow> pv res" where
  "safe_window value =
     (case scrub (PDict value) of
        PDict safe \<Rightarrow>
          if str_or (dget safe ''template_hash'') = [] then Inl (StateErr ''window_template_hash'')
          else
            let window_start = dget safe ''window_start'' in
            if truthy window_start then
              bind_res (tz_aware ''window_start'' (py_str window_start)) (\<lambda>_. Inr (PDict safe))
            else if \<not> py_eq (dget safe ''time_quality'') (PStr ''unknown'') then
              Inl (StateErr ''window_time_quality'')
            else Inr (PDict safe)
      | other \<Rightarrow> Inr other)"

record template =
  tm_hash :: string
  tm_component :: string
  tm_template :: string
  tm_count :: int
  tm_window_start :: string
  tm_window_end :: string
  tm_time_quality :: pv
  tm_severity :: pv
  tm_category :: pv
  tm_semantic_fields :: pv

definition safe_template :: "(string \<times> pv) list \<Rightarrow> template res" where
  "safe_template value =
     bind_res (reject_raw_fields (PDict value)) (\<lambda>_.
     let template_hash = str_or (dget value ''template_hash'');
         window_start = py_strip (str_or (dget value ''window_start''))
     in if template_hash = [] then Inl (StateErr ''template_hash'')
        else if window_start = [] then Inl (StateErr ''template_window_start'')
        else
          bind_res (if window_start = ''unknown'' then Inr () else tz_aware ''template_window_start'' window_start) (\<lambda>_.
          bind_res (int_or0 (dget value ''count'')) (\<lambda>count.
          Inr \<lparr>tm_hash = template_hash,
               tm_component = py_str (py_or (dget value ''component'') (PStr ''unknown'')),
               tm_template = str_or (dget value ''template''),
               tm_count = max 0 count,
               tm_window_start = window_start,
               tm_window_end = str_or (dget value ''window_end''),
               tm_time_quality = py_or (dget value ''time_quality'')
                 (PStr (if window_start = ''unknown'' then ''unknown'' else ''event'')),
               tm_severity = dget value ''severity'',
               tm_category = dget value ''category'',
               tm_semantic_fields = py_or (dget value ''semantic_fields'') (PDict [])\<rparr>)))"

lemma safe_window_no_raw: "safe_window value = Inr w \<Longrightarrow> \<not> has_raw w"
  using scrub_no_raw [of "PDict value"]
  by (auto simp: safe_window_def Let_def res_simps split: if_splits simp del: scrub_no_raw)

lemma safe_template_count: "safe_template value = Inr t \<Longrightarrow> 0 \<le> tm_count t"
  by (auto simp: safe_template_def Let_def res_simps split: if_splits)

subsection \<open>Batch summaries\<close>

definition is_nonnegative_int :: "pv \<Rightarrow> bool" where
  "is_nonnegative_int v = (case v of PInt i \<Rightarrow> 0 \<le> i | _ \<Rightarrow> False)"

definition is_bool :: "pv \<Rightarrow> bool" where
  "is_bool v = (case v of PBool _ \<Rightarrow> True | _ \<Rightarrow> False)"

definition integer_fields :: "string list" where
  "integer_fields = [''record_count'', ''template_count'', ''unknown_template_count'',
     ''risk_semantic_matches'', ''template_event_count'', ''partition_count'', ''worker_count'']"

definition validate_new_summary :: "(string \<times> pv) list \<Rightarrow> unit res" where
  "validate_new_summary summary =
     (if dget summary ''summary_schema_version'' = PNone then Inr ()
      else if \<not> py_eq (dget summary ''summary_schema_version'') (PInt 2) then
        Inl (StateErr ''summary_schema_version'')
      else if \<not> list_all (\<lambda>key. is_nonnegative_int (dget summary key)) integer_fields then
        Inl (StateErr ''summary_integer'')
      else if \<not> list_all (\<lambda>key. is_bool (dget summary key)) [''parallel'', ''node_risk_enabled''] then
        Inl (StateErr ''summary_bool'')
      else if dget summary ''process_start_method''
              \<notin> {PStr ''spawn'', PStr ''fork'', PStr ''forkserver'', PStr ''not_applicable''} then
        Inl (StateErr ''summary_process_start_method'')
      else Inr ())"

subsection \<open>The payload hash in memory and from the store\<close>

definition payload_hash ::
  "(string \<Rightarrow> string) \<Rightarrow> pv \<Rightarrow> pv list \<Rightarrow> (string \<times> pv) list \<Rightarrow> string" where
  "payload_hash sha cursor windows summary =
     sha (canonical_json
       (PDict [(''cursor'', cursor), (''windows'', PList windows), (''summary'', PDict summary)]))"

record window_row =
  wr_task :: string
  wr_window :: string
  wr_index :: int
  wr_json :: pv

definition page_rows :: nat where
  "page_rows = 250"

text \<open>\<open>SELECT ... WHERE item_index > after ORDER BY item_index LIMIT 250\<close>.\<close>

definition window_page :: "window_row list \<Rightarrow> int \<Rightarrow> window_row list" where
  "window_page rows pos = take page_rows (sort_key wr_index (filter (\<lambda>r. pos < wr_index r) rows))"

fun feed_page :: "window_row list \<Rightarrow> int \<Rightarrow> int \<Rightarrow> string \<Rightarrow> (int \<times> int \<times> string) res" where
  "feed_page [] pos count acc = Inr (pos, count, acc)"
| "feed_page (r # rs) pos count acc =
     (if wr_index r \<noteq> count then Inl (IncompleteErr ''window_index'')
      else feed_page rs (wr_index r) (count + 1)
             (acc @ (if count \<noteq> 0 then '','' else []) @ canonical_json (wr_json r)))"

lemma feed_page_after:
  "feed_page rs pos count acc = Inr (pos', count', acc') \<Longrightarrow> rs \<noteq> [] \<Longrightarrow> pos' = wr_index (last rs)"
proof (induction rs arbitrary: pos count acc)
  case (Cons r rs)
  then have idx: "wr_index r = count" by (cases "wr_index r = count") simp_all
  show ?case
  proof (cases rs)
    case Nil
    with Cons.prems idx show ?thesis by simp
  next
    case (Cons y ys)
    with Cons.IH Cons.prems(1) idx show ?thesis by (metis feed_page.simps(2) last.simps list.discI)
  qed
qed simp

lemma window_page_set: "set (window_page rows pos) \<subseteq> {r \<in> set rows. pos < wr_index r}"
  by (auto simp: window_page_def dest: in_set_takeD)

function stored_scan :: "window_row list \<Rightarrow> int \<Rightarrow> int \<Rightarrow> string \<Rightarrow> (string \<times> int) res" where
  "stored_scan rows pos count acc =
     (let page = window_page rows pos in
      if page = [] then Inr (acc, count)
      else bind_res (feed_page page pos count acc)
             (\<lambda>(pos', count', acc'). stored_scan rows pos' count' acc'))"
  by pat_completeness auto
termination
proof (relation "measure (\<lambda>(rows, pos, _, _). length (filter (\<lambda>r. pos < wr_index r) rows))", simp)
  fix rows :: "window_row list" and pos count acc page x y pos' z count' acc'
  assume page: "page = window_page rows pos" "page \<noteq> []"
    and fed: "feed_page page pos count acc = Inr x" "(pos', y) = x" "(count', acc') = y"
  from fed page have a: "pos' = wr_index (last page)" using feed_page_after by metis
  from page have "last page \<in> set (window_page rows pos)" by simp
  then have l: "last page \<in> set rows" "pos < wr_index (last page)"
    using window_page_set by blast+
  have "length (filter (\<lambda>r. pos' < wr_index r) rows) < length (filter (\<lambda>r. pos < wr_index r) rows)"
  proof (rule length_filter_less_filter)
    show "last page \<in> set rows" by (rule l)
  qed (use a l in auto)
  then show "((rows, pos', count', acc'), rows, pos, count, acc)
      \<in> measure (\<lambda>(rows, pos, _, _). length (filter (\<lambda>r. pos < wr_index r) rows))" by simp
qed

declare stored_scan.simps [simp del]

definition stored_payload_hash ::
  "(string \<Rightarrow> string) \<Rightarrow> window_row list \<Rightarrow> string \<Rightarrow> string \<Rightarrow> pv \<Rightarrow> (string \<times> pv) list
     \<Rightarrow> (string \<times> int) res" where
  \<open>stored_payload_hash sha rows task_id window_id cursor summary =
     bind_res
       (stored_scan (filter (\<lambda>r. wr_task r = task_id \<and> wr_window r = window_id) rows) (- 1) 0
          (''{"cursor":'' @ canonical_json cursor @ '',"summary":'' @ canonical_json (PDict summary)
           @ '',"windows":[''))
       (\<lambda>(acc, count). Inr (sha (acc @ '']}''), count))\<close>

subsection \<open>The two computations agree\<close>

text \<open>The rows a batch inserts: \<open>enumerate(sanitized_windows)\<close>.\<close>

definition rows_from :: "string \<Rightarrow> string \<Rightarrow> nat \<Rightarrow> pv list \<Rightarrow> window_row list" where
  "rows_from task_id window_id k ws =
     map (\<lambda>(i, w). \<lparr>wr_task = task_id, wr_window = window_id, wr_index = int i, wr_json = w\<rparr>)
       (enumerate k ws)"

definition windows_text :: "nat \<Rightarrow> pv list \<Rightarrow> string" where
  "windows_text k ws =
     concat (map (\<lambda>(i, w). (if i \<noteq> 0 then '','' else []) @ canonical_json w) (enumerate k ws))"

lemma rows_from_simps [simp]:
  "rows_from t w k [] = []"
  "rows_from t w k (v # vs) =
     \<lparr>wr_task = t, wr_window = w, wr_index = int k, wr_json = v\<rparr> # rows_from t w (Suc k) vs"
  by (simp_all add: rows_from_def)

lemma windows_text_simps [simp]:
  "windows_text k [] = []"
  "windows_text k (v # vs) = (if k \<noteq> 0 then '','' else []) @ canonical_json v @ windows_text (Suc k) vs"
  by (simp_all add: windows_text_def)

lemma rows_from_length [simp]: "length (rows_from t w k vs) = length vs"
  by (simp add: rows_from_def)

lemma rows_from_Nil_iff [simp]: "rows_from t w k vs = [] \<longleftrightarrow> vs = []"
  by (cases vs) simp_all

lemma rows_from_index: "map wr_index (rows_from t w k vs) = map int [k..<k + length vs]"
proof -
  have "map wr_index (rows_from t w k vs) = map (int \<circ> fst) (enumerate k vs)"
    by (simp add: rows_from_def comp_def split_def)
  then show ?thesis by (simp only: map_map [symmetric] map_fst_enumerate)
qed

lemma rows_from_sorted: "sort_key wr_index (rows_from t w k vs) = rows_from t w k vs"
  by (rule sort_key_id_if_sorted) (simp add: rows_from_index sorted_map)

lemma rows_from_take: "take n (rows_from t w k vs) = rows_from t w k (take n vs)"
  by (induction vs arbitrary: n k) (simp_all add: take_Cons split: nat.splits)

lemma rows_from_filter_all:
  "p < int k \<Longrightarrow> filter (\<lambda>r. p < wr_index r) (rows_from t w k vs) = rows_from t w k vs"
  by (induction vs arbitrary: k) simp_all

lemma rows_from_filter:
  "filter (\<lambda>r. int k + int n - 1 < wr_index r) (rows_from t w k vs) = rows_from t w (k + n) (drop n vs)"
proof (induction vs arbitrary: k n)
  case (Cons v vs)
  show ?case
  proof (cases n)
    case 0
    then show ?thesis using rows_from_filter_all [of "int k - 1" k t w "v # vs"] by simp
  next
    case (Suc m)
    then show ?thesis using Cons.IH [of "Suc k" m] by (simp add: algebra_simps)
  qed
qed simp

lemma feed_rows_from:
  "feed_page (rows_from t w k vs) pos (int k) acc =
     Inr (if vs = [] then pos else int (k + length vs) - 1, int (k + length vs), acc @ windows_text k vs)"
proof (induction vs arbitrary: k pos acc)
  case (Cons v vs)
  have "int k + 1 = int (Suc k)" by simp
  then show ?case
    using Cons.IH [of "Suc k" "int k" "acc @ (if k \<noteq> 0 then '','' else []) @ canonical_json v"]
    by (cases vs) simp_all
qed simp

lemma windows_text_append:
  "windows_text k (xs @ ys) = windows_text k xs @ windows_text (k + length xs) ys"
  by (induction xs arbitrary: k) simp_all

lemma stored_scan_rows:
  assumes "k \<le> length vs"
  shows "stored_scan (rows_from t w 0 vs) (int k - 1) (int k) acc =
           Inr (acc @ windows_text k (drop k vs), int (length vs))"
  using assms
proof (induction "length vs - k" arbitrary: k acc rule: less_induct)
  case less
  define page where "page = take page_rows (drop k vs)"
  have page: "window_page (rows_from t w 0 vs) (int k - 1) = rows_from t w k page"
    using rows_from_filter [of 0 k t w vs]
    by (simp add: window_page_def rows_from_sorted rows_from_take page_def)
  show ?case
  proof (cases "page = []")
    case True
    with less.prems have "drop k vs = []" by (auto simp: page_def page_rows_def)
    with less.prems True page show ?thesis
      by (subst stored_scan.simps) (simp add: Let_def)
  next
    case False
    define m where "m = k + length page"
    have m: "m \<le> length vs" "length vs - m < length vs - k"
      using False less.prems by (auto simp: m_def page_def page_rows_def)
    have "take n ys @ drop (length (take n ys)) ys = ys" for n and ys :: "pv list"
      by (cases "n \<le> length ys") simp_all
    from this [of page_rows "drop k vs"] have rest: "drop k vs = page @ drop m vs"
      unfolding page_def m_def by (simp only: drop_drop add.commute)
    have "stored_scan (rows_from t w 0 vs) (int k - 1) (int k) acc =
            stored_scan (rows_from t w 0 vs) (int m - 1) (int m) (acc @ windows_text k page)"
      using False page by (subst stored_scan.simps) (simp add: Let_def feed_rows_from m_def)
    also have "\<dots> = Inr ((acc @ windows_text k page) @ windows_text m (drop m vs), int (length vs))"
      using m by (intro less.hyps) simp_all
    also have "\<dots> = Inr (acc @ windows_text k (drop k vs), int (length vs))"
      by (simp add: rest windows_text_append m_def)
    finally show ?thesis .
  qed
qed

lemma windows_text_join: "windows_text 0 vs = join '','' (map canonical_json vs)"
proof -
  have "windows_text (Suc k) ws = concat (map (\<lambda>y. '','' @ y) (map canonical_json ws))" for k ws
    by (induction ws arbitrary: k) simp_all
  then show ?thesis by (cases vs) (simp_all add: join_def comp_def)
qed

lemma payload_text:
  \<open>canonical_json (PDict [(''cursor'', c), (''windows'', PList vs), (''summary'', PDict s)]) =
     ''{"cursor":'' @ canonical_json c @ '',"summary":'' @ canonical_json (PDict s)
       @ '',"windows":['' @ windows_text 0 vs @ '']}''\<close>
proof -
  have "sort_key fst [(''cursor'', a), (''windows'', b), (''summary'', e)] =
          [(''cursor'', a), (''summary'', e), (''windows'', b)]" for a b e :: pv
    by (simp add: less_char_def less_eq_char_def)
  then show ?thesis
    by (simp add: canonical_json_def [abs_def] json_object_def join_def json_str_def json_char_def
        windows_text_join comp_def)
qed

end
