(* ===== verification/Streaming_Store.thy ===== *)
theory Streaming_Store
  imports Streaming_Payload Event_Log
begin

text \<open>
  The store of \<open>StreamingStateRepository\<close> (\<open>streaming_state.py\<close>) and its operations on a
  single task: creation, the lease a worker takes with \<open>claim_task\<close>, stages, the terminal
  states and the completion of a claim. The store \<open>sdb\<close> holds one list of rows per table; an
  operation takes the store and returns the new store with its result, or the exception, in
  which case the transaction is rolled back and no store is returned. The clock and
  \<open>uuid4\<close> are the arguments \<open>now\<close> and \<open>fresh\<close>. A row of \<open>streaming_tasks\<close> keeps its columns
  beside the decoded \<open>task_json\<close>.
\<close>

subsection \<open>State\<close>

datatype tstatus = TQueued | TRunning | TFailed | TInterrupted | TCompleted | TConflict

datatype tstage =
  Reading | Spooling | Mining | Aggregating | StageCompleted | StageFailed | StageConflict

record descriptor =
  ds_kind :: string
  ds_identity :: "(string \<times> pv) list"
  ds_configuration :: "(string \<times> pv) list"

definition descriptor_to_dict :: "descriptor \<Rightarrow> pv" where
  "descriptor_to_dict d = PDict [(''kind'', PStr (ds_kind d)), (''identity'', PDict (ds_identity d)),
     (''configuration'', PDict (ds_configuration d))]"

record stream_task =
  tk_id :: string
  tk_source :: pv
  tk_config_hash :: string
  tk_status :: tstatus
  tk_stage :: tstage
  tk_cursor :: pv
  tk_windows :: int
  tk_records :: int
  tk_pending :: pv
  tk_result :: pv
  tk_result_ref :: pv
  tk_error :: "string option"
  tk_error_details :: pv
  tk_lease :: "string option"
  tk_miner :: pv
  tk_input_job :: "string option"
  tk_created :: string
  tk_updated :: string

record task_row =
  tr_id :: string
  tr_kind :: string
  tr_config_hash :: string
  tr_status :: tstatus
  tr_stage :: tstage
  tr_cursor :: pv
  tr_task :: stream_task
  tr_updated :: string

record commit_row =
  cm_task :: string
  cm_window :: string
  cm_cursor :: pv
  cm_summary :: "(string \<times> pv) list"
  cm_at :: string
  cm_hash :: string
  cm_manifest :: pv              \<comment> \<open>\<open>PNone\<close> for a NULL column\<close>

record queue_row =
  q_task :: string
  q_hash :: string
  q_component :: string
  q_start :: string
  q_config :: string
  q_count :: int
  q_template :: template
  q_status :: string
  q_created :: string
  q_updated :: string

record generation_row =
  g_task :: string
  g_name :: string
  g_status :: string
  g_frontier :: pv
  g_summary :: "(string \<times> pv) list"

record 'l sdb =
  s_tasks :: "task_row list"
  s_events :: "event_row list"
  s_commits :: "commit_row list"
  s_windows :: "window_row list"
  s_queue :: "queue_row list"
  s_generations :: "generation_row list"
  s_ledger :: 'l                 \<comment> \<open>the tables of the operational ledger\<close>

definition find_task :: "string \<Rightarrow> 'l sdb \<Rightarrow> task_row option" where
  "find_task task_id db = find (\<lambda>r. tr_id r = task_id) (s_tasks db)"

definition append_event :: "string \<Rightarrow> string \<times> pv \<times> string \<Rightarrow> 'l sdb \<Rightarrow> 'l sdb" where
  "append_event task_id e db =
     (case e of (event_type, payload, now) \<Rightarrow>
        db\<lparr>s_events := append_row 0 task_id event_type payload None now (s_events db)\<rparr>)"

text \<open>
  \<open>UPDATE streaming_tasks SET status=?, stage=?, task_json=?, updated_at=? WHERE task_id=?\<close>,
  and the form that leaves the status columns alone.
\<close>

definition write_task :: "string \<Rightarrow> stream_task \<Rightarrow> string \<Rightarrow> 'l sdb \<Rightarrow> 'l sdb" where
  "write_task task_id task now db =
     db\<lparr>s_tasks := upd_where (\<lambda>r. tr_id r = task_id)
       (\<lambda>r. r\<lparr>tr_status := tk_status task, tr_stage := tk_stage task, tr_task := task, tr_updated := now\<rparr>)
       (s_tasks db)\<rparr>"

definition write_json :: "string \<Rightarrow> stream_task \<Rightarrow> string \<Rightarrow> 'l sdb \<Rightarrow> 'l sdb" where
  "write_json task_id task now db =
     db\<lparr>s_tasks := upd_where (\<lambda>r. tr_id r = task_id)
       (\<lambda>r. r\<lparr>tr_task := task, tr_updated := now\<rparr>) (s_tasks db)\<rparr>"

text \<open>\<open>str(task.get("lease_token") or "")\<close> and the test every fenced operation makes.\<close>

definition lease_text :: "stream_task \<Rightarrow> string" where
  "lease_text task = (case tk_lease task of None \<Rightarrow> [] | Some t \<Rightarrow> t)"

definition holds_lease :: "stream_task \<Rightarrow> string \<Rightarrow> bool" where
  "holds_lease task token = (tk_status task = TRunning \<and> lease_text task = token)"

definition lost_lease :: "stream_task \<Rightarrow> string option \<Rightarrow> bool" where
  "lost_lease task token = (case token of None \<Rightarrow> False | Some t \<Rightarrow> \<not> holds_lease task t)"

subsection \<open>Operations\<close>

definition get_task :: "string \<Rightarrow> 'l sdb \<Rightarrow> stream_task res" where
  "get_task task_id db = (case find_task task_id db of None \<Rightarrow> Inl KeyErr | Some r \<Rightarrow> Inr (tr_task r))"

definition new_task :: "descriptor \<Rightarrow> string \<Rightarrow> string \<Rightarrow> string \<Rightarrow> stream_task" where
  "new_task descriptor config_hash task_id now =
     \<lparr>tk_id = task_id, tk_source = descriptor_to_dict descriptor, tk_config_hash = config_hash,
      tk_status = TQueued, tk_stage = Reading, tk_cursor = cursor_to_dict cursor_empty,
      tk_windows = 0, tk_records = 0, tk_pending = PNone, tk_result = PNone, tk_result_ref = PNone,
      tk_error = None, tk_error_details = PNone, tk_lease = None, tk_miner = PNone,
      tk_input_job = None, tk_created = now, tk_updated = now\<rparr>"

text \<open>
  The table accepts the kinds \<open>file\<close> and \<open>kafka\<close> only (a CHECK of the schema), and refuses a
  second row with the same key.
\<close>

definition create_or_load ::
  "string \<Rightarrow> string \<Rightarrow> descriptor \<Rightarrow> string \<Rightarrow> string option \<Rightarrow> 'l sdb \<Rightarrow> ('l sdb \<times> stream_task) res" where
  "create_or_load now fresh descriptor config_hash task_id db =
     (if config_hash = [] then Inl (StateErr ''config_hash'') else
      let given = (case task_id of None \<Rightarrow> [] | Some t \<Rightarrow> t);
          tid = (if given = [] then ''stream_'' @ fresh else given)
      in case (if given = [] then None else find_task given db) of
           Some row \<Rightarrow> Inr (db, tr_task row)
         | None \<Rightarrow>
             let task = new_task descriptor config_hash tid now in
             if ds_kind descriptor \<notin> {''file'', ''kafka''} then Inl (DatabaseErr ''source_kind'')
             else if find_task tid db \<noteq> None then Inl (DatabaseErr ''task_id'')
             else Inr (append_event tid (''task_created'',
                    PDict [(''source_kind'', PStr (ds_kind descriptor)), (''config_hash'', PStr config_hash)], now)
                  (db\<lparr>s_tasks := s_tasks db @ [\<lparr>tr_id = tid, tr_kind = ds_kind descriptor,
                       tr_config_hash = config_hash, tr_status = tk_status task, tr_stage = tk_stage task,
                       tr_cursor = tk_cursor task, tr_task = task, tr_updated = now\<rparr>]\<rparr>), task))"

definition update_task ::
  "string \<Rightarrow> string \<Rightarrow> tstatus \<Rightarrow> tstage \<Rightarrow> string \<Rightarrow> string option \<Rightarrow> 'l sdb \<Rightarrow> ('l sdb \<times> stream_task) res" where
  "update_task now task_id status stage event_type err db =
     (case find_task task_id db of
        None \<Rightarrow> Inl KeyErr
      | Some row \<Rightarrow>
          let task = (tr_task row)\<lparr>tk_status := status, tk_stage := stage, tk_error := err, tk_updated := now\<rparr>;
              payload = (case err of None \<Rightarrow> [] | Some e \<Rightarrow> if e = [] then [] else [(''error'', PStr e)])
          in Inr (append_event task_id (event_type, PDict payload, now) (write_task task_id task now db), task))"

definition mark_running :: "string \<Rightarrow> string \<Rightarrow> 'l sdb \<Rightarrow> ('l sdb \<times> stream_task) res" where
  "mark_running now task_id = update_task now task_id TRunning Reading ''task_started'' None"

definition stage_allowed :: "tstage \<Rightarrow> bool" where
  "stage_allowed stage = (stage \<in> {Reading, Spooling, Mining, Aggregating})"

definition mark_stage :: "string \<Rightarrow> string \<Rightarrow> tstage \<Rightarrow> 'l sdb \<Rightarrow> ('l sdb \<times> stream_task) res" where
  "mark_stage now task_id stage db =
     (if \<not> stage_allowed stage then Inl (StateErr ''stage'')
      else update_task now task_id TRunning stage ''stage_changed'' None db)"

definition mark_failed ::
  "string \<Rightarrow> string \<Rightarrow> string \<Rightarrow> bool \<Rightarrow> 'l sdb \<Rightarrow> ('l sdb \<times> stream_task) res" where
  "mark_failed now task_id err conflict =
     update_task now task_id (if conflict then TConflict else TFailed)
       (if conflict then StageConflict else StageFailed)
       (if conflict then ''task_conflict'' else ''task_failed'') (Some err)"

text \<open>The fixed message of an interrupted task is represented by its English gloss.\<close>

definition interrupt_message :: string where
  "interrupt_message = ''interrupted by service restart''"

definition mark_interrupted :: "string \<Rightarrow> string \<Rightarrow> 'l sdb \<Rightarrow> ('l sdb \<times> stream_task) res" where
  "mark_interrupted now task_id =
     update_task now task_id TInterrupted StageFailed ''task_interrupted'' (Some interrupt_message)"

definition mark_completed :: "string \<Rightarrow> 'l sdb \<Rightarrow> ('l sdb \<times> stream_task) res" where
  "mark_completed task_id db = Inl (IncompleteErr ''unverified'')"

definition count_active_tasks :: "string \<Rightarrow> 'l sdb \<Rightarrow> nat" where
  "count_active_tasks kind db =
     count_where (\<lambda>r. tr_kind r = kind \<and> tr_status r \<in> {TQueued, TRunning}) (s_tasks db)"

text \<open>\<open>ORDER BY updated_at DESC, task_id DESC LIMIT\<close>.\<close>

definition list_tasks :: "int \<Rightarrow> 'l sdb \<Rightarrow> stream_task list" where
  "list_tasks limit db =
     map tr_task (take (nat (clamp 1 500 limit))
       (rev (sort_key (\<lambda>r. (tr_updated r, tr_id r)) (s_tasks db))))"

definition claim_task :: "string \<Rightarrow> string \<Rightarrow> string \<Rightarrow> 'l sdb \<Rightarrow> ('l sdb \<times> stream_task) res" where
  "claim_task now fresh task_id db =
     (case find_task task_id db of
        None \<Rightarrow> Inl KeyErr
      | Some row \<Rightarrow>
          if tr_status row = TRunning \<or> tk_status (tr_task row) = TRunning then Inl BusyErr
          else
            let task = (tr_task row)\<lparr>tk_status := TRunning, tk_stage := Reading, tk_error := None,
                          tk_lease := Some fresh, tk_updated := now\<rparr>;
                mine = (\<lambda>r. tr_id r = task_id \<and> tr_status r = tr_status row)
            in if count_where mine (s_tasks db) \<noteq> 1 then Inl BusyErr
               else Inr (append_event task_id (''task_claimed'', PDict [], now)
                 (db\<lparr>s_tasks := upd_where mine
                    (\<lambda>r. r\<lparr>tr_status := TRunning, tr_stage := Reading, tr_task := task, tr_updated := now\<rparr>)
                    (s_tasks db)\<rparr>), task))"

definition mark_claim_stage ::
  "string \<Rightarrow> string \<Rightarrow> string \<Rightarrow> tstage \<Rightarrow> 'l sdb \<Rightarrow> ('l sdb \<times> stream_task) res" where
  "mark_claim_stage now task_id lease_token stage db =
     (if \<not> stage_allowed stage then Inl (StateErr ''stage'') else
      case find_task task_id db of
        None \<Rightarrow> Inl KeyErr
      | Some row \<Rightarrow>
          if \<not> holds_lease (tr_task row) lease_token then Inl (ConflictErr ''lease'')
          else
            let task = (tr_task row)\<lparr>tk_status := TRunning, tk_stage := stage, tk_error := None, tk_updated := now\<rparr>
            in Inr (append_event task_id (''stage_changed'', PDict [], now) (write_task task_id task now db), task))"

definition attach_input_job ::
  "string \<Rightarrow> string \<Rightarrow> string \<Rightarrow> 'l sdb \<Rightarrow> ('l sdb \<times> stream_task) res" where
  "attach_input_job now task_id input_job_id db =
     (if input_job_id = [] then Inl (StateErr ''input_job_id'') else
      case find_task task_id db of
        None \<Rightarrow> Inl KeyErr
      | Some row \<Rightarrow>
          let task = (tr_task row)\<lparr>tk_input_job := Some input_job_id, tk_updated := now\<rparr>
          in Inr (append_event task_id (''input_job_attached'', PDict [(''input_job_id'', PStr input_job_id)], now)
                   (write_json task_id task now db), task))"

text \<open>\<open>finish_claim\<close> returns the task unchanged to a worker that lost its lease.\<close>

definition finish_claim ::
  "string \<Rightarrow> string \<Rightarrow> string \<Rightarrow> string \<Rightarrow> bool \<Rightarrow> bool \<Rightarrow> pv \<Rightarrow> 'l sdb \<Rightarrow> ('l sdb \<times> stream_task) res" where
  "finish_claim now task_id lease_token err interrupted conflict details db =
     (case find_task task_id db of
        None \<Rightarrow> Inl KeyErr
      | Some row \<Rightarrow>
          if \<not> holds_lease (tr_task row) lease_token then Inr (db, tr_task row)
          else
            let (status, stage, event_type) =
                  (if conflict then (TConflict, StageConflict, ''task_conflict'')
                   else if interrupted then (TInterrupted, StageFailed, ''task_interrupted'')
                   else (TFailed, StageFailed, ''task_failed''));
                task = (tr_task row)\<lparr>tk_status := status, tk_stage := stage, tk_error := Some err, tk_updated := now\<rparr>;
                task' = (if details = PNone then task else task\<lparr>tk_error_details := details\<rparr>);
                payload = (''error'', PStr err) # (if details = PNone then [] else [(''details'', details)])
            in Inr (append_event task_id (event_type, PDict payload, now) (write_task task_id task' now db), task'))"

definition clear_pending_external_commit ::
  "string \<Rightarrow> string \<Rightarrow> pv \<Rightarrow> string option \<Rightarrow> 'l sdb \<Rightarrow> ('l sdb \<times> stream_task) res" where
  "clear_pending_external_commit now task_id cur expected_lease_token db =
     bind_res (cursor_from_dict cur) (\<lambda>c.
     case find_task task_id db of
       None \<Rightarrow> Inl KeyErr
     | Some row \<Rightarrow>
         if lost_lease (tr_task row) expected_lease_token
         then Inl (ConflictErr ''lease'')
         else if py_eq (tk_pending (tr_task row)) (cursor_to_dict c) then
           let task = (tr_task row)\<lparr>tk_pending := PNone, tk_updated := now\<rparr>
           in Inr (append_event task_id (''external_commit_completed'', PDict [], now)
                    (write_json task_id task now db), task)
         else Inr (db, tr_task row))"

definition save_result ::
  "string \<Rightarrow> string \<Rightarrow> (string \<times> pv) list \<Rightarrow> string option \<Rightarrow> pv \<Rightarrow> 'l sdb \<Rightarrow> ('l sdb \<times> stream_task) res" where
  "save_result now task_id result expected_lease_token result_reference db =
     bind_res (reject_raw_fields (PDict result)) (\<lambda>_.
     case find_task task_id db of
       None \<Rightarrow> Inl KeyErr
     | Some row \<Rightarrow>
         if lost_lease (tr_task row) expected_lease_token
         then Inl (ConflictErr ''lease'')
         else
           let task = (tr_task row)\<lparr>tk_result := PDict result, tk_updated := now\<rparr>;
               task' = (if result_reference = PNone then task else task\<lparr>tk_result_ref := result_reference\<rparr>)
           in Inr (append_event task_id (''result_saved'', PDict [], now) (write_json task_id task' now db), task'))"

text \<open>
  \<open>for task in self.list_tasks(limit=500): if task.get("status") == "running": ...\<close>; each
  interruption is a transaction of its own.
\<close>

fun interrupt_each :: "string \<Rightarrow> stream_task list \<Rightarrow> nat \<Rightarrow> 'l sdb \<Rightarrow> ('l sdb \<times> nat) res" where
  "interrupt_each now [] n db = Inr (db, n)"
| "interrupt_each now (t # ts) n db =
     (if tk_status t = TRunning
      then bind_res (mark_interrupted now (tk_id t) db) (\<lambda>(db', _). interrupt_each now ts (Suc n) db')
      else interrupt_each now ts n db)"

definition interrupt_running_tasks :: "string \<Rightarrow> 'l sdb \<Rightarrow> ('l sdb \<times> nat) res" where
  "interrupt_running_tasks now db = interrupt_each now (list_tasks 500 db) 0 db"

end
