(* ===== verification/Streaming_Commit.thy ===== *)
theory Streaming_Commit
  imports Streaming_Store
begin

text \<open>
  Batches and their evidence (\<open>streaming_state.py\<close>): \<open>commit_window\<close>, which stores one batch,
  advances the checkpoint and queues the unknown templates in one transaction;
  \<open>committed_summary\<close>, \<open>require_complete_prefix\<close>, which re-verifies the whole committed
  history of a task, and \<open>complete_claim\<close>, the only way a task becomes completed. The
  operational ledger is an optional argument \<open>ledger\<close> that updates its own tables.
\<close>

subsection \<open>Committing a batch\<close>

record commit_args =
  ca_window :: string
  ca_cursor :: pv
  ca_templates :: "(string \<times> pv) list list"
  ca_windows :: "(string \<times> pv) list list option"
  ca_summary :: "(string \<times> pv) list"
  ca_ledger :: "pv option"
  ca_fencing :: "string option"
  ca_miner :: pv
  ca_expected :: "pv option"

definition queue_key :: "string \<Rightarrow> template \<Rightarrow> queue_row \<Rightarrow> bool" where
  "queue_key task_id t r = (q_task r = task_id \<and> q_hash r = tm_hash t \<and> q_start r = tm_window_start t)"

text \<open>\<open>INSERT INTO unknown_template_queue ... ON CONFLICT DO UPDATE\<close>.\<close>

definition upsert_queue ::
  "string \<Rightarrow> string \<Rightarrow> string \<Rightarrow> template \<Rightarrow> queue_row list \<Rightarrow> queue_row list" where
  "upsert_queue task_id config_hash now t rows =
     (if exists_where (queue_key task_id t) rows
      then upd_where (queue_key task_id t)
             (\<lambda>r. r\<lparr>q_count := q_count r + tm_count t, q_template := t, q_updated := now\<rparr>) rows
      else rows @ [\<lparr>q_task = task_id, q_hash = tm_hash t, q_component = tm_component t,
             q_start = tm_window_start t, q_config = config_hash, q_count = tm_count t,
             q_template = t, q_status = ''open'', q_created = now, q_updated = now\<rparr>])"

definition find_commit :: "string \<Rightarrow> string \<Rightarrow> 'l sdb \<Rightarrow> commit_row option" where
  "find_commit task_id window_id db =
     find (\<lambda>r. cm_task r = task_id \<and> cm_window r = window_id) (s_commits db)"

text \<open>The writes of a new batch.\<close>

definition store_batch ::
  "string \<Rightarrow> string \<Rightarrow> commit_args \<Rightarrow> task_row \<Rightarrow> pv \<Rightarrow> template list \<Rightarrow> pv list \<Rightarrow> string \<Rightarrow> int
     \<Rightarrow> 'l sdb \<Rightarrow> 'l sdb" where
  "store_batch now task_id a row cursor_value templates windows batch_hash records db =
     (let old = tr_task row;
          manifest = (if ca_miner a \<noteq> PNone then ca_miner a else tk_miner old);
          task = old\<lparr>tk_status := TRunning, tk_stage := Aggregating, tk_cursor := cursor_value,
                   tk_windows := tk_windows old + 1, tk_records := tk_records old + records,
                   tk_pending := cursor_value, tk_updated := now,
                   tk_miner := (if ca_miner a \<noteq> PNone then ca_miner a else tk_miner old)\<rparr>
      in append_event task_id (''window_committed'',
             PDict [(''window_id'', PStr (ca_window a)), (''template_count'', PInt (int (length templates)))], now)
         (db\<lparr>s_commits := s_commits db @ [\<lparr>cm_task = task_id, cm_window = ca_window a,
                cm_cursor = cursor_value, cm_summary = ca_summary a, cm_at = now,
                cm_hash = batch_hash, cm_manifest = manifest\<rparr>],
             s_windows := s_windows db @ rows_from task_id (ca_window a) 0 windows,
             s_queue := fold (upsert_queue task_id (tr_config_hash row) now) templates (s_queue db),
             s_tasks := upd_where (\<lambda>r. tr_id r = task_id)
               (\<lambda>r. r\<lparr>tr_status := tk_status task, tr_stage := tk_stage task, tr_cursor := cursor_value,
                      tr_task := task, tr_updated := now\<rparr>) (s_tasks db)\<rparr>))"

text \<open>The ledger call, made before the batch is looked up.\<close>

definition record_ingestion ::
  "(pv \<Rightarrow> 'l \<Rightarrow> 'l res) option \<Rightarrow> pv option \<Rightarrow> 'l sdb \<Rightarrow> 'l sdb res" where
  "record_ingestion ledger batch db =
     (case ledger of
        None \<Rightarrow> Inr db
      | Some op \<Rightarrow>
          (case batch of
             None \<Rightarrow> Inl (StateErr ''ingestion_receipt'')
           | Some b \<Rightarrow> bind_res (op b (s_ledger db)) (\<lambda>l. Inr (db\<lparr>s_ledger := l\<rparr>))))"

text \<open>A batch that is not stored yet: the frontier tests, then the writes.\<close>

definition expected_matches :: "pv option \<Rightarrow> cursor \<Rightarrow> bool res" where
  "expected_matches expected current =
     (case expected of
        None \<Rightarrow> Inr True
      | Some e \<Rightarrow> bind_res (cursor_from_dict e) (\<lambda>x. Inr (py_eq (cursor_to_dict x) (cursor_to_dict current))))"

definition append_batch ::
  "string \<Rightarrow> string \<Rightarrow> commit_args \<Rightarrow> task_row \<Rightarrow> pv \<Rightarrow> template list \<Rightarrow> pv list \<Rightarrow> string \<Rightarrow> 'l sdb
     \<Rightarrow> ('l sdb \<times> bool) res" where
  "append_batch now task_id a row cursor_value templates windows batch_hash db =
     bind_res (cursor_from_dict (tk_cursor (tr_task row))) (\<lambda>current.
     bind_res (expected_matches (ca_expected a) current) (\<lambda>same.
     if \<not> same then Inl (ConflictErr ''frontier'') else
     bind_res (cursor_is_at_least cursor_value current) (\<lambda>forward.
     if \<not> forward then Inl (ConflictErr ''rewind'') else
     bind_res (int_or0 (dget (ca_summary a) ''record_count'')) (\<lambda>records.
     Inr (store_batch now task_id a row cursor_value templates windows batch_hash records db, True)))))"

definition commit_window ::
  "(string \<Rightarrow> string) \<Rightarrow> (pv \<Rightarrow> 'l \<Rightarrow> 'l res) option \<Rightarrow> string \<Rightarrow> string \<Rightarrow> commit_args \<Rightarrow> 'l sdb
     \<Rightarrow> ('l sdb \<times> bool) res" where
  "commit_window sha ledger now task_id a db =
     (if ca_window a = [] then Inl (StateErr ''window_id'') else
      bind_res (cursor_from_dict (ca_cursor a)) (\<lambda>c.
      let cursor_value = cursor_to_dict c in
      bind_res (map_res safe_template (ca_templates a)) (\<lambda>templates.
      bind_res (map_res safe_window (case ca_windows a of None \<Rightarrow> ca_templates a | Some ws \<Rightarrow> ws)) (\<lambda>windows.
      bind_res (validate_new_summary (ca_summary a)) (\<lambda>_.
      let batch_hash = payload_hash sha cursor_value windows (ca_summary a) in
      case find_task task_id db of
        None \<Rightarrow> Inl KeyErr
      | Some row \<Rightarrow>
          if lost_lease (tr_task row) (ca_fencing a) then Inl (ConflictErr ''lease'')
          else
            bind_res (record_ingestion ledger (ca_ledger a) db) (\<lambda>db1.
            case find_commit task_id (ca_window a) db1 of
              Some existing \<Rightarrow>
                if cm_hash existing \<noteq> [] \<and> cm_hash existing \<noteq> batch_hash
                then Inl (ConflictErr ''payload'')
                else Inr (db1, False)
            | None \<Rightarrow> append_batch now task_id a row (cursor_to_dict c) templates windows batch_hash db1))))))"

subsection \<open>The summary of the committed batches\<close>

definition sum_fields :: "string list" where
  "sum_fields = [''record_count'', ''template_count'', ''unknown_template_count'',
     ''risk_semantic_matches'', ''template_event_count'', ''partition_count'']"

definition required_fields :: "string list" where
  "required_fields = sum_fields @ [''worker_count'', ''parallel'', ''node_risk_enabled'', ''process_start_method'']"

record summary_acc =
  sa_sums :: "string \<Rightarrow> int"
  sa_workers :: int
  sa_flags :: "string \<Rightarrow> bool"
  sa_missing :: "string set"
  sa_invalid :: "string set"
  sa_methods :: "string set"
  sa_method_unknown :: bool

definition summary_start :: summary_acc where
  "summary_start = \<lparr>sa_sums = (\<lambda>_. 0), sa_workers = 0, sa_flags = (\<lambda>_. False), sa_missing = {},
     sa_invalid = {}, sa_methods = {}, sa_method_unknown = False\<rparr>"

definition int_of :: "pv \<Rightarrow> int" where
  "int_of v = (case v of PInt i \<Rightarrow> i | _ \<Rightarrow> 0)"

definition summary_step :: "(string \<times> pv) list \<Rightarrow> summary_acc \<Rightarrow> summary_acc" where
  "summary_step summary acc =
     (let wv = dget summary ''worker_count''; method = dget summary ''process_start_method'' in
      \<lparr>sa_sums = (\<lambda>key. sa_sums acc key
          + (if is_nonnegative_int (dget summary key) then int_of (dget summary key) else 0)),
       sa_workers = (if is_nonnegative_int wv then max (sa_workers acc) (int_of wv) else sa_workers acc),
       sa_flags = (\<lambda>key. sa_flags acc key \<or> dget summary key = PBool True),
       sa_missing = sa_missing acc \<union> set (filter (\<lambda>key. dget summary key = PNone) required_fields),
       sa_invalid = sa_invalid acc
          \<union> set (filter (\<lambda>key. dget summary key \<noteq> PNone \<and> \<not> is_nonnegative_int (dget summary key))
                  (sum_fields @ [''worker_count'']))
          \<union> set (filter (\<lambda>key. dget summary key \<noteq> PNone \<and> \<not> is_bool (dget summary key))
                  [''parallel'', ''node_risk_enabled''])
          \<union> (if method \<in> {PNone, PStr ''spawn'', PStr ''fork'', PStr ''forkserver'', PStr ''not_applicable''}
             then {} else {''process_start_method''}),
       sa_methods = sa_methods acc
          \<union> (case method of PStr m \<Rightarrow> if m \<in> {''spawn'', ''fork'', ''forkserver''} then {m} else {} | _ \<Rightarrow> {}),
       sa_method_unknown = (sa_method_unknown acc \<or> method = PNone)\<rparr>)"

record summary_totals =
  su_totals :: "(string \<times> pv) list"
  su_method :: string
  su_unknown :: "string list"
  su_invalid :: "string list"
  su_completeness :: string

definition total_of :: "summary_acc \<Rightarrow> string \<Rightarrow> pv" where
  "total_of acc key =
     (if key \<in> sa_invalid acc then PNone
      else if key \<in> {''parallel'', ''node_risk_enabled''} then
        (if key \<in> sa_missing acc \<and> \<not> sa_flags acc key then PNone else PBool (sa_flags acc key))
      else if key \<in> sa_missing acc then PNone
      else if key = ''worker_count'' then PInt (sa_workers acc)
      else PInt (sa_sums acc key))"

definition start_method :: "summary_acc \<Rightarrow> string" where
  "start_method acc =
     (if sa_method_unknown acc \<or> ''process_start_method'' \<in> sa_invalid acc then ''unknown''
      else case sorted_list_of_set (sa_methods acc) of
          [] \<Rightarrow> ''not_applicable'' | [m] \<Rightarrow> m | _ \<Rightarrow> ''mixed'')"

definition committed_summary :: "string \<Rightarrow> 'l sdb \<Rightarrow> summary_totals" where
  "committed_summary task_id db =
     (let rows = filter (\<lambda>r. cm_task r = task_id) (s_commits db);
          acc = fold (\<lambda>r. summary_step (cm_summary r)) rows summary_start
      in \<lparr>su_totals = map (\<lambda>key. (key, total_of acc key))
            (sum_fields @ [''worker_count'', ''parallel'', ''node_risk_enabled'']),
          su_method = start_method acc,
          su_unknown = sorted_list_of_set (sa_missing acc),
          su_invalid = sorted_list_of_set (sa_invalid acc),
          su_completeness = (if sa_missing acc \<noteq> {} \<or> sa_invalid acc \<noteq> {} then ''legacy_partial'' else ''complete'')\<rparr>)"

end
