(* ===== verification/Streaming_Prefix.thy ===== *)
theory Streaming_Prefix
  imports Streaming_Commit
begin

text \<open>
  The evidence that the committed history of a task is complete (\<open>require_complete_prefix\<close>), the
  completion of a claim on that evidence (\<open>complete_claim\<close>), and the read-only listings of
  \<open>streaming_state.py\<close>. The reasons of \<open>StreamingIncompleteError\<close> are kept as in the source.
\<close>

record prefix_evidence =
  pe_task :: string
  pe_frontier :: pv
  pe_batches :: int
  pe_records :: int
  pe_completeness :: string
  pe_history :: string
  pe_unknown :: "string list"
  pe_invalid :: "string list"
  pe_digest :: string

text \<open>\<open>PrefixEvidence.integrity\<close>.\<close>

definition integrity :: "prefix_evidence \<Rightarrow> string \<Rightarrow> pv" where
  "integrity e lease_token =
     PDict [(''task_id'', PStr (pe_task e)), (''frontier'', pe_frontier e),
       (''commit_count'', PInt (pe_batches e)), (''record_count'', PInt (pe_records e)),
       (''prefix_digest'', PStr (pe_digest e)), (''lease_token'', PStr lease_token)]"

subsection \<open>The scan over the committed batches\<close>

record scan_state =
  ss_commits :: int
  ss_records :: int
  ss_previous :: cursor
  ss_manifest_unknown :: bool
  ss_last_manifest :: pv
  ss_digest :: string           \<comment> \<open>what the digest has been fed so far\<close>

definition scan_start :: scan_state where
  "scan_start = \<lparr>ss_commits = 0, ss_records = 0, ss_previous = cursor_empty,
     ss_manifest_unknown = False, ss_last_manifest = PNone, ss_digest = []\<rparr>"

definition valid_manifest :: "pv \<Rightarrow> bool" where
  "valid_manifest m =
     (case m of PDict d \<Rightarrow> str_or (dget d ''generation'') \<noteq> []
                  \<and> (case dget d ''files'' of PDict _ \<Rightarrow> True | _ \<Rightarrow> False)
      | _ \<Rightarrow> False)"

definition scan_commit ::
  "(string \<Rightarrow> string) \<Rightarrow> window_row list \<Rightarrow> string \<Rightarrow> commit_row \<Rightarrow> scan_state \<Rightarrow> scan_state res" where
  "scan_commit sha rows task_id r st =
     (let record_value = dget (cm_summary r) ''record_count'' in
      if \<not> is_nonnegative_int record_value then Inl (IncompleteErr ''record_count'') else
      bind_res (cursor_is_at_least (cm_cursor r) (ss_previous st)) (\<lambda>forward.
      if \<not> forward then Inl (IncompleteErr ''frontier'') else
      bind_res (cursor_from_dict (cm_cursor r)) (\<lambda>previous.
      if cm_hash r = [] then Inl (IncompleteErr ''legacy_hash'') else
      bind_res (stored_payload_hash sha rows task_id (cm_window r) (cm_cursor r) (cm_summary r))
        (\<lambda>(actual, window_count).
      let template_count = dget (cm_summary r) ''template_count'' in
      if actual \<noteq> cm_hash r then Inl (IncompleteErr ''payload_hash'')
      else if is_nonnegative_int template_count \<and> int_of template_count \<noteq> window_count then
        Inl (IncompleteErr ''window_count'')
      else if cm_manifest r \<noteq> PNone \<and> \<not> valid_manifest (cm_manifest r) then
        Inl (IncompleteErr ''manifest'')
      else
        Inr \<lparr>ss_commits = ss_commits st + 1,
             ss_records = ss_records st + int_of record_value,
             ss_previous = previous,
             ss_manifest_unknown = (ss_manifest_unknown st \<or> cm_manifest r = PNone),
             ss_last_manifest = cm_manifest r,
             ss_digest = ss_digest st @ cm_window r @ cm_hash r @ compact_json (cm_cursor r)\<rparr>))))"

fun scan_commits ::
  "(string \<Rightarrow> string) \<Rightarrow> window_row list \<Rightarrow> string \<Rightarrow> commit_row list \<Rightarrow> scan_state \<Rightarrow> scan_state res" where
  "scan_commits sha rows task_id [] st = Inr st"
| "scan_commits sha rows task_id (r # rs) st =
     bind_res (scan_commit sha rows task_id r st) (scan_commits sha rows task_id rs)"

text \<open>\<open>ORDER BY committed_at, window_id\<close>.\<close>

definition ordered_commits :: "string \<Rightarrow> 'l sdb \<Rightarrow> commit_row list" where
  "ordered_commits task_id db =
     sort_key (\<lambda>r. (cm_at r, cm_window r)) (filter (\<lambda>r. cm_task r = task_id) (s_commits db))"

definition require_complete_prefix ::
  "(string \<Rightarrow> string) \<Rightarrow> string \<Rightarrow> 'l sdb \<Rightarrow> prefix_evidence res" where
  "require_complete_prefix sha task_id db =
     (let summary = committed_summary task_id db in
      case find_task task_id db of
        None \<Rightarrow> Inl KeyErr
      | Some row \<Rightarrow>
          let task = tr_task row in
          bind_res (scan_commits sha (s_windows db) task_id (ordered_commits task_id db) scan_start) (\<lambda>st.
          bind_res (cursor_from_dict (tk_cursor task)) (\<lambda>task_cursor.
          if ss_commits st = 0
             \<and> (\<not> cursor_eq task_cursor cursor_empty \<or> tk_windows task \<noteq> 0 \<or> tk_records task \<noteq> 0
                \<or> tk_pending task \<noteq> PNone \<or> tk_miner task \<noteq> PNone) then
            Inl (IncompleteErr ''cursor_only'')
          else if ss_commits st \<noteq> 0
             \<and> \<not> py_eq (cursor_to_dict task_cursor) (cursor_to_dict (ss_previous st)) then
            Inl (IncompleteErr ''frontier'')
          else if ss_last_manifest st \<noteq> PNone \<and> \<not> py_eq (tk_miner task) (ss_last_manifest st) then
            Inl (IncompleteErr ''manifest_frontier'')
          else if tk_windows task \<noteq> ss_commits st then Inl (IncompleteErr ''commit_count'')
          else if tk_records task < 0 \<or> tk_records task \<noteq> ss_records st then
            Inl (IncompleteErr ''record_count'')
          else
            Inr \<lparr>pe_task = task_id, pe_frontier = cursor_to_dict task_cursor,
                 pe_batches = ss_commits st, pe_records = ss_records st,
                 pe_completeness = ''complete'',
                 pe_history = (if ss_manifest_unknown st then ''legacy_unknown'' else ''bound''),
                 pe_unknown = su_unknown summary, pe_invalid = su_invalid summary,
                 pe_digest = sha (ss_digest st @ compact_json (cursor_to_dict task_cursor)
                   @ int_str (ss_commits st) @ int_str (ss_records st))\<rparr>)))"

text \<open>Other exceptions than the incompleteness propagate.\<close>

definition has_legacy_partial_commits :: "(string \<Rightarrow> string) \<Rightarrow> string \<Rightarrow> 'l sdb \<Rightarrow> bool res" where
  "has_legacy_partial_commits sha task_id db =
     (case require_complete_prefix sha task_id db of
        Inr _ \<Rightarrow> Inr False
      | Inl (IncompleteErr _) \<Rightarrow> Inr True
      | Inl e \<Rightarrow> Inl e)"

subsection \<open>Completing a claim\<close>

definition saved_reference :: "stream_task \<Rightarrow> pv" where
  "saved_reference task =
     py_or (tk_result_ref task)
       (py_or (case py_or (tk_result task) (PDict []) of PDict d \<Rightarrow> dget d ''result_ref'' | _ \<Rightarrow> PNone)
         (PDict []))"

definition complete_claim ::
  "string \<Rightarrow> string \<Rightarrow> string \<Rightarrow> (string \<times> pv) list option \<Rightarrow> prefix_evidence option \<Rightarrow> 'l sdb
     \<Rightarrow> ('l sdb \<times> stream_task) res" where
  "complete_claim now task_id lease_token result_reference evidence db =
     (case find_task task_id db of
        None \<Rightarrow> Inl KeyErr
      | Some row \<Rightarrow>
          if \<not> holds_lease (tr_task row) lease_token then Inl (ConflictErr ''lease'') else
          (case (result_reference, evidence) of
             (Some reference, Some e) \<Rightarrow>
               if \<not> py_eq (saved_reference (tr_task row)) (PDict reference)
                  \<or> \<not> py_eq (dget reference ''task_id'') (PStr task_id) then
                 Inl (IncompleteErr ''result_reference'')
               else (case find (\<lambda>g. g_task g = task_id \<and> g_name g = str_or (dget reference ''generation''))
                            (s_generations db) of
                   None \<Rightarrow> Inl (IncompleteErr ''generation'')
                 | Some g \<Rightarrow>
                     if g_status g \<noteq> ''ready'' then Inl (IncompleteErr ''generation'')
                     else if \<not> py_eq (g_frontier g) (tk_cursor (tr_task row))
                          \<or> \<not> py_eq (g_frontier g) (pe_frontier e) then
                       Inl (IncompleteErr ''generation_frontier'')
                     else if \<not> py_eq (dget (g_summary g) ''_integrity'') (integrity e lease_token) then
                       Inl (IncompleteErr ''integrity'')
                     else if int (count_where (\<lambda>r. cm_task r = task_id) (s_commits db)) \<noteq> pe_batches e then
                       Inl (IncompleteErr ''commit_count'')
                     else
                       let task = (tr_task row)\<lparr>tk_status := TCompleted, tk_stage := StageCompleted,
                                     tk_error := None, tk_updated := now\<rparr>
                       in Inr (append_event task_id (''task_completed'', PDict [], now)
                                (write_task task_id task now db), task))
           | _ \<Rightarrow> Inl (IncompleteErr ''evidence'')))"

subsection \<open>Listings\<close>

text \<open>\<open>WHERE (window_id, item_index) > after ORDER BY window_id, item_index LIMIT ?\<close>.\<close>

definition iter_committed_windows ::
  "string \<Rightarrow> (string \<times> int) option \<Rightarrow> int option \<Rightarrow> 'l sdb \<Rightarrow> window_row list" where
  "iter_committed_windows task_id start limit db =
     (let rows = sort_key (\<lambda>r. (wr_window r, wr_index r))
            (filter (\<lambda>r. wr_task r = task_id
               \<and> (case start of None \<Rightarrow> True
                  | Some (w, i) \<Rightarrow> w < wr_window r \<or> (wr_window r = w \<and> i < wr_index r))) (s_windows db))
      in case limit of None \<Rightarrow> rows | Some n \<Rightarrow> take (nat (clamp 1 10000 n)) rows)"

definition list_unknown_templates :: "string option \<Rightarrow> int \<Rightarrow> 'l sdb \<Rightarrow> queue_row list" where
  "list_unknown_templates task_id limit db =
     take (nat (clamp 1 500 limit))
       (rev (sort_key q_updated (rev (sort_key q_hash
          (case task_id of
             None \<Rightarrow> s_queue db
           | Some t \<Rightarrow> if t = [] then s_queue db else filter (\<lambda>r. q_task r = t) (s_queue db))))))"

definition list_commits :: "string \<Rightarrow> 'l sdb \<Rightarrow> string list" where
  "list_commits task_id db = map cm_window (ordered_commits task_id db)"

end
