(* ===== verification/Streaming_Facts.thy ===== *)
theory Streaming_Facts
  imports Streaming_Prefix
begin

text \<open>
  What the operations on a single task leave alone. \<open>core\<close> is the part of a task row that
  describes the committed history; \<open>light\<close> relates two stores that agree on every core and on
  all tables but the tasks and the events. Every operation except \<open>create_or_load\<close> and
  \<open>commit_window\<close> is light, so that facts about the committed history pass through it. The
  locale \<open>fenced_op\<close> is the contract of the operations that demand the lease of a task: it
  is interpreted on each of them, and gives that a worker whose token is not the one of the
  running claim gets no effect.
\<close>

definition core :: "task_row \<Rightarrow> string \<times> string \<times> pv \<times> pv \<times> int \<times> int \<times> pv" where
  "core r = (tr_kind r, tr_config_hash r, tr_cursor r, tk_cursor (tr_task r), tk_windows (tr_task r),
     tk_records (tr_task r), tk_miner (tr_task r))"

definition same_history :: "task_row \<Rightarrow> task_row \<Rightarrow> bool" where
  "same_history r r' = (core r' = core r \<and> tk_pending (tr_task r') \<in> {tk_pending (tr_task r), PNone})"

definition light :: "'l sdb \<Rightarrow> 'l sdb \<Rightarrow> bool" where
  "light db db' = (s_commits db' = s_commits db \<and> s_windows db' = s_windows db \<and> s_queue db' = s_queue db
     \<and> s_generations db' = s_generations db \<and> s_ledger db' = s_ledger db
     \<and> map tr_id (s_tasks db') = map tr_id (s_tasks db)
     \<and> (\<forall>j. rel_option same_history (find_task j db) (find_task j db')))"

lemma same_history_refl [simp]: "same_history r r"
  by (simp add: same_history_def)

lemma light_refl [simp]: "light db db"
  by (simp add: light_def option.rel_refl)

lemma append_event_fields [simp]:
  "s_tasks (append_event t e db) = s_tasks db" "s_commits (append_event t e db) = s_commits db"
  "s_windows (append_event t e db) = s_windows db" "s_queue (append_event t e db) = s_queue db"
  "s_generations (append_event t e db) = s_generations db" "s_ledger (append_event t e db) = s_ledger db"
  "find_task j (append_event t e db) = find_task j db"
  by (cases e; simp add: append_event_def find_task_def)+

lemma find_task_id: "find_task j db = Some row \<Longrightarrow> tr_id row = j"
  by (auto simp: find_task_def dest: find_Some_in)

lemma find_task_in: "find_task j db = Some row \<Longrightarrow> row \<in> set (s_tasks db)"
  by (auto simp: find_task_def dest: find_Some_in)

text \<open>A row rewritten in place by an update keyed on its identifier.\<close>

lemma find_task_upd:
  assumes "\<And>r. p r \<Longrightarrow> tr_id (f r) = tr_id r"
  shows "find_task j (db\<lparr>s_tasks := upd_where p f (s_tasks db)\<rparr>) =
           map_option (\<lambda>r. if p r then f r else r) (find_task j db)"
  using assms by (simp add: find_task_def find_upd_where)

lemma find_task_write [simp]:
  "find_task j (write_task t task now db) = map_option (\<lambda>r. if j = t then r\<lparr>tr_status := tk_status task,
       tr_stage := tk_stage task, tr_task := task, tr_updated := now\<rparr> else r) (find_task j db)"
  "find_task j (write_json t task now db) =
     map_option (\<lambda>r. if j = t then r\<lparr>tr_task := task, tr_updated := now\<rparr> else r) (find_task j db)"
  unfolding write_task_def write_json_def
  by (subst find_task_upd; auto simp: find_task_id intro!: option.map_cong)+

lemma write_fields [simp]:
  "s_commits (write_task t task now db) = s_commits db" "s_commits (write_json t task now db) = s_commits db"
  "s_windows (write_task t task now db) = s_windows db" "s_windows (write_json t task now db) = s_windows db"
  "s_queue (write_task t task now db) = s_queue db" "s_queue (write_json t task now db) = s_queue db"
  "s_generations (write_task t task now db) = s_generations db"
  "s_generations (write_json t task now db) = s_generations db"
  "s_ledger (write_task t task now db) = s_ledger db" "s_ledger (write_json t task now db) = s_ledger db"
  "s_events (write_task t task now db) = s_events db" "s_events (write_json t task now db) = s_events db"
  "map tr_id (s_tasks (write_task t task now db)) = map tr_id (s_tasks db)"
  "map tr_id (s_tasks (write_json t task now db)) = map tr_id (s_tasks db)"
  by (simp_all add: write_task_def write_json_def table_simps)

lemma light_write:
  assumes "find_task t db = Some row" and "tk_cursor task = tk_cursor (tr_task row)"
    and "tk_windows task = tk_windows (tr_task row)" and "tk_records task = tk_records (tr_task row)"
    and "tk_miner task = tk_miner (tr_task row)"
    and "tk_pending task \<in> {tk_pending (tr_task row), PNone}"
  shows "light db (append_event t e (write_task t task now db))"
    and "light db (append_event t e (write_json t task now db))"
  using assms by (auto simp: light_def core_def same_history_def option.rel_map intro!: option.rel_refl_strong)

lemma light_update_task: "update_task now t st sg et er db = Inr (db', task) \<Longrightarrow> light db db'"
  by (auto simp: update_task_def Let_def intro!: light_write split: option.splits)

lemmas mark_defs = mark_running_def mark_stage_def mark_failed_def mark_interrupted_def mark_completed_def

lemma light_marks:
  "mark_running now t db = Inr (db', task) \<Longrightarrow> light db db'"
  "mark_stage now t sg db = Inr (db', task) \<Longrightarrow> light db db'"
  "mark_failed now t er c db = Inr (db', task) \<Longrightarrow> light db db'"
  "mark_interrupted now t db = Inr (db', task) \<Longrightarrow> light db db'"
  by (auto simp: mark_defs intro: light_update_task split: if_splits)

lemma light_claim: "claim_task now fresh t db = Inr (db', task) \<Longrightarrow> light db db'"
proof -
  assume a: "claim_task now fresh t db = Inr (db', task)"
  then obtain row where row: "find_task t db = Some row" by (auto simp: claim_task_def split: option.splits)
  define p where "p = (\<lambda>r::task_row. tr_id r = t \<and> tr_status r = tr_status row)"
  define f where "f = (\<lambda>r::task_row. r\<lparr>tr_status := TRunning, tr_stage := Reading, tr_task := task, tr_updated := now\<rparr>)"
  from a row have db': "db' = append_event t (''task_claimed'', PDict [], now)
      (db\<lparr>s_tasks := upd_where p f (s_tasks db)\<rparr>)"
    and task: "tk_cursor task = tk_cursor (tr_task row)" "tk_windows task = tk_windows (tr_task row)"
      "tk_records task = tk_records (tr_task row)" "tk_miner task = tk_miner (tr_task row)"
      "tk_pending task = tk_pending (tr_task row)"
    by (auto simp: claim_task_def Let_def p_def f_def split: if_splits)
  have "find_task j db' = map_option (\<lambda>r. if p r then f r else r) (find_task j db)" for j
    unfolding db' append_event_fields by (rule find_task_upd) (simp add: f_def)
  moreover have "same_history r (f r)" if "p r" "find_task j db = Some r" for j r
    using that task row find_task_id [of j db r] by (auto simp: core_def same_history_def f_def p_def)
  ultimately show ?thesis
    by (auto simp: light_def db' table_simps f_def option.rel_map intro!: option.rel_refl_strong)
qed

lemma light_claim_stage: "mark_claim_stage now t tok sg db = Inr (db', task) \<Longrightarrow> light db db'"
  by (auto simp: mark_claim_stage_def Let_def intro!: light_write split: option.splits if_splits)

lemma light_attach: "attach_input_job now t job db = Inr (db', task) \<Longrightarrow> light db db'"
  by (auto simp: attach_input_job_def Let_def intro!: light_write split: option.splits if_splits)

lemma light_finish: "finish_claim now t tok er i c d db = Inr (db', task) \<Longrightarrow> light db db'"
  by (auto simp: finish_claim_def Let_def intro!: light_write split: option.splits if_splits prod.splits)

lemma light_clear: "clear_pending_external_commit now t cur tok db = Inr (db', task) \<Longrightarrow> light db db'"
  by (auto simp: clear_pending_external_commit_def Let_def res_simps intro!: light_write
      split: option.splits if_splits)

lemma light_save: "save_result now t result tok ref db = Inr (db', task) \<Longrightarrow> light db db'"
  by (auto simp: save_result_def Let_def res_simps intro!: light_write split: option.splits if_splits)

lemma light_complete: "complete_claim now t tok ref e db = Inr (db', task) \<Longrightarrow> light db db'"
  by (auto simp: complete_claim_def Let_def intro!: light_write split: option.splits if_splits)

lemmas light_ops = light_marks light_claim light_claim_stage light_attach light_finish light_clear
  light_save light_complete

subsection \<open>The lease of a running task\<close>

definition running_lease :: "'l sdb \<Rightarrow> string \<Rightarrow> string option" where
  "running_lease db task_id =
     (case find_task task_id db of
        None \<Rightarrow> None
      | Some row \<Rightarrow> if tk_status (tr_task row) = TRunning then Some (lease_text (tr_task row)) else None)"

lemma running_lease_holds:
  "find_task t db = Some row \<Longrightarrow> running_lease db t = Some tok \<longleftrightarrow> holds_lease (tr_task row) tok"
  by (auto simp: running_lease_def holds_lease_def)

locale fenced_op =
  fixes lease :: "'s \<Rightarrow> string \<Rightarrow> string option"
    and claim :: "string \<Rightarrow> string \<Rightarrow> string \<Rightarrow> 's \<Rightarrow> ('s \<times> 'c) res"
    and op :: "string \<Rightarrow> string \<Rightarrow> 'a \<Rightarrow> 's \<Rightarrow> ('s \<times> 'b) res"
  assumes claim_lease: "claim now fresh t s = Inr (s', c) \<Longrightarrow> lease s t = None \<and> lease s' t = Some fresh"
    and op_lease: "op t tok a s = Inr r \<Longrightarrow> lease s t = Some tok"
begin

lemma late_worker: "lease s t \<noteq> Some tok \<Longrightarrow> \<exists>e. op t tok a s = Inl e"
  using op_lease [of t tok a s] by (cases "op t tok a s") auto

lemma owner_unique: "op t tok1 a1 s = Inr r1 \<Longrightarrow> op t tok2 a2 s = Inr r2 \<Longrightarrow> tok1 = tok2"
  using op_lease by (metis option.inject)

lemma takeover:
  assumes "claim now fresh t s = Inr (s', c)" and "old \<noteq> fresh"
  shows "\<exists>e. op t old a s' = Inl e"
  using claim_lease [OF assms(1)] assms(2) by (intro late_worker) simp

end

lemma claim_task_lease:
  assumes "claim_task now fresh t db = Inr (db', task)"
  shows "running_lease db t = None \<and> running_lease db' t = Some fresh"
proof -
  from assms obtain row where row: "find_task t db = Some row" and st: "tk_status (tr_task row) \<noteq> TRunning"
    by (auto simp: claim_task_def split: option.splits if_splits)
  define p where "p = (\<lambda>r::task_row. tr_id r = t \<and> tr_status r = tr_status row)"
  define f where "f = (\<lambda>r::task_row. r\<lparr>tr_status := TRunning, tr_stage := Reading, tr_task := task, tr_updated := now\<rparr>)"
  from assms row have db': "db' = append_event t (''task_claimed'', PDict [], now)
      (db\<lparr>s_tasks := upd_where p f (s_tasks db)\<rparr>)"
    and task: "tk_status task = TRunning" "tk_lease task = Some fresh"
    by (auto simp: claim_task_def Let_def p_def f_def split: if_splits)
  have "find_task t db' = map_option (\<lambda>r. if p r then f r else r) (find_task t db)"
    unfolding db' append_event_fields by (rule find_task_upd) (simp add: f_def)
  with row have "find_task t db' = Some (f row)" by (simp add: p_def find_task_id)
  with row st task show ?thesis by (simp add: running_lease_def f_def lease_text_def)
qed

interpretation stage_fence: fenced_op running_lease claim_task
  "\<lambda>t tok (now, stage). mark_claim_stage now t tok stage"
  by unfold_locales
    (auto simp: claim_task_lease mark_claim_stage_def running_lease_holds split: option.splits if_splits)

interpretation save_fence: fenced_op running_lease claim_task
  "\<lambda>t tok (now, result, ref). save_result now t result (Some tok) ref"
  by unfold_locales
    (auto simp: claim_task_lease save_result_def res_simps lost_lease_def running_lease_holds
       split: option.splits if_splits)

interpretation ack_fence: fenced_op running_lease claim_task
  "\<lambda>t tok (now, cur). clear_pending_external_commit now t cur (Some tok)"
  by unfold_locales
    (auto simp: claim_task_lease clear_pending_external_commit_def res_simps lost_lease_def running_lease_holds
       split: option.splits if_splits)

interpretation complete_fence: fenced_op running_lease claim_task
  "\<lambda>t tok (now, ref, e). complete_claim now t tok ref e"
  by unfold_locales
    (auto simp: claim_task_lease complete_claim_def running_lease_holds split: option.splits if_splits)

interpretation commit_fence: fenced_op running_lease claim_task
  "\<lambda>t tok (sha, ledger, now, a). commit_window sha ledger now t (a\<lparr>ca_fencing := Some tok\<rparr>)"
  by unfold_locales
    (auto simp: claim_task_lease commit_window_def Let_def res_simps lost_lease_def running_lease_holds
       split: option.split_asm if_split_asm)

end
