(* ===== verification/Streaming_History.thy ===== *)
theory Streaming_History
  imports Streaming_Facts
begin

text \<open>
  The committed history of a task as an invariant. \<open>history_ok\<close> says of one task that its
  batches were stored with the payload hash of their windows, that their checkpoints form a
  chain of the frontier test, and that the task's own counters summarise them;
  \<open>store_ok\<close> says it of every task, with the keys and references of the tables. The batch a
  commit adds extends the history, and \<open>require_complete_prefix\<close> accepts every such history.
\<close>

definition commits_of :: "string \<Rightarrow> 'l sdb \<Rightarrow> commit_row list" where
  "commits_of t db = filter (\<lambda>r. cm_task r = t) (s_commits db)"

definition record_count :: "commit_row \<Rightarrow> int" where
  "record_count r = int_of (dget (cm_summary r) ''record_count'')"

definition good_commit :: "(string \<Rightarrow> string) \<Rightarrow> window_row list \<Rightarrow> commit_row \<Rightarrow> bool" where
  "good_commit sha rows r =
     (is_nonnegative_int (dget (cm_summary r) ''record_count'') \<and> cm_hash r \<noteq> []
      \<and> (cm_manifest r = PNone \<or> valid_manifest (cm_manifest r))
      \<and> (\<exists>vs. filter (\<lambda>w. wr_task w = cm_task r \<and> wr_window w = cm_window r) rows
                = rows_from (cm_task r) (cm_window r) 0 vs
            \<and> cm_hash r = payload_hash sha (cm_cursor r) vs (cm_summary r)
            \<and> (is_nonnegative_int (dget (cm_summary r) ''template_count'')
               \<longrightarrow> int_of (dget (cm_summary r) ''template_count'') = int (length vs))))"

fun chain :: "cursor \<Rightarrow> commit_row list \<Rightarrow> bool" where
  "chain c [] = True"
| "chain c (r # rs) =
     (\<exists>c'. cm_cursor r = cursor_to_dict c' \<and> frontier_le c c' \<and> chain c' rs)"

definition last_frontier :: "cursor \<Rightarrow> commit_row list \<Rightarrow> pv" where
  "last_frontier c rs = (if rs = [] then cursor_to_dict c else cm_cursor (last rs))"

lemma cursor_to_dict_inject [simp]: "cursor_to_dict a = cursor_to_dict b \<longleftrightarrow> a = b"
  by (metis cursor_roundtrip sum.inject(2))

lemma int_of_nonneg: "is_nonnegative_int v \<Longrightarrow> 0 \<le> int_of v"
  by (auto simp: is_nonnegative_int_def int_of_def split: pv.splits)

lemma chain_snoc:
  "chain c (rs @ [r]) \<longleftrightarrow>
     chain c rs \<and> (\<exists>a b. last_frontier c rs = cursor_to_dict a \<and> cm_cursor r = cursor_to_dict b \<and> frontier_le a b)"
proof (induction rs arbitrary: c)
  case (Cons x rs)
  have last: "last_frontier c (x # rs) = last_frontier c' rs" if "cm_cursor x = cursor_to_dict c'" for c'
    using that by (simp add: last_frontier_def)
  show ?case (is "?l \<longleftrightarrow> ?r")
  proof
    assume ?l
    then obtain c' where c': "cm_cursor x = cursor_to_dict c'" "frontier_le c c'" "chain c' (rs @ [r])" by auto
    with Cons.IH [of c'] last [OF c'(1)] show ?r by auto
  next
    assume ?r
    then obtain c' where c': "cm_cursor x = cursor_to_dict c'" "frontier_le c c'" "chain c' rs" by auto
    with \<open>?r\<close> Cons.IH [of c'] last [OF c'(1)] show ?l by auto
  qed
qed (auto simp: last_frontier_def)

definition history_ok :: "(string \<Rightarrow> string) \<Rightarrow> 'l sdb \<Rightarrow> string \<Rightarrow> task_row \<Rightarrow> bool" where
  "history_ok sha db t row =
     (let cs = commits_of t db; task = tr_task row in
      list_all (good_commit sha (s_windows db)) cs
      \<and> chain cursor_empty cs
      \<and> sorted_wrt (<) (map cm_at cs)
      \<and> tk_cursor task = last_frontier cursor_empty cs
      \<and> tk_windows task = int (length cs)
      \<and> tk_records task = sum_list (map record_count cs)
      \<and> tk_miner task = (if cs = [] then PNone else cm_manifest (last cs))
      \<and> (cs = [] \<longrightarrow> tk_pending task = PNone))"

lemma stored_payload_hash_rows:
  assumes "filter (\<lambda>r. wr_task r = t \<and> wr_window r = w) rows = rows_from t w 0 vs"
  shows "stored_payload_hash sha rows t w c s = Inr (payload_hash sha c vs s, int (length vs))"
  using stored_scan_rows [of 0 vs t w]
  by (simp add: stored_payload_hash_def assms payload_hash_def payload_text)

text \<open>One step of the scan, and the scan over a whole history.\<close>

lemma scan_commit_good:
  assumes "good_commit sha rows r" and "cm_task r = t" and "cm_cursor r = cursor_to_dict c"
    and "frontier_le (ss_previous st) c"
  shows "\<exists>st'. scan_commit sha rows t r st = Inr st' \<and> ss_commits st' = ss_commits st + 1
           \<and> ss_records st' = ss_records st + record_count r \<and> ss_previous st' = c
           \<and> ss_last_manifest st' = cm_manifest r"
proof -
  from assms(1) obtain vs where
    vs: "filter (\<lambda>w. wr_task w = cm_task r \<and> wr_window w = cm_window r) rows
           = rows_from (cm_task r) (cm_window r) 0 vs"
    and h: "payload_hash sha (cm_cursor r) vs (cm_summary r) = cm_hash r"
    and n: "is_nonnegative_int (dget (cm_summary r) ''template_count'')
           \<longrightarrow> int_of (dget (cm_summary r) ''template_count'') = int (length vs)"
    by (auto simp: good_commit_def)
  have stored: "stored_payload_hash sha rows t (cm_window r) (cm_cursor r) (cm_summary r)
        = Inr (cm_hash r, int (length vs))"
    using stored_payload_hash_rows [of "cm_task r" "cm_window r" rows vs sha] vs h assms(2) by simp
  from assms(4) have "cursor_is_at_least (cm_cursor r) (ss_previous st) = Inr True"
    by (simp add: assms(3) frontier_le_def)
  with assms(1,3) stored n show ?thesis
    by (auto simp: scan_commit_def good_commit_def record_count_def)
qed

lemma scan_commits_good:
  assumes "list_all (good_commit sha rows) cs" and "\<forall>r \<in> set cs. cm_task r = t"
    and "chain (ss_previous st) cs"
  shows "\<exists>st'. scan_commits sha rows t cs st = Inr st' \<and> ss_commits st' = ss_commits st + int (length cs)
           \<and> ss_records st' = ss_records st + sum_list (map record_count cs)
           \<and> cursor_to_dict (ss_previous st') = last_frontier (ss_previous st) cs
           \<and> ss_last_manifest st' = (if cs = [] then ss_last_manifest st else cm_manifest (last cs))"
  using assms
proof (induction cs arbitrary: st)
  case (Cons r cs)
  from Cons.prems(3) obtain c where c: "cm_cursor r = cursor_to_dict c"
    "frontier_le (ss_previous st) c" "chain c cs" by auto
  with Cons.prems scan_commit_good [of sha rows r t c st] obtain st1 where
    st1: "scan_commit sha rows t r st = Inr st1" "ss_commits st1 = ss_commits st + 1"
      "ss_records st1 = ss_records st + record_count r" "ss_previous st1 = c" "ss_last_manifest st1 = cm_manifest r"
    by auto
  with Cons.IH [of st1] Cons.prems c show ?case by (auto simp: last_frontier_def)
qed (simp add: last_frontier_def)

lemma history_prefix_complete:
  assumes "find_task t db = Some row" and "history_ok sha db t row"
  shows "\<exists>e. require_complete_prefix sha t db = Inr e \<and> pe_task e = t
           \<and> pe_batches e = int (length (commits_of t db))
           \<and> pe_records e = sum_list (map record_count (commits_of t db))
           \<and> pe_frontier e = tk_cursor (tr_task row)"
proof -
  define cs where "cs = commits_of t db"
  note h = assms(2) [unfolded history_ok_def Let_def, folded cs_def]
  have sorted: "ordered_commits t db = cs"
  proof -
    from h have "sorted_wrt (\<lambda>a b. cm_at a < cm_at b) cs" by (simp add: sorted_wrt_map)
    then have "sorted_wrt (\<lambda>a b. (cm_at a, cm_window a) \<le> (cm_at b, cm_window b)) cs"
      by (rule sorted_wrt_mono_rel [rotated]) auto
    then have "sorted (map (\<lambda>r. (cm_at r, cm_window r)) cs)" by (simp add: sorted_wrt_map)
    then show ?thesis
      unfolding ordered_commits_def commits_of_def [symmetric] cs_def [symmetric]
      by (rule sort_key_id_if_sorted)
  qed
  have "\<forall>r \<in> set cs. cm_task r = t" by (simp add: cs_def commits_of_def)
  with h scan_commits_good [of sha "s_windows db" cs t scan_start] obtain st where
    st: "scan_commits sha (s_windows db) t cs scan_start = Inr st" "ss_commits st = int (length cs)"
      "ss_records st = sum_list (map record_count cs)"
      "cursor_to_dict (ss_previous st) = last_frontier cursor_empty cs"
      "ss_last_manifest st = (if cs = [] then PNone else cm_manifest (last cs))"
    by (auto simp: scan_start_def)
  have cur: "cursor_from_dict (last_frontier cursor_empty cs) = Inr (ss_previous st)"
    using st(4) by (metis cursor_roundtrip)
  have nonneg: "0 \<le> sum_list (map record_count cs)"
    using h by (intro sum_list_nonneg)
      (auto simp: list_all_iff good_commit_def record_count_def intro: int_of_nonneg)
  have empty: "cs = [] \<Longrightarrow> ss_previous st = cursor_empty"
    using st(4) by (simp add: last_frontier_def)
  note unfold = require_complete_prefix_def Let_def assms(1) sorted cs_def [symmetric] cursor_eq_def
  show ?thesis
  proof (cases "cs = []")
    case True
    with h st nonneg empty show ?thesis by (simp add: unfold last_frontier_def)
  next
    case False
    with h st nonneg show ?thesis by (simp add: unfold cur)
  qed
qed

end
