(* ===== verification/Streaming_Reach.thy ===== *)
theory Streaming_Reach
  imports Streaming_History
begin

text \<open>
  Sequences of repository calls. \<open>sop\<close> has one constructor per operation that changes the store
  (and \<open>OpProject\<close>, the write of a result generation by the projection repository), \<open>s_apply\<close>
  runs one, and \<open>sreach\<close> is the set of stores reachable from the empty one, together with the
  time of the last commit. A batch is committed at a later time than the one before it, and its
  summary counts its records and windows correctly (\<open>good_args\<close>), which is what the callers in
  \<open>large_file_pipeline.py\<close> provide. \<open>store_ok\<close> holds in every reachable store.
\<close>

datatype sop =
    OpCreate string string descriptor string "string option"
  | OpClaim string string string
  | OpRunning string string
  | OpStage string string tstage
  | OpClaimStage string string string tstage
  | OpAttach string string string
  | OpFail string string string bool
  | OpInterrupt string string
  | OpFinish string string string string bool bool pv
  | OpAck string string pv "string option"
  | OpSave string string "(string \<times> pv) list" "string option" pv
  | OpCommit string string commit_args
  | OpComplete string string string "(string \<times> pv) list option" "prefix_evidence option"
  | OpProject generation_row

definition state_of :: "('s \<times> 'a) res \<Rightarrow> 's res" where
  "state_of m = bind_res m (\<lambda>(s, _). Inr s)"

lemma state_of_Inr [simp]: "state_of m = Inr s \<longleftrightarrow> (\<exists>a. m = Inr (s, a))"
  by (auto simp: state_of_def res_simps)

fun s_apply ::
  "(string \<Rightarrow> string) \<Rightarrow> (pv \<Rightarrow> 'l \<Rightarrow> 'l res) option \<Rightarrow> sop \<Rightarrow> 'l sdb \<Rightarrow> 'l sdb res" where
  "s_apply sha ledger (OpCreate now fresh d h t) db = state_of (create_or_load now fresh d h t db)"
| "s_apply sha ledger (OpClaim now fresh t) db = state_of (claim_task now fresh t db)"
| "s_apply sha ledger (OpRunning now t) db = state_of (mark_running now t db)"
| "s_apply sha ledger (OpStage now t sg) db = state_of (mark_stage now t sg db)"
| "s_apply sha ledger (OpClaimStage now t tok sg) db = state_of (mark_claim_stage now t tok sg db)"
| "s_apply sha ledger (OpAttach now t job) db = state_of (attach_input_job now t job db)"
| "s_apply sha ledger (OpFail now t e c) db = state_of (mark_failed now t e c db)"
| "s_apply sha ledger (OpInterrupt now t) db = state_of (mark_interrupted now t db)"
| "s_apply sha ledger (OpFinish now t tok e i c d) db = state_of (finish_claim now t tok e i c d db)"
| "s_apply sha ledger (OpAck now t cur tok) db = state_of (clear_pending_external_commit now t cur tok db)"
| "s_apply sha ledger (OpSave now t r tok ref) db = state_of (save_result now t r tok ref db)"
| "s_apply sha ledger (OpCommit now t a) db = state_of (commit_window sha ledger now t a db)"
| "s_apply sha ledger (OpComplete now t tok ref e) db = state_of (complete_claim now t tok ref e db)"
| "s_apply sha ledger (OpProject g) db = Inr (db\<lparr>s_generations := g # s_generations db\<rparr>)"

definition sdb_empty :: "'l \<Rightarrow> 'l sdb" where
  "sdb_empty l = \<lparr>s_tasks = [], s_events = [], s_commits = [], s_windows = [], s_queue = [],
     s_generations = [], s_ledger = l\<rparr>"

definition good_args :: "commit_args \<Rightarrow> bool" where
  "good_args a =
     (is_nonnegative_int (dget (ca_summary a) ''record_count'')
      \<and> (is_nonnegative_int (dget (ca_summary a) ''template_count'')
         \<longrightarrow> int_of (dget (ca_summary a) ''template_count'')
               = int (length (case ca_windows a of None \<Rightarrow> ca_templates a | Some ws \<Rightarrow> ws)))
      \<and> (ca_miner a = PNone \<or> valid_manifest (ca_miner a)))"

definition step_allowed :: "string \<Rightarrow> sop \<Rightarrow> bool" where
  "step_allowed t op = (case op of OpCommit now _ a \<Rightarrow> t < now \<and> good_args a | _ \<Rightarrow> True)"

definition step_time :: "string \<Rightarrow> sop \<Rightarrow> string" where
  "step_time t op = (case op of OpCommit now _ _ \<Rightarrow> now | _ \<Rightarrow> t)"

inductive sreach ::
  "(string \<Rightarrow> string) \<Rightarrow> (pv \<Rightarrow> 'l \<Rightarrow> 'l res) option \<Rightarrow> string \<Rightarrow> 'l sdb \<Rightarrow> bool"
  for sha ledger where
  start: "sreach sha ledger [] (sdb_empty l)"
| step: "sreach sha ledger t db \<Longrightarrow> step_allowed t op \<Longrightarrow> s_apply sha ledger op db = Inr db' \<Longrightarrow>
         sreach sha ledger (step_time t op) db'"

inductive_cases sreach_cases: "sreach sha ledger t db"

definition store_ok :: "(string \<Rightarrow> string) \<Rightarrow> string \<Rightarrow> 'l sdb \<Rightarrow> bool" where
  "store_ok sha t db =
     (distinct (map tr_id (s_tasks db))
      \<and> (\<forall>c \<in> set (s_commits db). cm_task c \<in> set (map tr_id (s_tasks db)) \<and> cm_at c \<le> t)
      \<and> distinct (map (\<lambda>c. (cm_task c, cm_window c)) (s_commits db))
      \<and> (\<forall>w \<in> set (s_windows db). (wr_task w, wr_window w) \<in> set (map (\<lambda>c. (cm_task c, cm_window c)) (s_commits db)))
      \<and> (\<forall>j row. find_task j db = Some row \<longrightarrow> history_ok sha db j row))"

lemma history_ok_same:
  assumes "s_commits db' = s_commits db" and "s_windows db' = s_windows db" and "same_history r r'"
  shows "history_ok sha db j r \<Longrightarrow> history_ok sha db' j r'"
  using assms by (auto simp: history_ok_def Let_def commits_of_def same_history_def core_def)

lemma store_ok_light:
  assumes "light db db'" and "store_ok sha t db"
  shows "store_ok sha t db'"
proof -
  have "history_ok sha db' j r'" if r': "find_task j db' = Some r'" for j r'
  proof -
    from assms(1) have rel: "rel_option same_history (find_task j db) (find_task j db')" by (simp add: light_def)
    with r' obtain r where r: "find_task j db = Some r" "same_history r r'"
      by (cases "find_task j db") auto
    with assms(2) have "history_ok sha db j r" by (simp add: store_ok_def)
    with r(2) show ?thesis using assms(1) history_ok_same [of db' db r r'] by (simp add: light_def)
  qed
  with assms show ?thesis unfolding store_ok_def light_def by (simp del: set_map)
qed

lemma find_task_None_iff: "find_task j db = None \<longleftrightarrow> j \<notin> set (map tr_id (s_tasks db))"
  by (auto simp: find_task_def find_None_iff)

lemma find_task_append:
  "find_task j (db\<lparr>s_tasks := s_tasks db @ [r]\<rparr>) =
     (case find_task j db of None \<Rightarrow> if tr_id r = j then Some r else None | Some x \<Rightarrow> Some x)"
  by (simp add: find_task_def find_append split: option.split)

lemma store_ok_create:
  assumes c: "create_or_load now fresh d h tid db = Inr (db', task)" and ok: "store_ok sha t db"
  shows "store_ok sha t db'"
proof (cases "db' = db")
  case False
  then obtain k where new: "find_task k db = None"
    and db': "db' = append_event k (''task_created'',
        PDict [(''source_kind'', PStr (ds_kind d)), (''config_hash'', PStr h)], now)
      (db\<lparr>s_tasks := s_tasks db @ [\<lparr>tr_id = k, tr_kind = ds_kind d, tr_config_hash = h,
          tr_status = tk_status (new_task d h k now), tr_stage = tk_stage (new_task d h k now),
          tr_cursor = tk_cursor (new_task d h k now), tr_task = new_task d h k now, tr_updated = now\<rparr>]\<rparr>)"
    using c by (auto simp: create_or_load_def Let_def split: if_splits option.splits)
  have none: "commits_of k db = []"
    using ok new by (auto simp: store_ok_def commits_of_def filter_empty_conv find_task_None_iff)
  have "history_ok sha db' j r" if "find_task j db' = Some r" for j r
  proof (cases "find_task j db")
    case None
    with that have "j = k" "tr_task r = new_task d h k now"
      by (auto simp: db' find_task_append split: if_splits)
    with none show ?thesis
      by (simp add: history_ok_def commits_of_def db' new_task_def last_frontier_def)
  next
    case (Some x)
    with that ok show ?thesis
      by (auto simp: db' find_task_append store_ok_def intro: history_ok_same [of _ db x])
  qed
  with ok new show ?thesis
    by (auto simp: store_ok_def db' find_task_None_iff)
qed (use ok in simp)

subsection \<open>A commit extends the history\<close>

lemma record_ingestion_frame:
  "record_ingestion ledger b db = Inr db1 \<Longrightarrow> \<exists>l. db1 = db\<lparr>s_ledger := l\<rparr>"
  by (auto simp: record_ingestion_def res_simps split: option.splits intro: exI [of _ "s_ledger db"])

lemma find_ledger [simp]: "find_task j (db\<lparr>s_ledger := l\<rparr>) = find_task j db"
  by (simp add: find_task_def)

lemma append_batch_True: "append_batch now t a row cv ts ws h db = Inr (db', b) \<Longrightarrow> b"
  by (auto simp: append_batch_def res_simps)

lemma append_batchE:
  assumes "append_batch now t a row cv ts ws h db = Inr (db', b)"
  obtains current records where "cursor_from_dict (tk_cursor (tr_task row)) = Inr current"
    "expected_matches (ca_expected a) current = Inr True"
    "cursor_is_at_least cv current = Inr True"
    "int_or0 (dget (ca_summary a) ''record_count'') = Inr records"
    "db' = store_batch now t a row cv ts ws h records db"
  using assms by (auto simp: append_batch_def bind_res_Inr_iff if_Inl_Inr_iff)

text \<open>What a call that returns has checked, whether the batch is new or not.\<close>

lemma commit_windowE:
  assumes "commit_window sha ledger now t a db = Inr (db', b)"
  obtains c templates windows row l where
    "ca_window a \<noteq> []" "cursor_from_dict (ca_cursor a) = Inr c"
    "map_res safe_template (ca_templates a) = Inr templates"
    "map_res safe_window (case ca_windows a of None \<Rightarrow> ca_templates a | Some ws \<Rightarrow> ws) = Inr windows"
    "validate_new_summary (ca_summary a) = Inr ()"
    "find_task t db = Some row" "\<not> lost_lease (tr_task row) (ca_fencing a)"
    "record_ingestion ledger (ca_ledger a) db = Inr (db\<lparr>s_ledger := l\<rparr>)"
    "case find_commit t (ca_window a) db of
       Some e \<Rightarrow> \<not> (cm_hash e \<noteq> [] \<and> cm_hash e \<noteq> payload_hash sha (cursor_to_dict c) windows (ca_summary a))
                 \<and> db' = db\<lparr>s_ledger := l\<rparr> \<and> \<not> b
     | None \<Rightarrow> append_batch now t a row (cursor_to_dict c) templates windows
                 (payload_hash sha (cursor_to_dict c) windows (ca_summary a)) (db\<lparr>s_ledger := l\<rparr>) = Inr (db', b)"
proof -
  from assms have w: "ca_window a \<noteq> []" by (auto simp: commit_window_def)
  note m = assms [unfolded commit_window_def Let_def, simplified w if_False]
  from m obtain c where c: "cursor_from_dict (ca_cursor a) = Inr c" by (auto simp: bind_res_Inr_iff)
  from m c obtain ts where ts: "map_res safe_template (ca_templates a) = Inr ts" by (auto simp: bind_res_Inr_iff)
  from m c ts obtain ws where
    ws: "map_res safe_window (case ca_windows a of None \<Rightarrow> ca_templates a | Some ws \<Rightarrow> ws) = Inr ws"
    by (auto simp: bind_res_Inr_iff)
  from m c ts ws have v: "validate_new_summary (ca_summary a) = Inr ()" by (auto simp: bind_res_Inr_iff)
  from m c ts ws v obtain row where row: "find_task t db = Some row" by (cases "find_task t db") auto
  from m c ts ws v row have lease: "\<not> lost_lease (tr_task row) (ca_fencing a)" by (auto split: if_splits)
  from m c ts ws v row lease obtain db1 where r: "record_ingestion ledger (ca_ledger a) db = Inr db1"
    by (auto simp: bind_res_Inr_iff)
  with record_ingestion_frame obtain l where l: "db1 = db\<lparr>s_ledger := l\<rparr>" by blast
  have "find_commit t (ca_window a) db1 = find_commit t (ca_window a) db" by (simp add: l find_commit_def)
  with w m c ts ws v row lease r l show ?thesis
    by (intro that [of c ts ws row l]) (auto split: option.splits if_splits)
qed

lemma store_batch_fields [simp]:
  "s_commits (store_batch now t a row cv ts ws h n db) = s_commits db @
     [\<lparr>cm_task = t, cm_window = ca_window a, cm_cursor = cv, cm_summary = ca_summary a, cm_at = now,
       cm_hash = h, cm_manifest = (if ca_miner a \<noteq> PNone then ca_miner a else tk_miner (tr_task row))\<rparr>]"
  "s_windows (store_batch now t a row cv ts ws h n db) = s_windows db @ rows_from t (ca_window a) 0 ws"
  "s_queue (store_batch now t a row cv ts ws h n db) = fold (upsert_queue t (tr_config_hash row) now) ts (s_queue db)"
  "s_generations (store_batch now t a row cv ts ws h n db) = s_generations db"
  "map tr_id (s_tasks (store_batch now t a row cv ts ws h n db)) = map tr_id (s_tasks db)"
  by (simp_all add: store_batch_def Let_def table_simps)

definition batch_task :: "string \<Rightarrow> commit_args \<Rightarrow> task_row \<Rightarrow> pv \<Rightarrow> int \<Rightarrow> stream_task" where
  "batch_task now a row cv n =
     (tr_task row)\<lparr>tk_status := TRunning, tk_stage := Aggregating, tk_cursor := cv,
        tk_windows := tk_windows (tr_task row) + 1, tk_records := tk_records (tr_task row) + n,
        tk_pending := cv, tk_updated := now,
        tk_miner := (if ca_miner a \<noteq> PNone then ca_miner a else tk_miner (tr_task row))\<rparr>"

lemma find_task_store_batch:
  "find_task j (store_batch now t a row cv ts ws h n db) =
     map_option (\<lambda>r. if j = t then r\<lparr>tr_status := TRunning, tr_stage := Aggregating, tr_cursor := cv,
        tr_task := batch_task now a row cv n, tr_updated := now\<rparr> else r) (find_task j db)"
proof -
  define f where "f = (\<lambda>r::task_row. r\<lparr>tr_status := TRunning, tr_stage := Aggregating, tr_cursor := cv,
        tr_task := batch_task now a row cv n, tr_updated := now\<rparr>)"
  have "find_task j (store_batch now t a row cv ts ws h n db)
          = find_task j (db\<lparr>s_tasks := upd_where (\<lambda>r. tr_id r = t) f (s_tasks db)\<rparr>)"
    by (simp add: store_batch_def Let_def f_def batch_task_def find_task_def)
  also have "\<dots> = map_option (\<lambda>r. if tr_id r = t then f r else r) (find_task j db)"
    by (rule find_task_upd) (simp add: f_def)
  finally show ?thesis by (auto simp: f_def dest: find_task_id intro!: option.map_cong)
qed

lemma rows_from_keys: "w \<in> set (rows_from t k i vs) \<Longrightarrow> wr_task w = t \<and> wr_window w = k"
  by (auto simp: rows_from_def)

lemma rows_from_filter_key:
  "filter (\<lambda>w. wr_task w = t' \<and> wr_window w = k') (rows_from t k i vs) =
     (if t' = t \<and> k' = k then rows_from t k i vs else [])"
  by (induction vs arbitrary: i) auto

lemma good_commit_append:
  assumes "good_commit sha rows r" and "(cm_task r, cm_window r) \<noteq> (t, k)"
  shows "good_commit sha (rows @ rows_from t k 0 vs) r"
  using assms by (auto simp: good_commit_def rows_from_filter_key)

lemma last_frontier_dict: "chain c cs \<Longrightarrow> \<exists>d. last_frontier c cs = cursor_to_dict d"
  by (induction cs arbitrary: c) (auto simp: last_frontier_def)

lemma history_ok_other:
  assumes "history_ok sha db j r" and "j \<noteq> t" and "s_commits db' = s_commits db @ [x]" and "cm_task x = t"
    and "s_windows db' = s_windows db @ rows_from t k 0 vs"
  shows "history_ok sha db' j r"
proof -
  have "commits_of j db' = commits_of j db" using assms by (simp add: commits_of_def)
  moreover have "good_commit sha (s_windows db') c" if "c \<in> set (commits_of j db)"
      "good_commit sha (s_windows db) c" for c
    using that assms(2,5) by (auto simp: commits_of_def intro: good_commit_append)
  ultimately show ?thesis using assms(1) by (auto simp: history_ok_def Let_def list_all_iff)
qed

lemma history_ok_extend:
  assumes h: "history_ok sha db t row" and c: "x = \<lparr>cm_task = t, cm_window = k, cm_cursor = cursor_to_dict c,
      cm_summary = sm, cm_at = now, cm_hash = payload_hash sha (cursor_to_dict c) vs sm, cm_manifest = mf\<rparr>"
    and db': "s_commits db' = s_commits db @ [x]" "s_windows db' = s_windows db @ rows_from t k 0 vs"
    and fresh: "\<forall>e \<in> set (commits_of t db). cm_window e \<noteq> k \<and> cm_at e < now"
      "\<forall>w \<in> set (s_windows db). (wr_task w, wr_window w) \<noteq> (t, k)"
    and cur: "cursor_from_dict (tk_cursor (tr_task row)) = Inr current"
      "cursor_is_at_least (cursor_to_dict c) current = Inr True"
    and good: "is_nonnegative_int (dget sm ''record_count'')"
      "is_nonnegative_int (dget sm ''template_count'') \<longrightarrow> int_of (dget sm ''template_count'') = int (length vs)"
      "mf = PNone \<or> valid_manifest mf" "\<And>v. sha v \<noteq> []"
    and task: "tk_cursor (tr_task row') = cursor_to_dict c" "tk_windows (tr_task row') = tk_windows (tr_task row) + 1"
      "tk_records (tr_task row') = tk_records (tr_task row) + int_of (dget sm ''record_count'')"
      "tk_miner (tr_task row') = mf"
  shows "history_ok sha db' t row'"
proof -
  define cs where "cs = commits_of t db"
  note hh = h [unfolded history_ok_def Let_def, folded cs_def]
  have cs': "commits_of t db' = cs @ [x]" by (simp add: commits_of_def db' cs_def c)
  have old: "good_commit sha (s_windows db') e" if "e \<in> set cs" for e
    using that hh fresh(1) by (auto simp: db' cs_def list_all_iff intro!: good_commit_append)
  have "filter (\<lambda>w. wr_task w = t \<and> wr_window w = k) (s_windows db) = []"
    using fresh(2) by (auto simp: filter_empty_conv)
  then have new: "good_commit sha (s_windows db') x"
    using good by (auto simp: good_commit_def c db' rows_from_filter_key payload_hash_def)
  obtain d where d: "last_frontier cursor_empty cs = cursor_to_dict d" using hh last_frontier_dict by blast
  with cur hh have "frontier_le d c" by (simp add: frontier_le_def)
  with hh d have "chain cursor_empty (cs @ [x])" by (auto simp: chain_snoc c)
  moreover have "sorted_wrt (<) (map cm_at (cs @ [x]))"
    using hh fresh(1) by (auto simp: sorted_wrt_append c cs_def)
  ultimately show ?thesis
    using hh old new task
    by (simp add: history_ok_def cs' list_all_iff last_frontier_def c record_count_def)
qed

lemma store_ok_commit_new:
  assumes ok: "store_ok sha t0 db" and c: "commit_window sha ledger now t a db = Inr (db', True)"
    and good: "good_args a" and time: "t0 < now" and sha: "\<And>v. sha v \<noteq> []"
  shows "store_ok sha now db'"
proof -
  from c obtain cur templates windows row l where
    ws: "map_res safe_window (case ca_windows a of None \<Rightarrow> ca_templates a | Some ws \<Rightarrow> ws) = Inr windows"
    and row: "find_task t db = Some row" and none: "find_commit t (ca_window a) db = None"
    and app: "append_batch now t a row (cursor_to_dict cur) templates windows
        (payload_hash sha (cursor_to_dict cur) windows (ca_summary a)) (db\<lparr>s_ledger := l\<rparr>) = Inr (db', True)"
    by (elim commit_windowE) (auto split: option.splits)
  from app obtain current records where
    current: "cursor_from_dict (tk_cursor (tr_task row)) = Inr current"
      "cursor_is_at_least (cursor_to_dict cur) current = Inr True"
    and n: "int_or0 (dget (ca_summary a) ''record_count'') = Inr records"
    and db': "db' = store_batch now t a row (cursor_to_dict cur) templates windows
        (payload_hash sha (cursor_to_dict cur) windows (ca_summary a)) records (db\<lparr>s_ledger := l\<rparr>)"
    by (elim append_batchE)
  note ok' = ok [unfolded store_ok_def]
  have key: "\<forall>e \<in> set (s_commits db). (cm_task e, cm_window e) \<noteq> (t, ca_window a)"
    using none by (auto simp: find_commit_def find_None_iff)
  from good obtain i where i: "dget (ca_summary a) ''record_count'' = PInt i" "0 \<le> i"
    by (auto simp: good_args_def is_nonnegative_int_def split: pv.splits)
  with n have records: "records = int_of (dget (ca_summary a) ''record_count'')" by (simp add: int_of_def)
  have hist: "history_ok sha db' j r'" if r': "find_task j db' = Some r'" for j r'
  proof (cases "j = t")
    case False
    with r' have "find_task j db = Some r'" by (auto simp: db' find_task_store_batch)
    with ok' False show ?thesis by (intro history_ok_other [of sha db j r' t db']) (auto simp: db')
  next
    case True
    have hrow: "history_ok sha db t row" using ok' row by blast
    from True r' row have task: "tr_task r' = batch_task now a row (cursor_to_dict cur) records"
      by (auto simp: db' find_task_store_batch)
    have mf: "tk_miner (tr_task row) = PNone \<or> valid_manifest (tk_miner (tr_task row))"
      using hrow by (auto simp: history_ok_def Let_def good_commit_def list_all_iff)
    show ?thesis unfolding True
    proof (rule history_ok_extend [OF hrow refl, where c = cur and vs = windows and now = now and k = "ca_window a"])
      show "\<forall>e \<in> set (commits_of t db). cm_window e \<noteq> ca_window a \<and> cm_at e < now"
        using key ok' time by (fastforce simp: commits_of_def)
      show "\<forall>w \<in> set (s_windows db). (wr_task w, wr_window w) \<noteq> (t, ca_window a)"
        using key ok' by fastforce
    qed (use current good records sha mf map_res_Inr_length [OF ws] in
          \<open>auto simp: db' task batch_task_def good_args_def\<close>)
  qed
  have "\<forall>w \<in> set (rows_from t (ca_window a) 0 windows). (wr_task w, wr_window w) = (t, ca_window a)"
    by (auto dest: rows_from_keys)
  with ok' hist key row time show ?thesis
    unfolding store_ok_def by (auto simp: db' dest: find_task_in find_task_id intro: less_imp_le order.trans)
qed

subsection \<open>Reachable stores\<close>

lemma store_ok_time: "store_ok sha t db \<Longrightarrow> t \<le> t' \<Longrightarrow> store_ok sha t' db"
  unfolding store_ok_def by (meson order.trans)

lemma store_ok_ledger [simp]: "store_ok sha t (db\<lparr>s_ledger := l\<rparr>) = store_ok sha t db"
  by (simp add: store_ok_def history_ok_def commits_of_def)

lemma store_ok_generations [simp]: "store_ok sha t (db\<lparr>s_generations := g\<rparr>) = store_ok sha t db"
  by (simp add: store_ok_def history_ok_def commits_of_def find_task_def)

lemma store_ok_empty: "store_ok sha t (sdb_empty l)"
  by (simp add: store_ok_def sdb_empty_def find_task_def)

lemma commit_window_False:
  "commit_window sha ledger now t a db = Inr (db', False) \<Longrightarrow> \<exists>l. db' = db\<lparr>s_ledger := l\<rparr>"
  by (elim commit_windowE) (auto dest: append_batch_True split: option.splits)

lemma store_ok_step:
  assumes ok: "store_ok sha t db" and allowed: "step_allowed t op"
    and ap: "s_apply sha ledger op db = Inr db'" and sha: "\<And>v. sha v \<noteq> []"
  shows "store_ok sha (step_time t op) db'"
proof (cases op)
  case (OpCommit now tid a)
  with ap obtain b where c: "commit_window sha ledger now tid a db = Inr (db', b)" by auto
  have t: "t < now" "good_args a" using allowed OpCommit by (simp_all add: step_allowed_def)
  show ?thesis
  proof (cases b)
    case True
    with store_ok_commit_new [OF ok] c t sha OpCommit show ?thesis by (simp add: step_time_def)
  next
    case False
    with c have "commit_window sha ledger now tid a db = Inr (db', False)" by simp
    then obtain l where "db' = db\<lparr>s_ledger := l\<rparr>" using commit_window_False by blast
    with ok t OpCommit show ?thesis by (auto simp: step_time_def intro: store_ok_time less_imp_le)
  qed
next
  case (OpCreate now fresh d h tid)
  with ap ok show ?thesis by (auto simp: step_time_def intro: store_ok_create)
next
  case (OpProject g)
  with ap ok show ?thesis by (auto simp: step_time_def)
qed (use ap ok in \<open>auto simp: step_time_def intro: store_ok_light [OF light_ops(1)] store_ok_light [OF light_ops(2)]
    store_ok_light [OF light_ops(3)] store_ok_light [OF light_ops(4)] store_ok_light [OF light_claim]
    store_ok_light [OF light_claim_stage] store_ok_light [OF light_attach] store_ok_light [OF light_finish]
    store_ok_light [OF light_clear] store_ok_light [OF light_save] store_ok_light [OF light_complete]\<close>)

lemma sreach_store_ok: "sreach sha ledger t db \<Longrightarrow> (\<And>v. sha v \<noteq> []) \<Longrightarrow> store_ok sha t db"
proof (induction rule: sreach.induct)
  case (start l)
  show ?case by (rule store_ok_empty)
next
  case (step t db op db')
  then show ?case by (intro store_ok_step [of sha t db op ledger db']) auto
qed

text \<open>Running a list of operations, for concrete stores.\<close>

fun s_run ::
  "(string \<Rightarrow> string) \<Rightarrow> (pv \<Rightarrow> 'l \<Rightarrow> 'l res) option \<Rightarrow> sop list \<Rightarrow> 'l sdb \<Rightarrow> 'l sdb res" where
  "s_run sha ledger [] db = Inr db"
| "s_run sha ledger (op # ops) db = bind_res (s_apply sha ledger op db) (s_run sha ledger ops)"

fun run_allowed :: "string \<Rightarrow> sop list \<Rightarrow> bool" where
  "run_allowed t [] = True"
| "run_allowed t (op # ops) = (step_allowed t op \<and> run_allowed (step_time t op) ops)"

lemma s_run_reach:
  "sreach sha ledger t db \<Longrightarrow> run_allowed t ops \<Longrightarrow> s_run sha ledger ops db = Inr db'
     \<Longrightarrow> \<exists>t'. sreach sha ledger t' db'"
proof (induction ops arbitrary: t db)
  case (Cons op ops)
  from Cons.prems(3) obtain db1 where "s_apply sha ledger op db = Inr db1" "s_run sha ledger ops db1 = Inr db'"
    by (auto simp: res_simps)
  with Cons.prems Cons.IH [of "step_time t op" db1] show ?case by (auto intro: sreach.step)
qed auto

text \<open>A property of the store that every step keeps holds in every reachable store.\<close>

lemma sreach_invariant:
  assumes "sreach sha ledger t db" and "\<And>l. P (sdb_empty l)"
    and "\<And>op db db'. P db \<Longrightarrow> s_apply sha ledger op db = Inr db' \<Longrightarrow> P db'"
  shows "P db"
  using assms(1) by (induction rule: sreach.induct) (auto intro: assms(2,3))

end
