(* ===== verification/Streaming_Steps.thy ===== *)
theory Streaming_Steps
  imports Streaming_Reach
begin

text \<open>
  What one repository call may do to the events, the stored payloads, the unknown-template queue
  and the status of a task: the step lemmas behind the invariants of
  \<open>Streaming_Properties\<close>. The event table of the store is an instance of \<open>sequenced_log\<close>.
\<close>

subsection \<open>Events\<close>

interpretation stream_events: sequenced_log 0 "\<lambda>db t. seqs_of t (s_events db)" append_event
  by unfold_locales (auto simp: append_event_def seqs_of_append_row split: prod.splits)

definition logged :: "'l sdb \<Rightarrow> 'l sdb \<Rightarrow> bool" where
  "logged db db' = (s_events db' = s_events db \<or> (\<exists>k e. s_events db' = s_events (append_event k e db)))"

lemma logged_same: "s_events db' = s_events db \<Longrightarrow> logged db db'"
  by (simp add: logged_def)

lemma logged_event:
  assumes "s_events x = s_events db"
  shows "logged db (append_event t e x)"
proof -
  have "s_events (append_event t e x) = s_events (append_event t e db)"
    using assms by (cases e) (simp add: append_event_def)
  then show ?thesis unfolding logged_def by blast
qed

lemmas logged_intros = logged_same logged_event

lemma logged_update: "update_task now t st sg et er db = Inr (db', task) \<Longrightarrow> logged db db'"
  by (auto simp: update_task_def Let_def intro: logged_intros split: option.splits)

text \<open>A stored batch, with the values the operation computed from its arguments.\<close>

lemma commit_window_TrueE:
  assumes "commit_window sha ledger now t a db = Inr (db', True)"
  obtains c ts ws row l n where "cursor_from_dict (ca_cursor a) = Inr c"
    "map_res safe_template (ca_templates a) = Inr ts"
    "map_res safe_window (case ca_windows a of None \<Rightarrow> ca_templates a | Some ws \<Rightarrow> ws) = Inr ws"
    "find_task t db = Some row" "\<not> lost_lease (tr_task row) (ca_fencing a)" "find_commit t (ca_window a) db = None"
    "int_or0 (dget (ca_summary a) ''record_count'') = Inr n" "ca_window a \<noteq> []"
    "validate_new_summary (ca_summary a) = Inr ()"
    "record_ingestion ledger (ca_ledger a) db = Inr (db\<lparr>s_ledger := l\<rparr>)"
    "db' = store_batch now t a row (cursor_to_dict c) ts ws
        (payload_hash sha (cursor_to_dict c) ws (ca_summary a)) n (db\<lparr>s_ledger := l\<rparr>)"
proof -
  from assms obtain c ts ws row l where
    m: "ca_window a \<noteq> []" "cursor_from_dict (ca_cursor a) = Inr c" "map_res safe_template (ca_templates a) = Inr ts"
    "map_res safe_window (case ca_windows a of None \<Rightarrow> ca_templates a | Some ws \<Rightarrow> ws) = Inr ws"
    "validate_new_summary (ca_summary a) = Inr ()"
    "find_task t db = Some row" "\<not> lost_lease (tr_task row) (ca_fencing a)"
    "record_ingestion ledger (ca_ledger a) db = Inr (db\<lparr>s_ledger := l\<rparr>)"
    and r: "(case find_commit t (ca_window a) db of
         None \<Rightarrow> append_batch now t a row (cursor_to_dict c) ts ws
        (payload_hash sha (cursor_to_dict c) ws (ca_summary a)) (db\<lparr>s_ledger := l\<rparr>) = Inr (db', True)
       | Some e \<Rightarrow> False)"
    by (elim commit_windowE) (auto split: option.splits)
  from r have none: "find_commit t (ca_window a) db = None"
    and "append_batch now t a row (cursor_to_dict c) ts ws
        (payload_hash sha (cursor_to_dict c) ws (ca_summary a)) (db\<lparr>s_ledger := l\<rparr>) = Inr (db', True)"
    by (auto split: option.splits)
  with m show ?thesis by (elim append_batchE) (rule that; assumption)
qed

lemma logged_commit:
  assumes "commit_window sha ledger now t a db = Inr (db', b)"
  shows "logged db db'"
proof (cases b)
  case False
  with assms commit_window_False [of sha ledger now t a db db'] show ?thesis by (auto intro: logged_same)
next
  case True
  with assms obtain c ts ws row l h n where
    "db' = store_batch now t a row (cursor_to_dict c) ts ws h n (db\<lparr>s_ledger := l\<rparr>)"
    by (auto elim: commit_window_TrueE)
  then show ?thesis by (auto simp: store_batch_def Let_def intro: logged_event)
qed

lemma logged_step:
  assumes "s_apply sha ledger op db = Inr db'"
  shows "logged db db'"
proof (cases op)
  case (OpCreate now fresh d h tid)
  with assms show ?thesis
    by (auto simp: create_or_load_def Let_def intro: logged_intros split: if_splits option.splits)
next
  case (OpClaim now fresh tid)
  with assms show ?thesis
    by (auto simp: claim_task_def Let_def intro: logged_intros split: if_splits option.splits)
next
  case (OpCommit now tid a)
  with assms show ?thesis by (auto dest: logged_commit)
next
  case (OpAck now tid cur tok)
  with assms obtain task where "clear_pending_external_commit now tid cur tok db = Inr (db', task)" by auto
  then show ?thesis
    by (cases "cursor_from_dict cur"; cases "find_task tid db")
      (auto simp: clear_pending_external_commit_def Let_def intro: logged_intros split: if_split_asm)
qed (use assms in \<open>auto simp: mark_defs mark_claim_stage_def attach_input_job_def finish_claim_def
      save_result_def complete_claim_def res_simps Let_def
      intro: logged_intros dest: logged_update split: if_splits option.splits prod.splits\<close>)

lemma events_step:
  assumes "\<forall>k. gapless 0 (seqs_of k (s_events db))" and "s_apply sha ledger op db = Inr db'"
  shows "\<forall>k. gapless 0 (seqs_of k (s_events db'))"
  using logged_step [OF assms(2)] stream_events.add_gapless [of db] assms(1) by (auto simp: logged_def)

subsection \<open>The queue of unknown templates\<close>

definition queue_total :: "string \<Rightarrow> string \<Rightarrow> string \<Rightarrow> queue_row list \<Rightarrow> int" where
  "queue_total t h s rows =
     sum_list (map q_count (filter (\<lambda>r. q_task r = t \<and> q_hash r = h \<and> q_start r = s) rows))"

definition reported :: "string \<Rightarrow> string \<Rightarrow> template list \<Rightarrow> int" where
  "reported h s ts = sum_list (map tm_count (filter (\<lambda>x. tm_hash x = h \<and> tm_window_start x = s) ts))"

definition queue_keys :: "queue_row list \<Rightarrow> (string \<times> string \<times> string) list" where
  "queue_keys rows = map (\<lambda>r. (q_task r, q_hash r, q_start r)) rows"

lemma upsert_keys:
  "queue_keys (upsert_queue t cfg now x rows) =
     (if (t, tm_hash x, tm_window_start x) \<in> set (queue_keys rows) then queue_keys rows
      else queue_keys rows @ [(t, tm_hash x, tm_window_start x)])"
  by (auto simp: queue_keys_def upsert_queue_def upd_where_def queue_key_def exists_where_iff)

lemma upsert_distinct: "distinct (queue_keys rows) \<Longrightarrow> distinct (queue_keys (fold (upsert_queue t cfg now) ts rows))"
proof (induction ts arbitrary: rows)
  case (Cons x ts)
  have "distinct (queue_keys (upsert_queue t cfg now x rows))" using Cons.prems by (simp add: upsert_keys)
  then show ?case using Cons.IH by simp
qed simp

lemma queue_total_upd:
  assumes "distinct (queue_keys rows)" and "exists_where (queue_key t x) rows"
  shows "queue_total t (tm_hash x) (tm_window_start x) (upd_where (queue_key t x)
      (\<lambda>r. r\<lparr>q_count := q_count r + tm_count x, q_template := x, q_updated := now\<rparr>) rows)
    = queue_total t (tm_hash x) (tm_window_start x) rows + tm_count x"
proof -
  define f where "f = (\<lambda>r::queue_row. r\<lparr>q_count := q_count r + tm_count x, q_template := x, q_updated := now\<rparr>)"
  define key where "key = (\<lambda>r::queue_row. (q_task r, q_hash r, q_start r))"
  have k: "queue_key t x r \<longleftrightarrow> key r = (t, tm_hash x, tm_window_start x)" for r
    by (simp add: queue_key_def key_def)
  from assms(2) obtain r0 where r0: "r0 \<in> set rows" "key r0 = (t, tm_hash x, tm_window_start x)"
    by (auto simp: exists_where_iff k)
  obtain xs ys where rows: "rows = xs @ r0 # ys" using r0(1) by (meson split_list)
  have "key r0 \<notin> set (map key xs)" "key r0 \<notin> set (map key ys)"
    using assms(1) by (simp_all add: rows queue_keys_def key_def [symmetric] del: set_map)
  then have none: "filter (queue_key t x) xs = []" "filter (queue_key t x) ys = []"
    by (auto simp: filter_empty_conv k r0(2) intro: rev_image_eqI simp flip: r0(2))
  have fkey: "queue_key t x (f r) \<longleftrightarrow> queue_key t x r" for r by (simp add: f_def queue_key_def)
  have q: "(\<lambda>r::queue_row. q_task r = t \<and> q_hash r = tm_hash x \<and> q_start r = tm_window_start x) = queue_key t x"
    by (simp add: queue_key_def fun_eq_iff)
  have one: "filter (queue_key t x) rows = [r0]" using r0 none by (simp add: rows k)
  have "filter (queue_key t x) (upd_where (queue_key t x) f rows)
      = upd_where (queue_key t x) f (filter (queue_key t x) rows)"
    by (rule filter_upd_where) (simp add: fkey)
  then have "filter (queue_key t x) (upd_where (queue_key t x) f rows) = [f r0]"
    by (simp only: one) (simp add: upd_where_def k r0)
  with one show ?thesis by (simp add: queue_total_def q f_def [symmetric]) (simp add: f_def)
qed

lemma queue_total_upd_other:
  assumes "(k, h, s) \<noteq> (t, tm_hash x, tm_window_start x)"
    and "\<And>r. q_task (f r) = q_task r \<and> q_hash (f r) = q_hash r \<and> q_start (f r) = q_start r"
  shows "queue_total k h s (upd_where (queue_key t x) f rows) = queue_total k h s rows"
  using assms by (induction rows) (auto simp: queue_total_def upd_where_def queue_key_def)

lemma upsert_total:
  assumes "distinct (queue_keys rows)"
  shows "queue_total k h s (upsert_queue t cfg now x rows) =
     queue_total k h s rows + (if k = t \<and> tm_hash x = h \<and> tm_window_start x = s then tm_count x else 0)"
proof (cases "exists_where (queue_key t x) rows")
  case True
  then show ?thesis
    using queue_total_upd [OF assms True] queue_total_upd_other [of k h s t x _ rows]
    by (cases "(k, h, s) = (t, tm_hash x, tm_window_start x)") (auto simp: upsert_queue_def)
next
  case False
  then show ?thesis by (auto simp: upsert_queue_def queue_total_def)
qed

lemma fold_upsert_total:
  "distinct (queue_keys rows) \<Longrightarrow>
   queue_total k h s (fold (upsert_queue t cfg now) ts rows) =
     queue_total k h s rows + (if k = t then reported h s ts else 0)"
proof (induction ts arbitrary: rows)
  case (Cons x ts)
  have "distinct (queue_keys (upsert_queue t cfg now x rows))"
    using upsert_distinct [OF Cons.prems, of t cfg now "[x]"] by simp
  with Cons show ?case by (simp add: upsert_total reported_def)
qed (simp add: reported_def)

subsection \<open>The status and the result of a task\<close>

definition status_of :: "string \<Rightarrow> 'l sdb \<Rightarrow> tstatus option" where
  "status_of j db = map_option (\<lambda>r. tk_status (tr_task r)) (find_task j db)"

definition result_of :: "string \<Rightarrow> 'l sdb \<Rightarrow> pv" where
  "result_of j db = (case find_task j db of None \<Rightarrow> PNone | Some r \<Rightarrow> tk_result (tr_task r))"

text \<open>A store operation that writes \<open>task\<close> as the new value of the task \<open>t\<close>, or nothing.\<close>

definition writes :: "string \<Rightarrow> stream_task \<Rightarrow> 'l sdb \<Rightarrow> 'l sdb \<Rightarrow> bool" where
  "writes t task db db' =
     (\<forall>j. map_option tr_task (find_task j db') =
        (if j = t then Some task else map_option tr_task (find_task j db)))"

lemma writes_intro:
  assumes "find_task t db = Some row"
  shows "writes t task db (append_event t e (write_task t task now db))"
    and "writes t task db (append_event t e (write_json t task now db))"
  using assms by (auto simp: writes_def option.map_comp comp_def intro!: option.map_cong)

lemma writes_same: "find_task t db = Some row \<Longrightarrow> writes t (tr_task row) db db"
  by (simp add: writes_def)

lemma writes_claim:
  assumes "claim_task now fresh t db = Inr (db', task)"
  shows "\<exists>row. find_task t db = Some row \<and> writes t task db db'
           \<and> tk_status task = TRunning \<and> tk_result task = tk_result (tr_task row)"
proof -
  from assms obtain row where row: "find_task t db = Some row"
    by (auto simp: claim_task_def split: option.splits)
  define p where "p = (\<lambda>r::task_row. tr_id r = t \<and> tr_status r = tr_status row)"
  define f where "f = (\<lambda>r::task_row. r\<lparr>tr_status := TRunning, tr_stage := Reading, tr_task := task, tr_updated := now\<rparr>)"
  from assms row have db': "db' = append_event t (''task_claimed'', PDict [], now)
      (db\<lparr>s_tasks := upd_where p f (s_tasks db)\<rparr>)"
    and task: "tk_status task = TRunning" "tk_result task = tk_result (tr_task row)"
    by (auto simp: claim_task_def Let_def p_def f_def split: if_splits)
  have "find_task j db' = map_option (\<lambda>r. if p r then f r else r) (find_task j db)" for j
    unfolding db' append_event_fields by (rule find_task_upd) (simp add: f_def)
  then have "writes t task db db'"
    using row by (auto simp: writes_def p_def f_def option.map_comp comp_def dest: find_task_id intro!: option.map_cong)
  with row task show ?thesis by blast
qed

text \<open>
  Every call keeps the status and the result of every task, or writes one task; what it
  may write is the status \<open>TCompleted\<close> only through \<open>complete_claim\<close>, and a new result only through
  \<open>save_result\<close>, without raw fields.
\<close>

definition written_ok :: "sop \<Rightarrow> string \<Rightarrow> stream_task \<Rightarrow> 'l sdb \<Rightarrow> bool" where
  "written_ok op t task db =
     ((tk_status task = TCompleted \<longrightarrow> status_of t db = Some TCompleted
         \<or> (\<exists>now tok ref e. op = OpComplete now t tok ref e))
      \<and> (tk_result task = result_of t db \<or> \<not> has_raw (tk_result task)))"

lemma update_task_writes:
  assumes "update_task now t st sg et er db = Inr (db', task)" and "st \<noteq> TCompleted"
  shows "writes t task db db' \<and> written_ok op t task db"
  using assms
  by (auto simp: update_task_def Let_def written_ok_def result_of_def intro: writes_intro split: option.splits)

lemma create_cases:
  assumes "create_or_load now fresh d h tid db = Inr (db', task)"
  shows "(\<exists>t row. db' = db \<and> find_task t db = Some row \<and> task = tr_task row)
       \<or> (\<exists>k e r. db' = append_event k e (db\<lparr>s_tasks := s_tasks db @ [r]\<rparr>) \<and> find_task k db = None
              \<and> tr_id r = k \<and> tr_task r = task \<and> task = new_task d h k now)"
proof -
  define k where "k = (if tid = None \<or> tid = Some [] then ''stream_'' @ fresh else the tid)"
  define e where "e = (''task_created'',
    PDict [(''source_kind'', PStr (ds_kind d)), (''config_hash'', PStr h)], now)"
  define r where "r = \<lparr>tr_id = k, tr_kind = ds_kind d, tr_config_hash = h,
    tr_status = tk_status (new_task d h k now), tr_stage = tk_stage (new_task d h k now),
    tr_cursor = tk_cursor (new_task d h k now), tr_task = new_task d h k now, tr_updated = now\<rparr>"
  have "(\<exists>t row. db' = db \<and> find_task t db = Some row \<and> task = tr_task row)
       \<or> db' = append_event k e (db\<lparr>s_tasks := s_tasks db @ [r]\<rparr>) \<and> find_task k db = None
              \<and> task = new_task d h k now"
    using assms
    by (cases tid) (auto simp: create_or_load_def Let_def k_def e_def r_def split: if_split_asm option.split_asm)
  moreover have "tr_id r = k" "tr_task r = new_task d h k now" by (simp_all add: r_def)
  ultimately show ?thesis by metis
qed

lemma create_writes:
  assumes "create_or_load now fresh d h tid db = Inr (db', task)"
  shows "\<exists>t. writes t task db db' \<and> written_ok op t task db"
  using create_cases [OF assms]
proof (elim disjE exE conjE)
  fix t row
  assume "db' = db" and "find_task t db = Some row" and "task = tr_task row"
  then show ?thesis
    by (intro exI [of _ t]) (auto simp: written_ok_def status_of_def result_of_def intro: writes_same)
next
  fix k e r
  assume "db' = append_event k e (db\<lparr>s_tasks := s_tasks db @ [r]\<rparr>)" and "find_task k db = None"
    and "tr_id r = k" and "tr_task r = task" and task: "task = new_task d h k now"
  then have "writes k task db db'" by (auto simp: writes_def find_task_append split: option.splits)
  then show ?thesis by (intro exI [of _ k]) (simp add: task written_ok_def new_task_def)
qed

lemma commit_writes:
  assumes "commit_window sha ledger now t a db = Inr (db', b)"
  shows "\<exists>task. writes t task db db' \<and> written_ok op t task db"
proof -
  from assms obtain row where row: "find_task t db = Some row" by (elim commit_windowE)
  show ?thesis
  proof (cases b)
    case False
    with assms commit_window_False [of sha ledger now t a db db'] row show ?thesis
      by (intro exI [of _ "tr_task row"]) (auto simp: writes_def written_ok_def status_of_def result_of_def find_task_def)
  next
    case True
    with assms row obtain c ts ws l h n where
      db': "db' = store_batch now t a row (cursor_to_dict c) ts ws h n (db\<lparr>s_ledger := l\<rparr>)"
      by (auto elim: commit_window_TrueE)
    have "find_task j (db\<lparr>s_ledger := l\<rparr>) = find_task j db" for j by (simp add: find_task_def)
    with row show ?thesis
      by (intro exI [of _ "batch_task now a row (cursor_to_dict c) n"])
        (auto simp: db' writes_def find_task_store_batch written_ok_def result_of_def batch_task_def
          option.map_comp comp_def intro!: option.map_cong)
  qed
qed

lemmas wr_simps = Let_def written_ok_def result_of_def status_of_def

lemma step_writes:
  assumes "s_apply sha ledger op db = Inr db'"
  shows "s_tasks db' = s_tasks db \<or> (\<exists>t task. writes t task db db' \<and> written_ok op t task db)"
proof (cases op)
  case (OpCreate now fresh d h tid)
  with assms create_writes [of now fresh d h tid db db'] show ?thesis by auto
next
  case (OpClaim now fresh tid)
  with assms obtain task where "claim_task now fresh tid db = Inr (db', task)" by auto
  from writes_claim [OF this] show ?thesis
    by (intro disjI2 exI [of _ tid] exI [of _ task]) (auto simp: written_ok_def result_of_def)
next
  case (OpCommit now tid a)
  with assms commit_writes [of sha ledger now tid a db db'] show ?thesis by auto
next
  case (OpClaimStage now tid tok sg)
  with assms obtain task where "mark_claim_stage now tid tok sg db = Inr (db', task)" by auto
  then have "writes tid task db db' \<and> written_ok op tid task db"
    using OpClaimStage by (cases "find_task tid db") (auto simp: mark_claim_stage_def wr_simps intro!: writes_intro writes_same split: if_split_asm)
  then show ?thesis by blast
next
  case (OpAttach now tid job)
  with assms obtain task where "attach_input_job now tid job db = Inr (db', task)" by auto
  then have "writes tid task db db' \<and> written_ok op tid task db"
    using OpAttach by (cases "find_task tid db") (auto simp: attach_input_job_def wr_simps intro!: writes_intro writes_same split: if_split_asm)
  then show ?thesis by blast
next
  case (OpFinish now tid tok e i c d)
  with assms obtain task where "finish_claim now tid tok e i c d db = Inr (db', task)" by auto
  then have "writes tid task db db' \<and> written_ok op tid task db"
    using OpFinish by (cases "find_task tid db") (auto simp: finish_claim_def wr_simps intro!: writes_intro writes_same split: if_split_asm)
  then show ?thesis by blast
next
  case (OpAck now tid cur tok)
  with assms obtain task where "clear_pending_external_commit now tid cur tok db = Inr (db', task)" by auto
  then have "writes tid task db db' \<and> written_ok op tid task db"
    using OpAck by (cases "find_task tid db"; cases "cursor_from_dict cur") (auto simp: clear_pending_external_commit_def wr_simps intro!: writes_intro writes_same split: if_split_asm)
  then show ?thesis by blast
next
  case (OpSave now tid r tok ref)
  with assms obtain task where "save_result now tid r tok ref db = Inr (db', task)" by auto
  then have "writes tid task db db' \<and> written_ok op tid task db"
    using OpSave by (cases "find_task tid db") (auto simp: save_result_def reject_raw_fields_def wr_simps intro!: writes_intro writes_same split: if_split_asm)
  then show ?thesis by blast
next
  case (OpComplete now tid tok ref e)
  with assms obtain task where c: "complete_claim now tid tok ref e db = Inr (db', task)" by auto
  then obtain row ev where row: "find_task tid db = Some row"
    and w: "db' = append_event tid ev (write_task tid task now db)" and "tk_result task = tk_result (tr_task row)"
    by (auto simp: complete_claim_def Let_def split: option.split_asm if_split_asm)
  with OpComplete have "writes tid task db db' \<and> written_ok op tid task db"
    by (auto simp: written_ok_def result_of_def intro!: writes_intro)
  then show ?thesis by blast
qed (use assms in \<open>auto simp: mark_defs dest: update_task_writes split: if_split_asm\<close>)

lemma status_of_writes:
  "writes t task db db' \<Longrightarrow> status_of j db' = (if j = t then Some (tk_status task) else status_of j db)"
  "writes t task db db' \<Longrightarrow> result_of j db' = (if j = t then tk_result task else result_of j db)"
proof -
  assume w: "writes t task db db'"
  have s: "status_of j d = map_option tk_status (map_option tr_task (find_task j d))"
    "result_of j d = (case map_option tr_task (find_task j d) of None \<Rightarrow> PNone | Some x \<Rightarrow> tk_result x)" for d :: "'a sdb"
    by (simp_all add: status_of_def result_of_def option.map_comp comp_def split: option.split)
  from w have e: "map_option tr_task (find_task j db')
      = (if j = t then Some task else map_option tr_task (find_task j db))" by (simp add: writes_def)
  show "status_of j db' = (if j = t then Some (tk_status task) else status_of j db)"
    by (simp only: s(1) e) simp
  show "result_of j db' = (if j = t then tk_result task else result_of j db)"
    by (simp only: s(2) e) simp
qed

lemma completed_step:
  assumes "s_apply sha ledger op db = Inr db'" and "status_of j db' = Some TCompleted"
  shows "status_of j db = Some TCompleted \<or> (\<exists>now tok ref e. op = OpComplete now j tok ref e)"
proof -
  from step_writes [OF assms(1)] show ?thesis
  proof (elim disjE exE conjE)
    assume "s_tasks db' = s_tasks db"
    with assms(2) show ?thesis by (simp add: status_of_def find_task_def)
  next
    fix t task
    assume "writes t task db db'" and "written_ok op t task db"
    with assms(2) show ?thesis by (auto simp: status_of_writes written_ok_def split: if_split_asm)
  qed
qed

subsection \<open>Raw log fields\<close>

definition clean :: "'l sdb \<Rightarrow> bool" where
  "clean db = ((\<forall>w \<in> set (s_windows db). \<not> has_raw (wr_json w)) \<and> (\<forall>j. \<not> has_raw (result_of j db)))"

lemma rows_from_clean: "list_all (\<lambda>v. \<not> has_raw v) vs \<Longrightarrow> r \<in> set (rows_from t w k vs) \<Longrightarrow> \<not> has_raw (wr_json r)"
  by (induction vs arbitrary: k) auto

lemma light_step:
  assumes "s_apply sha ledger op db = Inr db'"
  shows "light db db' \<or> (\<exists>now fresh d h t. op = OpCreate now fresh d h t) \<or> (\<exists>now t a. op = OpCommit now t a)
    \<or> (\<exists>g. op = OpProject g)"
  using assms by (cases op) (auto intro: light_ops)

lemma windows_step:
  assumes "s_apply sha ledger op db = Inr db'" and "\<forall>w \<in> set (s_windows db). \<not> has_raw (wr_json w)"
  shows "\<forall>w \<in> set (s_windows db'). \<not> has_raw (wr_json w)"
proof (cases op)
  case (OpCommit now t a)
  with assms(1) obtain b where c: "commit_window sha ledger now t a db = Inr (db', b)" by auto
  show ?thesis
  proof (cases b)
    case False
    with c commit_window_False [of sha ledger now t a db db'] assms(2) show ?thesis by auto
  next
    case True
    from c True have "commit_window sha ledger now t a db = Inr (db', True)" by simp
    then show ?thesis
    proof (rule commit_window_TrueE)
      fix x ts ws row l n
      assume ws: "map_res safe_window (case ca_windows a of None \<Rightarrow> ca_templates a | Some ws \<Rightarrow> ws) = Inr ws"
        and db': "db' = store_batch now t a row (cursor_to_dict x) ts ws
          (payload_hash sha (cursor_to_dict x) ws (ca_summary a)) n (db\<lparr>s_ledger := l\<rparr>)"
      have "list_all (\<lambda>v. \<not> has_raw v) ws" by (rule map_res_Inr_all [OF ws]) (rule safe_window_no_raw)
      then have "\<forall>w \<in> set (rows_from t (ca_window a) 0 ws). \<not> has_raw (wr_json w)"
        by (intro ballI) (rule rows_from_clean)
      with assms(2) show ?thesis by (auto simp: db')
    qed
  qed
next
  case (OpCreate now fresh d h tid)
  with assms show ?thesis by (auto dest: create_cases)
next
  case (OpProject g)
  with assms show ?thesis by auto
qed (use light_step [OF assms(1)] assms(2) in \<open>simp_all add: light_def\<close>)

lemma clean_step:
  assumes "s_apply sha ledger op db = Inr db'" and "clean db"
  shows "clean db'"
proof -
  have "\<not> has_raw (result_of j db')" for j
    using step_writes [OF assms(1)]
  proof (elim disjE exE conjE)
    assume "s_tasks db' = s_tasks db"
    with assms(2) show ?thesis by (simp add: clean_def result_of_def find_task_def)
  next
    fix t task
    assume "writes t task db db'" and "written_ok op t task db"
    with assms(2) show ?thesis by (auto simp: status_of_writes written_ok_def clean_def split: if_split_asm)
  qed
  with windows_step [OF assms(1)] assms(2) show ?thesis by (simp add: clean_def)
qed

lemma queue_step:
  assumes "s_apply sha ledger op db = Inr db'" and "distinct (queue_keys (s_queue db))"
  shows "distinct (queue_keys (s_queue db'))"
proof (cases op)
  case (OpCommit now t a)
  with assms(1) obtain b where c: "commit_window sha ledger now t a db = Inr (db', b)" by auto
  show ?thesis
  proof (cases b)
    case False
    with c commit_window_False [of sha ledger now t a db db'] assms(2) show ?thesis by auto
  next
    case True
    from c True have "commit_window sha ledger now t a db = Inr (db', True)" by simp
    then show ?thesis
      by (elim commit_window_TrueE) (simp add: assms(2) upsert_distinct)
  qed
next
  case (OpCreate now fresh d h tid)
  with assms show ?thesis by (auto dest: create_cases)
next
  case (OpProject g)
  with assms show ?thesis by auto
qed (use light_step [OF assms(1)] assms(2) in \<open>simp_all add: light_def\<close>)

end
