(* ===== verification/Streaming_Demo.thy ===== *)
theory Streaming_Demo
  imports Streaming_Steps
begin

text \<open>
  A small concrete run of the streaming repository that the witnesses use: one file task that is
  created, claimed, and commits two batches. \<open>open_db\<close> is the store before the first batch and
  \<open>run_db\<close> the store after the second, evaluated once.
\<close>

definition demo_sha :: "string \<Rightarrow> string" where
  "demo_sha s = ''h'' @ nat_digits (length s)"

lemma demo_sha_nonempty [simp]: "demo_sha v \<noteq> []"
  by (simp add: demo_sha_def)

definition demo_cursor :: "int \<Rightarrow> pv" where
  "demo_cursor n = cursor_to_dict \<lparr>cur_kind = ''file'', cur_value = [(''offset'', PInt n), (''line'', PInt n)]\<rparr>"

definition demo_window :: "(string \<times> pv) list" where
  "demo_window = [(''template_hash'', PStr ''t1''), (''message'', PStr ''secret''),
     (''time_quality'', PStr ''unknown'')]"

definition demo_template :: "(string \<times> pv) list" where
  "demo_template = [(''template_hash'', PStr ''t1''), (''window_start'', PStr ''unknown''), (''count'', PInt 4)]"

definition demo_args :: "string \<Rightarrow> int \<Rightarrow> commit_args" where
  "demo_args w n = \<lparr>ca_window = w, ca_cursor = demo_cursor n, ca_templates = [demo_template],
     ca_windows = Some [demo_window], ca_summary = [(''record_count'', PInt 3)], ca_ledger = None,
     ca_fencing = Some ''lease'', ca_miner = PNone, ca_expected = None\<rparr>"

definition demo_descriptor :: descriptor where
  "demo_descriptor = \<lparr>ds_kind = ''file'', ds_identity = [], ds_configuration = []\<rparr>"

definition demo_open :: "sop list" where
  "demo_open = [OpCreate ''1'' ''u'' demo_descriptor ''cfg'' (Some ''t''), OpClaim ''2'' ''lease'' ''t'']"

definition demo_ops :: "sop list" where
  "demo_ops = demo_open @ [OpCommit ''3'' ''t'' (demo_args ''w1'' 10), OpCommit ''4'' ''t'' (demo_args ''w2'' 20)]"

definition demo_db :: "sop list \<Rightarrow> unit sdb" where
  "demo_db ops = projr (s_run demo_sha None ops (sdb_empty ()))"

lemmas demo_defs = demo_cursor_def demo_window_def demo_template_def demo_args_def demo_descriptor_def
  demo_open_def demo_ops_def

lemma demo_run: "\<not> isl (s_run demo_sha None demo_ops (sdb_empty ()))"
  by code_simp

lemma demo_reach:
  assumes "run_allowed [] ops" and "\<not> isl (s_run demo_sha None ops (sdb_empty ()))"
  shows "\<exists>t. sreach demo_sha None t (demo_db ops)"
  using s_run_reach [OF sreach.start assms(1), of demo_sha None "()"] assms(2)
  by (cases "s_run demo_sha None ops (sdb_empty ())") (auto simp: demo_db_def)

lemma demo_allowed: "run_allowed [] demo_ops"
  by code_simp

definition open_db :: "unit sdb" where
  "open_db =
    \<lparr>s_tasks = [\<lparr>tr_id = ''t'', tr_kind = ''file'', tr_config_hash = ''cfg'', tr_status =
     TRunning, tr_stage = Reading, tr_cursor = cursor_to_dict cursor_empty, tr_task = \<lparr>tk_id = ''t'',
     tk_source = PDict [(''kind'', PStr ''file''), (''identity'', PDict []), (''configuration'', PDict [])],
     tk_config_hash = ''cfg'', tk_status = TRunning, tk_stage = Reading, tk_cursor = cursor_to_dict
     cursor_empty, tk_windows = 0, tk_records = 0, tk_pending = PNone, tk_result = PNone, tk_result_ref =
     PNone, tk_error = None, tk_error_details = PNone, tk_lease = Some ''lease'', tk_miner = PNone,
     tk_input_job = None, tk_created = ''1'', tk_updated = ''2''\<rparr>, tr_updated = ''2''\<rparr>],
     s_events = [\<lparr>ev_key = ''t'', ev_seq = 1, ev_type = ''task_created'', ev_payload = PDict
     [(''source_kind'', PStr ''file''), (''config_hash'', PStr ''cfg'')], ev_idem = None, ev_at =
     ''1''\<rparr>, \<lparr>ev_key = ''t'', ev_seq = 2, ev_type = ''task_claimed'', ev_payload = PDict [],
     ev_idem = None, ev_at = ''2''\<rparr>], s_commits = [], s_windows = [], s_queue = [], s_generations =
     [], s_ledger = ()\<rparr>"

definition run_db :: "unit sdb" where
  "run_db =
    \<lparr>s_tasks = [\<lparr>tr_id = ''t'', tr_kind = ''file'', tr_config_hash = ''cfg'', tr_status =
     TRunning, tr_stage = Aggregating, tr_cursor = demo_cursor 20, tr_task = \<lparr>tk_id = ''t'', tk_source
     = PDict [(''kind'', PStr ''file''), (''identity'', PDict []), (''configuration'', PDict [])],
     tk_config_hash = ''cfg'', tk_status = TRunning, tk_stage = Aggregating, tk_cursor = demo_cursor 20,
     tk_windows = 2, tk_records = 6, tk_pending = demo_cursor 20, tk_result = PNone, tk_result_ref = PNone,
     tk_error = None, tk_error_details = PNone, tk_lease = Some ''lease'', tk_miner = PNone, tk_input_job =
     None, tk_created = ''1'', tk_updated = ''4''\<rparr>, tr_updated = ''4''\<rparr>], s_events =
     [\<lparr>ev_key = ''t'', ev_seq = 1, ev_type = ''task_created'', ev_payload = PDict [(''source_kind'',
     PStr ''file''), (''config_hash'', PStr ''cfg'')], ev_idem = None, ev_at = ''1''\<rparr>, \<lparr>ev_key
     = ''t'', ev_seq = 2, ev_type = ''task_claimed'', ev_payload = PDict [], ev_idem = None, ev_at =
     ''2''\<rparr>, \<lparr>ev_key = ''t'', ev_seq = 3, ev_type = ''window_committed'', ev_payload = PDict
     [(''window_id'', PStr ''w1''), (''template_count'', PInt 1)], ev_idem = None, ev_at = ''3''\<rparr>,
     \<lparr>ev_key = ''t'', ev_seq = 4, ev_type = ''window_committed'', ev_payload = PDict [(''window_id'',
     PStr ''w2''), (''template_count'', PInt 1)], ev_idem = None, ev_at = ''4''\<rparr>], s_commits =
     [\<lparr>cm_task = ''t'', cm_window = ''w1'', cm_cursor = demo_cursor 10, cm_summary =
     [(''record_count'', PInt 3)], cm_at = ''3'', cm_hash = ''h147'', cm_manifest = PNone\<rparr>,
     \<lparr>cm_task = ''t'', cm_window = ''w2'', cm_cursor = demo_cursor 20, cm_summary =
     [(''record_count'', PInt 3)], cm_at = ''4'', cm_hash = ''h147'', cm_manifest = PNone\<rparr>], s_windows
     = [\<lparr>wr_task = ''t'', wr_window = ''w1'', wr_index = 0, wr_json = PDict [(''template_hash'', PStr
     ''t1''), (''time_quality'', PStr ''unknown'')]\<rparr>, \<lparr>wr_task = ''t'', wr_window = ''w2'',
     wr_index = 0, wr_json = PDict [(''template_hash'', PStr ''t1''), (''time_quality'', PStr
     ''unknown'')]\<rparr>], s_queue = [\<lparr>q_task = ''t'', q_hash = ''t1'', q_component = ''unknown'',
     q_start = ''unknown'', q_config = ''cfg'', q_count = 8, q_template = \<lparr>tm_hash = ''t1'',
     tm_component = ''unknown'', tm_template = [], tm_count = 4, tm_window_start = ''unknown'', tm_window_end
     = [], tm_time_quality = PStr ''unknown'', tm_severity = PNone, tm_category = PNone, tm_semantic_fields =
     PDict []\<rparr>, q_status = ''open'', q_created = ''3'', q_updated = ''4''\<rparr>], s_generations =
     [], s_ledger = ()\<rparr>"

lemma open_db: "demo_db demo_open = open_db"
  by code_simp

lemma run_db: "demo_db demo_ops = run_db"
  by code_simp

lemma run_db_reach: "\<exists>t. sreach demo_sha None t run_db"
  using demo_reach [OF _ demo_run] demo_allowed by (simp add: run_db)

end
