(* ===== verification/Streaming_Properties.thy ===== *)
theory Streaming_Properties
  imports Streaming_Demo "HOL-Library.Multiset"
begin

text \<open>
  The properties of the streaming repository, with a small concrete run that witnesses them:
  one file task that is created, claimed, and commits two batches.
\<close>

subsection \<open>The committed history\<close>

text \<open>C10: the payload hash that is computed from the stored rows of a batch, read in pages of 250 and fed
  to the digest piece by piece, is the payload hash of the batch in memory, whatever other rows the table holds.\<close>

theorem stored_payload_hash_agrees:
  "stored_payload_hash sha
     (filter (\<lambda>r. \<not> (wr_task r = t \<and> wr_window r = w)) rows @ rows_from t w 0 vs) t w c s
   = Inr (payload_hash sha c vs s, int (length vs))"
  by (rule stored_payload_hash_rows) (simp add: rows_from_filter_key)



text \<open>The evidence orders the batches by \<open>committed_at\<close>, the wall clock. When the clock steps back
  between two commits, both are accepted and the history no longer verifies.
\<close>

theorem clock_step_back_breaks_prefix:
  "\<exists>db. s_run demo_sha None (demo_open @ [OpCommit ''4'' ''t'' (demo_args ''w1'' 10),
            OpCommit ''3'' ''t'' (demo_args ''w2'' 20)]) (sdb_empty ()) = Inr db
        \<and> length (commits_of ''t'' db) = 2
        \<and> require_complete_prefix demo_sha ''t'' db = Inl (IncompleteErr ''frontier'')"
proof -
  have "case s_run demo_sha None (demo_open @ [OpCommit ''4'' ''t'' (demo_args ''w1'' 10),
            OpCommit ''3'' ''t'' (demo_args ''w2'' 20)]) (sdb_empty ()) of
      Inl _ \<Rightarrow> False
    | Inr db \<Rightarrow> length (commits_of ''t'' db) = 2
        \<and> require_complete_prefix demo_sha ''t'' db = Inl (IncompleteErr ''frontier'')"
    by code_simp
  then show ?thesis by (auto split: sum.splits)
qed

text \<open>C11: in every reachable store the file checkpoints of the batches of a task never go backwards: an earlier
  batch is at an offset and line not greater than those of a later one.\<close>

theorem frontier_never_rewinds:
  assumes "sreach sha ledger t db" and "\<And>v. sha v \<noteq> []" and "find_task j db = Some row"
    and "commits_of j db = xs @ a # ys @ b # zs"
    and "\<forall>r \<in> set (commits_of j db). \<exists>c. cm_cursor r = cursor_to_dict c \<and> file_cursor c"
  shows "\<exists>ca cb. cm_cursor a = cursor_to_dict ca \<and> cm_cursor b = cursor_to_dict cb
           \<and> projr (file_pos ca) \<le> projr (file_pos cb)"
proof -
  define dec where "dec = (\<lambda>r::commit_row. projr (cursor_from_dict (cm_cursor r)))"
  define cs where "cs = commits_of j db"
  have dec: "cm_cursor r = cursor_to_dict (dec r) \<and> file_cursor (dec r)" if "r \<in> set cs" for r
    using that assms(5) by (force simp: dec_def cs_def)
  have succ: "successively frontier_le (map dec cs)" if "chain c cs" for c cs
    using that by (induction c cs rule: chain.induct) (force simp: dec_def successively_Cons hd_map neq_Nil_conv)+
  have "history_ok sha db j row" using sreach_store_ok [OF assms(1,2)] assms(3) by (auto simp: store_ok_def)
  then have "chain cursor_empty cs" by (simp add: history_ok_def Let_def cs_def)
  then have "successively frontier_le (map dec cs)" by (rule succ)
  moreover have "list_all file_cursor (map dec cs)" using dec by (simp add: list_all_iff)
  ultimately have "sorted_wrt (\<lambda>a b. file_cursor a \<and> file_cursor b \<and> frontier_le a b) (map dec cs)"
    by (intro file_frontier.chain_pairwise)
  then have "file_cursor (dec a)" "file_cursor (dec b)" "frontier_le (dec a) (dec b)"
    by (simp_all add: cs_def assms(4) sorted_wrt_append sorted_wrt_map)
  moreover have "a \<in> set cs" "b \<in> set cs" by (simp_all add: cs_def assms(4))
  ultimately show ?thesis using dec by (auto simp: frontier_le_file)
qed

theorem frontier_never_rewinds_witness:
  "\<exists>ca cb. cm_cursor (commits_of ''t'' run_db ! 0) = cursor_to_dict ca
     \<and> cm_cursor (commits_of ''t'' run_db ! 1) = cursor_to_dict cb
     \<and> projr (file_pos ca) \<le> projr (file_pos cb)"
proof -
  define cs where "cs = commits_of ''t'' run_db"
  obtain t where r: "sreach demo_sha None t run_db"
    using run_db_reach by blast
  have "find_task ''t'' run_db \<noteq> None" by code_simp
  then obtain row where row: "find_task ''t'' run_db = Some row" by blast
  have l: "length cs = 2" unfolding cs_def by code_simp
  then obtain a b where cs: "cs = [a, b]" by (auto simp: numeral_2_eq_2 length_Suc_conv)
  have "map cm_cursor cs = [demo_cursor 10, demo_cursor 20]" unfolding cs_def by code_simp
  then have ab: "cm_cursor a = demo_cursor 10" "cm_cursor b = demo_cursor 20" by (simp_all add: cs)
  have "\<exists>c. demo_cursor n = cursor_to_dict c \<and> file_cursor c" for n
    by (auto simp: demo_cursor_def file_cursor_def file_pos_def dget_def)
  with ab have "\<forall>r \<in> set cs. \<exists>c. cm_cursor r = cursor_to_dict c \<and> file_cursor c" by (simp add: cs)
  from frontier_never_rewinds [OF r _ row, of "[]" a "[]" b "[]"] this cs show ?thesis
    by (simp add: cs_def [symmetric])
qed

subsection \<open>Replays and workers that lost their lease\<close>


lemma find_task_ledger [simp]: "find_task j (db\<lparr>s_ledger := l\<rparr>) = find_task j db"
  by (simp add: find_task_def)

lemma find_commit_ledger [simp]: "find_commit j w (db\<lparr>s_ledger := l\<rparr>) = find_commit j w db"
  by (simp add: find_commit_def)




text \<open>a batch identifier that is stored with one payload is never accepted with another: the call raises
  and no store is returned.\<close>

theorem commit_payload_conflict:
  assumes "find_commit t (ca_window a) db = Some e" and "cm_hash e \<noteq> []"
    and "cursor_from_dict (ca_cursor a) = Inr c"
    and "map_res safe_window (case ca_windows a of None \<Rightarrow> ca_templates a | Some ws \<Rightarrow> ws) = Inr ws"
    and "cm_hash e \<noteq> payload_hash sha (cursor_to_dict c) ws (ca_summary a)"
  shows "isl (commit_window sha ledger now t a db)"
proof (rule ccontr)
  assume "\<not> isl (commit_window sha ledger now t a db)"
  then obtain db' b where "commit_window sha ledger now t a db = Inr (db', b)"
    by (cases "commit_window sha ledger now t a db") auto
  then show False using assms by (elim commit_windowE) (auto split: option.split_asm if_split_asm)
qed

theorem commit_payload_conflict_witness:
  "isl (commit_window demo_sha None ''9'' ''t'' ((demo_args ''w1'' 10)\<lparr>ca_summary := [(''record_count'', PInt 33)]\<rparr>)
     run_db)"
proof -
  define a where "a = (demo_args ''w1'' 10)\<lparr>ca_summary := [(''record_count'', PInt 33)]\<rparr>"
  define db where "db = run_db"
  define c where "c = projr (cursor_from_dict (ca_cursor a))"
  define ws where "ws = projr (map_res safe_window (case ca_windows a of None \<Rightarrow> ca_templates a | Some ws \<Rightarrow> ws))"
  define e where "e = the (find_commit ''t'' (ca_window a) db)"
  have "find_commit ''t'' (ca_window a) db \<noteq> None" unfolding a_def db_def by code_simp
  then have 1: "find_commit ''t'' (ca_window a) db = Some e" by (simp add: e_def)
  have 2: "cm_hash e \<noteq> []" unfolding e_def a_def db_def by code_simp
  have "\<not> isl (cursor_from_dict (ca_cursor a))" unfolding a_def by code_simp
  then have 3: "cursor_from_dict (ca_cursor a) = Inr c" by (simp add: c_def)
  have "\<not> isl (map_res safe_window (case ca_windows a of None \<Rightarrow> ca_templates a | Some ws \<Rightarrow> ws))"
    unfolding a_def by code_simp
  then have 4: "map_res safe_window (case ca_windows a of None \<Rightarrow> ca_templates a | Some ws \<Rightarrow> ws) = Inr ws"
    by (simp add: ws_def)
  have 5: "cm_hash e \<noteq> payload_hash demo_sha (cursor_to_dict c) ws (ca_summary a)"
    unfolding e_def c_def ws_def a_def db_def by code_simp
  from commit_payload_conflict [OF 1 2 3 4 5] show ?thesis unfolding a_def db_def .
qed

text \<open>C3: once a worker has claimed a task, every later call of a worker with another token is refused: it cannot
  commit a batch, change the stage, save a result, acknowledge a source offset or complete the task, and
  \<open>finish_claim\<close> returns without changing the store.\<close>

theorem takeover_fences_old_worker:
  assumes "claim_task now fresh t db = Inr (db', task)" and "old \<noteq> fresh"
  shows "isl (commit_window sha ledger n t (a\<lparr>ca_fencing := Some old\<rparr>) db')
     \<and> isl (mark_claim_stage n t old sg db') \<and> isl (save_result n t result (Some old) ref db')
     \<and> isl (clear_pending_external_commit n t cur (Some old) db') \<and> isl (complete_claim n t old r e db')
     \<and> finish_claim n t old er i c d db' = Inr (db', task)"
proof -
  have "find_task t db' \<noteq> None \<and> running_lease db' t = Some fresh"
    using claim_task_lease [OF assms(1)] by (auto simp: running_lease_def split: option.splits)
  then obtain row where row: "find_task t db' = Some row" and lease: "holds_lease (tr_task row) fresh"
    by (auto simp: running_lease_holds)
  have task: "tr_task row = task" using writes_claim [OF assms(1)] row unfolding writes_def by (metis option.map(2) option.inject)
  have "\<not> holds_lease (tr_task row) old" using lease assms(2) by (simp add: holds_lease_def)
  with row task have "finish_claim n t old er i c d db' = Inr (db', task)" by (simp add: finish_claim_def)
  moreover note commit_fence.takeover [OF assms, of "(sha, ledger, n, a)"]
    stage_fence.takeover [OF assms, of "(n, sg)"] save_fence.takeover [OF assms, of "(n, result, ref)"]
    ack_fence.takeover [OF assms, of "(n, cur)"] complete_fence.takeover [OF assms, of "(n, r, e)"]
  ultimately show ?thesis by (auto simp: isl_def)
qed

theorem takeover_fences_old_worker_witness:
  "isl (commit_window demo_sha None ''9'' ''t'' ((demo_args ''w1'' 10)\<lparr>ca_fencing := Some ''old''\<rparr>)
          open_db)"
proof -
  define db where "db = demo_db [OpCreate ''1'' ''u'' demo_descriptor ''cfg'' (Some ''t'')]"
  have "\<not> isl (claim_task ''2'' ''lease'' ''t'' db)" unfolding db_def by code_simp
  then obtain x where c: "claim_task ''2'' ''lease'' ''t'' db = Inr (fst x, snd x)"
    by (cases "claim_task ''2'' ''lease'' ''t'' db") auto
  have "open_db = fst (projr (claim_task ''2'' ''lease'' ''t'' db))" unfolding db_def by code_simp
  then have "open_db = fst x" by (simp add: c)
  with takeover_fences_old_worker [OF c, of "''old''"] show ?thesis by simp
qed

subsection \<open>Completion\<close>

text \<open>C4: a task becomes completed in one way only: by \<open>complete_claim\<close> of the worker that holds its lease, on
  evidence whose frontier is the checkpoint of the task and whose batch count is the number of its stored
  batches, and with a ready result generation at the same frontier.\<close>

theorem completion_needs_evidence:
  assumes "s_apply sha ledger op db = Inr db'" and "status_of j db \<noteq> Some TCompleted"
    and "status_of j db' = Some TCompleted"
  shows "\<exists>now tok ref e row g. op = OpComplete now j tok (Some ref) (Some e) \<and> find_task j db = Some row
     \<and> holds_lease (tr_task row) tok \<and> py_eq (saved_reference (tr_task row)) (PDict ref)
     \<and> g \<in> set (s_generations db) \<and> g_task g = j \<and> g_status g = ''ready''
     \<and> py_eq (g_frontier g) (tk_cursor (tr_task row)) \<and> py_eq (pe_frontier e) (tk_cursor (tr_task row))
     \<and> py_eq (dget (g_summary g) ''_integrity'') (integrity e tok)
     \<and> pe_batches e = int (length (commits_of j db))"
proof -
  from completed_step [OF assms(1,3)] assms(2) obtain now tok ref e where op: "op = OpComplete now j tok ref e"
    by blast
  with assms(1) obtain task where "complete_claim now j tok ref e db = Inr (db', task)" by auto
  then obtain row reference ev g where row: "find_task j db = Some row" "holds_lease (tr_task row) tok"
    and some: "ref = Some reference" "e = Some ev"
    and g: "find (\<lambda>g. g_task g = j \<and> g_name g = str_or (dget reference ''generation'')) (s_generations db) = Some g"
    and "py_eq (saved_reference (tr_task row)) (PDict reference)" "g_status g = ''ready''"
    and eq: "py_eq (g_frontier g) (tk_cursor (tr_task row))" "py_eq (g_frontier g) (pe_frontier ev)"
    and "py_eq (dget (g_summary g) ''_integrity'') (integrity ev tok)"
    and "int (count_where (\<lambda>r. cm_task r = j) (s_commits db)) = pe_batches ev"
    unfolding complete_claim_def by (auto simp: Let_def split: option.split_asm if_split_asm)
  moreover have "py_eq (pe_frontier ev) (tk_cursor (tr_task row))" using eq by (blast intro: py_eq_sym py_eq_trans)
  moreover have "g \<in> set (s_generations db) \<and> g_task g = j" using find_Some_in [OF g] by simp
  ultimately show ?thesis using op by (fastforce simp: commits_of_def count_where_def)
qed

definition demo_evidence :: prefix_evidence where
  "demo_evidence = \<lparr>pe_task = ''t'', pe_frontier = demo_cursor 20, pe_batches = 2, pe_records = 6,
     pe_completeness = ''complete'', pe_history = ''legacy_unknown'',
     pe_unknown = [''node_risk_enabled'', ''parallel'', ''partition_count'', ''process_start_method'',
       ''risk_semantic_matches'', ''template_count'', ''template_event_count'', ''unknown_template_count'', ''worker_count''],
     pe_invalid = [], pe_digest = ''h155''\<rparr>"

definition demo_reference :: "(string \<times> pv) list" where
  "demo_reference = [(''task_id'', PStr ''t''), (''generation'', PStr ''g1'')]"

definition demo_finish :: "unit sdb" where
  "demo_finish = projr (s_run demo_sha None
     [OpSave ''5'' ''t'' [(''result_ref'', PDict demo_reference)] (Some ''lease'') PNone,
      OpProject \<lparr>g_task = ''t'', g_name = ''g1'', g_status = ''ready'', g_frontier = demo_cursor 20,
        g_summary = [(''_integrity'', integrity demo_evidence ''lease'')]\<rparr>] run_db)"

definition demo_complete :: sop where
  "demo_complete = OpComplete ''6'' ''t'' ''lease'' (Some demo_reference) (Some demo_evidence)"

theorem completion_needs_evidence_witness:
  "\<exists>tok (e::prefix_evidence). holds_lease (tr_task (the (find_task ''t'' demo_finish))) tok \<and> pe_batches e = 2
     \<and> status_of ''t'' (projr (s_apply demo_sha None demo_complete demo_finish)) = Some TCompleted"
proof -
  have ok: "case s_apply demo_sha None demo_complete demo_finish of
      Inl _ \<Rightarrow> False | Inr db' \<Rightarrow> status_of ''t'' db' = Some TCompleted" by code_simp
  then obtain db' where c: "s_apply demo_sha None demo_complete demo_finish = Inr db'"
    by (cases "s_apply demo_sha None demo_complete demo_finish") auto
  with ok have after: "status_of ''t'' db' = Some TCompleted" by simp
  have before: "status_of ''t'' demo_finish \<noteq> Some TCompleted" by code_simp
  from completion_needs_evidence [OF c before after] obtain tok row and e :: prefix_evidence where
    "find_task ''t'' demo_finish = Some row" "holds_lease (tr_task row) tok"
    "pe_batches e = int (length (commits_of ''t'' demo_finish))"
    by (elim exE conjE) (rule that; assumption)
  moreover have "length (commits_of ''t'' demo_finish) = 2" by code_simp
  ultimately show ?thesis using c after by auto
qed

subsection \<open>What a reachable store contains\<close>



text \<open>the queue of unknown templates has one row for each task, template and window start, and a stored batch
  adds to the count of a row exactly what the templates of the batch report for it; a replayed batch adds
  nothing.\<close>

theorem unknown_queue_counts:
  assumes "sreach sha ledger t db" and "commit_window sha ledger' now j a db = Inr (db', b)"
    and "map_res safe_template (ca_templates a) = Inr ts"
  shows "distinct (queue_keys (s_queue db))
     \<and> queue_total k h s (s_queue db') = queue_total k h s (s_queue db) + (if b \<and> k = j then reported h s ts else 0)"
proof -
  have d: "distinct (queue_keys (s_queue db))"
    by (rule sreach_invariant [OF assms(1)]) (auto simp: sdb_empty_def queue_keys_def [of "[]"] queue_step)
  show ?thesis
  proof (cases b)
    case False
    with assms(2) commit_window_False [of sha ledger' now j a db db'] d show ?thesis by auto
  next
    case True
    with assms(2) have "commit_window sha ledger' now j a db = Inr (db', True)" by simp
    then have "queue_total k h s (s_queue db') = queue_total k h s (s_queue db) + (if k = j then reported h s ts else 0)"
      by (rule commit_window_TrueE) (use assms(3) d in \<open>simp add: fold_upsert_total\<close>)
    with True d show ?thesis by simp
  qed
qed

theorem unknown_queue_counts_witness:
  "\<exists>db'. commit_window demo_sha None ''9'' ''t'' (demo_args ''w3'' 30) run_db = Inr (db', True)
     \<and> queue_total ''t'' ''t1'' ''unknown'' (s_queue db') = 12"
proof -
  obtain t where r: "sreach demo_sha None t run_db"
    using run_db_reach by blast
  have "case commit_window demo_sha None ''9'' ''t'' (demo_args ''w3'' 30) run_db of
      Inl _ \<Rightarrow> False | Inr (_, b) \<Rightarrow> b" by code_simp
  then obtain db' where c:
    "commit_window demo_sha None ''9'' ''t'' (demo_args ''w3'' 30) run_db = Inr (db', True)"
    by (cases "commit_window demo_sha None ''9'' ''t'' (demo_args ''w3'' 30) run_db") auto
  define ts where "ts = projr (map_res safe_template (ca_templates (demo_args ''w3'' 30)))"
  have "\<not> isl (map_res safe_template (ca_templates (demo_args ''w3'' 30)))" by code_simp
  then have ts: "map_res safe_template (ca_templates (demo_args ''w3'' 30)) = Inr ts" by (simp add: ts_def)
  have "queue_total ''t'' ''t1'' ''unknown'' (s_queue run_db) = 8" "reported ''t1'' ''unknown'' ts = 4"
    unfolding ts_def by code_simp+
  with unknown_queue_counts [OF r c ts] c show ?thesis by auto
qed

text \<open>C14: in a reachable store the events of every task are numbered consecutively from 1, whatever the order in
  which the operations on different tasks are interleaved.\<close>

theorem stream_events_gapless:
  assumes "sreach sha ledger t db"
  shows "seqs_of j (s_events db) = map (\<lambda>i. 1 + int i) [0..<length (seqs_of j (s_events db))]"
proof -
  have "\<forall>k. gapless 0 (seqs_of k (s_events db))"
    by (rule sreach_invariant [OF assms]) (simp_all add: sdb_empty_def seqs_of_def [of _ "[]"] events_step)
  then show ?thesis by (simp add: gapless_def)
qed

theorem stream_events_gapless_witness: "seqs_of ''t'' (s_events run_db) = [1, 2, 3, 4]"
proof -
  obtain t where r: "sreach demo_sha None t run_db"
    using run_db_reach by blast
  have "length (seqs_of ''t'' (s_events run_db)) = 4" by code_simp
  with stream_events_gapless [OF r, of "''t''"] show ?thesis by (simp add: upt_rec)
qed

subsection \<open>Recovery at start-up\<close>

lemma find_task_interrupt:
  assumes "mark_interrupted now t db = Inr (db', task)"
  shows "find_task j db' = map_option (\<lambda>r. if j = t then r\<lparr>tr_status := TInterrupted, tr_stage := StageFailed,
     tr_task := task, tr_updated := now\<rparr> else r) (find_task j db) \<and> tk_status task = TInterrupted"
  using assms by (cases "find_task t db"; cases "find_task j db")
    (auto simp: mark_interrupted_def update_task_def Let_def)

lemma interrupt_each_spec:
  assumes "\<forall>x \<in> set ts. tk_status x = TRunning \<longrightarrow> find_task (tk_id x) db \<noteq> None"
  shows "\<exists>db'. interrupt_each now ts n db = Inr (db', n + count_where (\<lambda>x. tk_status x = TRunning) ts)
    \<and> (\<forall>j. status_of j db' = (if \<exists>x \<in> set ts. tk_status x = TRunning \<and> tk_id x = j then Some TInterrupted
            else status_of j db))"
  using assms
proof (induction ts arbitrary: n db)
  case Nil
  then show ?case by (simp add: count_where_def)
next
  case (Cons x ts)
  show ?case
  proof (cases "tk_status x = TRunning")
    case False
    with Cons.IH [of db n] Cons.prems show ?thesis by (simp add: count_where_def)
  next
    case True
    with Cons.prems obtain row where row: "find_task (tk_id x) db = Some row" by auto
    then obtain db1 task where m: "mark_interrupted now (tk_id x) db = Inr (db1, task)"
      by (simp add: mark_interrupted_def update_task_def Let_def)
    note f = find_task_interrupt [OF m]
    from Cons.prems f have "\<forall>y \<in> set ts. tk_status y = TRunning \<longrightarrow> find_task (tk_id y) db1 \<noteq> None" by auto
    from Cons.IH [OF this, of "Suc n"] obtain db2 where
      i: "interrupt_each now ts (Suc n) db1 = Inr (db2, Suc n + count_where (\<lambda>x. tk_status x = TRunning) ts)"
      and s: "\<forall>j. status_of j db2 = (if \<exists>x \<in> set ts. tk_status x = TRunning \<and> tk_id x = j then Some TInterrupted
            else status_of j db1)" by blast
    have "status_of j db1 = (if j = tk_id x then Some TInterrupted else status_of j db)" for j
      using f row by (auto simp: status_of_def option.map_comp comp_def intro!: option.map_cong)
    with i m s True show ?thesis by (auto simp: count_where_def)
  qed
qed

lemma interrupt_each_none: "\<forall>x \<in> set ts. tk_status x \<noteq> TRunning \<Longrightarrow> interrupt_each now ts n db = Inr (db, n)"
  by (induction ts) auto

text \<open>With at most 500 tasks, the recovery at start-up interrupts exactly the running tasks, reports their number,
  and leaves every other status alone.\<close>

theorem interrupt_leaves_none_running:
  assumes "length (s_tasks db) \<le> 500" and "distinct (map tr_id (s_tasks db))"
    and "\<forall>r \<in> set (s_tasks db). tk_id (tr_task r) = tr_id r"
  shows "\<exists>db'. interrupt_running_tasks now db
       = Inr (db', count_where (\<lambda>r. tk_status (tr_task r) = TRunning) (s_tasks db))
     \<and> (\<forall>j. status_of j db' = (if status_of j db = Some TRunning then Some TInterrupted else status_of j db))"
proof -
  define ts where "ts = list_tasks 500 db"
  define sorted where "sorted = rev (sort_key (\<lambda>r. (tr_updated r, tr_id r)) (s_tasks db))"
  have "length sorted \<le> 500" using assms(1) by (simp add: sorted_def)
  then have ts: "ts = map tr_task sorted" by (simp add: ts_def list_tasks_def clamp_def sorted_def)
  have "mset sorted = mset (s_tasks db)"
    unfolding sorted_def by (simp only: mset_rev mset_sort)
  then have m: "mset ts = mset (map tr_task (s_tasks db))" by (simp add: ts)
  then have "mset (filter (\<lambda>x. tk_status x = TRunning) ts)
      = mset (filter (\<lambda>x. tk_status x = TRunning) (map tr_task (s_tasks db)))" by (simp only: mset_filter)
  then have "length (filter (\<lambda>x. tk_status x = TRunning) ts)
      = length (filter (\<lambda>x. tk_status x = TRunning) (map tr_task (s_tasks db)))" by (rule mset_eq_length)
  then have c: "count_where (\<lambda>x. tk_status x = TRunning) ts
      = count_where (\<lambda>r. tk_status (tr_task r) = TRunning) (s_tasks db)"
    by (simp add: count_where_def filter_map comp_def)
  have st: "set ts = tr_task ` set (s_tasks db)" using m by (metis set_mset_mset list.set_map)
  have look: "find_task (tr_id r) db = Some r" if "r \<in> set (s_tasks db)" for r
    using that assms(2) unfolding find_task_def by (rule find_distinct)
  have ex: "(\<exists>x \<in> set ts. tk_status x = TRunning \<and> tk_id x = j) \<longleftrightarrow> status_of j db = Some TRunning" for j
    using assms(3) look by (auto simp: st status_of_def dest: find_task_in find_task_id)
  have "\<forall>x \<in> set ts. tk_status x = TRunning \<longrightarrow> find_task (tk_id x) db \<noteq> None"
    using assms(3) look by (auto simp: st)
  from interrupt_each_spec [OF this, of now 0] show ?thesis
    by (simp add: interrupt_running_tasks_def ts_def [symmetric] ex c)
qed


theorem interrupt_leaves_none_running_witness:
  "\<exists>db'. interrupt_running_tasks ''9'' run_db = Inr (db', 1) \<and> status_of ''t'' db' = Some TInterrupted"
proof -
  have 1: "length (s_tasks run_db) \<le> 500" by code_simp
  have 2: "distinct (map tr_id (s_tasks run_db))" by code_simp
  have 3: "\<forall>r \<in> set (s_tasks run_db). tk_id (tr_task r) = tr_id r" by code_simp
  have "count_where (\<lambda>r. tk_status (tr_task r) = TRunning) (s_tasks run_db) = 1"
    "status_of ''t'' run_db = Some TRunning" by code_simp+
  with interrupt_leaves_none_running [OF 1 2 3, of "''9''"] show ?thesis by auto
qed

definition crowd_row :: "string \<Rightarrow> tstatus \<Rightarrow> string \<Rightarrow> task_row" where
  "crowd_row k st now =
     (let task = (new_task \<lparr>ds_kind = ''file'', ds_identity = [], ds_configuration = []\<rparr> ''c'' k now)\<lparr>tk_status := st\<rparr>
      in \<lparr>tr_id = k, tr_kind = ''file'', tr_config_hash = ''c'', tr_status = st, tr_stage = Reading,
          tr_cursor = tk_cursor task, tr_task = task, tr_updated = now\<rparr>)"

definition crowd :: "unit sdb" where
  "crowd = (sdb_empty ())\<lparr>s_tasks := crowd_row ''old'' TRunning ''1'' #
     map (\<lambda>i. crowd_row (''t'' @ nat_digits i) TFailed ''2'') [0..<500]\<rparr>"

text \<open>beyond 500 tasks the recovery misses the least recently updated ones: here the only running task is the
  oldest of 501, and the call returns 0 and leaves it running.\<close>

theorem interrupt_misses_oldest_task:
  "interrupt_running_tasks ''3'' crowd = Inr (crowd, 0) \<and> status_of ''old'' crowd = Some TRunning"
proof -
  define k where "k = (\<lambda>r::task_row. (tr_updated r, tr_id r))"
  define old where "old = crowd_row ''old'' TRunning ''1''"
  define xs where "xs = map (\<lambda>i. crowd_row (''t'' @ nat_digits i) TFailed ''2'') [0..<500]"
  have rows: "s_tasks crowd = old # xs" by (simp add: crowd_def old_def xs_def)
  have len: "length xs = 500" by (simp add: xs_def)
  have upd: "\<forall>r \<in> set xs. k old \<le> k r" 
    by (auto simp: xs_def k_def old_def crowd_row_def Let_def less_char_def)
  then have "sort_key k (old # xs) = old # sort_key k xs" by (simp add: insort_is_Cons)
  then have "list_tasks 500 crowd = map tr_task (rev (sort_key k xs))"
    by (simp add: list_tasks_def clamp_def rows k_def [symmetric] len)
  moreover have "set (map tr_task (rev (sort_key k xs))) = tr_task ` set xs" by simp
  ultimately have "\<forall>t \<in> set (list_tasks 500 crowd). tk_status t \<noteq> TRunning"
    by (auto simp: xs_def crowd_row_def Let_def)
  then have "interrupt_each now (list_tasks 500 crowd) n crowd = Inr (crowd, n)" for now n
    by (rule interrupt_each_none)
  then show ?thesis
    by (simp add: interrupt_running_tasks_def status_of_def find_task_def rows) (simp add: old_def crowd_row_def Let_def)
qed
end
