(* ===== verification/Streaming_Summary.thy ===== *)
theory Streaming_Summary
  imports Streaming_History
begin

text \<open>
  What \<open>committed_summary\<close> reports: the accumulator after any list of batch summaries in closed
  form, and from it when the summary counts as complete and what its totals then are.
\<close>

definition valid_field :: "(string \<times> pv) list \<Rightarrow> string \<Rightarrow> bool" where
  "valid_field summary key =
     (if key \<in> {''parallel'', ''node_risk_enabled''} then is_bool (dget summary key)
      else if key = ''process_start_method'' then
        dget summary key \<in> {PStr ''spawn'', PStr ''fork'', PStr ''forkserver'', PStr ''not_applicable''}
      else is_nonnegative_int (dget summary key))"

definition summary_scan :: "(string \<times> pv) list list \<Rightarrow> summary_acc" where
  "summary_scan ss = fold summary_step ss summary_start"

lemma summary_scan_snoc: "summary_scan (ss @ [s]) = summary_step s (summary_scan ss)"
  by (simp add: summary_scan_def)

lemma scan_missing: "sa_missing (summary_scan ss) = {k \<in> set required_fields. \<exists>s \<in> set ss. dget s k = PNone}"
  by (induction ss rule: rev_induct)
    (auto simp: summary_scan_snoc summary_step_def Let_def, simp add: summary_scan_def summary_start_def)

lemma scan_invalid:
  "sa_invalid (summary_scan ss) = {k \<in> set required_fields. \<exists>s \<in> set ss. dget s k \<noteq> PNone \<and> \<not> valid_field s k}"
proof (induction ss rule: rev_induct)
  case Nil
  show ?case by (simp add: summary_scan_def summary_start_def)
next
  case (snoc s ss)
  have "sa_invalid (summary_step s acc) = sa_invalid acc \<union> {k \<in> set required_fields. dget s k \<noteq> PNone \<and> \<not> valid_field s k}" for acc
  proof -
    define a where "a = sum_fields @ [''worker_count'']"
    define f where "f = [''parallel'', ''node_risk_enabled'']"
    have req: "set required_fields = set a \<union> set f \<union> {''process_start_method''}"
      by (auto simp: required_fields_def a_def f_def)
    have va: "valid_field s k = is_nonnegative_int (dget s k)" if "k \<in> set a" for k
      using that by (auto simp: a_def sum_fields_def valid_field_def)
    have vf: "valid_field s k = is_bool (dget s k)" if "k \<in> set f" for k
      using that by (auto simp: f_def valid_field_def)
    have vm: "dget s ''process_start_method'' \<noteq> PNone \<and> \<not> valid_field s ''process_start_method''
        \<longleftrightarrow> dget s ''process_start_method'' \<notin> {PNone, PStr ''spawn'', PStr ''fork'', PStr ''forkserver'', PStr ''not_applicable''}"
      by (simp add: valid_field_def)
    have "sa_invalid (summary_step s acc) = sa_invalid acc
        \<union> set (filter (\<lambda>key. dget s key \<noteq> PNone \<and> \<not> is_nonnegative_int (dget s key)) a)
        \<union> set (filter (\<lambda>key. dget s key \<noteq> PNone \<and> \<not> is_bool (dget s key)) f)
        \<union> {k. k = ''process_start_method'' \<and> dget s k \<noteq> PNone \<and> \<not> valid_field s k}"
    proof -
      have m: "(if dget s ''process_start_method'' \<in> {PNone, PStr ''spawn'', PStr ''fork'', PStr ''forkserver'', PStr ''not_applicable''}
          then {} else {''process_start_method''}) = {k. k = ''process_start_method'' \<and> dget s k \<noteq> PNone \<and> \<not> valid_field s k}"
        using vm by auto
      show ?thesis unfolding summary_step_def Let_def m a_def f_def summary_acc.simps by (rule refl)
    qed
    then show ?thesis unfolding req using va vf by auto
  qed
  with snoc show ?case by (auto simp: summary_scan_snoc)
qed

lemma scan_sums:
  "sa_sums (summary_scan ss) k =
     sum_list (map (\<lambda>s. if is_nonnegative_int (dget s k) then int_of (dget s k) else 0) ss)"
  by (induction ss rule: rev_induct)
    (auto simp: summary_scan_snoc summary_step_def Let_def, simp_all add: summary_scan_def summary_start_def)

lemma scan_workers:
  "sa_workers (summary_scan ss) =
     fold max (map (\<lambda>s. if is_nonnegative_int (dget s ''worker_count'') then int_of (dget s ''worker_count'') else 0) ss) 0"
proof (induction ss rule: rev_induct)
  case Nil
  show ?case by (simp add: summary_scan_def summary_start_def)
next
  case (snoc s ss)
  have "0 \<le> fold max (xs :: int list) 0" for xs by (induction xs rule: rev_induct) auto
  with snoc show ?case by (simp add: summary_scan_snoc summary_step_def Let_def max.commute)
qed

lemma committed_summary_scan:
  "committed_summary t db =
     (let acc = summary_scan (map cm_summary (commits_of t db)) in
      \<lparr>su_totals = map (\<lambda>key. (key, total_of acc key)) (sum_fields @ [''worker_count'', ''parallel'', ''node_risk_enabled'']),
       su_method = start_method acc, su_unknown = sorted_list_of_set (sa_missing acc),
       su_invalid = sorted_list_of_set (sa_invalid acc),
       su_completeness = (if sa_missing acc \<noteq> {} \<or> sa_invalid acc \<noteq> {} then ''legacy_partial'' else ''complete'')\<rparr>)"
proof -
  have "fold (\<lambda>r. summary_step (cm_summary r)) rs acc = fold summary_step (map cm_summary rs) acc"
    for rs :: "commit_row list" and acc
    by (simp add: fold_map comp_def)
  then show ?thesis by (simp only: committed_summary_def commits_of_def summary_scan_def Let_def)
qed

text \<open>C15: the summary of a task is complete exactly when every required field of every committed batch has a value
  of its type; then each counter is the sum over the batches and the worker count their maximum, and
  otherwise the fields that are missing or ill-typed are the ones it names, with no value.\<close>

theorem committed_summary_correct:
  fixes t :: string and db :: "'l sdb"
  defines "ss \<equiv> map cm_summary (commits_of t db)" and "res \<equiv> committed_summary t db"
  shows "(su_completeness res = ''complete'' \<longleftrightarrow> (\<forall>s \<in> set ss. \<forall>k \<in> set required_fields. valid_field s k))
     \<and> (su_completeness res = ''complete'' \<longrightarrow>
          (\<forall>k \<in> set sum_fields. map_of (su_totals res) k = Some (PInt (sum_list (map (\<lambda>s. int_of (dget s k)) ss))))
          \<and> map_of (su_totals res) ''worker_count'' = Some (PInt (fold max (map (\<lambda>s. int_of (dget s ''worker_count'')) ss) 0)))
     \<and> (\<forall>k \<in> set sum_fields. k \<in> set (su_unknown res) \<union> set (su_invalid res) \<longrightarrow> map_of (su_totals res) k = Some PNone)
     \<and> set (su_unknown res) \<union> set (su_invalid res) = {k \<in> set required_fields. \<exists>s \<in> set ss. \<not> valid_field s k}"
proof -
  define acc where "acc = summary_scan ss"
  have none: "\<not> valid_field s k" if "dget s k = PNone" for s k
    using that by (auto simp: valid_field_def is_bool_def is_nonnegative_int_def)
  have fin: "finite (sa_missing acc)" "finite (sa_invalid acc)"
    by (simp_all add: acc_def scan_missing scan_invalid)
  have bad: "sa_missing acc \<union> sa_invalid acc = {k \<in> set required_fields. \<exists>s \<in> set ss. \<not> valid_field s k}"
    using none by (auto simp: acc_def scan_missing scan_invalid)
  note res = res_def committed_summary_scan Let_def ss_def [symmetric] acc_def [symmetric]
  have c: "su_completeness res = ''complete'' \<longleftrightarrow> sa_missing acc \<union> sa_invalid acc = {}" by (simp add: res)
  also have "\<dots> \<longleftrightarrow> (\<forall>s \<in> set ss. \<forall>k \<in> set required_fields. valid_field s k)" by (auto simp: bad)
  finally have complete: "su_completeness res = ''complete'' \<longleftrightarrow> (\<forall>s \<in> set ss. \<forall>k \<in> set required_fields. valid_field s k)" .
  have flags: "k \<notin> {''parallel'', ''node_risk_enabled'', ''worker_count'', ''process_start_method''}" if "k \<in> set sum_fields" for k
    using that by (auto simp: sum_fields_def)
  have total: "map_of (su_totals res) k = Some (total_of acc k)" if "k \<in> set sum_fields \<or> k = ''worker_count''" for k
    using that by (auto simp: res map_of_map_restrict restrict_map_def map_add_def sum_fields_def)
  have unknown: "set (su_unknown res) \<union> set (su_invalid res) = sa_missing acc \<union> sa_invalid acc"
    using fin by (simp add: res)
  have sums: "total_of acc k = PInt (sum_list (map (\<lambda>s. int_of (dget s k)) ss))"
    if "su_completeness res = ''complete''" "k \<in> set sum_fields" for k
  proof -
    have "is_nonnegative_int (dget s k)" if "s \<in> set ss" for s
      using that \<open>k \<in> set sum_fields\<close> \<open>su_completeness res = ''complete''\<close> flags [of k] complete
      by (force simp: required_fields_def valid_field_def)
    then have "map (\<lambda>s. if is_nonnegative_int (dget s k) then int_of (dget s k) else 0) ss = map (\<lambda>s. int_of (dget s k)) ss"
      by simp
    then have "sa_sums acc k = sum_list (map (\<lambda>s. int_of (dget s k)) ss)" by (simp only: acc_def scan_sums)
    with that c flags [of k] show ?thesis by (simp add: total_of_def)
  qed
  have workers: "total_of acc ''worker_count'' = PInt (fold max (map (\<lambda>s. int_of (dget s ''worker_count'')) ss) 0)"
    if "su_completeness res = ''complete''"
  proof -
    have "is_nonnegative_int (dget s ''worker_count'')" if "s \<in> set ss" for s
      using that \<open>su_completeness res = ''complete''\<close> complete by (force simp: required_fields_def valid_field_def)
    then have "map (\<lambda>s. if is_nonnegative_int (dget s ''worker_count'') then int_of (dget s ''worker_count'') else 0) ss
        = map (\<lambda>s. int_of (dget s ''worker_count'')) ss" by simp
    then have "sa_workers acc = fold max (map (\<lambda>s. int_of (dget s ''worker_count'')) ss) 0"
      by (simp only: acc_def scan_workers)
    with that c show ?thesis by (simp add: total_of_def)
  qed
  have unvalued: "total_of acc k = PNone" if "k \<in> set sum_fields" "k \<in> sa_missing acc \<union> sa_invalid acc" for k
    using that flags [of k] by (auto simp: total_of_def)
  have p2: "su_completeness res = ''complete'' \<longrightarrow>
      (\<forall>k \<in> set sum_fields. map_of (su_totals res) k = Some (PInt (sum_list (map (\<lambda>s. int_of (dget s k)) ss))))
      \<and> map_of (su_totals res) ''worker_count'' = Some (PInt (fold max (map (\<lambda>s. int_of (dget s ''worker_count'')) ss) 0))"
    using sums workers total by simp
  have p3: "\<forall>k \<in> set sum_fields. k \<in> set (su_unknown res) \<union> set (su_invalid res) \<longrightarrow> map_of (su_totals res) k = Some PNone"
    using unvalued total unknown by simp
  have p4: "set (su_unknown res) \<union> set (su_invalid res) = {k \<in> set required_fields. \<exists>s \<in> set ss. \<not> valid_field s k}"
    by (simp only: unknown bad)
  show ?thesis by (intro conjI; fact complete p2 p3 p4)
qed

definition summary_demo :: "(string \<times> pv) list" where
  "summary_demo = map (\<lambda>k. (k, PInt 2)) (sum_fields @ [''worker_count''])
     @ [(''parallel'', PBool True), (''node_risk_enabled'', PBool False), (''process_start_method'', PStr ''spawn'')]"

definition summary_db :: "unit sdb" where
  "summary_db = \<lparr>s_tasks = [], s_events = [],
     s_commits = map (\<lambda>w. \<lparr>cm_task = ''t'', cm_window = w, cm_cursor = PNone, cm_summary = summary_demo, cm_at = w,
        cm_hash = ''h'', cm_manifest = PNone\<rparr>) [''w1'', ''w2'', ''w3''],
     s_windows = [], s_queue = [], s_generations = [], s_ledger = ()\<rparr>"

theorem committed_summary_correct_witness:
  "map_of (su_totals (committed_summary ''t'' summary_db)) ''record_count'' = Some (PInt 6)"
proof -
  define ss where "ss = map cm_summary (commits_of ''t'' summary_db)"
  have "list_all (\<lambda>s. list_all (valid_field s) required_fields) ss" unfolding ss_def by code_simp
  then have "\<forall>s \<in> set ss. \<forall>k \<in> set required_fields. valid_field s k" by (simp add: list_all_iff)
  with conjunct1 [OF committed_summary_correct [of "''t''" summary_db, folded ss_def]]
  have complete: "su_completeness (committed_summary ''t'' summary_db) = ''complete''" by blast
  have "sum_list (map (\<lambda>s. int_of (dget s ''record_count'')) ss) = 6" unfolding ss_def by code_simp
  moreover have "''record_count'' \<in> set sum_fields" by (simp add: sum_fields_def)
  ultimately show ?thesis
    using conjunct1 [OF conjunct2 [OF committed_summary_correct [of "''t''" summary_db, folded ss_def]]] complete
    by simp
qed

end
