(* ===== verification/Agent_Runs_Props.thy ===== *)
theory Agent_Runs_Props
  imports Agent_Steps Replay
begin

text \<open>
  The properties of \<open>AgentRepository\<close>: what a store reached by any sequence of calls satisfies, the
  one-time reservation of model planning, the guarded status transition, and crash recovery.
\<close>

subsection \<open>Recovery\<close>

definition uncertain :: "string \<Rightarrow> adb \<Rightarrow> bool" where
  "uncertain k db = (has_event k ''model_planning_reserved'' (a_events db) \<and> \<not> has_event k ''plan_created'' (a_events db))"

definition blocked_run :: "string \<Rightarrow> agent_run \<Rightarrow> agent_run" where
  "blocked_run now r = r\<lparr>ag_status := RFailed, ag_error := Some ''agent_plan_indeterminate'',
     ag_summary := Some ''planning not settled'', ag_completed := Some now, ag_updated := now\<rparr>"

definition steps_in :: "string \<Rightarrow> adb \<Rightarrow> agent_step list" where
  "steps_in k db = filter (\<lambda>s. st_run s = k) (a_steps db)"

definition settled :: "string \<Rightarrow> adb \<Rightarrow> string \<Rightarrow> adb \<Rightarrow> bool" where
  "settled now db k db' =
     (if uncertain k db then find_run k db' = map_option (blocked_run now) (find_run k db)
      else find_run k db' = find_run k db \<and> list_all (\<lambda>s. st_status s \<noteq> SRunning) (steps_in k db'))"

lemma block_effect:
  assumes "find_run k db \<noteq> None"
  shows "\<exists>db1. block_uncertain_planning now k db = Inr (db1, uncertain k db) \<and> a_steps db1 = a_steps db
     \<and> (\<forall>j. uncertain j db1 = uncertain j db)
     \<and> (\<forall>j. find_run j db1 = (if uncertain k db \<and> j = k then map_option (blocked_run now) (find_run k db) else find_run j db))"
  using assms
  by (auto simp: block_uncertain_planning_def uncertain_def run_event_def find_run_update blocked_run_def
      option.map_ident)

lemma filter_upd_other:
  "(\<And>s. q s \<Longrightarrow> \<not> p s) \<Longrightarrow> (\<And>s. p (g s) = p s) \<Longrightarrow> filter p (upd_where q g xs) = filter p xs"
  by (induction xs) (auto simp: upd_where_def)

lemma list_all_upd:
  "(\<And>s. q s \<Longrightarrow> P (g s)) \<Longrightarrow> (\<And>s. \<not> q s \<Longrightarrow> p s \<Longrightarrow> P s) \<Longrightarrow> list_all P (filter p (upd_where q g xs))"
  by (induction xs) (simp_all add: upd_where_def)

lemma steps_in_reset:
  "steps_in j (reset_steps now k db) = (if j = k then steps_in k (reset_steps now k db) else steps_in j db)"
  "list_all (\<lambda>s. st_status s \<noteq> SRunning) (steps_in k (reset_steps now k db))"
proof -
  show "steps_in j (reset_steps now k db) = (if j = k then steps_in k (reset_steps now k db) else steps_in j db)"
    by (cases "j = k") (auto simp: steps_in_def reset_steps_def intro!: filter_upd_other)
  show "list_all (\<lambda>s. st_status s \<noteq> SRunning) (steps_in k (reset_steps now k db))"
    unfolding steps_in_def reset_steps_def by (auto intro!: list_all_upd)
qed

lemma recover_each_spec:
  "distinct ks \<Longrightarrow> (\<forall>k \<in> set ks. find_run k db \<noteq> None) \<Longrightarrow>
   \<exists>db'. recover_each now ks db = Inr (db', filter (\<lambda>k. \<not> uncertain k db) ks)
     \<and> (\<forall>k \<in> set ks. settled now db k db')
     \<and> (\<forall>k. k \<notin> set ks \<longrightarrow> find_run k db' = find_run k db \<and> steps_in k db' = steps_in k db)"
proof (induction ks arbitrary: db)
  case (Cons k ks)
  obtain db1 where b: "block_uncertain_planning now k db = Inr (db1, uncertain k db)" "a_steps db1 = a_steps db"
    and u1: "\<And>j. uncertain j db1 = uncertain j db"
    and f1: "\<And>j. find_run j db1 = (if uncertain k db \<and> j = k then map_option (blocked_run now) (find_run k db) else find_run j db)"
    using block_effect [of k db now] Cons.prems by auto
  define db2 where "db2 = (if uncertain k db then db1
    else reset_steps now k db1\<lparr>a_events := append_row (- 1) k ''run_recovered'' (PDict [(''status'', PStr ''recoverable'')])
      None now (a_events (reset_steps now k db1))\<rparr>)"
  have f2: "find_run j db2 = find_run j db1" for j
    by (simp add: db2_def)
  have u2: "uncertain j db2 = uncertain j db" for j
    using u1 [of j] by (simp add: db2_def uncertain_def reset_steps_def)
  have s2: "steps_in j db2 = steps_in j db" if "j \<noteq> k" for j
    using that steps_in_reset(1) [of j now k db1] b(2) by (simp add: db2_def steps_in_def)
  have k2: "settled now db k db2"
    using f1 [of k] f2 [of k] steps_in_reset(2) [of k now db1] by (auto simp: settled_def db2_def steps_in_def)
  have ex: "\<forall>j \<in> set ks. find_run j db2 \<noteq> None"
    using Cons.prems f1 f2 by auto
  from Cons.IH [OF _ ex] Cons.prems(1) obtain db' where
    r: "recover_each now ks db2 = Inr (db', filter (\<lambda>j. \<not> uncertain j db) ks)"
    and s: "\<And>j. j \<in> set ks \<Longrightarrow> settled now db2 j db'"
    and o: "\<And>j. j \<notin> set ks \<Longrightarrow> find_run j db' = find_run j db2 \<and> steps_in j db' = steps_in j db2"
    using u2 by auto
  have "recover_each now (k # ks) db = Inr (db', filter (\<lambda>j. \<not> uncertain j db) (k # ks))"
    using b r Cons.prems(2) f1 [of k] by (auto simp: db2_def run_event_def)
  moreover have "settled now db j db'" if "j \<in> set (k # ks)" for j
  proof (cases "j = k")
    case True
    with Cons.prems(1) o [of k] k2 show ?thesis by (simp add: settled_def)
  next
    case False
    with that s [of j] u2 f1 [of j] f2 [of j] show ?thesis by (simp add: settled_def)
  qed
  moreover have "find_run j db' = find_run j db \<and> steps_in j db' = steps_in j db" if "j \<notin> set (k # ks)" for j
    using that o [of j] f1 [of j] f2 [of j] s2 [of j] by simp
  ultimately show ?case by blast
qed simp

lemma active_runs_set: "set (active_runs db) = ag_id ` {r \<in> set (a_runs db). ag_status r \<in> {RQueued, RPlanning, RRunning}}"
  by (simp add: active_runs_def)

lemma active_runs_distinct: "a_keys db \<Longrightarrow> distinct (active_runs db)"
proof -
  assume "a_keys db"
  then have "distinct (map ag_id (filter P (a_runs db)))" for P
    by (simp add: a_keys_def distinct_map_filter)
  then show ?thesis by (simp add: active_runs_def distinct_map)
qed

subsection \<open>Calls with an idempotency key\<close>

lemma awrites_find_run: "awrites db db' \<Longrightarrow> find_run k db \<noteq> None \<Longrightarrow> find_run k db' \<noteq> None"
proof (induction rule: rtranclp_induct)
  case (step y z)
  then have "k \<in> ag_id ` set (a_runs y)" using find_run_None [of k y] by auto
  with step.hyps(2) have "k \<in> ag_id ` set (a_runs z)"
    by cases (auto simp: same_run_def image_upd_where insert_step_def delete_steps_def add_call_def update_runs_def
        split: if_split_asm)
  then show ?case using find_run_None [of k z] by auto
qed

lemma by_idempotency_upd:
  "(\<And>r. same_run r (f r)) \<Longrightarrow>
   by_idempotency a i (db\<lparr>a_runs := upd_where q f (a_runs db)\<rparr>) = by_idempotency a i db"
  by (simp add: by_idempotency_def same_run_def find_upd_where option.map_comp comp_def if_distrib [of ag_id] cong: if_cong)

lemma awrite_by_key: "awrite db db' \<Longrightarrow> by_idempotency a i db = Some k \<Longrightarrow> by_idempotency a i db' = Some k"
proof (induction rule: awrite.induct)
  case (call c db now)
  then show ?case
    using by_idempotency_upd [of "\<lambda>r. r\<lparr>ag_used := ag_used r + tc_cost c, ag_updated := now,
      ag_version := ag_version r + 1\<rparr>" a i "\<lambda>r. ag_id r = tc_run c" "db\<lparr>a_calls := a_calls db @ [c]\<rparr>"]
    by (simp add: add_call_def update_runs_def same_run_def) (simp add: by_idempotency_def)
qed (auto simp: by_idempotency_upd, auto simp: by_idempotency_def insert_step_def delete_steps_def find_append split: if_split_asm)

lemma by_key_exists: "by_idempotency a i db = Some k \<Longrightarrow> find_run k db \<noteq> None"
  by (auto simp: by_idempotency_def find_run_None dest: find_Some_in)

interpretation run_transition: replay_log
  "\<lambda>(k, i) db. find_run k db \<noteq> None \<and> has_idem k i (a_events db)" awrite "\<lambda>(k, i) _. i \<noteq> []"
  "\<lambda>(k, i) (now, st, al, ec, es). transition now k st al ec es (Some i)"
proof unfold_locales
  fix s s' :: adb and k :: "string \<times> string"
  assume "awrite s s'" and "(\<lambda>(k, i) db. find_run k db \<noteq> None \<and> has_idem k i (a_events db)) k s"
  then show "(\<lambda>(k, i) db. find_run k db \<noteq> None \<and> has_idem k i (a_events db)) k s'"
    using awrites_find_run [OF awrites_one] awrites_has_idem [OF awrites_one] by (auto split: prod.splits)
qed (auto simp: transition_def Let_def res_simps view_of_def missing_def conflict_def get_run_def
    split: prod.splits option.splits if_split_asm)

interpretation run_creation: replay_log
  "\<lambda>(a, i) db. by_idempotency a i db \<noteq> None" awrite
  "\<lambda>(a, i) (now, fresh, r, s). rq_actor r = a \<and> rq_key r = i \<and> post_init r = Inr ()"
  "\<lambda>(a, i) (now, fresh, r, s) db. if rq_actor r = a \<and> rq_key r = i then create_run now fresh r s db else Inl ValueErr"
proof unfold_locales
  fix s s' :: adb and k :: "string \<times> string"
  assume "awrite s s'" and "(\<lambda>(a, i) db. by_idempotency a i db \<noteq> None) k s"
  then show "(\<lambda>(a, i) db. by_idempotency a i db \<noteq> None) k s'"
    using awrite_by_key by (auto split: prod.splits)
next
  fix s :: adb and k :: "string \<times> string" and a :: "string \<times> string \<times> run_request \<times> pv"
  assume "(\<lambda>(a, i) db. by_idempotency a i db \<noteq> None) k s"
    and "(\<lambda>(a, i) (now, fresh, r, s). rq_actor r = a \<and> rq_key r = i \<and> post_init r = Inr ()) k a"
  then show "\<exists>r. (\<lambda>(a, i) (now, fresh, r, s) db. if rq_actor r = a \<and> rq_key r = i then create_run now fresh r s db
      else Inl ValueErr) k a s = Inr (s, r, True)"
    using by_key_exists
    by (fastforce simp: create_run_def post_init_def view_of_def get_run_def res_simps split: prod.splits if_split_asm)
qed (auto simp: create_run_def bind_res_Inr_iff view_of_Inr by_idempotency_def run_event_Inr find_append new_run_def
    split: prod.splits option.splits if_split_asm)

subsection \<open>A run that exercises the operations\<close>

definition demo_request :: run_request where
  "demo_request = \<lparr>rq_source = PStr ''src'', rq_entity = PStr ''node'', rq_entity_type = ''node'',
     rq_profile = ''default'', rq_prompt = ''investigate'', rq_max_steps = 8, rq_max_tool_calls = 4,
     rq_timeout = FFin 60 0, rq_tools = [''query''], rq_key = ''key-1'', rq_actor = ''alice'',
     rq_roles = [''operator''], rq_request = ''req'', rq_parent = None\<rparr>"

definition demo_plan :: agent_plan where
  "demo_plan = \<lparr>pl_goal = ''goal'', pl_steps = [\<lparr>ps_id = ''s1'', ps_tool = ''query'', ps_args = PDict []\<rparr>],
     pl_assessment = None, pl_output = None\<rparr>"

definition demo_ops :: "aop list" where
  "demo_ops = [ACreate ''t0'' ''r1'' demo_request (PDict []),
     ATransition ''t1'' ''r1'' RPlanning {RQueued} None None None,
     AReserve ''t2'' ''r1'',
     APlan ''t3'' ''r1'' demo_plan False,
     AStart ''t4'' ''r1'' ''s1'',
     ACall ''t5'' ''c1'' ''r1'' ''s1'' ''query'' (PDict []) SCompleted ''call-1'' 2 (PDict []) None None None]"

definition demo_db :: "nat \<Rightarrow> adb" where
  "demo_db n = (case a_run (take n demo_ops) adb_empty of Inr db \<Rightarrow> db | Inl _ \<Rightarrow> adb_empty)"

lemma demo_arun: "a_run demo_ops adb_empty = Inr (demo_db 6)"
proof -
  have "case a_run demo_ops adb_empty of Inr db \<Rightarrow> True | Inl _ \<Rightarrow> False" by code_simp
  moreover have "take 6 demo_ops = demo_ops" by (simp add: demo_ops_def)
  ultimately show ?thesis by (auto simp: demo_db_def split: sum.split_asm)
qed

lemma a_run_append: "a_run (xs @ ys) db = bind_res (a_run xs db) (a_run ys)"
proof (induction xs arbitrary: db)
  case (Cons op xs)
  then show ?case by (cases "a_apply op db") simp_all
qed simp

lemma demo_prefix: "a_run (take 3 demo_ops) adb_empty = Inr (demo_db 3)" "a_run (drop 3 demo_ops) (demo_db 3) = Inr (demo_db 6)"
proof -
  have "a_run (take 3 demo_ops @ drop 3 demo_ops) adb_empty = Inr (demo_db 6)"
    using demo_arun by simp
  then show "a_run (take 3 demo_ops) adb_empty = Inr (demo_db 3)" "a_run (drop 3 demo_ops) (demo_db 3) = Inr (demo_db 6)"
    unfolding a_run_append by (auto simp: bind_res_Inr_iff demo_db_def)
qed

lemma a_inv_run: "a_run ops adb_empty = Inr db \<Longrightarrow> a_inv db"
  by (blast intro: a_inv_reach a_run_reach)

lemma a_run_awrites: "a_run ops db = Inr db' \<Longrightarrow> awrites db db'"
  by (blast intro: areach_awrites a_run_reach)

subsection \<open>Properties\<close>



text \<open>C26: The tool-call counter of a run never understates the cost of the tool calls stored for it, whatever calls,
  replays, plan replacements and recoveries happened.\<close>

theorem agent_budget_covers_calls:
  assumes "a_run ops adb_empty = Inr db" and "find_run k db = Some r"
  shows "call_costs k db \<le> ag_used r"
  using a_inv_run [OF assms(1)] find_run_id [OF assms(2)] by (auto simp: a_inv_def a_budget_def)

theorem agent_budget_covers_calls_witness:
  "\<exists>r. find_run ''r1'' (demo_db 6) = Some r \<and> call_costs ''r1'' (demo_db 6) \<le> ag_used r \<and> ag_used r = 2"
proof -
  have "case find_run ''r1'' (demo_db 6) of Some r \<Rightarrow> ag_used r = 2 | None \<Rightarrow> False" by code_simp
  then obtain r where r: "find_run ''r1'' (demo_db 6) = Some r" "ag_used r = 2" by (auto split: option.split_asm)
  from agent_budget_covers_calls [OF demo_arun r(1)] r show ?thesis by auto
qed

text \<open>C23: Model planning is granted at most once for a run: after one reservation succeeded, no later call
  sequence, crash recovery included, lets another reservation of the run succeed.\<close>

theorem planning_reserved_once:
  assumes "reserve_model_planning now k db = Inr (db1, True)" and "a_run ops db1 = Inr db2"
    and "reserve_model_planning now' k db2 = Inr (db3, granted)"
  shows "\<not> granted \<and> db3 = db2"
proof -
  have "has_idem k reservation_key (a_events db1)"
    using assms(1) by (auto simp: reserve_model_planning_def res_simps agentic_def split: option.split_asm if_split_asm)
  then have "has_idem k reservation_key (a_events db2)"
    using awrites_has_idem a_run_awrites [OF assms(2)] by blast
  then show ?thesis
    using assms(3) by (auto simp: reserve_model_planning_def agentic_def split: option.split_asm if_split_asm)
qed

theorem planning_reserved_once_witness:
  "\<exists>db1 db2. reserve_model_planning ''t2'' ''r1'' (demo_db 2) = Inr (db1, True)
     \<and> a_run [APlan ''t3'' ''r1'' demo_plan False] db1 = Inr db2
     \<and> reserve_model_planning ''t9'' ''r1'' db2 = Inr (db2, False)"
proof -
  have "case reserve_model_planning ''t2'' ''r1'' (demo_db 2) of Inl _ \<Rightarrow> False | Inr x \<Rightarrow> snd x \<and>
      (case a_run [APlan ''t3'' ''r1'' demo_plan False] (fst x) of Inl _ \<Rightarrow> False | Inr db2 \<Rightarrow>
         (case reserve_model_planning ''t9'' ''r1'' db2 of Inl _ \<Rightarrow> False | Inr y \<Rightarrow> True))" by code_simp
  then obtain db1 db2 db3 g where
    r: "reserve_model_planning ''t2'' ''r1'' (demo_db 2) = Inr (db1, True)"
      "a_run [APlan ''t3'' ''r1'' demo_plan False] db1 = Inr db2" "reserve_model_planning ''t9'' ''r1'' db2 = Inr (db3, g)"
    unfolding res_witness by (auto simp del: a_run.simps)
  from planning_reserved_once [OF r] r show ?thesis by auto
qed

text \<open>A status change with an idempotency key happens once: after it succeeded, a repetition with the same key,
  whatever it asks for and whatever happened in between, is answered as a replay and changes nothing.\<close>

theorem transition_replayed:
  assumes "transition now k st al ec es (Some i) db = Inr (db1, v, b)" and "i \<noteq> []" and "a_run ops db1 = Inr db2"
  shows "\<exists>v'. transition now' k st' al' ec' es' (Some i) db2 = Inr (db2, v', True)"
  using run_transition.call_once [where k = "(k, i)" and a = "(now, st, al, ec, es)" and a' = "(now', st', al', ec', es')"]
    assms a_run_awrites [OF assms(3)] by simp

theorem transition_replayed_witness:
  "\<exists>db1 v v' db2. transition ''t9'' ''r1'' RPaused {RPlanning} None None (Some ''pause-1'') (demo_db 2) = Inr (db1, v, False)
     \<and> a_run [AReserve ''t2'' ''r1''] (demo_db 2) = Inr db2
     \<and> transition ''t10'' ''r1'' RCancelled {} None None (Some ''pause-1'') db1 = Inr (db1, v', True)"
proof -
  have "case transition ''t9'' ''r1'' RPaused {RPlanning} None None (Some ''pause-1'') (demo_db 2) of
      Inl _ \<Rightarrow> False | Inr (_, _, b) \<Rightarrow> \<not> b" by code_simp
  moreover have "case a_run [AReserve ''t2'' ''r1''] (demo_db 2) of Inl _ \<Rightarrow> False | Inr _ \<Rightarrow> True" by code_simp
  ultimately obtain db1 v db2 where
    r: "transition ''t9'' ''r1'' RPaused {RPlanning} None None (Some ''pause-1'') (demo_db 2) = Inr (db1, v, False)"
      "a_run [AReserve ''t2'' ''r1''] (demo_db 2) = Inr db2"
    by (auto simp del: a_run.simps split: sum.split_asm prod.split_asm)
  from transition_replayed [OF r(1), of "[]" db1] r show ?thesis by fastforce
qed

text \<open>Creating a run twice with the same actor and idempotency key returns the first run, unchanged.\<close>

theorem create_run_replayed:
  assumes "create_run now fresh r s db = Inr (db1, v, b)" and "a_run ops db1 = Inr db2"
    and "rq_actor r' = rq_actor r" and "rq_key r' = rq_key r" and "post_init r' = Inr ()"
  shows "\<exists>v'. create_run now' fresh' r' s' db2 = Inr (db2, v', True)"
  using run_creation.call_once [where k = "(rq_actor r, rq_key r)" and a = "(now, fresh, r, s)" and a' = "(now', fresh', r', s')"]
    assms a_run_awrites [OF assms(2)] by simp

theorem create_run_replayed_witness:
  "\<exists>db1 v v'. create_run ''t0'' ''r1'' demo_request (PDict []) adb_empty = Inr (db1, v, False)
     \<and> create_run ''t9'' ''r9'' (demo_request\<lparr>rq_prompt := ''other''\<rparr>) (PDict []) db1 = Inr (db1, v', True)"
proof -
  have "case create_run ''t0'' ''r1'' demo_request (PDict []) adb_empty of Inl _ \<Rightarrow> False | Inr (_, _, b) \<Rightarrow> \<not> b"
    by code_simp
  then obtain db1 v where r: "create_run ''t0'' ''r1'' demo_request (PDict []) adb_empty = Inr (db1, v, False)"
    by (auto split: sum.split_asm prod.split_asm)
  have "post_init (demo_request\<lparr>rq_prompt := ''other''\<rparr>) = Inr ()" by code_simp
  with create_run_replayed [OF r, of "[]" db1 "demo_request\<lparr>rq_prompt := ''other''\<rparr>"] r show ?thesis by auto
qed

text \<open>C24: Crash recovery succeeds and settles every active run: a run whose model planning was reserved but never
  stored is failed and not handed out again; any other keeps its row, is handed out, and none of its steps is
  left running.\<close>

theorem recovery_settles_runs:
  assumes "a_run ops adb_empty = Inr db"
  shows "\<exists>db' ids. recover_active_runs now db = Inr (db', ids) \<and>
     (\<forall>r \<in> set (a_runs db). ag_status r \<in> {RQueued, RPlanning, RRunning} \<longrightarrow>
        (if uncertain (ag_id r) db
         then ag_id r \<notin> set ids \<and> find_run (ag_id r) db' = Some (blocked_run now r)
         else ag_id r \<in> set ids \<and> find_run (ag_id r) db' = Some r
              \<and> (\<forall>s \<in> set (a_steps db'). st_run s = ag_id r \<longrightarrow> st_status s \<noteq> SRunning)))"
proof -
  have keys: "a_keys db" using a_inv_run [OF assms] by (simp add: a_inv_def)
  have found: "find_run (ag_id r) db = Some r" if "r \<in> set (a_runs db)" for r
    using that keys unfolding find_run_def a_keys_def by (blast intro: find_distinct)
  have "\<forall>k \<in> set (active_runs db). find_run k db \<noteq> None"
    by (auto simp: active_runs_set found)
  from recover_each_spec [OF active_runs_distinct [OF keys] this, of now] obtain db' where
    r: "recover_active_runs now db = Inr (db', filter (\<lambda>k. \<not> uncertain k db) (active_runs db))"
    and s: "\<And>k. k \<in> set (active_runs db) \<Longrightarrow> settled now db k db'"
    unfolding recover_active_runs_def by blast
  show ?thesis
  proof (intro exI conjI ballI impI, rule r)
    fix r assume in_runs: "r \<in> set (a_runs db)" and act: "ag_status r \<in> {RQueued, RPlanning, RRunning}"
    then have a: "ag_id r \<in> set (active_runs db)" unfolding active_runs_set by blast
    with s [OF a] found [OF in_runs]
    show "if uncertain (ag_id r) db
         then ag_id r \<notin> set (filter (\<lambda>k. \<not> uncertain k db) (active_runs db)) \<and> find_run (ag_id r) db' = Some (blocked_run now r)
         else ag_id r \<in> set (filter (\<lambda>k. \<not> uncertain k db) (active_runs db)) \<and> find_run (ag_id r) db' = Some r
              \<and> (\<forall>s \<in> set (a_steps db'). st_run s = ag_id r \<longrightarrow> st_status s \<noteq> SRunning)"
      by (auto simp: settled_def list_all_iff steps_in_def)
  qed
qed

theorem recovery_settles_runs_witness:
  "\<exists>db' ids. recover_active_runs ''t9'' (demo_db 3) = Inr (db', ids) \<and>
     (\<exists>r. a_runs (demo_db 3) = [r] \<and> uncertain ''r1'' (demo_db 3) \<and> ''r1'' \<notin> set ids \<and> find_run ''r1'' db' = Some (blocked_run ''t9'' r))"
proof -
  have "case a_runs (demo_db 3) of [r] \<Rightarrow> ag_id r = ''r1'' \<and> ag_status r = RPlanning | _ \<Rightarrow> False" by code_simp
  then obtain r where r: "a_runs (demo_db 3) = [r]" "ag_id r = ''r1''" "ag_status r = RPlanning"
    by (auto split: list.split_asm)
  have u: "uncertain ''r1'' (demo_db 3)" by code_simp
  show ?thesis using recovery_settles_runs [OF demo_prefix(1), of "''t9''"] r u by auto
qed

end
