(* ===== verification/Artifact_Store.thy ===== *)
theory Artifact_Store
  imports Py_Prelude
begin

text \<open>
  \<open>SharedArtifactStore\<close> (\<open>artifact_storage.py\<close>): the directory below which Django, the workers and the
  dashboard exchange files. The file system below the root maps a path (its components) to a file, a directory or a
  symbolic link; after \<open>_reject_symlink_components\<close> a path has no link among its prefixes, so that resolving it is the
  identity. SHA-256 is a parameter. Files are byte strings.
\<close>

subsection \<open>Paths\<close>

datatype fnode = FFile string | FDir | FLink

type_synonym fs = "string list \<Rightarrow> fnode option"

fun split_on :: "char \<Rightarrow> string \<Rightarrow> string \<Rightarrow> string list" where
  "split_on c acc [] = [rev acc]"
| "split_on c acc (x # xs) = (if x = c then rev acc # split_on c [] xs else split_on c (x # acc) xs)"

text \<open>\<open>Path(raw).parts\<close> of a relative path: empty components and \<open>.\<close> disappear.\<close>

definition path_parts :: "string \<Rightarrow> string list" where
  "path_parts raw = filter (\<lambda>p. p \<noteq> [] \<and> p \<noteq> ''.'') (split_on (CHR ''/'') [] raw)"

definition is_absolute :: "string \<Rightarrow> bool" where
  "is_absolute raw = (take 1 raw = ''/'')"

definition path_error :: "'a res" where
  "path_error = Inl (CodedErr ''ArtifactPathError'' [])"

definition integrity_error :: "'a res" where
  "integrity_error = Inl (CodedErr ''ArtifactIntegrityError'' [])"

definition relative_of :: "string \<Rightarrow> string list res" where
  "relative_of value =
     (let raw = py_strip value in
      if raw = [] then path_error
      else if is_absolute raw \<or> ''..'' \<in> set (path_parts raw) then path_error
      else Inr (path_parts raw))"

definition linked :: "fs \<Rightarrow> string list \<Rightarrow> bool" where
  "linked f p = list_ex (\<lambda>n. f (take n p) = Some FLink) [1..<length p + 1]"

definition resolve :: "string \<Rightarrow> fs \<Rightarrow> string list res" where
  "resolve relative_path f =
     bind_res (relative_of relative_path) (\<lambda>p.
     if linked f p then path_error else if p = [] then path_error else Inr p)"

subsection \<open>Staging\<close>

definition staging :: string where
  "staging = ''.staging''"

definition dashed :: "string list \<Rightarrow> string" where
  "dashed p = (if p = [] then ''.'' else join ''-'' p)"

definition stage_path :: "string \<Rightarrow> string \<Rightarrow> string list res" where
  "stage_path namespace fresh =
     bind_res (relative_of namespace) (\<lambda>p. Inr [staging, dashed p @ ''-'' @ fresh @ ''.tmp''])"

text \<open>The path \<open>.\<close> has no parts; \<open>as_posix\<close> then gives a dot.\<close>

definition stage_bytes :: "string \<Rightarrow> string \<Rightarrow> string \<Rightarrow> fs \<Rightarrow> (fs \<times> string list) res" where
  "stage_bytes namespace fresh data f =
     bind_res (stage_path namespace fresh) (\<lambda>p.
     if f p \<noteq> None then Inl (CodedErr ''FileExistsError'' []) else Inr (f(p \<mapsto> FFile data), p))"

definition ensure_staged :: "fs \<Rightarrow> string list \<Rightarrow> string res" where
  "ensure_staged f p =
     (case f p of Some (FFile d) \<Rightarrow> if take 1 p = [staging] \<and> 1 < length p then Inr d else path_error
      | _ \<Rightarrow> path_error)"

definition digest_value :: "string \<Rightarrow> string res" where
  "digest_value value =
     (let d = py_lower (py_strip value) in
      if length d \<noteq> 64 \<or> list_ex (\<lambda>c. c \<notin> set ''0123456789abcdef'') d then integrity_error else Inr d)"

subsection \<open>Promotion\<close>

record shared_artifact =
  sa_path :: "string list"
  sa_size :: int
  sa_sha :: string

text \<open>\<open>target.parent.mkdir(parents=True, exist_ok=True)\<close>.\<close>

definition parents :: "string list \<Rightarrow> string list list" where
  "parents p = map (\<lambda>n. take n p) [1..<length p]"

definition make_parents :: "string list \<Rightarrow> fs \<Rightarrow> fs res" where
  "make_parents p f =
     (if list_ex (\<lambda>q. case f q of Some (FFile _) \<Rightarrow> True | _ \<Rightarrow> False) (parents p)
      then Inl (CodedErr ''FileExistsError'' [])
      else Inr (\<lambda>q. if q \<in> set (parents p) \<and> f q = None then Some FDir else f q))"

text \<open>
  An exception before the \<open>try\<close> leaves the staged file in place; one inside it deletes the staged file. The
  second component is the outcome, the first the file system after it.
\<close>

definition promote_checked ::
  "(string \<Rightarrow> string) \<Rightarrow> string list \<Rightarrow> string \<Rightarrow> string list \<Rightarrow> string option \<Rightarrow> fs \<Rightarrow> shared_artifact res" where
  "promote_checked sha staged data target expected f =
     bind_res (case expected of None \<Rightarrow> Inr () | Some e \<Rightarrow>
         if e = [] then Inr ()
         else bind_res (digest_value e) (\<lambda>d. if sha data \<noteq> d then integrity_error else Inr ())) (\<lambda>_.
     if f target \<noteq> None then path_error
     else Inr \<lparr>sa_path = target, sa_size = int (length data), sa_sha = sha data\<rparr>)"

definition promote ::
  "(string \<Rightarrow> string) \<Rightarrow> string list \<Rightarrow> string \<Rightarrow> string option \<Rightarrow> fs \<Rightarrow> fs \<times> shared_artifact res" where
  "promote sha staged relative_path expected f =
     (case ensure_staged f staged of
        Inl e \<Rightarrow> (f, Inl e)
      | Inr data \<Rightarrow>
        (case resolve relative_path f of
           Inl e \<Rightarrow> (f, Inl e)
         | Inr target \<Rightarrow>
           (case make_parents target f of
              Inl e \<Rightarrow> (f, Inl e)
            | Inr f1 \<Rightarrow>
              (case promote_checked sha staged data target expected f1 of
                 Inl e \<Rightarrow> (f1(staged := None), Inl e)
               | Inr a \<Rightarrow> (f1(target \<mapsto> FFile data, staged := None), Inr a)))))"

definition open_read :: "string \<Rightarrow> fs \<Rightarrow> string res" where
  "open_read relative_path f =
     bind_res (resolve relative_path f) (\<lambda>p. case f p of Some (FFile d) \<Rightarrow> Inr d | _ \<Rightarrow> path_error)"

definition delete_candidate :: "string list \<Rightarrow> fs \<Rightarrow> fs res" where
  "delete_candidate p f =
     (if take 1 p \<noteq> [staging] \<or> length p \<le> 1 then path_error
      else Inr (\<lambda>q. if take (length p) q = p then None else f q))"

subsection \<open>Lemmas\<close>

lemma relative_of_safe: "relative_of v = Inr p \<Longrightarrow> ''..'' \<notin> set p \<and> ''.'' \<notin> set p \<and> [] \<notin> set p"
  by (auto simp: relative_of_def Let_def path_error_def path_parts_def split: if_split_asm)

lemma resolve_Inr:
  "resolve v f = Inr p \<longleftrightarrow> relative_of v = Inr p \<and> p \<noteq> [] \<and> \<not> linked f p"
  by (auto simp: resolve_def res_simps path_error_def)

lemma staged_not_parent: "take 1 p = [staging] \<Longrightarrow> length p = 2 \<Longrightarrow> ensure_staged f p = Inr d \<Longrightarrow> f p = Some (FFile d)"
  by (auto simp: ensure_staged_def path_error_def split: option.splits fnode.splits if_split_asm)

lemma ensure_staged_Inr: "ensure_staged f p = Inr d \<Longrightarrow> f p = Some (FFile d) \<and> take 1 p = [staging] \<and> 1 < length p"
  by (auto simp: ensure_staged_def path_error_def split: option.splits fnode.splits if_split_asm)

lemma make_parents_Inr:
  "make_parents p f = Inr f' \<Longrightarrow> (\<forall>q. f q \<noteq> None \<longrightarrow> f' q = f q) \<and> (\<forall>q. f q = None \<longrightarrow> f' q = None \<or> f' q = Some FDir)
     \<and> p \<notin> set (parents p)"
proof -
  have "p \<noteq> take n p" if "n < length p" for n
    using that by (metis length_take min.absorb4 nat_neq_iff)
  then have "p \<notin> set (parents p)" by (auto simp: parents_def)
  then show "make_parents p f = Inr f' \<Longrightarrow> ?thesis"
    by (auto simp: make_parents_def split: if_split_asm)
qed

end
