(* ===== verification/Uploads.thy ===== *)
theory Uploads
  imports Artifact_Store
begin

text \<open>
  \<open>UploadSessionStore\<close> (\<open>upload_sessions.py\<close>): an upload is created with its size, its chunks arrive in any order,
  and \<open>complete\<close> assembles and checks them. The manifest file of an upload is a record, its chunk files a map from
  their index; SHA-256, the clock and the fresh identifier are parameters. The number of chunks is the ceiling of a
  float division, which is exact for sizes below \<open>2 ^ 52\<close>; the file is assembled from \<open>total_chunks\<close> parts.
\<close>

subsection \<open>State\<close>

datatype upload_status = Uploading | UploadDone

record manifest =
  um_filename :: string
  um_safe :: string
  um_size :: int
  um_chunk :: int
  um_total :: int
  um_received :: "int list"
  um_sha :: "string option"
  um_status :: upload_status
  um_created :: string
  um_updated :: string
  um_completed :: "string option"
  um_artifact :: "string list option"

record upload_session =
  us_manifest :: manifest
  us_chunks :: "int \<Rightarrow> string option"
  us_source :: "string option"
  us_marker :: bool

record upload_config =
  uc_chunk :: int
  uc_max :: int
  uc_extensions :: "string list"
  uc_shared :: bool

record upload_store =
  up_sessions :: "string \<Rightarrow> upload_session option"
  up_shared :: fs

subsection \<open>File names\<close>

text \<open>\<open>Path(filename).name\<close> and \<open>Path(name).suffix\<close>.\<close>

definition path_name :: "string \<Rightarrow> string" where
  "path_name filename = (case rev (path_parts filename) of [] \<Rightarrow> [] | p # _ \<Rightarrow> p)"

definition path_suffix :: "string \<Rightarrow> string" where
  "path_suffix name =
     (let tail = takeWhile (\<lambda>c. c \<noteq> CHR ''.'') (rev name) in
      if length tail + 1 < length name \<and> tail \<noteq> [] then CHR ''.'' # rev tail else [])"

subsection \<open>Operations\<close>

definition ceiling_div :: "int \<Rightarrow> int \<Rightarrow> int" where
  "ceiling_div a b = - ((- a) div b)"

definition new_manifest :: "string \<Rightarrow> string \<Rightarrow> string \<Rightarrow> int \<Rightarrow> int \<Rightarrow> manifest" where
  "new_manifest now filename safe size_bytes chunk_size =
     \<lparr>um_filename = filename, um_safe = safe, um_size = size_bytes, um_chunk = chunk_size,
      um_total = ceiling_div size_bytes chunk_size, um_received = [], um_sha = None, um_status = Uploading,
      um_created = now, um_updated = now, um_completed = None, um_artifact = None\<rparr>"

definition create_upload ::
  "upload_config \<Rightarrow> string \<Rightarrow> string \<Rightarrow> string \<Rightarrow> int \<Rightarrow> int option \<Rightarrow> upload_store \<Rightarrow> (upload_store \<times> manifest) res" where
  "create_upload cfg now upload_id filename size_bytes chunk_size_bytes st =
     (let safe = (if path_name filename = [] then ''upload.log'' else path_name filename);
          chunk_size = (case chunk_size_bytes of None \<Rightarrow> uc_chunk cfg | Some c \<Rightarrow> if c = 0 then uc_chunk cfg else c);
          m = new_manifest now filename safe size_bytes chunk_size
      in if py_lower (path_suffix safe) \<notin> set (uc_extensions cfg) then Inl ValueErr
         else if size_bytes \<le> 0 \<or> uc_max cfg < size_bytes then Inl ValueErr
         else if chunk_size \<le> 0 then Inl ValueErr
         else if up_sessions st upload_id \<noteq> None then Inl (CodedErr ''FileExistsError'' [])
         else Inr (st\<lparr>up_sessions := (up_sessions st)(upload_id \<mapsto>
                \<lparr>us_manifest = m, us_chunks = (\<lambda>_. None), us_source = None, us_marker = False\<rparr>)\<rparr>, m))"

definition get_upload :: "string \<Rightarrow> upload_store \<Rightarrow> upload_session res" where
  "get_upload upload_id st = (case up_sessions st upload_id of None \<Rightarrow> Inl KeyErr | Some s \<Rightarrow> Inr s)"

definition append_chunk ::
  "(string \<Rightarrow> string) \<Rightarrow> string \<Rightarrow> string \<Rightarrow> int \<Rightarrow> string \<Rightarrow> string option \<Rightarrow> upload_store
     \<Rightarrow> (upload_store \<times> manifest) res" where
  "append_chunk sha now upload_id index data chunk_sha256 st =
     bind_res (get_upload upload_id st) (\<lambda>s.
     let m = us_manifest s;
         m' = m\<lparr>um_received := sort (remdups (index # um_received m)), um_updated := now\<rparr>
     in if um_status m \<noteq> Uploading then Inl ValueErr
        else if index < 0 \<or> um_total m \<le> index then Inl ValueErr
        else if chunk_sha256 \<noteq> None \<and> chunk_sha256 \<noteq> Some [] \<and> sha data \<noteq> the chunk_sha256 then Inl ValueErr
        else Inr (st\<lparr>up_sessions := (up_sessions st)(upload_id \<mapsto>
               s\<lparr>us_manifest := m', us_chunks := (us_chunks s)(index \<mapsto> data)\<rparr>)\<rparr>, m'))"

text \<open>\<open>uploads/<id>/source.log\<close> of the shared store.\<close>

definition upload_target :: "string \<Rightarrow> string" where
  "upload_target upload_id = ''uploads/'' @ upload_id @ ''/source.log''"

definition finished :: "string \<Rightarrow> string \<Rightarrow> string list option \<Rightarrow> manifest \<Rightarrow> manifest" where
  "finished now actual artifact m =
     m\<lparr>um_artifact := artifact, um_sha := Some actual, um_status := UploadDone, um_completed := Some now, um_updated := now\<rparr>"

text \<open>The chunk files in the order of their index.\<close>

definition chunk_parts :: "upload_session \<Rightarrow> string list res" where
  "chunk_parts s =
     map_res (\<lambda>i. case us_chunks s i of None \<Rightarrow> Inl (CodedErr ''FileNotFoundError'' []) | Some d \<Rightarrow> Inr d)
       [0..um_total (us_manifest s) - 1]"

definition complete_upload ::
  "upload_config \<Rightarrow> (string \<Rightarrow> string) \<Rightarrow> string \<Rightarrow> string \<Rightarrow> string \<Rightarrow> string option \<Rightarrow> upload_store
     \<Rightarrow> upload_store \<times> manifest res" where
  "complete_upload cfg sha now fresh upload_id final_sha256 st =
     (case get_upload upload_id st of
        Inl e \<Rightarrow> (st, Inl e)
      | Inr s \<Rightarrow>
        let m = us_manifest s in
        if \<not> list_all (\<lambda>i. i \<in> set (um_received m)) [0..um_total m - 1] then (st, Inl ValueErr)
        else
          (case chunk_parts s of
             Inl e \<Rightarrow> (st, Inl e)
           | Inr parts \<Rightarrow>
             let data = concat parts; actual = sha data in
             if final_sha256 \<noteq> None \<and> final_sha256 \<noteq> Some [] \<and> actual \<noteq> the final_sha256 then (st, Inl ValueErr)
             else if int (length data) \<noteq> um_size m then (st, Inl ValueErr)
             else if uc_shared cfg then
               (case stage_bytes ''uploads'' fresh data (up_shared st) of
                  Inl e \<Rightarrow> (st, Inl e)
                | Inr (f1, staged) \<Rightarrow>
                  (case promote sha staged (upload_target upload_id) (Some actual) f1 of
                     (f2, Inl e) \<Rightarrow> (st\<lparr>up_shared := f2\<rparr>, Inl e)
                   | (f2, Inr a) \<Rightarrow>
                     let m' = finished now actual (Some (sa_path a)) m
                     in (st\<lparr>up_shared := f2, up_sessions := (up_sessions st)(upload_id \<mapsto>
                           s\<lparr>us_manifest := m', us_marker := True\<rparr>)\<rparr>, Inr m')))
             else
               let m' = finished now actual None m
               in (st\<lparr>up_sessions := (up_sessions st)(upload_id \<mapsto>
                     s\<lparr>us_manifest := m', us_source := Some data, us_marker := True\<rparr>)\<rparr>, Inr m')))"

text \<open>What \<open>source_path\<close> points at.\<close>

definition upload_source :: "upload_config \<Rightarrow> string \<Rightarrow> upload_store \<Rightarrow> string res" where
  "upload_source cfg upload_id st =
     bind_res (get_upload upload_id st) (\<lambda>s.
     case um_artifact (us_manifest s) of
       Some p \<Rightarrow>
         if uc_shared cfg then
           bind_res (resolve (join ''/'' p) (up_shared st)) (\<lambda>q.
             case up_shared st q of Some (FFile d) \<Rightarrow> Inr d | _ \<Rightarrow> Inl (CodedErr ''FileNotFoundError'' []))
         else (case us_source s of None \<Rightarrow> Inl (CodedErr ''FileNotFoundError'' []) | Some d \<Rightarrow> Inr d)
     | None \<Rightarrow> (case us_source s of None \<Rightarrow> Inl (CodedErr ''FileNotFoundError'' []) | Some d \<Rightarrow> Inr d))"

end
