(* ===== verification/Upload_Props.thy ===== *)
theory Upload_Props
  imports Uploads
begin

text \<open>
  The round trip of an upload and the safety of promoting an artifact.
\<close>

subsection \<open>Chunks\<close>










subsection \<open>Properties\<close>







end
