(* ===== verification/Correlation.thy ===== *)
theory Correlation
  imports Iso_Time Py_Float
begin

text \<open>
  \<open>correlate_observations\<close> (\<open>multi_source/correlation.py\<close>): observations of different sources that share an entity and
  lie close in time become edges, the edges are merged by a union-find structure with path halving, and each group
  with two sources is a correlation. Times are whole microseconds instead of float seconds; naive timestamps are read
  in the local zone, whose offset is an argument, and SHA-256 is a parameter. A Python set is a list of its
  elements in the order of its iteration; only the candidates that are kept when the pair budget runs out depend on it.
\<close>

subsection \<open>Data\<close>

record observation =
  ob_id :: string
  ob_cluster :: string
  ob_family :: string
  ob_entities :: "string list"
  ob_start :: string
  ob_end :: string
  ob_count :: int
  ob_risk :: fl

record corr_rule =
  cr_id :: string
  cr_version :: int
  cr_enabled :: bool
  cr_min_risk :: fl
  cr_min_count :: int
  cr_gap :: int
  cr_pairs :: "(string \<times> string) list"
  cr_budget :: int
  cr_confidence :: fl

record corr_edge =
  ce_id :: string
  ce_left :: string
  ce_right :: string
  ce_entities :: "string list"
  ce_gap :: int

record correlation =
  co_id :: string
  co_rule :: string
  co_version :: int
  co_cluster :: string
  co_primary :: string
  co_scope :: string
  co_edges :: "corr_edge list"
  co_partial :: bool
  co_start :: string
  co_end :: string
  co_confidence :: fl
  co_risk :: fl
  co_families :: "string list"
  co_observations :: "string list"

text \<open>\<open>_timestamp\<close>.\<close>

definition ob_time :: "int \<Rightarrow> observation \<Rightarrow> int res" where
  "ob_time tz ob = bind_res (fromisoformat (replace_z (ob_start ob))) (\<lambda>t. Inr (timestamp_us tz t))"

definition time_of :: "int \<Rightarrow> observation \<Rightarrow> int" where
  "time_of tz ob = (case ob_time tz ob of Inl _ \<Rightarrow> 0 | Inr t \<Rightarrow> t)"

definition pair_allowed :: "(string \<times> string) list \<Rightarrow> string \<Rightarrow> string \<Rightarrow> bool" where
  "pair_allowed allowed a b = (a \<noteq> b \<and> ((a, b) \<in> set allowed \<or> (b, a) \<in> set allowed))"

definition valid_observations :: "int \<Rightarrow> corr_rule \<Rightarrow> observation list \<Rightarrow> observation list" where
  "valid_observations tz rule obs =
     filter (\<lambda>ob. fl_le (cr_min_risk rule) (ob_risk ob) \<and> cr_min_count rule \<le> ob_count ob \<and> ob_entities ob \<noteq> []
       \<and> \<not> isl (ob_time tz ob)) obs"

subsection \<open>Union-find\<close>

text \<open>The loop of \<open>root\<close> halves the path; a cycle would never return, which is \<open>None\<close>.\<close>

partial_function (option) root :: "nat list \<Rightarrow> nat \<Rightarrow> (nat \<times> nat list) option" where
  "root parent index =
     (if parent ! index = index then Some (index, parent)
      else let parent' = parent[index := parent ! (parent ! index)]
           in root parent' (parent' ! index))"

declare root.simps [code]

definition unite :: "nat list \<Rightarrow> nat \<Rightarrow> nat \<Rightarrow> nat list option" where
  "unite parent left right =
     (case root parent left of
        None \<Rightarrow> None
      | Some (left_root, p1) \<Rightarrow>
          (case root p1 right of
             None \<Rightarrow> None
           | Some (right_root, p2) \<Rightarrow> Some (p2[right_root := left_root])))"

subsection \<open>Candidates\<close>

text \<open>The sorted bucket of a cluster, an entity and a source.\<close>

definition bucket :: "int \<Rightarrow> observation list \<Rightarrow> string \<Rightarrow> string \<Rightarrow> string \<Rightarrow> (int \<times> nat) list" where
  "bucket tz valid cluster entity family =
     sort (map (\<lambda>(i, ob). (time_of tz ob, i))
       (filter (\<lambda>(i, ob). ob_cluster ob = cluster \<and> entity \<in> set (ob_entities ob) \<and> ob_family ob = family)
          (enumerate 0 valid)))"

definition bisect_left :: "int \<Rightarrow> (int \<times> nat) list \<Rightarrow> nat" where
  "bisect_left t xs = length (takeWhile (\<lambda>(u, _). u < t) xs)"

definition bisect_right :: "int \<Rightarrow> (int \<times> nat) list \<Rightarrow> nat" where
  "bisect_right t xs = length (takeWhile (\<lambda>(u, _). u \<le> t) xs)"

text \<open>
  \<open>bisect_left(bucket, (t, -1))\<close> and \<open>bisect_right(bucket, (t, len(valid)))\<close>: no index is below 0 or above the
  length, so the second components do not decide.
\<close>

definition in_reach :: "int \<Rightarrow> int \<Rightarrow> (int \<times> nat) list \<Rightarrow> nat list" where
  "in_reach t gap xs =
     (let start = bisect_left (t - gap) xs; stop = bisect_right (t + gap) xs
      in map snd (drop start (take stop xs)))"

definition others :: "(string \<times> string) list \<Rightarrow> string \<Rightarrow> string list" where
  "others allowed family =
     concat (map (\<lambda>(a, b). if family = a \<or> family = b then filter (\<lambda>f. f \<noteq> family) (remdups [a, b]) else []) allowed)"

definition positions :: "int \<Rightarrow> corr_rule \<Rightarrow> observation list \<Rightarrow> observation \<Rightarrow> nat list" where
  "positions tz rule valid first =
     concat (map (\<lambda>family.
       concat (map (\<lambda>entity. in_reach (time_of tz first) (cr_gap rule) (bucket tz valid (ob_cluster first) entity family))
         (remdups (ob_entities first)))) (others (cr_pairs rule) (ob_family first)))"

text \<open>Adding candidates until there are more than the budget allows.\<close>

fun collect :: "nat \<Rightarrow> int \<Rightarrow> nat list \<Rightarrow> nat list \<Rightarrow> nat list \<times> bool" where
  "collect left remaining acc [] = (acc, False)"
| "collect left remaining acc (x # xs) =
     (let acc' = (if left < x \<and> x \<notin> set acc then acc @ [x] else acc)
      in if remaining < int (length acc') then (acc', True) else collect left remaining acc' xs)"

subsection \<open>Edges\<close>

record corr_state =
  cs_parent :: "nat list"
  cs_edges :: "(nat \<times> nat) list"
  cs_comparisons :: int
  cs_partial :: bool

definition shared :: "observation \<Rightarrow> observation \<Rightarrow> string list" where
  "shared a b = sort (filter (\<lambda>e. e \<in> set (ob_entities b)) (remdups (ob_entities a)))"

definition close_enough :: "int \<Rightarrow> corr_rule \<Rightarrow> observation \<Rightarrow> observation \<Rightarrow> bool" where
  "close_enough tz rule a b = (\<bar>time_of tz a - time_of tz b\<bar> \<le> cr_gap rule)"

fun compare_all :: "int \<Rightarrow> corr_rule \<Rightarrow> observation list \<Rightarrow> int \<Rightarrow> nat \<Rightarrow> nat list \<Rightarrow> corr_state \<Rightarrow> corr_state option" where
  "compare_all tz rule valid budget left [] s = Some s"
| "compare_all tz rule valid budget left (right # rs) s =
     (let a = valid ! left; b = valid ! right in
      if budget \<le> cs_comparisons s then Some (s\<lparr>cs_partial := True\<rparr>)
      else if ob_cluster a \<noteq> ob_cluster b then compare_all tz rule valid budget left rs s
      else if \<not> pair_allowed (cr_pairs rule) (ob_family a) (ob_family b) then compare_all tz rule valid budget left rs s
      else
        let s1 = s\<lparr>cs_comparisons := cs_comparisons s + 1\<rparr> in
        if shared a b = [] then compare_all tz rule valid budget left rs s1
        else if \<not> close_enough tz rule a b then compare_all tz rule valid budget left rs s1
        else
          (case unite (cs_parent s1) left right of
             None \<Rightarrow> None
           | Some p \<Rightarrow> compare_all tz rule valid budget left rs
               (s1\<lparr>cs_parent := p, cs_edges := cs_edges s1 @ [(left, right)]\<rparr>)))"

fun scan_left :: "int \<Rightarrow> corr_rule \<Rightarrow> observation list \<Rightarrow> int \<Rightarrow> nat list \<Rightarrow> corr_state \<Rightarrow> corr_state option" where
  "scan_left tz rule valid budget [] s = Some s"
| "scan_left tz rule valid budget (left # ls) s =
     (case collect left (budget - cs_comparisons s) [] (positions tz rule valid (valid ! left)) of
        (candidates, full) \<Rightarrow>
          (case compare_all tz rule valid budget left (sort candidates) (s\<lparr>cs_partial := cs_partial s \<or> full\<rparr>) of
             None \<Rightarrow> None
           | Some s' \<Rightarrow> if cs_partial s' then Some s' else scan_left tz rule valid budget ls s'))"

definition corr_start :: "observation list \<Rightarrow> corr_state" where
  "corr_start valid = \<lparr>cs_parent = [0..<length valid], cs_edges = [], cs_comparisons = 0, cs_partial = False\<rparr>"

definition find_edges :: "int \<Rightarrow> corr_rule \<Rightarrow> observation list \<Rightarrow> corr_state option" where
  "find_edges tz rule valid =
     scan_left tz rule valid (max 1 (cr_budget rule)) [0..<length valid] (corr_start valid)"

subsection \<open>Groups\<close>

text \<open>\<open>groups.setdefault(root(index), []).append(item)\<close> over the indices in order.\<close>

fun add_to_group :: "nat \<Rightarrow> nat \<Rightarrow> (nat \<times> nat list) list \<Rightarrow> (nat \<times> nat list) list" where
  "add_to_group r i [] = [(r, [i])]"
| "add_to_group r i ((r', xs) # gs) = (if r' = r then (r', xs @ [i]) # gs else (r', xs) # add_to_group r i gs)"

fun make_groups :: "nat list \<Rightarrow> nat list \<Rightarrow> (nat \<times> nat list) list \<Rightarrow> (nat \<times> nat list) list option" where
  "make_groups parent [] gs = Some gs"
| "make_groups parent (i # js) gs =
     (case root parent i of None \<Rightarrow> None | Some (r, p) \<Rightarrow> make_groups p js (add_to_group r i gs))"

definition edge_of ::
  "(string \<Rightarrow> string) \<Rightarrow> int \<Rightarrow> corr_rule \<Rightarrow> observation list \<Rightarrow> nat \<times> nat \<Rightarrow> corr_edge" where
  "edge_of sha tz rule valid = (\<lambda>(left, right).
     let a = valid ! left; b = valid ! right; ids = sort [ob_id a, ob_id b]
     in \<lparr>ce_id = ''edge-'' @ take 24 (sha (join ''|'' ([cr_id rule, int_str (cr_version rule), ids ! 0, ids ! 1] @ shared a b))),
         ce_left = ids ! 0, ce_right = ids ! 1, ce_entities = shared a b,
         ce_gap = \<bar>time_of tz a - time_of tz b\<bar>\<rparr>)"

fun fl_max :: "fl list \<Rightarrow> fl" where
  "fl_max [] = FFin 0 0"
| "fl_max [x] = x"
| "fl_max (x # y # xs) = fl_max ((if fl_lt x y then y else x) # xs)"

definition fold_min :: "string list \<Rightarrow> string" where
  "fold_min xs = (case xs of [] \<Rightarrow> [] | x # ys \<Rightarrow> fold min ys x)"

definition fold_max :: "string list \<Rightarrow> string" where
  "fold_max xs = (case xs of [] \<Rightarrow> [] | x # ys \<Rightarrow> fold max ys x)"

definition describe_group ::
  "(string \<Rightarrow> string) \<Rightarrow> corr_rule \<Rightarrow> bool \<Rightarrow> corr_edge list \<Rightarrow> observation list \<Rightarrow> correlation list" where
  "describe_group sha rule partial edges items =
     (let families = sort (remdups (map ob_family items));
          common = filter (\<lambda>e. list_all (\<lambda>ob. e \<in> set (ob_entities ob)) items) (remdups (ob_entities (hd items)));
          ids = sort (map ob_id items);
          group_edges = sort_key ce_id (filter (\<lambda>e. ce_left e \<in> set ids \<and> ce_right e \<in> set ids) edges)
      in if length items < 2 \<or> length families < 2 \<or> group_edges = [] then []
         else [\<lparr>co_id = ''correlation-'' @ take 24 (sha (join ''|'' ([cr_id rule, int_str (cr_version rule)] @ ids))),
            co_rule = cr_id rule, co_version = cr_version rule, co_cluster = ob_cluster (hd items),
            co_primary = (if common \<noteq> [] then hd (sort common) else hd (ce_entities (hd group_edges))),
            co_scope = (if common \<noteq> [] then ''shared_entity'' else ''edge_connected''),
            co_edges = group_edges, co_partial = partial,
            co_start = fold_min (map ob_start items), co_end = fold_max (map ob_end items),
            co_confidence = cr_confidence rule, co_risk = fl_max (map ob_risk items), co_families = families,
            co_observations = ids\<rparr>])"

definition correlate ::
  "(string \<Rightarrow> string) \<Rightarrow> int \<Rightarrow> observation list \<Rightarrow> corr_rule \<Rightarrow> correlation list option" where
  "correlate sha tz obs rule =
     (if \<not> cr_enabled rule then Some [] else
      let valid = valid_observations tz rule obs in
      case find_edges tz rule valid of
        None \<Rightarrow> None
      | Some s \<Rightarrow>
          (case make_groups (cs_parent s) [0..<length valid] [] of
             None \<Rightarrow> None
           | Some gs \<Rightarrow> Some (sort_key co_id (concat (map (\<lambda>(r, js). describe_group sha rule (cs_partial s)
               (map (edge_of sha tz rule valid) (cs_edges s)) (map ((!) valid) js)) gs)))))"

end
