(* ===== verification/Union_Find.thy ===== *)
theory Union_Find
  imports Correlation
begin

text \<open>
  The union-find structure of the correlation: \<open>depth p i n r\<close> says that the path from \<open>i\<close> reaches its root \<open>r\<close>
  after \<open>n\<close> steps. Path halving keeps every root, a union joins two classes, and \<open>root\<close> always returns on a
  structure without cycles.
\<close>

inductive depth :: "nat list \<Rightarrow> nat \<Rightarrow> nat \<Rightarrow> nat \<Rightarrow> bool" for p where
  here: "p ! i = i \<Longrightarrow> depth p i 0 i"
| there: "p ! i \<noteq> i \<Longrightarrow> depth p (p ! i) n r \<Longrightarrow> depth p i (Suc n) r"

inductive_cases depth_0E: "depth p i 0 r"
inductive_cases depth_SucE: "depth p i (Suc n) r"
inductive_simps depth_root: "depth p i n r"

lemma depth_fun: "depth p i n r \<Longrightarrow> depth p i n' r' \<Longrightarrow> n' = n \<and> r' = r"
proof (induction arbitrary: n' r' rule: depth.induct)
  case (there i n r)
  from there.prems there.hyps(1) obtain m where "n' = Suc m" "depth p (p ! i) m r'" by (cases rule: depth.cases) auto
  with there.IH show ?case by blast
qed (auto elim: depth.cases)

lemma depth_is_root: "depth p i n r \<Longrightarrow> p ! r = r"
  by (induction rule: depth.induct) auto

text \<open>A path below the depth of \<open>i\<close> does not visit \<open>i\<close>.\<close>

lemma depth_avoid: "depth p j m r \<Longrightarrow> depth p i n s \<Longrightarrow> m < n \<Longrightarrow> depth (p[i := x]) j m r"
proof (induction arbitrary: n rule: depth.induct)
  case (here j)
  then have "j \<noteq> i" using depth_fun [OF depth.here [of p j]] by fastforce
  with here show ?case by (intro depth.here) simp
next
  case (there j m r)
  then have "j \<noteq> i" using depth_fun [OF depth.there [of p j m r]] by fastforce
  with there show ?case by (intro depth.there) simp_all
qed

lemma halving_keeps:
  assumes "p ! i \<noteq> i" and "i < length p" and "depth p i n0 r0"
  shows "depth p j n r \<Longrightarrow> \<exists>m. m \<le> n \<and> depth (p[i := p ! (p ! i)]) j m r"
proof (induction n arbitrary: j rule: less_induct)
  case (less n)
  let ?q = "p[i := p ! (p ! i)]"
  show ?case
  proof (cases "j = i")
    case False
    from less.prems show ?thesis
    proof (cases rule: depth.cases)
      case here
      with False have "depth ?q j 0 j" by (intro depth.here) simp
      with here show ?thesis by auto
    next
      case (there k)
      with less.IH [of k "p ! j"] obtain m where m: "m \<le> k" "depth ?q (p ! j) m r" by auto
      with False there have "depth ?q j (Suc m) r" by (intro depth.there) simp_all
      with m there show ?thesis by (intro exI [of _ "Suc m"]) simp
    qed
  next
    case True
    then obtain k where k: "n = Suc k" "depth p (p ! i) k r" using less.prems assms(1) by (auto elim: depth.cases)
    from k(2) show ?thesis
    proof (cases rule: depth.cases)
      case here
      then have "depth ?q (p ! i) 0 r" using assms(1) by (auto intro: depth.here)
      moreover have "?q ! i = p ! i" using here assms(2) by simp
      ultimately have "depth ?q i (Suc 0) r" using assms(1) by (intro depth.there) simp_all
      with True k(1) show ?thesis by (intro exI [of _ "Suc 0"]) simp
    next
      case (there l)
      have "depth ?q (p ! (p ! i)) l r"
        by (rule depth_avoid [OF there(3) less.prems [unfolded True]]) (simp add: k(1) there(1))
      moreover have "p ! (p ! i) \<noteq> i"
      proof
        assume "p ! (p ! i) = i"
        with there(3) have "depth p i l r" by simp
        from depth_fun [OF this less.prems [unfolded True]] show False by (simp add: k(1) there(1))
      qed
      ultimately have "depth ?q i (Suc l) r" using assms(2) by (intro depth.there) simp_all
      with True k(1) there(1) show ?thesis by (intro exI [of _ "Suc l"]) simp
    qed
  qed
qed

subsection \<open>Structures without cycles\<close>

definition forest :: "nat list \<Rightarrow> bool" where
  "forest p = ((\<forall>i < length p. p ! i < length p) \<and> (\<forall>i < length p. \<exists>n r. depth p i n r))"

definition root_of :: "nat list \<Rightarrow> nat \<Rightarrow> nat" where
  "root_of p i = (THE r. \<exists>n. depth p i n r)"

lemma root_of_depth: "depth p i n r \<Longrightarrow> root_of p i = r"
  unfolding root_of_def by (rule the_equality) (auto dest: depth_fun)

lemma depth_less: "depth p i n r \<Longrightarrow> i < length p \<Longrightarrow> (\<forall>i < length p. p ! i < length p) \<Longrightarrow> r < length p"
  by (induction rule: depth.induct) auto

lemma halving_forest:
  assumes "forest p" and "i < length p" and "p ! i \<noteq> i"
  shows "forest (p[i := p ! (p ! i)])" and "j < length p \<Longrightarrow> root_of (p[i := p ! (p ! i)]) j = root_of p j"
proof -
  from assms obtain n r where i: "depth p i n r" by (auto simp: forest_def)
  have keep: "\<exists>m. depth (p[i := p ! (p ! i)]) j m r" if "depth p j k r" for j k r
    using halving_keeps [OF assms(3,2) i that] by blast
  show "forest (p[i := p ! (p ! i)])"
    using assms keep by (fastforce simp: forest_def nth_list_update)
  assume "j < length p"
  with assms obtain k s where "depth p j k s" by (auto simp: forest_def)
  with keep show "root_of (p[i := p ! (p ! i)]) j = root_of p j" by (metis root_of_depth)
qed

lemma root_returns:
  "forest p \<Longrightarrow> i < length p \<Longrightarrow> depth p i n r \<Longrightarrow>
   \<exists>p'. root p i = Some (r, p') \<and> forest p' \<and> length p' = length p \<and> (\<forall>j < length p. root_of p' j = root_of p j)"
proof (induction n arbitrary: p i rule: less_induct)
  case (less n)
  show ?case
  proof (cases "p ! i = i")
    case True
    with less.prems(3) have "r = i" by (auto elim: depth.cases)
    with True less.prems show ?thesis by (subst root.simps) simp
  next
    case False
    let ?q = "p[i := p ! (p ! i)]"
    from less.prems(3) False obtain k where k: "n = Suc k" "depth p (p ! i) k r" by (auto elim: depth.cases)
    have g: "?q ! i = p ! (p ! i)" using less.prems(2) by simp
    have "\<exists>l < n. depth p (p ! (p ! i)) l r"
      using k(2)
    proof (cases rule: depth.cases)
      case here
      then show ?thesis using k by auto
    next
      case (there l)
      then show ?thesis using k(1) by (intro exI [of _ l]) simp
    qed
    then obtain l where l: "l < n" "depth p (p ! (p ! i)) l r" by blast
    have "depth ?q (p ! (p ! i)) l r" by (rule depth_avoid [OF l(2) less.prems(3) l(1)])
    moreover have "forest ?q" and keep: "\<And>j. j < length p \<Longrightarrow> root_of ?q j = root_of p j"
      using halving_forest [OF less.prems(1,2) False] by blast+
    moreover have "p ! (p ! i) < length ?q" using less.prems(1,2) by (simp add: forest_def)
    ultimately obtain p' where "root ?q (p ! (p ! i)) = Some (r, p')" "forest p'" "length p' = length p"
      "\<forall>j < length p. root_of p' j = root_of ?q j"
      using less.IH [OF l(1), of ?q "p ! (p ! i)"] by auto
    with keep False g show ?thesis by (subst root.simps) (simp add: Let_def)
  qed
qed

lemma root_total:
  assumes "forest p" and "i < length p"
  obtains p' where "root p i = Some (root_of p i, p')" "forest p'" "length p' = length p"
    "\<And>j. j < length p \<Longrightarrow> root_of p' j = root_of p j"
proof -
  from assms obtain n r where d: "depth p i n r" by (auto simp: forest_def)
  from root_returns [OF assms d] root_of_depth [OF d] show ?thesis by (auto intro: that)
qed

subsection \<open>Union\<close>

lemma link_keeps:
  assumes "p ! a = a" and "p ! b = b" and "b < length p"
  shows "depth p j n r \<Longrightarrow> \<exists>m. depth (p[b := a]) j m (if r = b then a else r)"
proof (induction rule: depth.induct)
  case (here j)
  show ?case
  proof (cases "j = b")
    case True
    have "depth (p[b := a]) a 0 a" using assms by (cases "a = b") (auto intro: depth.here)
    moreover have "depth (p[b := a]) b (Suc 0) a" if "a \<noteq> b"
      using that calculation assms(3) by (intro depth.there) simp_all
    ultimately show ?thesis using True by (cases "a = b") auto
  next
    case False
    with here show ?thesis by (auto intro!: exI [of _ 0] depth.here)
  qed
next
  case (there j n r)
  then obtain m where "depth (p[b := a]) (p ! j) m (if r = b then a else r)" by blast
  moreover have "j \<noteq> b" using there(1) assms(2) by auto
  ultimately have "depth (p[b := a]) j (Suc m) (if r = b then a else r)"
    using there(1) by (intro depth.there) simp_all
  then show ?case by blast
qed

lemma link_forest:
  assumes "forest p" and "p ! a = a" and "p ! b = b" and "a < length p" and "b < length p"
  shows "forest (p[b := a])" and "j < length p \<Longrightarrow> root_of (p[b := a]) j = (if root_of p j = b then a else root_of p j)"
proof -
  note keep = link_keeps [OF assms(2,3,5)]
  show "forest (p[b := a])"
    using assms keep by (fastforce simp: forest_def nth_list_update)
  assume "j < length p"
  with assms(1) obtain n r where d: "depth p j n r" by (auto simp: forest_def)
  with keep obtain m where "depth (p[b := a]) j m (if r = b then a else r)" by blast
  then show "root_of (p[b := a]) j = (if root_of p j = b then a else root_of p j)"
    using root_of_depth [OF d] by (simp add: root_of_depth)
qed

lemma unite_total:
  assumes "forest p" and "a < length p" and "b < length p"
  obtains p' where "unite p a b = Some p'" "forest p'" "length p' = length p"
    "\<And>j. j < length p \<Longrightarrow> root_of p' j = (if root_of p j = root_of p b then root_of p a else root_of p j)"
proof -
  obtain p1 where 1: "root p a = Some (root_of p a, p1)" "forest p1" "length p1 = length p"
    "\<And>j. j < length p \<Longrightarrow> root_of p1 j = root_of p j" by (rule root_total [OF assms(1,2)]) blast
  obtain p2 where 2: "root p1 b = Some (root_of p1 b, p2)" "forest p2" "length p2 = length p1"
    "\<And>j. j < length p1 \<Longrightarrow> root_of p2 j = root_of p1 j" using root_total [OF 1(2), of b] assms(3) 1(3) by metis
  have root2: "root_of p j < length p \<and> p2 ! root_of p j = root_of p j" if "j < length p" for j
  proof -
    from 2(2,3) 1(3) that obtain n r where d: "depth p2 j n r" by (auto simp: forest_def)
    have "r = root_of p j" using root_of_depth [OF d] 2(4) 1(3,4) that by simp
    with depth_is_root [OF d] depth_less [OF d] 2(2,3) 1(3) that show ?thesis by (simp add: forest_def)
  qed
  let ?a = "root_of p a" and ?b = "root_of p b"
  have u: "unite p a b = Some (p2[?b := ?a])"
    using 1(1) 2(1) 1(4) assms(3) by (simp add: unite_def)
  note l = link_forest [of p2 ?a ?b]
  show ?thesis
  proof (rule that [OF u])
    show "forest (p2[?b := ?a])" using l(1) 2(2,3) 1(3) root2 assms by simp
    show "length (p2[?b := ?a]) = length p" using 2(3) 1(3) by simp
    fix j assume j: "j < length p"
    then show "root_of (p2[?b := ?a]) j = (if root_of p j = ?b then ?a else root_of p j)"
      using l(2) [of j] 2 1 root2 assms by simp
  qed
qed

end
