(* ===== verification/Correlation_Props.thy ===== *)
theory Correlation_Props
  imports Union_Find "HOL-Library.Multiset"
begin

text \<open>
  What the correlation computes: the search through the sorted buckets finds every pair of matching
  observations unless the pair budget runs out, and the groups are the connected components of the edges.
\<close>

subsection \<open>The bucket search\<close>

lemma sorted_fst: "sorted (xs :: (int \<times> nat) list) \<Longrightarrow> sorted (map fst xs)"
  unfolding sorted_wrt_map by (erule sorted_wrt_mono_rel [rotated]) (auto simp: less_eq_prod_def)

lemma takeWhile_le: "sorted (map fst xs) \<Longrightarrow> takeWhile (\<lambda>(u, _). u \<le> t) xs = filter (\<lambda>(u, _). u \<le> t) xs" for t :: int
  by (induction xs) (auto simp: filter_empty_conv eq_commute [of "[]"])

lemma takeWhile_less: "sorted (map fst xs) \<Longrightarrow> takeWhile (\<lambda>(u, _). u < t) xs = filter (\<lambda>(u, _). u < t) xs" for t :: int
  by (induction xs) (auto simp: filter_empty_conv eq_commute [of "[]"])

lemma sorted_split:
  "sorted (map fst ys) \<Longrightarrow> ys = filter (\<lambda>(u, _). u < a) ys @ filter (\<lambda>(u, _). a \<le> u) ys" for a :: int
proof (induction ys)
  case (Cons y ys)
  show ?case
  proof (cases "fst y < a")
    case True
    with Cons show ?thesis by (cases y) (simp add: not_le)
  next
    case False
    have "filter (\<lambda>(u, _). u < a) (y # ys) = []"
      using Cons.prems False by (force simp: filter_empty_conv)
    moreover have "filter (\<lambda>(u, _). a \<le> u) (y # ys) = y # ys"
      using Cons.prems False by (force simp: filter_id_conv)
    ultimately show ?thesis by simp
  qed
qed simp

lemma drop_take_filter:
  fixes a b :: int
  assumes "sorted (map fst xs)"
  shows "set (drop (length (filter (\<lambda>(u, _). u < a) xs)) (filter (\<lambda>(u, _). u \<le> b) xs)) =
    {(u, i). (u, i) \<in> set xs \<and> a \<le> u \<and> u \<le> b}"
proof (cases "a \<le> b + 1")
  case True
  let ?ys = "filter (\<lambda>(u, _). u \<le> b) xs"
  have sub: "filter (\<lambda>(u, _). u < a) xs = filter (\<lambda>(u, _). u < a) ?ys"
    using True by (induction xs) auto
  have "sorted (map fst ?ys)" using assms by (rule sorted_filter)
  from sorted_split [OF this, of a] sub
  have "drop (length (filter (\<lambda>(u, _). u < a) xs)) ?ys = filter (\<lambda>(u, _). a \<le> u) ?ys"
    by (metis append_eq_conv_conj)
  then show ?thesis by auto
next
  case False
  have "length (filter (\<lambda>(u, _). u \<le> b) xs) \<le> length (filter (\<lambda>(u, _). u < a) xs)"
    using False by (induction xs) auto
  with False show ?thesis by auto
qed

lemma in_reach_set:
  assumes "sorted xs"
  shows "set (in_reach t gap xs) = snd ` {(u, i). (u, i) \<in> set xs \<and> \<bar>u - t\<bar> \<le> gap}"
proof -
  note s = sorted_fst [OF assms]
  have "take (bisect_right (t + gap) xs) xs = filter (\<lambda>(u, _). u \<le> t + gap) xs"
    unfolding bisect_right_def takeWhile_eq_take [symmetric] by (rule takeWhile_le [OF s])
  then have "set (in_reach t gap xs) = snd ` {(u, i). (u, i) \<in> set xs \<and> t - gap \<le> u \<and> u \<le> t + gap}"
    using drop_take_filter [OF s, of "t - gap" "t + gap"]
    by (simp add: in_reach_def Let_def bisect_left_def takeWhile_less [OF s])
  moreover have "(t - gap \<le> u \<and> u \<le> t + gap) = (\<bar>u - t\<bar> \<le> gap)" for u by linarith
  ultimately show ?thesis by simp
qed

lemma set_enumerate: "set (enumerate 0 xs) = {(i, xs ! i) | i. i < length xs}"
  by (auto simp: in_set_enumerate_eq)

lemma bucket_set:
  "(u, i) \<in> set (bucket tz valid c e f) \<longleftrightarrow> i < length valid \<and> u = time_of tz (valid ! i)
     \<and> ob_cluster (valid ! i) = c \<and> e \<in> set (ob_entities (valid ! i)) \<and> ob_family (valid ! i) = f"
proof -
  have "set (bucket tz valid c e f) = (\<lambda>(i, ob). (time_of tz ob, i)) ` {(i, ob). (i, ob) \<in> set (enumerate 0 valid)
      \<and> ob_cluster ob = c \<and> e \<in> set (ob_entities ob) \<and> ob_family ob = f}"
    by (simp add: bucket_def) (rule arg_cong [where f = "image _"], auto)
  then show ?thesis by (auto simp: in_set_enumerate_eq image_iff)
qed

lemma others_set: "f \<in> set (others allowed fam) \<longleftrightarrow> pair_allowed allowed fam f"
proof -
  have one: "f \<in> set (case x of (a, b) \<Rightarrow> if fam = a \<or> fam = b then filter (\<lambda>f. f \<noteq> fam) (remdups [a, b]) else [])
      \<longleftrightarrow> f \<noteq> fam \<and> (x = (fam, f) \<or> x = (f, fam))" for x
    by (cases x) auto
  have "f \<in> set (others allowed fam) \<longleftrightarrow> (\<exists>x \<in> set allowed. f \<noteq> fam \<and> (x = (fam, f) \<or> x = (f, fam)))"
    unfolding others_def set_concat set_map UN_iff image_image one [symmetric] by simp
  then show ?thesis by (auto simp: pair_allowed_def)
qed

definition matching :: "int \<Rightarrow> corr_rule \<Rightarrow> observation \<Rightarrow> observation \<Rightarrow> bool" where
  "matching tz rule a b = (ob_cluster a = ob_cluster b \<and> pair_allowed (cr_pairs rule) (ob_family a) (ob_family b)
     \<and> shared a b \<noteq> [] \<and> close_enough tz rule a b)"

lemma shared_nonempty: "shared a b \<noteq> [] \<longleftrightarrow> (\<exists>e \<in> set (ob_entities a). e \<in> set (ob_entities b))"
proof -
  have "shared a b = [] \<longleftrightarrow> set (shared a b) = {}" by simp
  then show ?thesis by (auto simp: shared_def)
qed

lemma in_reach_bucket:
  "i \<in> set (in_reach t gap (bucket tz valid c e f)) \<longleftrightarrow> i < length valid \<and> \<bar>time_of tz (valid ! i) - t\<bar> \<le> gap
     \<and> ob_cluster (valid ! i) = c \<and> e \<in> set (ob_entities (valid ! i)) \<and> ob_family (valid ! i) = f"
proof -
  have "sorted (bucket tz valid c e f)" by (simp add: bucket_def)
  from in_reach_set [OF this] show ?thesis by (auto simp: bucket_set image_iff)
qed

lemma positions_set:
  "i \<in> set (positions tz rule valid a) \<longleftrightarrow> i < length valid \<and> matching tz rule a (valid ! i)"
proof -
  have "i \<in> set (positions tz rule valid a) \<longleftrightarrow> (\<exists>f e. pair_allowed (cr_pairs rule) (ob_family a) f
      \<and> e \<in> set (ob_entities a) \<and> i \<in> set (in_reach (time_of tz a) (cr_gap rule) (bucket tz valid (ob_cluster a) e f)))"
    by (simp add: positions_def Bex_def others_set)
  also have "\<dots> \<longleftrightarrow> i < length valid \<and> matching tz rule a (valid ! i)"
    unfolding in_reach_bucket matching_def shared_nonempty close_enough_def by (metis abs_minus_commute)
  finally show ?thesis .
qed

subsection \<open>Connected observations\<close>

definition joined :: "(nat \<times> nat) set \<Rightarrow> nat \<Rightarrow> nat \<Rightarrow> bool" where
  "joined E i j = ((i, j) \<in> (E \<union> E\<inverse>)\<^sup>*)"

lemma joined_sym: "joined E i j \<Longrightarrow> joined E j i"
proof -
  have "sym ((E \<union> E\<inverse>)\<^sup>*)" by (intro sym_rtrancl) (auto simp: sym_def)
  then show "joined E i j \<Longrightarrow> joined E j i" by (auto simp: joined_def sym_def)
qed

lemma joined_refl [simp]: "joined E i i"
  by (simp add: joined_def)

lemma joined_trans: "joined E i j \<Longrightarrow> joined E j k \<Longrightarrow> joined E i k"
  unfolding joined_def by (rule rtrancl_trans)

lemma joined_empty [simp]: "joined {} i j \<longleftrightarrow> i = j"
  by (simp add: joined_def)

lemma joined_mono: "joined E i j \<Longrightarrow> joined (insert e E) i j"
  unfolding joined_def by (erule rev_subsetD) (rule rtrancl_mono, auto)

lemma joined_new: "joined (insert (a, b) E) a b"
  by (auto simp: joined_def)

lemma joined_insert:
  "joined (insert (a, b) E) i j \<longleftrightarrow> joined E i j \<or> joined E i a \<and> joined E b j \<or> joined E i b \<and> joined E a j"
proof
  assume "joined (insert (a, b) E) i j"
  then have "(i, j) \<in> (insert (a, b) E \<union> (insert (a, b) E)\<inverse>)\<^sup>*" by (simp add: joined_def)
  then show "joined E i j \<or> joined E i a \<and> joined E b j \<or> joined E i b \<and> joined E a j"
  proof (induction rule: rtrancl_induct)
    case (step k l)
    from step(2) consider "joined E k l" | "k = a" "l = b" | "k = b" "l = a"
      by (auto simp: joined_def)
    then show ?case using step(3) by cases (metis joined_trans joined_refl joined_sym)+
  qed simp
next
  let ?E = "insert (a, b) E"
  have "joined ?E i j" if "joined ?E i x" "joined ?E x y" "joined ?E y j" for x y
    using that joined_trans by blast
  then show "joined E i j \<or> joined E i a \<and> joined E b j \<or> joined E i b \<and> joined E a j \<Longrightarrow> joined ?E i j"
    using joined_mono joined_new [of a b E] joined_sym by metis
qed

subsection \<open>The loop over the candidates\<close>

definition corr_ok :: "int \<Rightarrow> corr_rule \<Rightarrow> observation list \<Rightarrow> corr_state \<Rightarrow> bool" where
  "corr_ok tz rule valid s =
     (forest (cs_parent s) \<and> length (cs_parent s) = length valid
      \<and> (\<forall>i < length valid. \<forall>j < length valid. root_of (cs_parent s) i = root_of (cs_parent s) j
           \<longleftrightarrow> joined (set (cs_edges s)) i j)
      \<and> (\<forall>(i, j) \<in> set (cs_edges s). i < j \<and> j < length valid \<and> matching tz rule (valid ! i) (valid ! j))
      \<and> int (length (cs_edges s)) \<le> cs_comparisons s)"

lemma compare_all_ok:
  assumes "corr_ok tz rule valid s" and "\<forall>r \<in> set rs. left < r \<and> r < length valid" and "left < length valid"
    and "cs_comparisons s \<le> budget"
  shows "\<exists>s'. compare_all tz rule valid budget left rs s = Some s' \<and> corr_ok tz rule valid s'
    \<and> cs_comparisons s' \<le> budget \<and> (cs_partial s \<longrightarrow> cs_partial s')
    \<and> (\<not> cs_partial s' \<longrightarrow> set (cs_edges s') = set (cs_edges s) \<union>
        {(left, r) | r. r \<in> set rs \<and> matching tz rule (valid ! left) (valid ! r)})"
  using assms
proof (induction rs arbitrary: s)
  case (Cons r rs)
  let ?a = "valid ! left" and ?b = "valid ! r"
  let ?s1 = "s\<lparr>cs_comparisons := cs_comparisons s + 1\<rparr>"
  consider (stop) "budget \<le> cs_comparisons s"
    | (skip) "cs_comparisons s < budget" "ob_cluster ?a \<noteq> ob_cluster ?b \<or> \<not> pair_allowed (cr_pairs rule) (ob_family ?a) (ob_family ?b)"
    | (miss) "cs_comparisons s < budget" "ob_cluster ?a = ob_cluster ?b" "pair_allowed (cr_pairs rule) (ob_family ?a) (ob_family ?b)"
        "shared ?a ?b = [] \<or> \<not> close_enough tz rule ?a ?b"
    | (hit) "cs_comparisons s < budget" "matching tz rule ?a ?b"
    by (fastforce simp: matching_def)
  then show ?case
  proof cases
    case stop
    then show ?thesis using Cons.prems by (simp add: corr_ok_def Let_def)
  next
    case skip
    with Cons.IH [of s] Cons.prems show ?thesis by (force simp: matching_def Let_def)
  next
    case miss
    have "corr_ok tz rule valid ?s1" using Cons.prems(1) by (simp add: corr_ok_def)
    with Cons.IH [of ?s1] Cons.prems miss show ?thesis by (force simp: matching_def Let_def)
  next
    case hit
    have lr: "left < length valid" "r < length valid" "left < r" using Cons.prems by auto
    have f: "forest (cs_parent s)" "length (cs_parent s) = length valid"
      using Cons.prems(1) unfolding corr_ok_def by blast+
    obtain p where p: "unite (cs_parent s) left r = Some p" "forest p" "length p = length valid"
      "\<And>j. j < length valid \<Longrightarrow> root_of p j = (if root_of (cs_parent s) j = root_of (cs_parent s) r
         then root_of (cs_parent s) left else root_of (cs_parent s) j)"
      by (rule unite_total [OF f(1), of left r]) (use f(2) lr in simp_all)
    let ?s2 = "?s1\<lparr>cs_parent := p, cs_edges := cs_edges s @ [(left, r)]\<rparr>"
    have classes: "root_of p i = root_of p j \<longleftrightarrow> joined (insert (left, r) (set (cs_edges s))) i j"
      if "i < length valid" "j < length valid" for i j
    proof -
      have "root_of (cs_parent s) x = root_of (cs_parent s) y \<longleftrightarrow> joined (set (cs_edges s)) x y"
        if "x < length valid" "y < length valid" for x y
        using Cons.prems(1) that by (simp add: corr_ok_def)
      note old = this [OF that] this [OF that(1) lr(1)] this [OF that(1) lr(2)] this [OF lr(1) that(2)] this [OF lr(2) that(2)]
      show ?thesis unfolding p(4) [OF that(1)] p(4) [OF that(2)] joined_insert old [symmetric] by auto
    qed
    have "corr_ok tz rule valid ?s2"
      unfolding corr_ok_def
    proof (intro conjI allI impI)
      fix i j assume "i < length valid" "j < length valid"
      with classes show "root_of (cs_parent ?s2) i = root_of (cs_parent ?s2) j \<longleftrightarrow> joined (set (cs_edges ?s2)) i j" by simp
    next
      have "\<forall>(i, j) \<in> set (cs_edges s). i < j \<and> j < length valid \<and> matching tz rule (valid ! i) (valid ! j)"
        using Cons.prems(1) unfolding corr_ok_def by blast
      then show "\<forall>(i, j) \<in> set (cs_edges ?s2). i < j \<and> j < length valid \<and> matching tz rule (valid ! i) (valid ! j)"
        using lr hit(2) by simp
    next
      show "int (length (cs_edges ?s2)) \<le> cs_comparisons ?s2" using Cons.prems(1) by (simp add: corr_ok_def)
    qed (use p(2,3) in simp_all)
    moreover have "compare_all tz rule valid budget left (r # rs) s = compare_all tz rule valid budget left rs ?s2"
      using hit p(1) by (simp add: matching_def Let_def)
    moreover have "cs_comparisons ?s2 \<le> budget" "cs_partial ?s2 = cs_partial s" using hit(1) by simp_all
    ultimately show ?thesis
      using Cons.IH [of ?s2] Cons.prems(2,3) hit(2) by (auto simp del: compare_all.simps)
  qed
qed simp

lemma collect_sub: "collect left remaining acc xs = (acc', full) \<Longrightarrow> set acc' \<subseteq> set acc \<union> {x \<in> set xs. left < x}"
  by (induction xs arbitrary: acc) (fastforce simp: Let_def split: if_split_asm)+

lemma collect_all: "collect left remaining acc xs = (acc', False) \<Longrightarrow> set acc' = set acc \<union> {x \<in> set xs. left < x}"
  by (induction xs arbitrary: acc) (fastforce simp: Let_def split: if_split_asm)+

lemma scan_left_ok:
  assumes "corr_ok tz rule valid s" and "\<forall>l \<in> set ls. l < length valid" and "cs_comparisons s \<le> budget"
  shows "\<exists>s'. scan_left tz rule valid budget ls s = Some s' \<and> corr_ok tz rule valid s' \<and> cs_comparisons s' \<le> budget
    \<and> (\<not> cs_partial s' \<longrightarrow> set (cs_edges s') = set (cs_edges s) \<union>
        {(l, r). l \<in> set ls \<and> l < r \<and> r < length valid \<and> matching tz rule (valid ! l) (valid ! r)})"
  using assms
proof (induction ls arbitrary: s)
  case (Cons l ls)
  let ?c = "collect l (budget - cs_comparisons s) [] (positions tz rule valid (valid ! l))"
  obtain cands full where c: "?c = (cands, full)" by (cases ?c)
  let ?s = "s\<lparr>cs_partial := cs_partial s \<or> full\<rparr>"
  from collect_sub [OF c] have sub: "\<forall>r \<in> set (sort cands). l < r \<and> r < length valid"
    by (auto simp: positions_set)
  have "corr_ok tz rule valid ?s" using Cons.prems(1) by (simp add: corr_ok_def)
  from compare_all_ok [OF this sub, of budget] Cons.prems obtain s1 where
    s1: "compare_all tz rule valid budget l (sort cands) ?s = Some s1" "corr_ok tz rule valid s1" "cs_comparisons s1 \<le> budget"
      "full \<longrightarrow> cs_partial s1"
      "\<not> cs_partial s1 \<Longrightarrow> set (cs_edges s1) = set (cs_edges s) \<union>
        {(l, r) | r. r \<in> set (sort cands) \<and> matching tz rule (valid ! l) (valid ! r)}"
    by auto
  show ?case
  proof (cases "cs_partial s1")
    case True
    then show ?thesis using s1 c by auto
  next
    case False
    with s1(4) c have "collect l (budget - cs_comparisons s) [] (positions tz rule valid (valid ! l)) = (cands, False)" by simp
    from collect_all [OF this] have cands: "set cands = {r. l < r \<and> r < length valid \<and> matching tz rule (valid ! l) (valid ! r)}"
      by (auto simp: positions_set)
    have step: "scan_left tz rule valid budget (l # ls) s = scan_left tz rule valid budget ls s1"
      using c s1(1) False by simp
    from Cons.IH [OF s1(2) _ s1(3)] Cons.prems(2) obtain s2 where
      s2: "scan_left tz rule valid budget ls s1 = Some s2" "corr_ok tz rule valid s2" "cs_comparisons s2 \<le> budget"
        "\<not> cs_partial s2 \<Longrightarrow> set (cs_edges s2) = set (cs_edges s1) \<union>
          {(l, r). l \<in> set ls \<and> l < r \<and> r < length valid \<and> matching tz rule (valid ! l) (valid ! r)}"
      by auto
    have "\<not> cs_partial s2 \<Longrightarrow> set (cs_edges s2) = set (cs_edges s) \<union>
        {(k, r). k \<in> set (l # ls) \<and> k < r \<and> r < length valid \<and> matching tz rule (valid ! k) (valid ! r)}"
      unfolding s2(4) s1(5) [OF False] by (auto simp: cands)
    with s2(1-3) step show ?thesis by auto
  qed
qed auto

lemma root_of_start: "i < n \<Longrightarrow> root_of [0..<n] i = i"
  by (rule root_of_depth [of _ _ 0]) (auto intro: depth.here)

lemma corr_start_ok: "corr_ok tz rule valid (corr_start valid)"
proof -
  have "depth [0..<length valid] i 0 i" if "i < length valid" for i using that by (intro depth.here) simp
  then have "forest [0..<length valid]" unfolding forest_def by auto
  then show ?thesis by (simp add: corr_ok_def corr_start_def root_of_start)
qed

lemma find_edges_ok:
  obtains s where "find_edges tz rule valid = Some s" "corr_ok tz rule valid s"
    "cs_comparisons s \<le> max 1 (cr_budget rule)"
    "\<not> cs_partial s \<Longrightarrow> set (cs_edges s) = {(l, r). l < r \<and> r < length valid \<and> matching tz rule (valid ! l) (valid ! r)}"
proof -
  have "\<forall>l \<in> set [0..<length valid]. l < length valid" "cs_comparisons (corr_start valid) \<le> max 1 (cr_budget rule)"
    by (auto simp: corr_start_def)
  from scan_left_ok [OF corr_start_ok this, of tz rule] obtain s where
    s: "find_edges tz rule valid = Some s" "corr_ok tz rule valid s" "cs_comparisons s \<le> max 1 (cr_budget rule)"
      "\<not> cs_partial s \<longrightarrow> set (cs_edges s) =
        {(l, r). l \<in> set [0..<length valid] \<and> l < r \<and> r < length valid \<and> matching tz rule (valid ! l) (valid ! r)}"
    by (auto simp: find_edges_def corr_start_def)
  have all: "{(l, r). l \<in> set [0..<n] \<and> l < r \<and> r < n \<and> M l r} = {(l, r). l < r \<and> r < n \<and> M l r}"
    for n and M :: "nat \<Rightarrow> nat \<Rightarrow> bool" by auto
  have "\<not> cs_partial s \<Longrightarrow> set (cs_edges s) =
      {(l, r). l < r \<and> r < length valid \<and> matching tz rule (valid ! l) (valid ! r)}"
    using s(4) unfolding all by blast
  with s(1-3) show thesis by (rule that)
qed

subsection \<open>The groups\<close>

definition group_ok :: "(nat \<Rightarrow> nat) \<Rightarrow> (nat \<times> nat list) list \<Rightarrow> bool" where
  "group_ok f gs = (distinct (map fst gs) \<and> (\<forall>(r, js) \<in> set gs. js \<noteq> [] \<and> (\<forall>j \<in> set js. f j = r)))"

lemma add_to_group_ok:
  "group_ok f gs \<Longrightarrow> group_ok f (add_to_group (f i) i gs)
   \<and> (\<Union>g \<in> set (add_to_group (f i) i gs). set (snd g)) = insert i (\<Union>g \<in> set gs. set (snd g))
   \<and> mset (concat (map snd (add_to_group (f i) i gs))) = add_mset i (mset (concat (map snd gs)))
   \<and> fst ` set (add_to_group (f i) i gs) = insert (f i) (fst ` set gs)"
proof (induction gs)
  case (Cons g gs)
  obtain r js where g: "g = (r, js)" by (cases g)
  have "group_ok f gs" using Cons.prems by (auto simp: group_ok_def)
  note IH = Cons.IH [OF this]
  show ?case
  proof (cases "r = f i")
    case True
    then show ?thesis using Cons.prems g by (auto simp: group_ok_def)
  next
    case False
    have "r \<notin> fst ` set (add_to_group (f i) i gs)"
      using Cons.prems False IH g by (auto simp: group_ok_def)
    with IH Cons.prems False g show ?thesis by (simp add: group_ok_def insert_commute)
  qed
qed (simp add: group_ok_def)

lemma make_groups_ok:
  "forest p \<Longrightarrow> length p = n \<Longrightarrow> \<forall>j < n. root_of p j = f j \<Longrightarrow> \<forall>i \<in> set is. i < n \<Longrightarrow> group_ok f gs \<Longrightarrow>
   \<exists>gs'. make_groups p is gs = Some gs' \<and> group_ok f gs'
     \<and> mset (concat (map snd gs')) = mset is + mset (concat (map snd gs))"
proof (induction "is" arbitrary: p gs)
  case (Cons i "is")
  from Cons.prems have i: "i < length p" by simp
  obtain p' where p': "root p i = Some (root_of p i, p')" "forest p'" "length p' = length p"
    "\<And>j. j < length p \<Longrightarrow> root_of p' j = root_of p j" by (rule root_total [OF Cons.prems(1) i]) blast
  have r: "root_of p i = f i" using Cons.prems(3) i Cons.prems(2) by simp
  note add = add_to_group_ok [OF Cons.prems(5), of i]
  have "\<exists>gs'. make_groups p' is (add_to_group (f i) i gs) = Some gs' \<and> group_ok f gs'
     \<and> mset (concat (map snd gs')) = mset is + mset (concat (map snd (add_to_group (f i) i gs)))"
    using Cons.IH [of p' "add_to_group (f i) i gs"] p' Cons.prems add by auto
  then show ?case using add p'(1) r by auto
qed simp

subsection \<open>The properties\<close>

definition candidate_pairs :: "int \<Rightarrow> corr_rule \<Rightarrow> observation list \<Rightarrow> (nat \<times> nat) set" where
  "candidate_pairs tz rule valid = {(i, j). i < j \<and> j < length valid \<and> matching tz rule (valid ! i) (valid ! j)}"

definition demo_observation :: "string \<Rightarrow> string \<Rightarrow> string \<Rightarrow> string \<Rightarrow> observation" where
  "demo_observation i fam e t = \<lparr>ob_id = i, ob_cluster = ''c1'', ob_family = fam, ob_entities = [e, ''shared''],
     ob_start = t, ob_end = t, ob_count = 1, ob_risk = FFin 1 0\<rparr>"

definition demo_rule :: corr_rule where
  "demo_rule = \<lparr>cr_id = ''r'', cr_version = 1, cr_enabled = True, cr_min_risk = FFin 0 0, cr_min_count = 1,
     cr_gap = 60000000, cr_pairs = [(''bmc'', ''os'')], cr_budget = 10, cr_confidence = FFin 8 (- 1)\<rparr>"

definition demo1 :: observation where "demo1 = demo_observation ''o1'' ''os'' ''h1'' ''2026-01-01T00:00:00+00:00''"
definition demo2 :: observation where "demo2 = demo_observation ''o2'' ''bmc'' ''h2'' ''2026-01-01T00:00:30+00:00''"
definition demo3 :: observation where "demo3 = demo_observation ''o3'' ''os'' ''h3'' ''2026-01-01T09:00:00+00:00''"

definition demo_observations :: "observation list" where
  "demo_observations = [demo1, demo2, demo3]"

lemma demo_times:
  "time_of 0 demo1 = 1767225600000000" "time_of 0 demo2 = 1767225630000000" "time_of 0 demo3 = 1767258000000000"
  by code_simp+

lemma demo_fields:
  "ob_family demo1 = ''os''" "ob_family demo2 = ''bmc''" "ob_family demo3 = ''os''"
  "ob_cluster demo1 = ''c1''" "ob_cluster demo2 = ''c1''" "ob_cluster demo3 = ''c1''"
  "ob_entities demo1 = [''h1'', ''shared'']" "ob_entities demo2 = [''h2'', ''shared'']" "ob_entities demo3 = [''h3'', ''shared'']"
  by (simp_all add: demo1_def demo2_def demo3_def demo_observation_def)

lemma demo_rule_fields:
  "cr_pairs demo_rule = [(''bmc'', ''os'')]" "cr_gap demo_rule = 60000000" "cr_budget demo_rule = 10"
  by (simp_all add: demo_rule_def)

lemmas demo_facts = demo_times demo_fields demo_rule_fields

lemma demo_positions:
  "positions 0 demo_rule [demo1, demo2, demo3] demo1 = [1]"
  "positions 0 demo_rule [demo1, demo2, demo3] demo2 = [0]"
  "positions 0 demo_rule [demo1, demo2, demo3] demo3 = []"
  by (simp_all add: demo_facts positions_def others_def in_reach_def bucket_def bisect_left_def bisect_right_def)

lemma demo_edges:
  "find_edges 0 demo_rule demo_observations = Some \<lparr>cs_parent = [0, 0, 2], cs_edges = [(0, 1)], cs_comparisons = 1, cs_partial = False\<rparr>"
  by (simp add: find_edges_def demo_observations_def corr_start_def upt_rec demo_positions demo_facts
      pair_allowed_def shared_def close_enough_def unite_def root.simps)

text \<open>C31: The search through the sorted buckets is complete: unless it reports a partial result, its edges are exactly
  the pairs that a comparison of all pairs of observations would join; a partial result holds only such pairs, and no more
  than the pair budget.\<close>

theorem correlation_search_complete:
  "case find_edges tz rule valid of
     None \<Rightarrow> False
   | Some s \<Rightarrow> (if cs_partial s then set (cs_edges s) \<subseteq> candidate_pairs tz rule valid
         else set (cs_edges s) = candidate_pairs tz rule valid)
       \<and> int (length (cs_edges s)) \<le> max 1 (cr_budget rule)"
proof -
  obtain s where s: "find_edges tz rule valid = Some s" "corr_ok tz rule valid s"
    "cs_comparisons s \<le> max 1 (cr_budget rule)"
    "\<not> cs_partial s \<Longrightarrow> set (cs_edges s) = {(l, r). l < r \<and> r < length valid \<and> matching tz rule (valid ! l) (valid ! r)}"
    by (rule find_edges_ok [of tz rule valid]) blast
  from s(2) have "set (cs_edges s) \<subseteq> candidate_pairs tz rule valid"
    "int (length (cs_edges s)) \<le> cs_comparisons s"
    by (auto simp: corr_ok_def candidate_pairs_def)
  with s(1,3,4) show ?thesis by (auto simp: candidate_pairs_def)
qed

text \<open>C32: The groups of a correlation are the connected components of its edges: every observation is in exactly one
  group, and two observations are in the same group exactly when a chain of edges joins them.\<close>

theorem correlation_groups_connected:
  assumes "find_edges tz rule valid = Some s"
  shows "\<exists>gs. make_groups (cs_parent s) [0..<length valid] [] = Some gs
    \<and> mset (concat (map snd gs)) = mset [0..<length valid]
    \<and> (\<forall>i < length valid. \<forall>j < length valid.
         (\<exists>g \<in> set gs. i \<in> set (snd g) \<and> j \<in> set (snd g)) \<longleftrightarrow> joined (set (cs_edges s)) i j)"
proof -
  obtain s' where "find_edges tz rule valid = Some s'" "corr_ok tz rule valid s'" by (rule find_edges_ok)
  with assms have ok: "corr_ok tz rule valid s" by simp
  let ?f = "root_of (cs_parent s)"
  have "forest (cs_parent s)" "length (cs_parent s) = length valid" using ok by (auto simp: corr_ok_def)
  from make_groups_ok [OF this, of ?f "[0..<length valid]" "[]"] obtain gs where
    gs: "make_groups (cs_parent s) [0..<length valid] [] = Some gs" "group_ok ?f gs"
      "mset (concat (map snd gs)) = mset [0..<length valid]"
    by (auto simp: group_ok_def)
  have "(\<exists>g \<in> set gs. i \<in> set (snd g) \<and> j \<in> set (snd g)) \<longleftrightarrow> joined (set (cs_edges s)) i j"
    if ij: "i < length valid" "j < length valid" for i j
  proof -
    have all: "\<exists>g \<in> set gs. k \<in> set (snd g)" if "k < length valid" for k
    proof -
      have "k \<in> set (concat (map snd gs))" using that by (simp only: mset_eq_setD [OF gs(3)]) simp
      then show ?thesis by auto
    qed
    have one: "?f k = fst g" if "g \<in> set gs" "k \<in> set (snd g)" for g k
      using gs(2) that by (fastforce simp: group_ok_def)
    have "distinct (map fst gs)" using gs(2) by (simp add: group_ok_def)
    then have same: "g = h" if "g \<in> set gs" "h \<in> set gs" "fst g = fst h" for g h
      using that by (auto simp: distinct_map dest: inj_onD)
    have "(\<exists>g \<in> set gs. i \<in> set (snd g) \<and> j \<in> set (snd g)) \<longleftrightarrow> ?f i = ?f j"
      using all [OF ij(1)] all [OF ij(2)] one same by metis
    with ok ij show ?thesis by (simp add: corr_ok_def)
  qed
  with gs show ?thesis by blast
qed

theorem correlation_groups_connected_witness:
  "\<exists>s. find_edges 0 demo_rule demo_observations = Some s \<and> cs_edges s = [(0, 1)]
    \<and> (\<exists>gs. make_groups (cs_parent s) [0..<3] [] = Some gs
      \<and> (\<exists>g \<in> set gs. 0 \<in> set (snd g) \<and> 1 \<in> set (snd g)) \<and> \<not> (\<exists>g \<in> set gs. 0 \<in> set (snd g) \<and> 2 \<in> set (snd g)))"
proof -
  have n: "length demo_observations = 3" by (simp add: demo_observations_def)
  obtain s where s: "find_edges 0 demo_rule demo_observations = Some s" "cs_edges s = [(0, 1)]"
    by (rule that [OF demo_edges]) simp
  have l: "joined {(0, 1)} 0 1 \<and> \<not> joined {(0, 1)} 0 2" by (simp add: joined_insert)
  from correlation_groups_connected [OF s(1)] obtain gs where "make_groups (cs_parent s) [0..<3] [] = Some gs"
    and "\<forall>i < 3. \<forall>j < 3. (\<exists>g \<in> set gs. i \<in> set (snd g) \<and> j \<in> set (snd g)) \<longleftrightarrow> joined {(0, 1)} i j"
    unfolding n s(2) list.set by blast
  then have "make_groups (cs_parent s) [0..<3] [] = Some gs" "\<exists>g \<in> set gs. 0 \<in> set (snd g) \<and> 1 \<in> set (snd g)"
    "\<not> (\<exists>g \<in> set gs. 0 \<in> set (snd g) \<and> 2 \<in> set (snd g))" using l by simp_all
  with s show ?thesis by blast
qed

lemma describe_group_ok:
  "c \<in> set (describe_group sha rule partial edges items) \<Longrightarrow>
    co_families c = sort (remdups (map ob_family items)) \<and> 2 \<le> length (co_families c)
    \<and> co_observations c = sort (map ob_id items) \<and> co_edges c \<noteq> [] \<and> set (co_edges c) \<subseteq> set edges
    \<and> (\<forall>e \<in> set (co_edges c). ce_left e \<in> set (co_observations c) \<and> ce_right e \<in> set (co_observations c))
    \<and> (co_scope c = ''shared_entity'' \<longrightarrow> (\<forall>ob \<in> set items. co_primary c \<in> set (ob_entities ob)))"
proof -
  have hd_sort: "xs \<noteq> [] \<Longrightarrow> hd (sort xs) \<in> set xs" for xs :: "string list"
    by (metis hd_in_set set_sort sort_key_simps(1) set_empty)
  show "c \<in> set (describe_group sha rule partial edges items) \<Longrightarrow> ?thesis"
    using hd_sort [of "filter (\<lambda>e. list_all (\<lambda>ob. e \<in> set (ob_entities ob)) items) (remdups (ob_entities (hd items)))"]
    by (auto simp: describe_group_def Let_def list_all_iff split: if_split_asm)
qed

text \<open>C33: The correlation always returns; what it reports spans at least two source families, is held together by at least
  one edge between its own observations, and names an entity of all of them when it claims a shared entity.\<close>

theorem correlation_reports_groups:
  "case correlate sha tz obs rule of
     None \<Rightarrow> False
   | Some cs \<Rightarrow> sorted (map co_id cs) \<and> (\<forall>c \<in> set cs. \<exists>items. items \<noteq> [] \<and> set items \<subseteq> set (valid_observations tz rule obs)
       \<and> co_observations c = sort (map ob_id items) \<and> set (co_families c) = ob_family ` set items
       \<and> distinct (co_families c) \<and> 2 \<le> length (co_families c) \<and> co_edges c \<noteq> []
       \<and> (\<forall>e \<in> set (co_edges c). ce_left e \<in> set (co_observations c) \<and> ce_right e \<in> set (co_observations c))
       \<and> (co_scope c = ''shared_entity'' \<longrightarrow> (\<forall>ob \<in> set items. co_primary c \<in> set (ob_entities ob))))"
proof (cases "cr_enabled rule")
  case True
  let ?valid = "valid_observations tz rule obs"
  obtain s where s: "find_edges tz rule ?valid = Some s" "corr_ok tz rule ?valid s"
    by (rule find_edges_ok [of tz rule ?valid]) blast
  then have "forest (cs_parent s)" "length (cs_parent s) = length ?valid" by (auto simp: corr_ok_def)
  from make_groups_ok [OF this, of "root_of (cs_parent s)" "[0..<length ?valid]" "[]"] obtain gs where
    gs: "make_groups (cs_parent s) [0..<length ?valid] [] = Some gs" "group_ok (root_of (cs_parent s)) gs"
      "mset (concat (map snd gs)) = mset [0..<length ?valid]"
    by (auto simp: group_ok_def)
  let ?edges = "map (edge_of sha tz rule ?valid) (cs_edges s)"
  let ?out = "concat (map (\<lambda>(r, js). describe_group sha rule (cs_partial s) ?edges (map ((!) ?valid) js)) gs)"
  have out: "correlate sha tz obs rule = Some (sort_key co_id ?out)"
    using True s(1) gs(1) by (simp add: correlate_def Let_def)
  have "\<exists>items. items \<noteq> [] \<and> set items \<subseteq> set ?valid \<and> c \<in> set (describe_group sha rule (cs_partial s) ?edges items)"
    if c: "c \<in> set ?out" for c
  proof -
    from c obtain r js where g: "(r, js) \<in> set gs" "c \<in> set (describe_group sha rule (cs_partial s) ?edges (map ((!) ?valid) js))"
      by auto
    have "js \<noteq> []" using gs(2) g(1) by (auto simp: group_ok_def)
    have "set js \<subseteq> set (concat (map snd gs))" using g(1) by force
    then have "set js \<subseteq> {..<length ?valid}" using mset_eq_setD [OF gs(3)] by auto
    then have "set (map ((!) ?valid) js) \<subseteq> set ?valid" by auto
    with g(2) \<open>js \<noteq> []\<close> show ?thesis by (intro exI [of _ "map ((!) ?valid) js"]) simp
  qed
  note items = this
  have "\<exists>items. items \<noteq> [] \<and> set items \<subseteq> set ?valid
       \<and> co_observations c = sort (map ob_id items) \<and> set (co_families c) = ob_family ` set items
       \<and> distinct (co_families c) \<and> 2 \<le> length (co_families c) \<and> co_edges c \<noteq> []
       \<and> (\<forall>e \<in> set (co_edges c). ce_left e \<in> set (co_observations c) \<and> ce_right e \<in> set (co_observations c))
       \<and> (co_scope c = ''shared_entity'' \<longrightarrow> (\<forall>ob \<in> set items. co_primary c \<in> set (ob_entities ob)))"
    if "c \<in> set (sort_key co_id ?out)" for c
  proof -
    from that obtain its where its: "its \<noteq> []" "set its \<subseteq> set ?valid"
      "c \<in> set (describe_group sha rule (cs_partial s) ?edges its)" using items [of c] by auto
    note d = describe_group_ok [OF its(3)]
    have f: "set (co_families c) = ob_family ` set its" "distinct (co_families c)" using d by simp_all
    show ?thesis using its(1,2) d f by blast
  qed
  then show ?thesis unfolding out option.case by simp
qed (simp add: correlate_def)

theorem correlation_reports_groups_witness:
  "\<exists>cs. correlate (\<lambda>s. s) 0 demo_observations demo_rule = Some cs \<and> sorted (map co_id cs)
     \<and> (\<forall>c \<in> set cs. 2 \<le> length (co_families c) \<and> co_edges c \<noteq> [])"
  using correlation_reports_groups [where sha = "\<lambda>s. s" and tz = 0 and obs = demo_observations and rule = demo_rule]
  unfolding opt_witness by blast

end
