(* ===== verification/Risk_Contracts.thy ===== *)
theory Risk_Contracts
  imports Iso_Time
begin

text \<open>
  The checks of \<open>server_risk/contracts.py\<close> and the registry of \<open>server_risk/policies.py\<close>: time stamps with a zone,
  closed objects, identifiers, bounded integers and whitelisted scalar fields, sources and recovery rules. An instant is
  a number of microseconds since 1970 in UTC; \<open>iso_utc\<close> is \<open>datetime.isoformat()\<close> of it. SHA-256 is a parameter.
\<close>

subsection \<open>Time\<close>

definition risk_error :: "string \<Rightarrow> 'a res" where
  "risk_error code = Inl (CodedErr ''ServerRiskError'' code)"

lemma risk_error_neq [simp]: "risk_error c \<noteq> Inr x" "Inr x \<noteq> risk_error c"
  by (simp_all add: risk_error_def)

lemma list_case_Inr [res_simps]:
  "(case v of PList xs \<Rightarrow> f xs | _ \<Rightarrow> risk_error c) = Inr y \<longleftrightarrow> (\<exists>xs. v = PList xs \<and> f xs = Inr y)"
  by (cases v) simp_all

lemma dict_case_Inr [res_simps]:
  "(case v of PDict d \<Rightarrow> f d | _ \<Rightarrow> risk_error c) = Inr y \<longleftrightarrow> (\<exists>d. v = PDict d \<and> f d = Inr y)"
  by (cases v) simp_all

text \<open>The instants of the years 1 to 9999, outside of which \<open>astimezone\<close> overflows.\<close>

definition in_calendar :: "int \<Rightarrow> bool" where
  "in_calendar t = (- 719162 * 86400000000 \<le> t \<and> t < 2932897 * 86400000000)"

definition utc :: "pv \<Rightarrow> int res" where
  "utc v =
     (case v of
        PStr s \<Rightarrow>
          (case fromisoformat (replace_z s) of
             Inl _ \<Rightarrow> risk_error ''invalid_event_time''
           | Inr t \<Rightarrow>
               if dt_offset t = None \<or> \<not> in_calendar (timestamp_us 0 t) then risk_error ''invalid_event_time''
               else Inr (timestamp_us 0 t))
      | _ \<Rightarrow> risk_error ''invalid_event_time'')"

definition pad :: "nat \<Rightarrow> int \<Rightarrow> string" where
  "pad n x = (let ds = int_str x in replicate (n - length ds) (CHR ''0'') @ ds)"

text \<open>The date of a day counted from 1970-01-01, by eras of 400 years that begin in March.\<close>

definition civil :: "int \<Rightarrow> int \<times> int \<times> int" where
  "civil days =
     (let z = days + 719468; era = z div 146097; doe = z mod 146097;
          yoe = (doe - doe div 1460 + doe div 36524 - doe div 146096) div 365;
          doy = doe - (365 * yoe + yoe div 4 - yoe div 100);
          mp = (5 * doy + 2) div 153;
          d = doy - (153 * mp + 2) div 5 + 1;
          m = (if mp < 10 then mp + 3 else mp - 9)
      in (yoe + era * 400 + (if m \<le> 2 then 1 else 0), m, d))"

definition iso_utc :: "int \<Rightarrow> string" where
  "iso_utc t =
     (let us = t mod 86400000000; frac = us mod 1000000; s = us div 1000000 in
      case civil (t div 86400000000) of (y, m, d) \<Rightarrow>
        pad 4 y @ ''-'' @ pad 2 m @ ''-'' @ pad 2 d @ ''T'' @ pad 2 (s div 3600) @ '':'' @ pad 2 (s div 60 mod 60)
        @ '':'' @ pad 2 (s mod 60) @ (if frac = 0 then [] else ''.'' @ pad 6 frac) @ ''+00:00'')"

lemma iso_utc_example: "iso_utc 1735787045000006 = ''2025-01-02T03:04:05.000006+00:00''"
  by code_simp

lemma utc_example: "utc (PStr ''2024-02-29T23:59:59+08:00'') = Inr 1709222399000000"
  by code_simp

subsection \<open>Objects and scalars\<close>

definition risk_digest :: "(string \<Rightarrow> string) \<Rightarrow> pv \<Rightarrow> string" where
  "risk_digest sha v = sha (canonical_json v)"

definition strict_object :: "pv \<Rightarrow> string list \<Rightarrow> string list \<Rightarrow> (string \<times> pv) list res" where
  "strict_object v allowed required =
     (case v of
        PDict d \<Rightarrow> if (\<forall>k \<in> set (map fst d). k \<in> set allowed) \<and> (\<forall>k \<in> set required. k \<in> set (map fst d))
                   then Inr d else risk_error ''invalid_schema''
      | _ \<Rightarrow> risk_error ''invalid_schema'')"

definition risk_identifier :: "pv \<Rightarrow> string res" where
  "risk_identifier v =
     (case v of
        PStr s \<Rightarrow> if py_strip s = [] \<or> 256 < text_length s \<or> (\<exists>c \<in> set s. (of_char c :: nat) < 32)
                  then risk_error ''invalid_identifier'' else Inr s
      | _ \<Rightarrow> risk_error ''invalid_identifier'')"

definition integer :: "pv \<Rightarrow> int \<Rightarrow> int \<Rightarrow> int res" where
  "integer v lower upper =
     (case v of
        PInt i \<Rightarrow> if lower \<le> i \<and> i \<le> upper then Inr i else risk_error ''invalid_limit''
      | _ \<Rightarrow> risk_error ''invalid_limit'')"

definition field_names :: "string list" where
  "field_names = [''unit'', ''device'', ''gpu_uuid'', ''pod_uid'', ''mount'', ''filesystem'', ''boot_id'', ''ready'',
     ''expected_state'', ''verified'', ''activity'', ''success'', ''severity'', ''object_id'', ''object_kind'']"

text \<open>Floats of the model are finite.\<close>

definition scalar_field :: "pv \<Rightarrow> bool" where
  "scalar_field v = (case v of PStr s \<Rightarrow> text_length s \<le> 512 | PInt _ \<Rightarrow> True | PFloat _ _ \<Rightarrow> True | PBool _ \<Rightarrow> True | _ \<Rightarrow> False)"

definition typed_fields :: "pv \<Rightarrow> (string \<times> pv) list" where
  "typed_fields v = (case v of PDict d \<Rightarrow> filter (\<lambda>(k, x). k \<in> set field_names \<and> scalar_field x) d | _ \<Rightarrow> [])"

text \<open>\<open>value.get(key)\<close> for a value that is a dict, and \<open>[]\<close> for the entries of any other value.\<close>

definition entries :: "pv \<Rightarrow> (string \<times> pv) list" where
  "entries v = (case v of PDict d \<Rightarrow> d | _ \<Rightarrow> [])"

definition items_of :: "pv \<Rightarrow> pv list" where
  "items_of v = (case v of PList xs \<Rightarrow> xs | _ \<Rightarrow> [])"

definition int_value :: "pv \<Rightarrow> int" where
  "int_value v = (case v of PInt i \<Rightarrow> i | PBool b \<Rightarrow> (if b then 1 else 0) | _ \<Rightarrow> 0)"

subsection \<open>Sources and rules\<close>

record risk_signal =
  sg_code :: string
  sg_kind :: string
  sg_risk :: string
  sg_types :: "(string \<times> string) list"

record risk_source =
  rs_id :: string
  rs_enabled :: bool
  rs_complete :: bool              \<comment> \<open>every required key is present\<close>
  rs_epoch :: string
  rs_config :: string
  rs_env :: string
  rs_cluster :: string
  rs_nodes :: "string list"
  rs_objects :: "(string \<times> string) list"
  rs_capability :: string
  rs_signals :: "risk_signal list"
  rs_actors :: "string list"
  rs_fresh :: int
  rs_gap :: int
  rs_late :: int
  rs_skew :: int

text \<open>A rule after the filter of \<open>_subject\<close>; the hold is whole seconds, a missing key is \<open>None\<close>.\<close>

record risk_rule =
  rr_mode :: string
  rr_hold :: "int option"
  rr_signal :: "string option"
  rr_field :: "string option"
  rr_value :: pv
  rr_activity :: bool
  rr_signals :: "string list option"

record risk_policies =
  po_sources :: "risk_source list"
  po_rules :: "(string \<times> risk_rule) list"
  po_version :: string

definition find_source :: "risk_policies \<Rightarrow> string \<Rightarrow> risk_source option" where
  "find_source po source_id = find (\<lambda>s. rs_id s = source_id) (po_sources po)"

definition policy_source :: "risk_policies \<Rightarrow> string \<Rightarrow> risk_source res" where
  "policy_source po source_id =
     (case find_source po source_id of
        None \<Rightarrow> risk_error ''observation_source_unregistered''
      | Some s \<Rightarrow>
          if \<not> rs_enabled s then risk_error ''observation_source_unregistered''
          else if \<not> rs_complete s \<or> rs_capability s \<notin> {''error_only'', ''complete_event_stream'', ''authoritative_state''}
          then risk_error ''observation_source_config_invalid''
          else if rs_fresh s < 1 \<or> rs_gap s < 1 \<or> rs_late s < 0 then risk_error ''observation_source_config_invalid''
          else Inr s)"

lemma policy_source_Inr:
  "policy_source po i = Inr s \<Longrightarrow> s \<in> set (po_sources po) \<and> rs_id s = i \<and> rs_enabled s \<and> 1 \<le> rs_fresh s \<and> 1 \<le> rs_gap s"
  by (auto simp: policy_source_def find_source_def split: option.splits if_splits dest!: find_Some_in)

end
