(* ===== verification/Risk_Assessment.thy ===== *)
theory Risk_Assessment
  imports Risk_Contracts
begin

text \<open>
  \<open>AssessmentService\<close> of \<open>server_risk/assessment.py\<close>: the evidence about one subject (an object of a node and a risk
  type) is read in the order of its time into a verdict and into rounds of adverse episodes; the verdicts of the subjects
  give the assessment of the node. Observations have passed \<open>ObservationService.validate\<close>. The instants of a row are
  stored as the text \<open>isoformat\<close> writes and read back by \<open>utc\<close>; here they are the instants.
\<close>

subsection \<open>Data\<close>

record obs_row =
  or_id :: string
  or_fact :: string
  or_source :: string
  or_epoch :: string
  or_config :: string
  or_subject :: string
  or_start :: int
  or_end :: int
  or_mode :: string
  or_payload :: "(string \<times> pv) list"
  or_digest :: string
  or_key :: string
  or_batch_digest :: string

record projection_row =
  pj_revision :: string
  pj_fact :: "string option"
  pj_through :: "int option"
  pj_status :: string

datatype verdict = Present | Recovering | Clear | Unknown

datatype lifecycle = EOpen | EResolved | ESuperseded

record episode =
  ep_id :: string
  ep_subject :: string
  ep_risk :: pv
  ep_identity :: "(string \<times> pv) list"
  ep_severity :: pv
  ep_first :: int
  ep_last :: int
  ep_candidate :: "int option"
  ep_resolved :: "int option"
  ep_previous :: "string option"
  ep_lifecycle :: lifecycle

definition p_kind :: "obs_row \<Rightarrow> pv" where "p_kind r = dget (or_payload r) ''kind''"
definition p_risk :: "obs_row \<Rightarrow> pv" where "p_risk r = dget (or_payload r) ''risk_type''"
definition p_signal :: "obs_row \<Rightarrow> pv" where "p_signal r = dget (or_payload r) ''signal_code''"
definition p_fields :: "obs_row \<Rightarrow> (string \<times> pv) list" where "p_fields r = entries (dget (or_payload r) ''typed_fields'')"
definition p_identity :: "obs_row \<Rightarrow> (string \<times> pv) list" where "p_identity r = entries (dget (or_payload r) ''identity'')"
definition p_coverage :: "obs_row \<Rightarrow> (string \<times> pv) list" where "p_coverage r = entries (dget (or_payload r) ''coverage'')"
definition p_boot :: "obs_row \<Rightarrow> pv" where "p_boot r = dget (p_identity r) ''boot_id''"
definition p_sequence :: "obs_row \<Rightarrow> int" where "p_sequence r = int_value (dget (or_payload r) ''source_sequence'')"

text \<open>\<open>typed_fields.get("severity", "high")\<close>, ranked by \<open>SEVERITY_ORDER\<close>; \<open>max\<close> keeps the first of equals.\<close>

definition p_severity :: "obs_row \<Rightarrow> pv" where
  "p_severity r = (if dhas (p_fields r) ''severity'' then dget (p_fields r) ''severity'' else PStr ''high'')"

definition severity_rank :: "pv \<Rightarrow> int" where
  "severity_rank v =
     (if v = PStr ''critical'' then 4 else if v = PStr ''high'' then 3 else if v = PStr ''medium'' then 2
      else if v = PStr ''low'' then 1 else 0)"

definition worse :: "pv \<Rightarrow> pv \<Rightarrow> pv" where
  "worse a b = (if severity_rank a < severity_rank b then b else a)"

fun worst :: "pv list \<Rightarrow> pv" where
  "worst [] = PStr ''unknown''"
| "worst (x # xs) = foldl worse x (xs @ [PStr ''unknown''])"

definition seconds :: "int \<Rightarrow> int" where "seconds n = n * 1000000"

subsection \<open>The rows of one subject\<close>

text \<open>\<open>current\<close> of the code is always the last of the rounds.\<close>

record judgement =
  jd_rounds :: "episode list"
  jd_candidate :: "int option"
  jd_positive :: "int option"
  jd_boundary :: "(string \<times> string \<times> string \<times> pv) option"
  jd_known :: "verdict option"
  jd_state :: verdict
  jd_reasons :: "string list"
  jd_valid :: "int option"
  jd_evidence :: "int option"
  jd_complete :: bool
  jd_adverse :: "obs_row option"
  jd_mode :: "string option"

definition judge_start :: judgement where
  "judge_start = \<lparr>jd_rounds = [], jd_candidate = None, jd_positive = None, jd_boundary = None, jd_known = None,
     jd_state = Unknown, jd_reasons = [], jd_valid = None, jd_evidence = None, jd_complete = True, jd_adverse = None,
     jd_mode = None\<rparr>"

text \<open>\<open>_frontier_complete\<close>: the batch of a row is recorded as processed, with the digest the row carries.\<close>

definition batch_key :: "(string \<Rightarrow> string) \<Rightarrow> string \<Rightarrow> string \<Rightarrow> string" where
  "batch_key sha source_id key = ''batch:'' @ risk_digest sha (PList [PStr source_id, PStr key])"

definition frontier_complete :: "(string \<Rightarrow> string) \<Rightarrow> (string \<Rightarrow> projection_row option) \<Rightarrow> obs_row \<Rightarrow> bool" where
  "frontier_complete sha projection row =
     (case projection (batch_key sha (or_source row) (or_key row)) of
        None \<Rightarrow> False
      | Some saved \<Rightarrow> pj_revision saved = or_batch_digest row \<and> pj_status saved = ''complete'')"

definition compatible :: "risk_source \<Rightarrow> obs_row \<Rightarrow> bool" where
  "compatible src row = (or_epoch row = rs_epoch src \<and> or_config row = rs_config src)"

definition is_open :: "episode list \<Rightarrow> bool" where
  "is_open rounds = (rounds \<noteq> [] \<and> ep_resolved (last rounds) = None)"

definition new_episode :: "(string \<Rightarrow> string) \<Rightarrow> string \<Rightarrow> pv \<Rightarrow> obs_row \<Rightarrow> episode list \<Rightarrow> episode" where
  "new_episode sha subject risk row rounds =
     \<lparr>ep_id = risk_digest sha (PList [PStr subject, PStr (or_id row)]), ep_subject = subject, ep_risk = risk,
      ep_identity = p_identity row, ep_severity = p_severity row, ep_first = or_start row, ep_last = or_end row,
      ep_candidate = None, ep_resolved = None,
      ep_previous = (if rounds = [] then None else Some (ep_id (last rounds))), ep_lifecycle = EOpen\<rparr>"

definition on_last :: "('a \<Rightarrow> 'a) \<Rightarrow> 'a list \<Rightarrow> 'a list" where
  "on_last f xs = (if xs = [] then [] else butlast xs @ [f (last xs)])"

definition adverse_rounds :: "(string \<Rightarrow> string) \<Rightarrow> string \<Rightarrow> pv \<Rightarrow> obs_row \<Rightarrow> episode list \<Rightarrow> episode list" where
  "adverse_rounds sha subject risk row rounds =
     on_last (\<lambda>e. e\<lparr>ep_last := or_end row, ep_severity := worse (ep_severity e) (p_severity row)\<rparr>)
       (if is_open rounds then rounds else rounds @ [new_episode sha subject risk row rounds])"

definition adverse_step ::
  "(string \<Rightarrow> string) \<Rightarrow> int \<Rightarrow> string \<Rightarrow> string \<Rightarrow> pv \<Rightarrow> risk_source \<Rightarrow> obs_row \<Rightarrow> judgement \<Rightarrow> judgement" where
  "adverse_step sha now mode subject risk src row st =
     (let state = (if compatible src row \<and> (or_mode row = ''current'' \<or> mode = ''historical'')
                     \<and> now - or_end row \<le> seconds (rs_fresh src) then Present else Unknown)
      in st\<lparr>jd_rounds := adverse_rounds sha subject risk row (jd_rounds st), jd_adverse := Some row,
            jd_candidate := None, jd_positive := None, jd_known := Some Present, jd_state := state,
            jd_evidence := Some (or_end row), jd_mode := Some (or_mode row),
            jd_valid := Some (or_end row + seconds (rs_fresh src)),
            jd_reasons := jd_reasons st @ (if state = Unknown then [''adverse_evidence_expired_or_historical''] else [])\<rparr>)"

definition reject :: "string \<Rightarrow> judgement \<Rightarrow> judgement" where
  "reject code st = st\<lparr>jd_state := Unknown, jd_reasons := jd_reasons st @ [code]\<rparr>"

definition reject_run :: "string \<Rightarrow> judgement \<Rightarrow> judgement" where
  "reject_run code st = (reject code st)\<lparr>jd_candidate := None, jd_positive := None\<rparr>"

definition opt_text :: "string option \<Rightarrow> pv" where
  "opt_text x = (case x of None \<Rightarrow> PNone | Some s \<Rightarrow> PStr s)"

definition snapshot_positive :: "risk_source \<Rightarrow> risk_rule \<Rightarrow> obs_row \<Rightarrow> bool" where
  "snapshot_positive src rule row =
     (rs_capability src = ''authoritative_state'' \<and> rr_mode rule \<in> {''state'', ''hardware''}
      \<and> p_signal row = opt_text (rr_signal rule)
      \<and> py_eq (case rr_field rule of None \<Rightarrow> PNone | Some f \<Rightarrow> dget (p_fields row) f) (rr_value rule)
      \<and> (rr_mode rule = ''hardware'' \<longrightarrow>
           p_signal row = PStr ''gpu_recovery_verified'' \<and> dget (p_fields row) ''verified'' = PBool True))"

definition coverage_positive :: "risk_source \<Rightarrow> risk_rule \<Rightarrow> obs_row \<Rightarrow> bool" where
  "coverage_positive src rule row =
     (let c = p_coverage row; needed = (case rr_signals rule of None \<Rightarrow> [] | Some xs \<Rightarrow> xs) in
      rs_capability src = ''complete_event_stream'' \<and> rr_mode rule = ''quiet'' \<and> needed \<noteq> []
      \<and> list_all (\<lambda>s. PStr s \<in> set (items_of (dget c ''signal_codes''))) needed
      \<and> \<not> truthy (dget c ''gaps'') \<and> py_eq (dget c ''dropped_count'') (PInt 0)
      \<and> py_eq (dget c ''parse_failure_count'') (PInt 0) \<and> utc (dget c ''complete_through'') = Inr (or_end row)
      \<and> (rr_activity rule \<longrightarrow>
           dget (p_fields row) ''activity'' = PBool True \<and> dget (p_fields row) ''success'' = PBool True))"

text \<open>The common end of both kinds of positive evidence.\<close>

definition settle :: "risk_source \<Rightarrow> int \<Rightarrow> obs_row \<Rightarrow> int \<Rightarrow> judgement \<Rightarrow> judgement" where
  "settle src hold row candidate st =
     (let state = (if seconds hold \<le> or_end row - candidate then Clear else Recovering);
          rounds = (if is_open (jd_rounds st) then on_last (\<lambda>e. e\<lparr>ep_candidate := Some candidate\<rparr>) (jd_rounds st)
                    else jd_rounds st);
          rounds' = (if state = Clear \<and> is_open rounds
                     then on_last (\<lambda>e. e\<lparr>ep_resolved := Some (or_end row), ep_lifecycle := EResolved\<rparr>) rounds else rounds)
      in st\<lparr>jd_candidate := Some candidate, jd_positive := Some (or_end row), jd_mode := Some (or_mode row),
            jd_evidence := Some (or_end row), jd_valid := Some (or_end row + seconds (rs_fresh src)),
            jd_rounds := rounds', jd_state := state, jd_known := Some state, jd_reasons := []\<rparr>)"

definition snapshot_start :: "risk_source \<Rightarrow> obs_row \<Rightarrow> judgement \<Rightarrow> int" where
  "snapshot_start src row st =
     (case (jd_positive st, jd_candidate st) of
        (Some l, Some c) \<Rightarrow> if seconds (rs_gap src) < or_end row - l then or_end row else c
      | _ \<Rightarrow> or_end row)"

definition coverage_start :: "obs_row \<Rightarrow> judgement \<Rightarrow> int" where
  "coverage_start row st =
     (let start = (case jd_adverse st of None \<Rightarrow> or_start row | Some a \<Rightarrow> max (or_start row) (or_end a)) in
      case (jd_positive st, jd_candidate st) of
        (Some l, Some c) \<Rightarrow> if l < start then start else c
      | _ \<Rightarrow> start)"

definition boundary_of :: "obs_row \<Rightarrow> string \<times> string \<times> string \<times> pv" where
  "boundary_of row = (or_source row, or_epoch row, or_config row, p_boot row)"

definition at_boundary :: "obs_row \<Rightarrow> judgement \<Rightarrow> judgement" where
  "at_boundary row st =
     (if jd_boundary st = Some (boundary_of row) then st
      else st\<lparr>jd_boundary := Some (boundary_of row), jd_candidate := None, jd_positive := None\<rparr>)"

definition positive_step :: "risk_source \<Rightarrow> risk_rule \<Rightarrow> int \<Rightarrow> obs_row \<Rightarrow> judgement \<Rightarrow> judgement" where
  "positive_step src rule hold row st =
     (if p_kind row = PStr ''state_snapshot'' then
        (if snapshot_positive src rule row then settle src hold row (snapshot_start src row st) st
         else reject_run ''state_check_not_satisfied'' st)
      else if p_kind row = PStr ''coverage'' then
        (if coverage_positive src rule row then settle src hold row (coverage_start row st) st
         else reject_run ''coverage_incomplete_or_activity_missing'' st)
      else st)"

definition judge_row ::
  "(string \<Rightarrow> string) \<Rightarrow> risk_policies \<Rightarrow> (string \<Rightarrow> projection_row option) \<Rightarrow> int \<Rightarrow> string \<Rightarrow> string \<Rightarrow> pv
     \<Rightarrow> risk_rule option \<Rightarrow> obs_row \<Rightarrow> judgement \<Rightarrow> judgement" where
  "judge_row sha po projection now mode subject risk rule row st =
     (case policy_source po (or_source row) of
        Inl _ \<Rightarrow> st\<lparr>jd_complete := False, jd_reasons := jd_reasons st @ [''source_unregistered'']\<rparr>
      | Inr src \<Rightarrow>
          let processed = frontier_complete sha projection row;
              st1 = st\<lparr>jd_complete := jd_complete st \<and> processed\<rparr>
          in if p_kind row = PStr ''adverse'' then adverse_step sha now mode subject risk src row st1
             else if p_kind row = PStr ''recovery_candidate'' then reject ''recovery_candidate_not_authoritative'' st1
             else
               (case rule of
                  None \<Rightarrow> reject ''recovery_policy_unregistered'' st1
                | Some ru \<Rightarrow>
                    (case rr_hold ru of
                       None \<Rightarrow> reject ''recovery_policy_unregistered'' st1
                     | Some hold \<Rightarrow>
                         if hold < 0 then reject ''recovery_policy_unregistered'' st1
                         else if \<not> compatible src row \<or> \<not> processed
                         then reject_run ''evidence_epoch_or_frontier_unverified'' st1
                         else if rr_mode ru \<noteq> ''hardware''
                             \<and> (case jd_adverse st1 of None \<Rightarrow> False | Some a \<Rightarrow> p_boot row \<noteq> p_boot a)
                         then reject_run ''boot_incompatible'' st1
                         else positive_step src ru hold row (at_boundary row st1))))"

definition judge_rows ::
  "(string \<Rightarrow> string) \<Rightarrow> risk_policies \<Rightarrow> (string \<Rightarrow> projection_row option) \<Rightarrow> int \<Rightarrow> string \<Rightarrow> string \<Rightarrow> pv
     \<Rightarrow> risk_rule option \<Rightarrow> obs_row list \<Rightarrow> judgement" where
  "judge_rows sha po projection now mode subject risk rule rows =
     foldl (\<lambda>st row. judge_row sha po projection now mode subject risk rule row st) judge_start rows"

text \<open>The checks after the last row.\<close>

definition conclude :: "int \<Rightarrow> string \<Rightarrow> judgement \<Rightarrow> judgement" where
  "conclude now mode st =
     (let st1 = (if mode = ''current'' \<and> jd_mode st = Some ''historical'' then reject ''historical_context_only'' st else st);
          st2 = (case jd_valid st1 of None \<Rightarrow> st1 | Some v \<Rightarrow> if v \<le> now then reject ''evidence_expired'' st1 else st1);
          st3 = (if \<not> jd_complete st2 then reject ''projection_pending'' st2 else st2)
      in if jd_evidence st3 = None then reject ''no_current_evidence'' st3 else st3)"

record subject_check =
  sc_subject :: string
  sc_identity :: "(string \<times> pv) list"
  sc_risk :: pv
  sc_status :: verdict
  sc_severity :: pv
  sc_evidence :: "int option"
  sc_valid :: "int option"
  sc_known :: "verdict option"
  sc_reasons :: "string list"
  sc_refs :: "string list"
  sc_complete :: bool
  sc_mode :: string
  sc_candidate :: "int option"
  sc_end :: "int option"
  sc_observed :: int
  sc_remaining :: "int option"
  sc_episodes :: "string list"
  sc_decision :: string

definition verdict_text :: "verdict \<Rightarrow> string" where
  "verdict_text v = (case v of Present \<Rightarrow> ''present'' | Recovering \<Rightarrow> ''recovering'' | Clear \<Rightarrow> ''clear'' | Unknown \<Rightarrow> ''unknown'')"

definition rule_of :: "risk_policies \<Rightarrow> pv \<Rightarrow> risk_rule option" where
  "rule_of po risk = (case risk of PStr r \<Rightarrow> map_of (po_rules po) r | _ \<Rightarrow> None)"

text \<open>\<open>_subject\<close>, on at least one row; observed and remaining time are in microseconds.\<close>

definition judge_subject ::
  "(string \<Rightarrow> string) \<Rightarrow> risk_policies \<Rightarrow> (string \<Rightarrow> projection_row option) \<Rightarrow> int \<Rightarrow> string \<Rightarrow> string
     \<Rightarrow> obs_row list \<Rightarrow> subject_check \<times> episode list" where
  "judge_subject sha po projection now mode subject rows =
     (let risk = p_risk (last rows); rule = rule_of po risk;
          st = conclude now mode (judge_rows sha po projection now mode subject risk rule rows);
          hold = (case rule of None \<Rightarrow> None | Some ru \<Rightarrow> rr_hold ru);
          observed = (case (jd_positive st, jd_candidate st) of (Some l, Some c) \<Rightarrow> Some (l - c) | _ \<Rightarrow> None)
      in (\<lparr>sc_subject = subject, sc_identity = p_identity (last rows), sc_risk = risk, sc_status = jd_state st,
           sc_severity = worst (map p_severity (filter (\<lambda>r. p_kind r = PStr ''adverse'') rows)),
           sc_evidence = jd_evidence st, sc_valid = (if jd_state st \<noteq> Unknown then jd_valid st else None),
           sc_known = jd_known st, sc_reasons = sort (remdups (jd_reasons st)), sc_refs = map or_id rows,
           sc_complete = jd_complete st, sc_mode = mode, sc_candidate = jd_candidate st, sc_end = jd_positive st,
           sc_observed = (case observed of None \<Rightarrow> 0 | Some d \<Rightarrow> max 0 d),
           sc_remaining = (case observed of
               None \<Rightarrow> map_option seconds hold
             | Some d \<Rightarrow> Some (max 0 (seconds (case hold of None \<Rightarrow> 0 | Some h \<Rightarrow> h) - d))),
           sc_episodes = map ep_id (jd_rounds st),
           sc_decision = risk_digest sha (PList [PStr subject, PStr (verdict_text (jd_state st)),
               PList (map (\<lambda>r. PStr (or_id r)) rows), PStr (po_version po), PStr mode,
               (case jd_evidence st of None \<Rightarrow> PNone | Some t \<Rightarrow> PStr (iso_utc t))])\<rparr>,
          jd_rounds st))"

subsection \<open>A node\<close>

record legacy_fact =
  lf_registered :: bool
  lf_severity :: pv
  lf_first :: int
  lf_value :: pv

text \<open>The rows that count at an instant, in groups by subject.\<close>

definition in_view :: "int \<Rightarrow> bool \<Rightarrow> obs_row \<Rightarrow> bool" where
  "in_view now exclusive row =
     (or_end row \<le> now \<and> \<not> (exclusive \<and> or_start row = or_end row \<and> or_end row = now))"

definition subject_rows :: "obs_row list \<Rightarrow> string \<Rightarrow> obs_row list" where
  "subject_rows rows subject =
     sort_key (\<lambda>r. (or_start r, p_sequence r, or_id r)) (filter (\<lambda>r. or_subject r = subject) rows)"

definition applicable_checks :: "risk_policies \<Rightarrow> string \<Rightarrow> string \<Rightarrow> (pv \<times> pv \<times> pv) list" where
  "applicable_checks po cluster node =
     concat (map (\<lambda>s. case policy_source po (rs_id s) of
         Inl _ \<Rightarrow> []
       | Inr src \<Rightarrow> if rs_cluster src = cluster \<and> node \<in> set (rs_nodes src)
           then concat (map (\<lambda>(kind, i). map (\<lambda>r. (PStr kind, PStr i, PStr r)) (remdups (map sg_risk (rs_signals src))))
                  (rs_objects src))
           else []) (po_sources po))"

definition check_key :: "subject_check \<Rightarrow> pv \<times> pv \<times> pv" where
  "check_key c = (dget (sc_identity c) ''object_kind'', dget (sc_identity c) ''object_id'', sc_risk c)"

definition judge_all ::
  "(string \<Rightarrow> string) \<Rightarrow> risk_policies \<Rightarrow> (string \<Rightarrow> projection_row option) \<Rightarrow> int \<Rightarrow> string \<Rightarrow> bool
     \<Rightarrow> obs_row list \<Rightarrow> (subject_check \<times> episode list) list" where
  "judge_all sha po projection now mode exclusive rows =
     (let view = filter (in_view now exclusive) rows
      in map (\<lambda>s. judge_subject sha po projection now mode s (subject_rows view s)) (sort (remdups (map or_subject view))))"

record node_assessment =
  na_status :: verdict
  na_severity :: pv
  na_evidence :: "int option"
  na_valid :: "int option"
  na_known :: "verdict option"
  na_reasons :: "string list"
  na_coverage :: string
  na_revision :: string
  na_checks :: "subject_check list"
  na_episodes :: "episode list"
  na_complete :: bool

definition opt_fold :: "(int \<Rightarrow> int \<Rightarrow> int) \<Rightarrow> int list \<Rightarrow> int option" where
  "opt_fold f xs = (case xs of [] \<Rightarrow> None | x # ys \<Rightarrow> Some (fold f ys x))"

definition node_status :: "string list \<Rightarrow> verdict list \<Rightarrow> verdict" where
  "node_status reasons states =
     (if Present \<in> set states then Present
      else if reasons \<noteq> [] \<or> Unknown \<in> set states \<or> states = [] then Unknown
      else if Recovering \<in> set states then Recovering else Clear)"

text \<open>
  \<open>evaluate\<close> on the rows of the node; \<open>facts\<close>, \<open>hist_complete\<close> and \<open>frontiers\<close> are what the repository says of the
  facts of older components and of their projection.
\<close>

definition evaluate_node ::
  "(string \<Rightarrow> string) \<Rightarrow> risk_policies \<Rightarrow> (string \<Rightarrow> projection_row option) \<Rightarrow> legacy_fact list \<Rightarrow> bool \<Rightarrow> bool
     \<Rightarrow> string \<Rightarrow> string \<Rightarrow> int \<Rightarrow> string \<Rightarrow> bool \<Rightarrow> obs_row list \<Rightarrow> node_assessment" where
  "evaluate_node sha po projection facts hist_complete frontiers cluster node now mode exclusive rows =
     (let judged = judge_all sha po projection now mode exclusive rows;
          subjects = map fst judged;
          applicable = applicable_checks po cluster node;
          legacy = filter (\<lambda>f. \<not> lf_registered f \<and> lf_first f \<le> now) facts;
          reasons = (if applicable = [] then [''applicable_checks_unregistered''] else [])
            @ (if \<exists>a \<in> set applicable. a \<notin> set (map check_key subjects) then [''required_observations_missing''] else [])
            @ (if legacy \<noteq> [] then [''legacy_unverified''] else [])
            @ (if \<not> hist_complete then [''projection_pending''] else []);
          state = node_status reasons (map sc_status subjects);
          all_reasons = sort (remdups (reasons @ concat (map sc_reasons subjects)))
      in \<lparr>na_status = state,
          na_severity = worst (map sc_severity (filter (\<lambda>c. sc_status c \<noteq> Clear) subjects) @ map lf_severity legacy),
          na_evidence = opt_fold max (List.map_filter sc_evidence subjects),
          na_valid = (if state \<noteq> Unknown then opt_fold min (List.map_filter sc_valid subjects) else None),
          na_known = (case find (\<lambda>c. sc_known c \<noteq> None) (rev subjects) of
              Some c \<Rightarrow> sc_known c | None \<Rightarrow> if legacy \<noteq> [] then Some Present else None),
          na_reasons = all_reasons,
          na_coverage = (if state \<in> {Clear, Recovering} \<and> reasons = [] then ''complete''
              else if rows \<noteq> [] then ''partial'' else ''unknown''),
          na_revision = risk_digest sha (PDict [(''observations'', PList (map (\<lambda>r. PList [PStr (or_id r), PStr (or_digest r)]) rows)),
              (''policy'', PStr (po_version po)), (''legacy'', PList (map lf_value legacy))]),
          na_checks = subjects, na_episodes = concat (map snd judged),
          na_complete = (hist_complete \<and> (rows \<noteq> [] \<or> frontiers) \<and> list_all sc_complete subjects)\<rparr>)"

end
