(* ===== verification/Risk_Store.thy ===== *)
theory Risk_Store
  imports Risk_Assessment
begin

text \<open>
  The store of \<open>server_risk\<close>: \<open>ServerRiskRepository.observations\<close>, \<open>AssessmentService.persist\<close> and
  \<open>ObservationService\<close>. A transaction that raises leaves the store as it was, so an operation is a function into
  \<open>res\<close>. What older components know of a node (their facts and whether their history is projected) is an argument.
\<close>

record decision =
  de_id :: string
  de_episode :: "string option"
  de_subject :: string
  de_revision :: string
  de_effective :: int
  de_decided :: int
  de_state :: verdict
  de_valid :: "int option"
  de_reasons :: "string list"
  de_mode :: string
  de_refs :: "string list"
  de_policy :: string
  de_superseded :: "string option"

record risk_db =
  rd_observations :: "obs_row list"
  rd_projection :: "string \<Rightarrow> projection_row option"
  rd_episodes :: "(episode \<times> string) list"      \<comment> \<open>with \<open>latest_revision\<close>\<close>
  rd_decisions :: "decision list"

record legacy_view =
  lv_facts :: "legacy_fact list"
  lv_complete :: bool
  lv_frontiers :: bool

subsection \<open>The observations of a node\<close>

definition contains :: "string \<Rightarrow> string \<Rightarrow> bool" where
  "contains haystack needle = list_ex (\<lambda>n. take (length needle) (drop n haystack) = needle) [0..<Suc (length haystack)]"

definition names_node :: "string \<Rightarrow> string \<Rightarrow> obs_row \<Rightarrow> bool" where
  "names_node cluster node row =
     (let text = canonical_json (PDict (or_payload row)) in
      contains text (json_str ''cluster'' @ '':'' @ json_str cluster) \<and> contains text (json_str ''node_id'' @ '':'' @ json_str node))"

definition latest_fact :: "risk_db \<Rightarrow> obs_row \<Rightarrow> bool" where
  "latest_fact db row =
     (case rd_projection db (''fact:'' @ or_fact row) of
        None \<Rightarrow> True
      | Some p \<Rightarrow> (case pj_fact p of None \<Rightarrow> True | Some i \<Rightarrow> i = or_id row))"

definition node_observations :: "string \<Rightarrow> string \<Rightarrow> risk_db \<Rightarrow> obs_row list res" where
  "node_observations cluster node db =
     (let rows = sort_key (\<lambda>r. (or_start r, or_fact r))
        (filter (\<lambda>r. latest_fact db r \<and> names_node cluster node r) (rd_observations db))
      in if 10000 < length rows then risk_error ''query_resource_limit'' else Inr rows)"

subsection \<open>Persisting an assessment\<close>

definition put_episode :: "string \<Rightarrow> episode \<Rightarrow> (episode \<times> string) list \<Rightarrow> (episode \<times> string) list res" where
  "put_episode revision e es =
     (let es' = (if exists_where (\<lambda>(x, _). ep_id x = ep_id e) es
          then upd_where (\<lambda>(x, _). ep_id x = ep_id e)
                 (\<lambda>(x, _). (x\<lparr>ep_last := ep_last e, ep_candidate := ep_candidate e, ep_resolved := ep_resolved e,
                    ep_lifecycle := ep_lifecycle e\<rparr>, revision)) es
          else es @ [(e, revision)])
      in if 1 < count_where (\<lambda>(x, _). ep_subject x = ep_subject e \<and> ep_lifecycle x = EOpen) es'
         then Inl (DatabaseErr ''uq_server_risk_open_subject'') else Inr es')"

fun put_episodes :: "string \<Rightarrow> episode list \<Rightarrow> (episode \<times> string) list \<Rightarrow> (episode \<times> string) list res" where
  "put_episodes revision [] es = Inr es"
| "put_episodes revision (x # xs) es = bind_res (put_episode revision x es) (put_episodes revision xs)"

definition supersede_episodes :: "string \<Rightarrow> string list \<Rightarrow> (episode \<times> string) list \<Rightarrow> (episode \<times> string) list" where
  "supersede_episodes subject active es =
     (if active = [] then es
      else upd_where (\<lambda>(x, _). ep_subject x = subject \<and> ep_id x \<notin> set active)
             (\<lambda>(x, r). (x\<lparr>ep_lifecycle := ESuperseded\<rparr>, r)) es)"

text \<open>The fields of a check that enter the revision of its decision; the others follow from them.\<close>

definition check_value :: "subject_check \<Rightarrow> pv" where
  "check_value c = PDict [(''subject_key'', PStr (sc_subject c)), (''identity'', PDict (sc_identity c)), (''risk_type'', sc_risk c),
     (''status'', PStr (verdict_text (sc_status c))), (''severity'', sc_severity c),
     (''reasons'', PList (map PStr (sc_reasons c))), (''evidence_refs'', PList (map PStr (sc_refs c))),
     (''decision_ref'', PStr (sc_decision c))]"

text \<open>A decision of the past stands as long as the rows known by its time still give its state.\<close>

definition still_stands ::
  "(string \<Rightarrow> string) \<Rightarrow> risk_policies \<Rightarrow> (string \<Rightarrow> projection_row option) \<Rightarrow> obs_row list \<Rightarrow> decision \<Rightarrow> bool" where
  "still_stands sha po projection rows d =
     (let past = filter (\<lambda>r. or_end r \<le> de_effective d) rows;
          state = (if past = [] then Unknown
                   else sc_status (fst (judge_subject sha po projection (de_effective d) (de_mode d) (de_subject d) past)))
      in state = de_state d \<and> set (de_refs d) \<subseteq> set (map or_id rows))"

definition decision_of :: "(string \<Rightarrow> string) \<Rightarrow> risk_policies \<Rightarrow> int \<Rightarrow> node_assessment \<Rightarrow> subject_check \<Rightarrow> decision" where
  "decision_of sha po now na c =
     (let mine = filter (\<lambda>e. ep_subject e = sc_subject c) (na_episodes na) in
      \<lparr>de_id = sc_decision c, de_episode = (if mine = [] then None else Some (ep_id (last mine))), de_subject = sc_subject c,
       de_revision = risk_digest sha (PList [PStr (na_revision na), check_value c]),
       de_effective = (case sc_evidence c of None \<Rightarrow> now | Some t \<Rightarrow> t), de_decided = now, de_state = sc_status c,
       de_valid = sc_valid c, de_reasons = sc_reasons c, de_mode = sc_mode c, de_refs = sc_refs c,
       de_policy = po_version po, de_superseded = None\<rparr>)"

definition put_decision ::
  "(string \<Rightarrow> string) \<Rightarrow> risk_policies \<Rightarrow> (string \<Rightarrow> projection_row option) \<Rightarrow> int \<Rightarrow> node_assessment \<Rightarrow> obs_row list
     \<Rightarrow> subject_check \<Rightarrow> decision list \<Rightarrow> decision list" where
  "put_decision sha po projection now na rows c ds =
     (let d = decision_of sha po now na c;
          ds1 = (if exists_where (\<lambda>x. de_id x = de_id d \<or> (de_subject x = de_subject d \<and> de_revision x = de_revision d)) ds
                 then ds else ds @ [d]);
          mine = filter (\<lambda>r. or_subject r = sc_subject c) rows
      in upd_where (\<lambda>x. de_subject x = sc_subject c \<and> de_id x \<noteq> de_id d \<and> de_superseded x = None
             \<and> \<not> still_stands sha po projection mine x)
           (\<lambda>x. x\<lparr>de_superseded := Some (de_id d)\<rparr>) ds1)"

definition persist ::
  "(string \<Rightarrow> string) \<Rightarrow> risk_policies \<Rightarrow> (string \<Rightarrow> string \<Rightarrow> legacy_view) \<Rightarrow> int \<Rightarrow> string \<Rightarrow> string \<Rightarrow> string
     \<Rightarrow> risk_db \<Rightarrow> risk_db res" where
  "persist sha po legacy now mode cluster node db =
     bind_res (node_observations cluster node db) (\<lambda>rows.
     let v = legacy cluster node;
         na = evaluate_node sha po (rd_projection db) (lv_facts v) (lv_complete v) (lv_frontiers v) cluster node now mode False rows;
         es = fold (\<lambda>c. supersede_episodes (sc_subject c)
                (map ep_id (filter (\<lambda>e. ep_subject e = sc_subject c) (na_episodes na)))) (na_checks na) (rd_episodes db)
     in bind_res (put_episodes (na_revision na) (na_episodes na) es) (\<lambda>es'.
        Inr (db\<lparr>rd_episodes := es',
          rd_decisions := fold (put_decision sha po (rd_projection db) now na rows) (na_checks na) (rd_decisions db)\<rparr>)))"

subsection \<open>Validating an observation\<close>

definition check :: "bool \<Rightarrow> string \<Rightarrow> unit res" where
  "check ok code = (if ok then Inr () else risk_error code)"

definition obs_fields :: "string list" where
  "obs_fields = [''identity'', ''kind'', ''signal_code'', ''risk_type'', ''occurred_at'', ''interval_start'', ''interval_end'',
     ''source_sequence'', ''source_position_ref'', ''count'', ''typed_fields'', ''template_ref'', ''evidence_refs'', ''coverage'']"

definition identity_fields :: "string list" where
  "identity_fields = [''cluster'', ''node_id'', ''node_uid'', ''object_kind'', ''object_id'', ''boot_id'']"

definition coverage_fields :: "string list" where
  "coverage_fields = [''signal_codes'', ''covered_start'', ''covered_end'', ''complete_through'', ''gaps'', ''dropped_count'',
     ''parse_failure_count'', ''input_frontier_ref'']"

record valid_obs =
  vo_id :: string
  vo_fact :: string
  vo_subject :: string
  vo_start :: int
  vo_end :: int
  vo_payload :: "(string \<times> pv) list"
  vo_digest :: string

definition find_signal :: "risk_source \<Rightarrow> pv \<Rightarrow> risk_signal option res" where
  "find_signal src code =
     (case code of
        PStr s \<Rightarrow> Inr (find (\<lambda>g. sg_code g = s) (rs_signals src))
      | PList _ \<Rightarrow> Inl TypeErr
      | PDict _ \<Rightarrow> Inl TypeErr
      | _ \<Rightarrow> Inr None)"

definition has_type :: "string \<Rightarrow> pv \<Rightarrow> bool" where
  "has_type expected v =
     (if expected = ''boolean'' then (case v of PBool _ \<Rightarrow> True | _ \<Rightarrow> False)
      else if expected = ''string'' then (case v of PStr _ \<Rightarrow> True | _ \<Rightarrow> False)
      else if expected = ''integer'' then (case v of PInt _ \<Rightarrow> True | _ \<Rightarrow> False) else True)"

text \<open>The instant or the interval of an observation.\<close>

definition obs_interval :: "(string \<times> pv) list \<Rightarrow> (int \<times> int) res" where
  "obs_interval item =
     (if dhas item ''occurred_at'' then
        bind_res (check (\<not> dhas item ''interval_start'' \<and> \<not> dhas item ''interval_end'') ''invalid_schema'') (\<lambda>_.
        bind_res (utc (dget item ''occurred_at'')) (\<lambda>t. Inr (t, t)))
      else
        bind_res (check (dhas item ''interval_start'' \<and> dhas item ''interval_end'') ''invalid_event_time'') (\<lambda>_.
        bind_res (utc (dget item ''interval_start'')) (\<lambda>start.
        bind_res (utc (dget item ''interval_end'')) (\<lambda>stop.
        bind_res (check (start < stop) ''invalid_event_time'') (\<lambda>_. Inr (start, stop))))))"

definition ref_prefix :: string where "ref_prefix = ''observation:''"

definition check_refs :: "risk_db \<Rightarrow> pv \<Rightarrow> unit res" where
  "check_refs db refs =
     (case refs of
        PList xs \<Rightarrow>
          if 100 < length xs \<or> (\<exists>x \<in> set xs. case x of PStr s \<Rightarrow> take (length ref_prefix) s \<noteq> ref_prefix | _ \<Rightarrow> True)
          then risk_error ''observation_evidence_ref_invalid''
          else check (list_all (\<lambda>x. exists_where (\<lambda>r. or_id r = drop (length ref_prefix) (py_str x)) (rd_observations db)) xs)
                 ''observation_evidence_ref_invalid''
      | _ \<Rightarrow> risk_error ''observation_evidence_ref_invalid'')"

fun signals_known :: "risk_source \<Rightarrow> pv list \<Rightarrow> bool res" where
  "signals_known src [] = Inr True"
| "signals_known src (c # cs) =
     bind_res (find_signal src c) (\<lambda>g. if g = None then Inr False else signals_known src cs)"

definition check_gap :: "int \<Rightarrow> int \<Rightarrow> pv \<Rightarrow> unit res" where
  "check_gap start stop gap =
     bind_res (strict_object gap [''start'', ''end''] [''start'', ''end'']) (\<lambda>g.
     bind_res (utc (dget g ''start'')) (\<lambda>a.
     if \<not> start \<le> a then risk_error ''observation_coverage_invalid''
     else bind_res (utc (dget g ''end'')) (\<lambda>b. check (a < b \<and> b \<le> stop) ''observation_coverage_invalid'')))"

definition check_coverage :: "(string \<times> pv) list \<Rightarrow> risk_source \<Rightarrow> int \<Rightarrow> int \<Rightarrow> pv \<Rightarrow> unit res" where
  "check_coverage batch src start stop value =
     bind_res (strict_object value coverage_fields coverage_fields) (\<lambda>c.
     bind_res (check (rs_capability src = ''complete_event_stream'') ''observation_coverage_authority_required'') (\<lambda>_.
     bind_res (utc (dget c ''covered_start'')) (\<lambda>a.
     bind_res (utc (dget c ''covered_end'')) (\<lambda>b.
     bind_res (utc (dget c ''complete_through'')) (\<lambda>through.
     bind_res (check (a = start \<and> b = stop \<and> start < through \<and> through \<le> stop) ''observation_coverage_invalid'') (\<lambda>_.
     bind_res (check (dget c ''input_frontier_ref'' = PStr (''batch:'' @ py_str (dget batch ''batch_id''))) ''observation_frontier_unverified'') (\<lambda>_.
     case dget c ''signal_codes'' of
       PList codes \<Rightarrow>
         bind_res (if codes = [] then Inr False else signals_known src codes) (\<lambda>known.
         bind_res (check known ''observation_coverage_invalid'') (\<lambda>_.
         case dget c ''gaps'' of
           PList gaps \<Rightarrow>
             bind_res (check (length gaps \<le> 100) ''observation_coverage_invalid'') (\<lambda>_.
             bind_res (map_res (check_gap start stop) gaps) (\<lambda>_.
             bind_res (integer (dget c ''dropped_count'') 0 1000000000) (\<lambda>_.
             bind_res (integer (dget c ''parse_failure_count'') 0 1000000000) (\<lambda>_. Inr ()))))
         | _ \<Rightarrow> risk_error ''observation_coverage_invalid''))
     | _ \<Rightarrow> risk_error ''observation_coverage_invalid'')))))))"

text \<open>\<open>validate\<close>; \<open>known_template\<close> says whether a template is registered. The accepted payload is a copy of the item.\<close>

definition check_identity :: "risk_source \<Rightarrow> pv \<Rightarrow> (string \<times> pv) list res" where
  "check_identity src value =
     bind_res (strict_object value identity_fields [''cluster'', ''node_id'', ''object_kind'', ''object_id'']) (\<lambda>identity.
     bind_res (map_res risk_identifier (map snd identity)) (\<lambda>_.
     bind_res (check (dget identity ''cluster'' = PStr (rs_cluster src)
         \<and> dget identity ''node_id'' \<in> PStr ` set (rs_nodes src)
         \<and> (rs_objects src = [] \<or> (dget identity ''object_kind'', dget identity ''object_id'') \<in> map_prod PStr PStr ` set (rs_objects src)))
         ''observation_scope_mismatch'') (\<lambda>_. Inr identity)))"

definition check_signal :: "risk_source \<Rightarrow> (string \<times> pv) list \<Rightarrow> (string \<times> pv) list res" where
  "check_signal src item =
     bind_res (check (dget item ''kind'' \<in> PStr ` {''adverse'', ''state_snapshot'', ''recovery_candidate'', ''coverage''}) ''invalid_schema'') (\<lambda>_.
     bind_res (find_signal src (dget item ''signal_code'')) (\<lambda>found.
     case found of
       None \<Rightarrow> risk_error ''observation_signal_unregistered''
     | Some sg \<Rightarrow>
         bind_res (check (PStr (sg_kind sg) = dget item ''kind'' \<and> PStr (sg_risk sg) = dget item ''risk_type'') ''observation_signal_unregistered'') (\<lambda>_.
         bind_res (strict_object (dget item ''typed_fields'') field_names []) (\<lambda>fields.
         bind_res (check (list_all (\<lambda>(k, v). scalar_field v) fields
             \<and> list_all (\<lambda>(k, t). has_type t (dget fields k)) (sg_types sg)) ''observation_fields_invalid'') (\<lambda>_. Inr fields)))))"

definition check_count :: "(string \<times> pv) list \<Rightarrow> unit res" where
  "check_count item =
     (if dget item ''kind'' = PStr ''adverse'' then bind_res (integer (dget item ''count'') 1 1000000000) (\<lambda>_. Inr ())
      else check (\<not> dhas item ''count'') ''invalid_schema'')"

definition object_or_node :: "(string \<times> pv) list \<Rightarrow> pv" where
  "object_or_node identity = py_or (dget identity ''node_uid'') (dget identity ''node_id'')"

definition validate ::
  "(string \<Rightarrow> string) \<Rightarrow> (string \<Rightarrow> bool) \<Rightarrow> risk_db \<Rightarrow> (string \<times> pv) list \<Rightarrow> risk_source \<Rightarrow> int \<Rightarrow> pv \<Rightarrow> valid_obs res" where
  "validate sha known_template db batch src now value =
     bind_res (strict_object value obs_fields
        [''identity'', ''kind'', ''signal_code'', ''risk_type'', ''source_sequence'', ''source_position_ref'', ''typed_fields'']) (\<lambda>item.
     bind_res (check_identity src (dget item ''identity'')) (\<lambda>identity.
     bind_res (check_signal src item) (\<lambda>_.
     bind_res (integer (dget item ''source_sequence'') 0 (2 ^ 53 - 1)) (\<lambda>sequence.
     bind_res (risk_identifier (dget item ''source_position_ref'')) (\<lambda>position.
     bind_res (obs_interval item) (\<lambda>(start, stop).
     bind_res (check (stop \<le> now + seconds (rs_skew src)) ''observation_clock_skew'') (\<lambda>_.
     bind_res (check (\<not> (dget batch ''mode'' = PStr ''current'' \<and> seconds (rs_late src) < now - stop)) ''observation_lateness'') (\<lambda>_.
     bind_res (check_count item) (\<lambda>_.
     bind_res (check (dget item ''kind'' = PStr ''state_snapshot'' \<longrightarrow> rs_capability src = ''authoritative_state'')
         ''observation_authority_required'') (\<lambda>_.
     bind_res (if dhas item ''template_ref''
               then bind_res (risk_identifier (dget item ''template_ref'')) (\<lambda>t. check (known_template t) ''observation_template_unknown'')
               else Inr ()) (\<lambda>_.
     bind_res (if dhas item ''evidence_refs'' then check_refs db (dget item ''evidence_refs'') else Inr ()) (\<lambda>_.
     bind_res (if dget item ''kind'' = PStr ''coverage'' then check_coverage batch src start stop (dget item ''coverage'')
               else check (\<not> dhas item ''coverage'') ''invalid_schema'') (\<lambda>_.
     let fact = risk_digest sha (PList [PStr (rs_id src), PStr (rs_epoch src), PInt sequence, PStr position]) in
     Inr \<lparr>vo_id = risk_digest sha (PList [PStr fact, PStr (rs_config src)]), vo_fact = fact,
          vo_subject = risk_digest sha (PList [PStr (rs_env src), dget identity ''cluster'', object_or_node identity,
             dget item ''risk_type'', dget identity ''object_kind'', dget identity ''object_id'']),
          vo_start = start, vo_end = stop, vo_payload = item, vo_digest = risk_digest sha (PDict item)\<rparr>)))))))))))))"

subsection \<open>Submitting a batch\<close>

definition batch_fields :: "string list" where
  "batch_fields = [''schema_version'', ''source_id'', ''source_epoch'', ''config_revision'', ''batch_id'', ''idempotency_key'',
     ''mode'', ''observations'']"

record receipt =
  rc_batch :: string
  rc_replay :: bool
  rc_accepted :: "nat option"
  rc_complete :: bool

definition replay_receipt :: "string \<Rightarrow> projection_row \<Rightarrow> receipt" where
  "replay_receipt batch_id saved =
     \<lparr>rc_batch = batch_id, rc_replay = True, rc_accepted = None, rc_complete = (pj_status saved = ''complete'')\<rparr>"

definition upsert_fact :: "string \<Rightarrow> string \<Rightarrow> string \<Rightarrow> (string \<Rightarrow> projection_row option) \<Rightarrow> string \<Rightarrow> projection_row option" where
  "upsert_fact key revision fact_ref p =
     p(key \<mapsto> (case p key of
         None \<Rightarrow> \<lparr>pj_revision = revision, pj_fact = Some fact_ref, pj_through = None, pj_status = ''complete''\<rparr>
       | Some x \<Rightarrow> x\<lparr>pj_revision := revision, pj_fact := Some fact_ref\<rparr>))"

definition row_of :: "(string \<times> pv) list \<Rightarrow> string \<Rightarrow> valid_obs \<Rightarrow> obs_row" where
  "row_of batch batch_digest v =
     \<lparr>or_id = vo_id v, or_fact = vo_fact v, or_source = py_str (dget batch ''source_id''), or_epoch = py_str (dget batch ''source_epoch''),
      or_config = py_str (dget batch ''config_revision''), or_subject = vo_subject v, or_start = vo_start v, or_end = vo_end v,
      or_mode = py_str (dget batch ''mode''), or_payload = vo_payload v, or_digest = vo_digest v,
      or_key = py_str (dget batch ''idempotency_key''), or_batch_digest = batch_digest\<rparr>"

text \<open>One item in the transaction: \<open>INSERT \<dots> ON CONFLICT(source_fact_key, semantic_revision) DO NOTHING\<close> between two checks.\<close>

definition store_item :: "obs_row \<Rightarrow> risk_db \<Rightarrow> risk_db res" where
  "store_item row db =
     (let same = (\<lambda>r. or_fact r = or_fact row \<and> or_config r = or_config row);
          mark = (\<lambda>db. db\<lparr>rd_projection := upsert_fact (''fact:'' @ or_fact row) (or_config row) (or_id row) (rd_projection db)\<rparr>)
      in case find same (rd_observations db) of
           Some old \<Rightarrow> if or_digest old \<noteq> or_digest row then risk_error ''observation_fact_conflict'' else Inr (mark db)
         | None \<Rightarrow>
             if exists_where (\<lambda>r. or_id r = or_id row) (rd_observations db) then Inl (DatabaseErr ''observation_id'')
             else Inr (mark (db\<lparr>rd_observations := rd_observations db @ [row]\<rparr>)))"

fun store_items :: "obs_row list \<Rightarrow> risk_db \<Rightarrow> risk_db res" where
  "store_items [] db = Inr db"
| "store_items (r # rs) db = bind_res (store_item r db) (store_items rs)"

definition node_key :: "obs_row \<Rightarrow> string \<times> string" where
  "node_key row = (py_str (dget (p_identity row) ''cluster''), py_str (dget (p_identity row) ''node_id''))"

fun persist_nodes ::
  "(string \<Rightarrow> string \<Rightarrow> risk_db \<Rightarrow> risk_db res) \<Rightarrow> (string \<times> string) list \<Rightarrow> risk_db \<Rightarrow> risk_db res" where
  "persist_nodes f [] db = Inr db"
| "persist_nodes f ((c, n) # xs) db = bind_res (f c n db) (persist_nodes f xs)"

text \<open>
  The transaction. Another worker may have admitted the batch since it was looked up, so the outcome of the insertion of
  the receipt is checked again. \<open>assess\<close> persists the assessment of a node, unless persisting is deferred; the nodes are
  taken in the order of their first observation (the code iterates over a set).
\<close>

definition admit_batch ::
  "(string \<Rightarrow> string \<Rightarrow> risk_db \<Rightarrow> risk_db res) option \<Rightarrow> string \<Rightarrow> string \<Rightarrow> string \<Rightarrow> obs_row list \<Rightarrow> risk_db
     \<Rightarrow> (risk_db \<times> receipt) res" where
  "admit_batch assess receipt_key batch_digest batch_id rows db =
     (case rd_projection db receipt_key of
        Some saved \<Rightarrow>
          if pj_revision saved \<noteq> batch_digest then risk_error ''observation_idempotency_conflict''
          else Inr (db, replay_receipt batch_id saved)
      | None \<Rightarrow>
          let db0 = db\<lparr>rd_projection := (rd_projection db)(receipt_key \<mapsto>
                \<lparr>pj_revision = batch_digest, pj_fact = None, pj_through = None, pj_status = ''pending''\<rparr>)\<rparr>
          in bind_res (store_items rows db0) (\<lambda>db1.
             let db2 = db1\<lparr>rd_projection := (rd_projection db1)(receipt_key \<mapsto>
                   \<lparr>pj_revision = batch_digest, pj_fact = Some (or_id (last rows)), pj_through = Some (Max (set (map or_end rows))),
                    pj_status = ''complete''\<rparr>)\<rparr>
             in bind_res (case assess of None \<Rightarrow> Inr db2 | Some f \<Rightarrow> persist_nodes f (remdups (map node_key rows)) db2) (\<lambda>db3.
                Inr (db3, \<lparr>rc_batch = batch_id, rc_replay = False, rc_accepted = Some (length rows), rc_complete = True\<rparr>))))"

definition with_physical :: "(string \<Rightarrow> string) \<Rightarrow> risk_source \<Rightarrow> string list option \<Rightarrow> valid_obs list \<Rightarrow> valid_obs list res" where
  "with_physical sha src physical vs =
     (case physical of
        None \<Rightarrow> Inr vs
      | Some keys \<Rightarrow>
          if length keys \<noteq> length vs then risk_error ''commit_identity_invalid''
          else Inr (map (\<lambda>(v, k). v\<lparr>vo_fact := ''committed:'' @ k,
                 vo_id := risk_digest sha (PList [PStr (''committed:'' @ k), PStr (rs_config src)])\<rparr>) (zip vs keys)))"

definition check_batch :: "risk_policies \<Rightarrow> string option \<Rightarrow> pv \<Rightarrow> ((string \<times> pv) list \<times> risk_source \<times> pv list) res" where
  "check_batch po actor payload =
     bind_res (strict_object payload batch_fields batch_fields) (\<lambda>batch.
     bind_res (check (dget batch ''schema_version'' = PStr ''server_risk_observation_batch_v1''
         \<and> dget batch ''mode'' \<in> {PStr ''historical'', PStr ''current''}) ''invalid_schema'') (\<lambda>_.
     bind_res (map_res (\<lambda>k. risk_identifier (dget batch k))
         [''source_id'', ''source_epoch'', ''config_revision'', ''batch_id'', ''idempotency_key'']) (\<lambda>_.
     bind_res (policy_source po (py_str (dget batch ''source_id''))) (\<lambda>src.
     bind_res (check (actor \<in> Some ` set (rs_actors src)) ''observation_actor_forbidden'') (\<lambda>_.
     bind_res (check (dget batch ''source_epoch'' = PStr (rs_epoch src) \<and> dget batch ''config_revision'' = PStr (rs_config src))
         ''observation_epoch_mismatch'') (\<lambda>_.
     case dget batch ''observations'' of
       PList items \<Rightarrow> bind_res (check (1 \<le> length items \<and> length items \<le> 500) ''observation_batch_limit'') (\<lambda>_. Inr (batch, src, items))
     | _ \<Rightarrow> risk_error ''observation_batch_limit''))))))"

definition submit ::
  "(string \<Rightarrow> string) \<Rightarrow> (string \<Rightarrow> bool) \<Rightarrow> risk_policies \<Rightarrow> (string \<Rightarrow> string \<Rightarrow> risk_db \<Rightarrow> risk_db res) option \<Rightarrow> int
     \<Rightarrow> string option \<Rightarrow> string list option \<Rightarrow> pv \<Rightarrow> risk_db \<Rightarrow> (risk_db \<times> receipt) res" where
  "submit sha known_template po assess now actor physical payload db =
     bind_res (check_batch po actor payload) (\<lambda>(batch, src, items).
     let batch_digest = risk_digest sha (PDict batch);
         receipt_key = batch_key sha (py_str (dget batch ''source_id'')) (py_str (dget batch ''idempotency_key''));
         batch_id = py_str (dget batch ''batch_id'')
     in case rd_projection db receipt_key of
          Some saved \<Rightarrow>
            if pj_revision saved \<noteq> batch_digest then risk_error ''observation_idempotency_conflict''
            else Inr (db, replay_receipt batch_id saved)
        | None \<Rightarrow>
            bind_res (map_res (validate sha known_template db batch src now) items) (\<lambda>vs.
            bind_res (with_physical sha src physical vs) (\<lambda>vs'.
            bind_res (check (distinct (map vo_fact vs')) ''observation_duplicate_fact'') (\<lambda>_.
            admit_batch assess receipt_key batch_digest batch_id (map (row_of batch batch_digest) vs') db))))"

end
