(* ===== verification/Risk_Verdicts.thy ===== *)
theory Risk_Verdicts
  imports Risk_Assessment
begin

text \<open>
  When a subject may be called clear, stated without the fold of the code: \<open>recovery_run\<close> describes an uninterrupted
  run of authoritative positive evidence from one source boundary. The fold finds only such runs, an adverse row ends
  them, and the rounds of episodes form a chain of which only the last may be open.
\<close>

subsection \<open>Runs of positive evidence\<close>

definition registered :: "risk_policies \<Rightarrow> obs_row \<Rightarrow> bool" where
  "registered po row = (\<not> isl (policy_source po (or_source row)))"

lemma registered_iff: "registered po row \<longleftrightarrow> (\<exists>src. policy_source po (or_source row) = Inr src)"
  by (cases "policy_source po (or_source row)") (simp_all add: registered_def)

definition verified :: "(string \<Rightarrow> string) \<Rightarrow> risk_policies \<Rightarrow> (string \<Rightarrow> projection_row option) \<Rightarrow> obs_row \<Rightarrow> bool" where
  "verified sha po projection row = (registered po row \<and> frontier_complete sha projection row)"

definition is_adverse :: "risk_policies \<Rightarrow> obs_row \<Rightarrow> bool" where
  "is_adverse po row = (registered po row \<and> p_kind row = PStr ''adverse'')"

definition last_adverse :: "risk_policies \<Rightarrow> obs_row list \<Rightarrow> obs_row option" where
  "last_adverse po rows = find (is_adverse po) (rev rows)"

text \<open>Positive evidence of the registered source, at its registered epoch and configuration, from a processed batch,
  and, unless it is about hardware, since the boot the last adverse row reports.\<close>

definition positive ::
  "(string \<Rightarrow> string) \<Rightarrow> risk_policies \<Rightarrow> (string \<Rightarrow> projection_row option) \<Rightarrow> risk_rule \<Rightarrow> obs_row option
     \<Rightarrow> risk_source \<Rightarrow> obs_row \<Rightarrow> bool" where
  "positive sha po projection ru adverse src row =
     (policy_source po (or_source row) = Inr src \<and> compatible src row \<and> frontier_complete sha projection row
      \<and> (rr_mode ru = ''hardware'' \<or> (\<forall>a. adverse = Some a \<longrightarrow> p_boot row = p_boot a))
      \<and> (p_kind row = PStr ''state_snapshot'' \<and> snapshot_positive src ru row
         \<or> p_kind row = PStr ''coverage'' \<and> coverage_positive src ru row))"

definition run_start :: "obs_row option \<Rightarrow> obs_row \<Rightarrow> int" where
  "run_start adverse row =
     (if p_kind row = PStr ''coverage''
      then (case adverse of None \<Rightarrow> or_start row | Some a \<Rightarrow> max (or_start row) (or_end a)) else or_end row)"

definition joins :: "obs_row option \<Rightarrow> risk_source \<Rightarrow> int \<Rightarrow> obs_row \<Rightarrow> bool" where
  "joins adverse src l row =
     (if p_kind row = PStr ''coverage'' then run_start adverse row \<le> l else or_end row - l \<le> seconds (rs_gap src))"

inductive recovery_run ::
  "(string \<Rightarrow> string) \<Rightarrow> risk_policies \<Rightarrow> (string \<Rightarrow> projection_row option) \<Rightarrow> risk_rule \<Rightarrow> obs_row option
     \<Rightarrow> string \<times> string \<times> string \<times> pv \<Rightarrow> obs_row list \<Rightarrow> int \<Rightarrow> int \<Rightarrow> bool"
  for sha po projection ru adverse b where
  begin_run: "positive sha po projection ru adverse src row \<Longrightarrow> boundary_of row = b \<Longrightarrow>
     recovery_run sha po projection ru adverse b [row] (run_start adverse row) (or_end row)"
| continue_run: "recovery_run sha po projection ru adverse b rows c l \<Longrightarrow> positive sha po projection ru adverse src row \<Longrightarrow>
     boundary_of row = b \<Longrightarrow> joins adverse src l row \<Longrightarrow>
     recovery_run sha po projection ru adverse b (rows @ [row]) c (or_end row)"
| skip_row: "recovery_run sha po projection ru adverse b rows c l \<Longrightarrow>
     \<not> registered po row \<or> p_kind row = PStr ''recovery_candidate'' \<Longrightarrow>
     recovery_run sha po projection ru adverse b (rows @ [row]) c l"

lemma recovery_run_no_adverse:
  "recovery_run sha po projection ru adverse b rows c l \<Longrightarrow> \<forall>row \<in> set rows. \<not> is_adverse po row"
  by (induction rule: recovery_run.induct) (auto simp: positive_def is_adverse_def registered_iff)

lemma last_adverse_append:
  "\<forall>row \<in> set rows. \<not> is_adverse po row \<Longrightarrow> last_adverse po (pre @ rows) = last_adverse po pre"
  by (simp add: last_adverse_def find_append find_None_iff option.case_eq_if)

lemma last_adverse_snoc:
  "last_adverse po (pre @ [row]) = (if is_adverse po row then Some row else last_adverse po pre)"
  by (simp add: last_adverse_def)

subsection \<open>The fold finds only such runs\<close>

definition hold_of :: "risk_rule option \<Rightarrow> int option" where
  "hold_of rule = (case rule of None \<Rightarrow> None | Some ru \<Rightarrow>
     (case rr_hold ru of None \<Rightarrow> None | Some h \<Rightarrow> if h < 0 then None else Some h))"

lemma hold_of_Some: "hold_of rule = Some h \<Longrightarrow> \<exists>ru. rule = Some ru \<and> rr_hold ru = Some h \<and> 0 \<le> h"
  by (auto simp: hold_of_def split: option.splits if_splits)

text \<open>The kinds the table admits, and the five things a row of such a kind can do.\<close>

definition known_kind :: "obs_row \<Rightarrow> bool" where
  "known_kind row =
     (p_kind row \<in> {PStr ''adverse'', PStr ''recovery_candidate'', PStr ''state_snapshot'', PStr ''coverage''})"

lemma reject_fields [simp]:
  "jd_state (reject c st) = Unknown" "jd_candidate (reject c st) = jd_candidate st"
  "jd_positive (reject c st) = jd_positive st" "jd_boundary (reject c st) = jd_boundary st"
  "jd_adverse (reject c st) = jd_adverse st" "jd_complete (reject c st) = jd_complete st"
  "jd_rounds (reject c st) = jd_rounds st" "jd_valid (reject c st) = jd_valid st"
  "jd_evidence (reject c st) = jd_evidence st" "jd_mode (reject c st) = jd_mode st"
  by (simp_all add: reject_def)

lemma reject_run_fields [simp]:
  "jd_state (reject_run c st) = Unknown" "jd_candidate (reject_run c st) = None"
  "jd_positive (reject_run c st) = None" "jd_adverse (reject_run c st) = jd_adverse st"
  "jd_complete (reject_run c st) = jd_complete st" "jd_rounds (reject_run c st) = jd_rounds st"
  by (simp_all add: reject_run_def)

lemma at_boundary_fields [simp]:
  "jd_boundary (at_boundary row st) = Some (boundary_of row)" "jd_adverse (at_boundary row st) = jd_adverse st"
  "jd_complete (at_boundary row st) = jd_complete st" "jd_rounds (at_boundary row st) = jd_rounds st"
  by (simp_all add: at_boundary_def)

lemma judge_row_cases:
  assumes "known_kind row"
  obtains
    (unregistered) "\<not> registered po row"
      "judge_row sha po projection now mode subject risk rule row st
         = st\<lparr>jd_complete := False, jd_reasons := jd_reasons st @ [''source_unregistered'']\<rparr>"
  | (adverse) src where "policy_source po (or_source row) = Inr src" "p_kind row = PStr ''adverse''"
      "judge_row sha po projection now mode subject risk rule row st
         = adverse_step sha now mode subject risk src row (st\<lparr>jd_complete := jd_complete st \<and> frontier_complete sha projection row\<rparr>)"
  | (pass) code where "registered po row" "p_kind row \<noteq> PStr ''adverse''" "p_kind row = PStr ''recovery_candidate'' \<or> hold_of rule = None"
      "judge_row sha po projection now mode subject risk rule row st
         = reject code (st\<lparr>jd_complete := jd_complete st \<and> frontier_complete sha projection row\<rparr>)"
  | (drop) code st1 where "registered po row" "p_kind row \<noteq> PStr ''adverse''"
      "judge_row sha po projection now mode subject risk rule row st = reject_run code st1"
      "jd_adverse st1 = jd_adverse st" "jd_complete st1 = (jd_complete st \<and> frontier_complete sha projection row)"
      "jd_rounds st1 = jd_rounds st"
  | (positive) src ru hold where "rule = Some ru" "hold_of rule = Some hold" "positive sha po projection ru (jd_adverse st) src row"
      "judge_row sha po projection now mode subject risk rule row st =
         settle src hold row (if p_kind row = PStr ''coverage'' then coverage_start row (at_boundary row st) else snapshot_start src row (at_boundary row st))
           (at_boundary row (st\<lparr>jd_complete := jd_complete st \<and> frontier_complete sha projection row\<rparr>))"
proof (cases "policy_source po (or_source row)")
  case (Inl e)
  show thesis by (rule unregistered) (simp_all add: registered_iff judge_row_def Inl)
next
  case src: (Inr src)
  then have reg: "registered po row" by (simp add: registered_iff)
  let ?st = "st\<lparr>jd_complete := jd_complete st \<and> frontier_complete sha projection row\<rparr>"
  let ?j = "judge_row sha po projection now mode subject risk rule row st"
  consider (a) "p_kind row = PStr ''adverse''" | (c) "p_kind row = PStr ''recovery_candidate''"
    | (e) "p_kind row \<in> {PStr ''state_snapshot'', PStr ''coverage''}" using assms by (auto simp: known_kind_def)
  then show thesis
  proof cases
    case a
    then show thesis by (intro adverse [OF src]) (simp_all add: judge_row_def src Let_def)
  next
    case c
    then show thesis by (intro pass [OF reg]) (auto simp: judge_row_def src Let_def)
  next
    case e
    then have ne: "p_kind row \<noteq> PStr ''adverse''" "p_kind row \<noteq> PStr ''recovery_candidate''" by auto
    show thesis
    proof (cases "hold_of rule")
      case None
      then have "?j = reject ''recovery_policy_unregistered'' ?st"
        using ne by (auto simp: judge_row_def src Let_def hold_of_def split: option.splits if_splits)
      then show thesis using None by (intro pass [OF reg ne(1)]) simp_all
    next
      case (Some hold)
      then obtain ru where ru: "rule = Some ru" "rr_hold ru = Some hold" "0 \<le> hold" by (auto dest: hold_of_Some)
      let ?boot = "rr_mode ru \<noteq> ''hardware'' \<and> (case jd_adverse st of None \<Rightarrow> False | Some a \<Rightarrow> p_boot row \<noteq> p_boot a)"
      let ?good = "p_kind row = PStr ''state_snapshot'' \<and> snapshot_positive src ru row
         \<or> p_kind row = PStr ''coverage'' \<and> coverage_positive src ru row"
      consider (stale) "\<not> compatible src row \<or> \<not> frontier_complete sha projection row"
        | (boot) "compatible src row \<and> frontier_complete sha projection row" ?boot
        | (bad) "compatible src row \<and> frontier_complete sha projection row" "\<not> ?boot" "\<not> ?good"
        | (good) "compatible src row \<and> frontier_complete sha projection row" "\<not> ?boot" ?good by blast
      then show thesis
      proof cases
        case stale
        then have "?j = reject_run ''evidence_epoch_or_frontier_unverified'' ?st"
          using ne ru by (simp add: judge_row_def src Let_def)
        then show thesis by (rule drop [OF reg ne(1)]) simp_all
      next
        case boot
        then have "?j = reject_run ''boot_incompatible'' ?st" using ne ru by (simp add: judge_row_def src Let_def)
        then show thesis by (rule drop [OF reg ne(1)]) simp_all
      next
        case bad
        then have "\<exists>code. ?j = reject_run code (at_boundary row ?st)"
          using e ru by (auto simp: judge_row_def src Let_def positive_step_def)
        then obtain code where "?j = reject_run code (at_boundary row ?st)" by blast
        then show thesis by (rule drop [OF reg ne(1)]) simp_all
      next
        case good
        have pos: "positive sha po projection ru (jd_adverse st) src row"
          using good src by (auto simp: positive_def split: option.splits)
        have start: "coverage_start row (at_boundary row ?st) = coverage_start row (at_boundary row st)"
          "snapshot_start src row (at_boundary row ?st) = snapshot_start src row (at_boundary row st)"
          by (simp_all add: coverage_start_def snapshot_start_def at_boundary_def cong: option.case_cong)
        have "?j = positive_step src ru hold row (at_boundary row ?st)"
          using good ne ru by (cases "rr_mode ru = ''hardware''") (simp_all add: judge_row_def src Let_def)
        then have "?j = settle src hold row (if p_kind row = PStr ''coverage'' then coverage_start row (at_boundary row st)
            else snapshot_start src row (at_boundary row st)) (at_boundary row ?st)"
          using good(3) by (auto simp: positive_step_def start)
        then show thesis by (rule positive [OF ru(1) Some pos])
      qed
    qed
  qed
qed

text \<open>What the state says of the rows read so far.\<close>

definition run_inv ::
  "(string \<Rightarrow> string) \<Rightarrow> risk_policies \<Rightarrow> (string \<Rightarrow> projection_row option) \<Rightarrow> risk_rule option \<Rightarrow> obs_row list \<Rightarrow> judgement \<Rightarrow> bool" where
  "run_inv sha po projection rule rows st =
     ((jd_candidate st = None \<longleftrightarrow> jd_positive st = None)
      \<and> (\<forall>c l. jd_candidate st = Some c \<longrightarrow> jd_positive st = Some l \<longrightarrow>
           (\<exists>ru hold pre seg b. rule = Some ru \<and> hold_of rule = Some hold \<and> rows = pre @ seg \<and> jd_boundary st = Some b
              \<and> recovery_run sha po projection ru (last_adverse po pre) b seg c l)))"

definition told ::
  "(string \<Rightarrow> string) \<Rightarrow> risk_policies \<Rightarrow> (string \<Rightarrow> projection_row option) \<Rightarrow> int \<Rightarrow> string \<Rightarrow> risk_rule option
     \<Rightarrow> obs_row list \<Rightarrow> judgement \<Rightarrow> bool" where
  "told sha po projection now mode rule rows st =
     (jd_state st \<noteq> Unknown \<longrightarrow>
        (\<exists>pre row post src. rows = pre @ row # post \<and> (\<forall>r \<in> set post. \<not> registered po r)
           \<and> policy_source po (or_source row) = Inr src \<and> compatible src row
           \<and> jd_valid st = Some (or_end row + seconds (rs_fresh src)) \<and> jd_mode st = Some (or_mode row)
           \<and> jd_evidence st = Some (or_end row)
           \<and> (jd_state st = Present \<longrightarrow> p_kind row = PStr ''adverse'' \<and> (or_mode row = ''current'' \<or> mode = ''historical''))
           \<and> (jd_state st \<noteq> Present \<longrightarrow>
                (\<exists>c hold. p_kind row \<noteq> PStr ''adverse'' \<and> hold_of rule = Some hold \<and> jd_candidate st = Some c
                  \<and> jd_positive st = Some (or_end row)
                  \<and> jd_state st = (if seconds hold \<le> or_end row - c then Clear else Recovering)))))"

definition judge_inv where
  "judge_inv sha po projection now mode rule rows st =
     (jd_adverse st = last_adverse po rows \<and> jd_complete st = list_all (verified sha po projection) rows
      \<and> run_inv sha po projection rule rows st \<and> told sha po projection now mode rule rows st)"

lemma run_inv_none: "jd_candidate st = None \<Longrightarrow> jd_positive st = None \<Longrightarrow> run_inv sha po projection rule rows st"
  by (simp add: run_inv_def)

lemma told_unknown: "jd_state st = Unknown \<Longrightarrow> told sha po projection now mode rule rows st"
  by (simp add: told_def)

lemma run_inv_skip:
  assumes "run_inv sha po projection rule rows st"
    and "\<not> registered po row \<or> p_kind row = PStr ''recovery_candidate'' \<or> hold_of rule = None"
    and "jd_candidate st' = jd_candidate st" "jd_positive st' = jd_positive st" "jd_boundary st' = jd_boundary st"
  shows "run_inv sha po projection rule (rows @ [row]) st'"
  unfolding run_inv_def
proof (intro conjI allI impI)
  show "jd_candidate st' = None \<longleftrightarrow> jd_positive st' = None" using assms by (simp add: run_inv_def)
  fix c l assume "jd_candidate st' = Some c" "jd_positive st' = Some l"
  with assms obtain ru hold pre seg b where r: "rule = Some ru" "hold_of rule = Some hold" "rows = pre @ seg"
    "jd_boundary st = Some b" "recovery_run sha po projection ru (last_adverse po pre) b seg c l"
    unfolding run_inv_def by metis
  from r(2) assms(2) have "\<not> registered po row \<or> p_kind row = PStr ''recovery_candidate''" by simp
  from recovery_run.skip_row [OF r(5) this] r assms(5)
  show "\<exists>ru hold pre seg b. rule = Some ru \<and> hold_of rule = Some hold \<and> rows @ [row] = pre @ seg \<and> jd_boundary st' = Some b
      \<and> recovery_run sha po projection ru (last_adverse po pre) b seg c l"
    by (intro exI [of _ ru] exI [of _ hold] exI [of _ pre] exI [of _ "seg @ [row]"] exI [of _ b]) simp
qed

text \<open>The start the code computes continues the run it knows, or begins a new one at the row.\<close>

lemma start_cases:
  fixes src :: risk_source
  assumes "run_inv sha po projection rule rows st" and "jd_adverse st = last_adverse po rows"
    and "p_kind row = PStr ''coverage'' \<or> p_kind row = PStr ''state_snapshot''"
  defines "c \<equiv> (if p_kind row = PStr ''coverage'' then coverage_start row (at_boundary row st) else snapshot_start src row (at_boundary row st))"
  obtains "c = run_start (last_adverse po rows) row"
  | l where "jd_candidate st = Some c" "jd_positive st = Some l" "jd_boundary st = Some (boundary_of row)"
      "joins (last_adverse po rows) src l row"
proof (cases "jd_boundary st = Some (boundary_of row)")
  case False
  then have "c = run_start (last_adverse po rows) row"
    using assms(2,3) by (simp add: c_def run_start_def coverage_start_def snapshot_start_def at_boundary_def Let_def)
  then show thesis by (rule that(1))
next
  case same: True
  show thesis
  proof (cases "jd_positive st")
    case None
    then have "c = run_start (last_adverse po rows) row"
      using assms(2,3) same by (simp add: c_def run_start_def coverage_start_def snapshot_start_def at_boundary_def Let_def)
    then show thesis by (rule that(1))
  next
    case l: (Some l)
    with assms(1) obtain d where d: "jd_candidate st = Some d" by (auto simp: run_inv_def)
    show thesis
    proof (cases "joins (last_adverse po rows) src l row")
      case True
      then have "c = d" using assms(2,3) same l d
        by (auto simp: c_def joins_def run_start_def coverage_start_def snapshot_start_def at_boundary_def Let_def)
      with d l same True show thesis by (intro that(2)) simp_all
    next
      case False
      then have "c = run_start (last_adverse po rows) row" using assms(2,3) same l d
        by (auto simp: c_def joins_def run_start_def coverage_start_def snapshot_start_def at_boundary_def Let_def)
      then show thesis by (rule that(1))
    qed
  qed
qed

lemma settle_fields [simp]:
  "jd_candidate (settle src hold row c st) = Some c" "jd_positive (settle src hold row c st) = Some (or_end row)"
  "jd_boundary (settle src hold row c st) = jd_boundary st" "jd_adverse (settle src hold row c st) = jd_adverse st"
  "jd_complete (settle src hold row c st) = jd_complete st" "jd_mode (settle src hold row c st) = Some (or_mode row)"
  "jd_evidence (settle src hold row c st) = Some (or_end row)"
  "jd_valid (settle src hold row c st) = Some (or_end row + seconds (rs_fresh src))"
  "jd_state (settle src hold row c st) = (if seconds hold \<le> or_end row - c then Clear else Recovering)"
  by (simp_all add: settle_def Let_def)

lemma judge_step:
  assumes inv: "judge_inv sha po projection now mode rule rows st" and kind: "known_kind row"
  shows "judge_inv sha po projection now mode rule (rows @ [row]) (judge_row sha po projection now mode subject risk rule row st)"
proof -
  let ?j = "judge_row sha po projection now mode subject risk rule row st"
  have adv: "jd_adverse st = last_adverse po rows" and complete: "jd_complete st = list_all (verified sha po projection) rows"
    and run: "run_inv sha po projection rule rows st" and told: "told sha po projection now mode rule rows st"
    using inv by (simp_all add: judge_inv_def)
  from kind show ?thesis
  proof (cases rule: judge_row_cases [where sha = sha and po = po and projection = projection and now = now and mode = mode
      and subject = subject and risk = risk and rule = rule and st = st])
    case unregistered
    have "told sha po projection now mode rule (rows @ [row]) ?j"
      unfolding told_def
    proof
      assume "jd_state ?j \<noteq> Unknown"
      with told unregistered(2) obtain pre r post src where "rows = pre @ r # post \<and> (\<forall>r \<in> set post. \<not> registered po r)
           \<and> policy_source po (or_source r) = Inr src \<and> compatible src r
           \<and> jd_valid st = Some (or_end r + seconds (rs_fresh src)) \<and> jd_mode st = Some (or_mode r)
           \<and> jd_evidence st = Some (or_end r)
           \<and> (jd_state st = Present \<longrightarrow> p_kind r = PStr ''adverse'' \<and> (or_mode r = ''current'' \<or> mode = ''historical''))
           \<and> (jd_state st \<noteq> Present \<longrightarrow> (\<exists>c hold. p_kind r \<noteq> PStr ''adverse'' \<and> hold_of rule = Some hold
                \<and> jd_candidate st = Some c \<and> jd_positive st = Some (or_end r)
                \<and> jd_state st = (if seconds hold \<le> or_end r - c then Clear else Recovering)))"
        unfolding told_def by auto
      then show "\<exists>pre r post src. rows @ [row] = pre @ r # post \<and> (\<forall>r \<in> set post. \<not> registered po r)
           \<and> policy_source po (or_source r) = Inr src \<and> compatible src r
           \<and> jd_valid ?j = Some (or_end r + seconds (rs_fresh src)) \<and> jd_mode ?j = Some (or_mode r)
           \<and> jd_evidence ?j = Some (or_end r)
           \<and> (jd_state ?j = Present \<longrightarrow> p_kind r = PStr ''adverse'' \<and> (or_mode r = ''current'' \<or> mode = ''historical''))
           \<and> (jd_state ?j \<noteq> Present \<longrightarrow> (\<exists>c hold. p_kind r \<noteq> PStr ''adverse'' \<and> hold_of rule = Some hold
                \<and> jd_candidate ?j = Some c \<and> jd_positive ?j = Some (or_end r)
                \<and> jd_state ?j = (if seconds hold \<le> or_end r - c then Clear else Recovering)))"
        using unregistered by (intro exI [of _ pre] exI [of _ r] exI [of _ "post @ [row]"] exI [of _ src]) simp
    qed
    moreover have "run_inv sha po projection rule (rows @ [row]) ?j"
      by (rule run_inv_skip [OF run]) (simp_all add: unregistered)
    ultimately show ?thesis using unregistered adv complete
      by (simp add: judge_inv_def last_adverse_snoc is_adverse_def verified_def)
  next
    case (adverse src)
    let ?st = "st\<lparr>jd_complete := jd_complete st \<and> frontier_complete sha projection row\<rparr>"
    have reg: "registered po row" using adverse(1) by (auto simp: registered_iff)
    have "told sha po projection now mode rule (rows @ [row]) ?j"
      unfolding told_def adverse(3)
      by (intro impI exI [of _ rows] exI [of _ row] exI [of _ "[]"] exI [of _ src])
        (use adverse in \<open>auto simp: adverse_step_def Let_def split: if_splits\<close>)
    moreover have "run_inv sha po projection rule (rows @ [row]) ?j"
      unfolding adverse(3) by (rule run_inv_none) (simp_all add: adverse_step_def Let_def)
    moreover have "jd_adverse ?j = Some row" "jd_complete ?j = (jd_complete st \<and> frontier_complete sha projection row)"
      by (simp_all add: adverse(3) adverse_step_def Let_def)
    ultimately show ?thesis using adverse(2) reg complete
      by (simp add: judge_inv_def last_adverse_snoc is_adverse_def verified_def)
  next
    case (pass code)
    have "run_inv sha po projection rule (rows @ [row]) ?j"
      by (rule run_inv_skip [OF run]) (use pass in auto)
    then show ?thesis using pass adv complete
      by (simp add: judge_inv_def last_adverse_snoc is_adverse_def verified_def told_unknown)
  next
    case (drop code st1)
    then show ?thesis using adv complete
      by (simp add: judge_inv_def last_adverse_snoc is_adverse_def verified_def told_unknown run_inv_none)
  next
    case (positive src ru hold)
    let ?c = "if p_kind row = PStr ''coverage'' then coverage_start row (at_boundary row st) else snapshot_start src row (at_boundary row st)"
    have pos: "positive sha po projection ru (last_adverse po rows) src row" using positive(3) adv by simp
    then have k: "p_kind row = PStr ''coverage'' \<or> p_kind row = PStr ''state_snapshot''" "p_kind row \<noteq> PStr ''adverse''"
      and src: "policy_source po (or_source row) = Inr src" "compatible src row" "frontier_complete sha projection row"
      by (auto simp: positive_def)
    have "\<exists>pre seg. rows @ [row] = pre @ seg
        \<and> recovery_run sha po projection ru (last_adverse po pre) (boundary_of row) seg ?c (or_end row)"
    proof (rule start_cases [OF run adv k(1), of src])
      assume "?c = run_start (last_adverse po rows) row"
      with recovery_run.begin_run [OF pos refl] show ?thesis by (intro exI [of _ rows] exI [of _ "[row]"]) simp
    next
      fix l assume cont: "jd_candidate st = Some ?c" "jd_positive st = Some l" "jd_boundary st = Some (boundary_of row)"
        "joins (last_adverse po rows) src l row"
      from run cont(1-3) positive(1) obtain pre seg where seg: "rows = pre @ seg"
        "recovery_run sha po projection ru (last_adverse po pre) (boundary_of row) seg ?c l"
        unfolding run_inv_def by auto
      from recovery_run_no_adverse [OF seg(2)] have same: "last_adverse po rows = last_adverse po pre"
        unfolding seg(1) by (rule last_adverse_append)
      from recovery_run.continue_run [OF seg(2) pos [unfolded same] refl cont(4) [unfolded same]] seg(1)
      show ?thesis by (intro exI [of _ pre] exI [of _ "seg @ [row]"]) simp
    qed
    then have "run_inv sha po projection rule (rows @ [row]) ?j"
      using positive(1,2) unfolding run_inv_def positive(4) by auto
    moreover have "told sha po projection now mode rule (rows @ [row]) ?j"
      unfolding told_def positive(4)
      by (intro impI exI [of _ rows] exI [of _ row] exI [of _ "[]"] exI [of _ src]) (use positive k src in simp)
    ultimately show ?thesis using src k adv complete
      by (auto simp: judge_inv_def last_adverse_snoc is_adverse_def verified_def registered_iff positive(4))
  qed
qed

lemma judge_rows_inv:
  "list_all known_kind rows \<Longrightarrow>
   judge_inv sha po projection now mode rule rows (judge_rows sha po projection now mode subject risk rule rows)"
proof (induction rows rule: rev_induct)
  case Nil
  show ?case by (simp add: judge_rows_def judge_start_def judge_inv_def last_adverse_def run_inv_none told_unknown)
next
  case (snoc row rows)
  then have "judge_inv sha po projection now mode rule rows (judge_rows sha po projection now mode subject risk rule rows)" "known_kind row"
    by simp_all
  from judge_step [OF this] show ?case by (simp add: judge_rows_def)
qed

subsection \<open>Rounds of episodes\<close>

text \<open>A chain in which each round names the one before and all but the last are resolved.\<close>

fun rounds_ok :: "string option \<Rightarrow> episode list \<Rightarrow> bool" where
  "rounds_ok before [] = True"
| "rounds_ok before (e # es) =
     (ep_previous e = before \<and> (ep_resolved e = None \<longleftrightarrow> ep_lifecycle e = EOpen) \<and> (es \<noteq> [] \<longrightarrow> ep_resolved e \<noteq> None)
      \<and> rounds_ok (Some (ep_id e)) es)"

lemma rounds_ok_append:
  "rounds_ok b es \<Longrightarrow> \<not> is_open es \<Longrightarrow> ep_previous e = (if es = [] then b else Some (ep_id (last es))) \<Longrightarrow>
   ep_resolved e = None \<Longrightarrow> ep_lifecycle e = EOpen \<Longrightarrow> rounds_ok b (es @ [e])"
  by (induction b es rule: rounds_ok.induct) (auto simp: is_open_def split: if_splits)

lemma on_last_Cons: "on_last f (x # xs) = (if xs = [] then [f x] else x # on_last f xs)"
  by (simp add: on_last_def)

lemma on_last_Nil_iff [simp]: "on_last f xs = [] \<longleftrightarrow> xs = []"
  by (simp add: on_last_def)

lemma rounds_ok_on_last:
  "rounds_ok b es \<Longrightarrow> (\<And>e. ep_previous (f e) = ep_previous e \<and> ep_id (f e) = ep_id e) \<Longrightarrow>
   (\<And>e. (ep_resolved e = None \<longleftrightarrow> ep_lifecycle e = EOpen) \<Longrightarrow> (ep_resolved (f e) = None \<longleftrightarrow> ep_lifecycle (f e) = EOpen)) \<Longrightarrow>
   rounds_ok b (on_last f es)"
  by (induction b es rule: rounds_ok.induct) (auto simp: on_last_Cons, simp_all add: on_last_def)

lemma rounds_ok_adverse: "rounds_ok None es \<Longrightarrow> rounds_ok None (adverse_rounds sha subject risk row es)"
  unfolding adverse_rounds_def
  by (rule rounds_ok_on_last) (auto simp: new_episode_def intro!: rounds_ok_append)

lemma rounds_ok_settle: "rounds_ok None (jd_rounds st) \<Longrightarrow> rounds_ok None (jd_rounds (settle src hold row c st))"
  by (auto simp: settle_def Let_def intro!: rounds_ok_on_last)

lemma judge_rounds_ok:
  "list_all known_kind rows \<Longrightarrow> rounds_ok None (jd_rounds (judge_rows sha po projection now mode subject risk rule rows))"
proof (induction rows rule: rev_induct)
  case (snoc row rows)
  let ?st = "judge_rows sha po projection now mode subject risk rule rows"
  from snoc have ok: "rounds_ok None (jd_rounds ?st)" and kind: "known_kind row" by simp_all
  from kind have "rounds_ok None (jd_rounds (judge_row sha po projection now mode subject risk rule row ?st))"
  proof (cases rule: judge_row_cases [where sha = sha and po = po and projection = projection and now = now and mode = mode
      and subject = subject and risk = risk and rule = rule and st = ?st])
    case (adverse src)
    then show ?thesis using ok by (simp add: adverse_step_def Let_def rounds_ok_adverse)
  next
    case (positive src ru hold)
    then show ?thesis using ok by (simp add: rounds_ok_settle)
  qed (use ok in simp_all)
  then show ?case by (simp add: judge_rows_def)
qed (simp add: judge_rows_def judge_start_def)

lemma rounds_open_last: "rounds_ok b es \<Longrightarrow> e \<in> set es \<Longrightarrow> ep_resolved e = None \<Longrightarrow> e = last es"
  by (induction b es rule: rounds_ok.induct) auto

end
