(* ===== verification/Risk_Props.thy ===== *)
theory Risk_Props
  imports Risk_Verdicts
begin

text \<open>The properties of the risk assessment, each on a concrete history.\<close>

lemma conclude_known:
  "jd_state (conclude now mode st) \<noteq> Unknown \<Longrightarrow>
     jd_state (conclude now mode st) = jd_state st \<and> jd_complete st \<and> jd_evidence st \<noteq> None
     \<and> (mode = ''current'' \<longrightarrow> jd_mode st \<noteq> Some ''historical'') \<and> (\<forall>v. jd_valid st = Some v \<longrightarrow> now < v)"
  by (auto simp: conclude_def Let_def split: option.splits if_splits)

lemma conclude_rounds [simp]: "jd_rounds (conclude now mode st) = jd_rounds st"
  by (simp add: conclude_def Let_def split: option.splits)

lemma judge_subject_status:
  "judge_subject sha po projection now mode subject rows = (check, rounds) \<Longrightarrow>
     sc_status check = jd_state (conclude now mode
       (judge_rows sha po projection now mode subject (p_risk (last rows)) (rule_of po (p_risk (last rows))) rows))
     \<and> rounds = jd_rounds (judge_rows sha po projection now mode subject (p_risk (last rows)) (rule_of po (p_risk (last rows))) rows)
     \<and> sc_subject check = subject"
  by (auto simp: judge_subject_def Let_def)

text \<open>What a verdict other than unknown rests on.\<close>

lemma subject_told:
  assumes "list_all known_kind rows" and "judge_subject sha po projection now mode subject rows = (check, rounds)"
    and "sc_status check \<noteq> Unknown"
  obtains st src where "rows \<noteq> []" "jd_state st = sc_status check" "run_inv sha po projection (rule_of po (p_risk (last rows))) rows st"
    "list_all (verified sha po projection) rows" "policy_source po (or_source (last rows)) = Inr src" "compatible src (last rows)"
    "now < or_end (last rows) + seconds (rs_fresh src)" "mode = ''current'' \<longrightarrow> or_mode (last rows) \<noteq> ''historical''"
    "jd_state st = Present \<Longrightarrow> p_kind (last rows) = PStr ''adverse''"
    "jd_state st \<noteq> Present \<Longrightarrow> \<exists>c hold. hold_of (rule_of po (p_risk (last rows))) = Some hold \<and> jd_candidate st = Some c
       \<and> jd_positive st = Some (or_end (last rows)) \<and> jd_state st = (if seconds hold \<le> or_end (last rows) - c then Clear else Recovering)"
proof -
  let ?rule = "rule_of po (p_risk (last rows))"
  let ?st = "judge_rows sha po projection now mode subject (p_risk (last rows)) ?rule rows"
  have status: "sc_status check = jd_state (conclude now mode ?st)" using judge_subject_status [OF assms(2)] by blast
  with assms(3) have "jd_state (conclude now mode ?st) \<noteq> Unknown" by simp
  note k = conclude_known [OF this]
  have inv: "judge_inv sha po projection now mode ?rule rows ?st" by (rule judge_rows_inv [OF assms(1)])
  then have all: "list_all (verified sha po projection) rows" using k by (simp add: judge_inv_def)
  from inv k status assms(3) have "told sha po projection now mode ?rule rows ?st" "jd_state ?st \<noteq> Unknown"
    by (simp_all add: judge_inv_def)
  then obtain pre row post src where t: "rows = pre @ row # post" "\<forall>r \<in> set post. \<not> registered po r"
    "policy_source po (or_source row) = Inr src" "compatible src row" "jd_valid ?st = Some (or_end row + seconds (rs_fresh src))"
    "jd_mode ?st = Some (or_mode row)" "jd_state ?st = Present \<longrightarrow> p_kind row = PStr ''adverse''"
    "jd_state ?st \<noteq> Present \<longrightarrow> (\<exists>c hold. hold_of ?rule = Some hold \<and> jd_candidate ?st = Some c
       \<and> jd_positive ?st = Some (or_end row) \<and> jd_state ?st = (if seconds hold \<le> or_end row - c then Clear else Recovering))"
    unfolding told_def by blast
  have "post = []" using t(1,2) all by (cases post) (auto simp: verified_def)
  with t(1) have last: "last rows = row" "rows \<noteq> []" by simp_all
  show thesis
    by (rule that [of ?st src]) (use last t k inv all status in \<open>auto simp: judge_inv_def\<close>)
qed


text \<open>C35: A subject is called present only when its last row is an adverse one of a registered source at its registered epoch,
  still fresh, and not historical in the current mode; a subject whose last row is adverse is never called clear or recovering.\<close>

theorem present_needs_fresh_adverse:
  assumes "list_all known_kind rows" and "judge_subject sha po projection now mode subject rows = (check, rounds)"
  shows "(sc_status check = Present \<longrightarrow> (\<exists>src. p_kind (last rows) = PStr ''adverse'' \<and> policy_source po (or_source (last rows)) = Inr src
      \<and> compatible src (last rows) \<and> now < or_end (last rows) + seconds (rs_fresh src)
      \<and> (mode = ''current'' \<longrightarrow> or_mode (last rows) \<noteq> ''historical'')))
    \<and> (p_kind (last rows) = PStr ''adverse'' \<longrightarrow> sc_status check \<in> {Present, Unknown})"
proof -
  let ?rule = "rule_of po (p_risk (last rows))"
  have known: "\<exists>src. policy_source po (or_source (last rows)) = Inr src \<and> compatible src (last rows)
      \<and> now < or_end (last rows) + seconds (rs_fresh src) \<and> (mode = ''current'' \<longrightarrow> or_mode (last rows) \<noteq> ''historical'')
      \<and> (sc_status check = Present \<longleftrightarrow> p_kind (last rows) = PStr ''adverse'')" if s: "sc_status check \<noteq> Unknown"
  proof (rule subject_told [OF assms s])
    fix st src
    assume a: "rows \<noteq> []" "jd_state st = sc_status check" "run_inv sha po projection ?rule rows st"
      "policy_source po (or_source (last rows)) = Inr src" "compatible src (last rows)"
      "now < or_end (last rows) + seconds (rs_fresh src)" "mode = ''current'' \<longrightarrow> or_mode (last rows) \<noteq> ''historical''"
      "jd_state st = Present \<Longrightarrow> p_kind (last rows) = PStr ''adverse''"
      "jd_state st \<noteq> Present \<Longrightarrow> \<exists>c hold. hold_of ?rule = Some hold \<and> jd_candidate st = Some c \<and> jd_positive st = Some (or_end (last rows))
         \<and> jd_state st = (if seconds hold \<le> or_end (last rows) - c then Clear else Recovering)"
    have "p_kind (last rows) \<noteq> PStr ''adverse''" if ne: "sc_status check \<noteq> Present"
    proof -
      from a(9) ne a(2) obtain c where "jd_candidate st = Some c" "jd_positive st = Some (or_end (last rows))" by auto
      with a(3) obtain ru pre seg b where run: "rows = pre @ seg" "recovery_run sha po projection ru (last_adverse po pre) b seg c (or_end (last rows))"
        unfolding run_inv_def by blast
      from run(2) have "seg \<noteq> []" by (cases rule: recovery_run.cases) auto
      with run(1) have "last rows \<in> set seg" by simp
      with recovery_run_no_adverse [OF run(2)] a(4) show ?thesis by (auto simp: is_adverse_def registered_iff)
    qed
    with a show ?thesis by auto
  qed
  then show ?thesis by (cases "sc_status check") auto
qed

text \<open>C36: The rounds of a subject form a chain: each names the round before it, all but the last are resolved, and a
  round is open exactly while it has no time of resolution, so at most one round is open.\<close>

theorem episodes_form_chain:
  assumes "list_all known_kind rows" and "judge_subject sha po projection now mode subject rows = (check, rounds)"
  shows "rounds_ok None rounds \<and> (\<forall>e \<in> set rounds. ep_lifecycle e = EOpen \<longrightarrow> e = last rounds)"
proof -
  have "rounds_ok None rounds" using judge_subject_status [OF assms(2)] judge_rounds_ok [OF assms(1)] by simp
  moreover from this have "ep_lifecycle e = EOpen \<Longrightarrow> e \<in> set rounds \<Longrightarrow> e = last rounds" for e
  proof -
    assume o: "ep_lifecycle e = EOpen" "e \<in> set rounds"
    have "rounds_ok b es \<Longrightarrow> e \<in> set es \<Longrightarrow> ep_resolved e = None" for b es
      using o(1) by (induction b es rule: rounds_ok.induct) auto
    with \<open>rounds_ok None rounds\<close> o(2) show "e = last rounds" by (blast intro: rounds_open_last)
  qed
  ultimately show ?thesis by blast
qed

text \<open>C37: A node is called clear only when every check that applies to it has been observed, at least one applies, every
  observed subject is clear, no unverified fact of an older component is known by then and the history is fully projected;
  it is called present exactly when some subject is.\<close>

theorem node_clear_complete:
  assumes "evaluate_node sha po projection facts hist_complete frontiers cluster node now mode exclusive rows = na"
  shows "(na_status na = Clear \<longrightarrow> applicable_checks po cluster node \<noteq> []
        \<and> set (applicable_checks po cluster node) \<subseteq> check_key ` set (map fst (judge_all sha po projection now mode exclusive rows))
        \<and> (\<forall>(c, _) \<in> set (judge_all sha po projection now mode exclusive rows). sc_status c = Clear) \<and> hist_complete
        \<and> (\<forall>f \<in> set facts. lf_registered f \<or> now < lf_first f))
    \<and> (na_status na = Present \<longleftrightarrow> (\<exists>(c, _) \<in> set (judge_all sha po projection now mode exclusive rows). sc_status c = Present))"
proof -
  have status: "node_status reasons states = Clear \<Longrightarrow> reasons = [] \<and> (\<forall>v \<in> set states. v = Clear)"
    "node_status reasons states = Present \<longleftrightarrow> Present \<in> set states" for reasons states
  proof -
    assume c: "node_status reasons states = Clear"
    then have "reasons = []" "Present \<notin> set states" "Unknown \<notin> set states" "Recovering \<notin> set states"
      by (auto simp: node_status_def split: if_splits)
    then show "reasons = [] \<and> (\<forall>v \<in> set states. v = Clear)" by (metis verdict.exhaust)
  qed (simp add: node_status_def)
  let ?checks = "map fst (judge_all sha po projection now mode exclusive rows)"
  let ?applicable = "applicable_checks po cluster node"
  let ?reasons = "(if ?applicable = [] then [''applicable_checks_unregistered''] else [])
      @ (if \<exists>a \<in> set ?applicable. a \<notin> set (map check_key ?checks) then [''required_observations_missing''] else [])
      @ (if filter (\<lambda>f. \<not> lf_registered f \<and> lf_first f \<le> now) facts \<noteq> [] then [''legacy_unverified''] else [])
      @ (if \<not> hist_complete then [''projection_pending''] else [])"
  have na: "na_status na = node_status ?reasons (map sc_status ?checks)"
    unfolding assms [symmetric] evaluate_node_def Let_def node_assessment.simps ..
  have empty: "?reasons = [] \<Longrightarrow> ?applicable \<noteq> [] \<and> set ?applicable \<subseteq> check_key ` set ?checks \<and> hist_complete
      \<and> (\<forall>f \<in> set facts. lf_registered f \<or> now < lf_first f)"
    by (simp add: filter_empty_conv not_le image_image subset_iff split: if_split_asm)
  show ?thesis
  proof (intro conjI impI)
    assume "na_status na = Clear"
    with na have c: "node_status ?reasons (map sc_status ?checks) = Clear" by metis
    note r = status(1) [OF c]
    from empty [OF conjunct1 [OF r]] show "?applicable \<noteq> []" "set ?applicable \<subseteq> check_key ` set ?checks" hist_complete
      "\<forall>f \<in> set facts. lf_registered f \<or> now < lf_first f" by blast+
    show "\<forall>(c, _) \<in> set (judge_all sha po projection now mode exclusive rows). sc_status c = Clear" using r by auto
  next
    show "na_status na = Present \<longleftrightarrow> (\<exists>(c, _) \<in> set (judge_all sha po projection now mode exclusive rows). sc_status c = Present)"
      unfolding na status(2) by force
  qed
qed

subsection \<open>A history\<close>

definition demo_sha :: "string \<Rightarrow> string" where "demo_sha s = ''h''"

definition demo_source :: risk_source where
  "demo_source = \<lparr>rs_id = ''src'', rs_enabled = True, rs_complete = True, rs_epoch = ''e'', rs_config = ''c'', rs_env = ''prod'',
     rs_cluster = ''cl'', rs_nodes = [''n''], rs_objects = [(''unit'', ''A'')], rs_capability = ''authoritative_state'',
     rs_signals = [\<lparr>sg_code = ''ok'', sg_kind = ''state_snapshot'', sg_risk = ''failed'', sg_types = []\<rparr>],
     rs_actors = [''actor''], rs_fresh = 60, rs_gap = 15, rs_late = 100, rs_skew = 30\<rparr>"

definition demo_policies :: "int \<Rightarrow> risk_policies" where
  "demo_policies hold = \<lparr>po_sources = [demo_source],
     po_rules = [(''failed'', \<lparr>rr_mode = ''state'', rr_hold = Some hold, rr_signal = Some ''ok'', rr_field = Some ''ready'',
        rr_value = PBool True, rr_activity = False, rr_signals = None\<rparr>)],
     po_version = ''v''\<rparr>"

definition demo_obs :: "string \<Rightarrow> string \<Rightarrow> int \<Rightarrow> int \<Rightarrow> obs_row" where
  "demo_obs i kind s t = \<lparr>or_id = i, or_fact = i, or_source = ''src'', or_epoch = ''e'', or_config = ''c'', or_subject = ''s'',
     or_start = s, or_end = t, or_mode = ''current'',
     or_payload = [(''kind'', PStr kind), (''risk_type'', PStr ''failed''), (''signal_code'', PStr ''ok''),
        (''typed_fields'', PDict [(''ready'', PBool True)]), (''source_sequence'', PInt 1),
        (''identity'', PDict [(''object_kind'', PStr ''unit''), (''object_id'', PStr ''A'')])],
     or_digest = i, or_key = ''k'', or_batch_digest = ''d''\<rparr>"

definition demo_projection :: "string \<Rightarrow> projection_row option" where
  "demo_projection = (\<lambda>_. Some \<lparr>pj_revision = ''d'', pj_fact = None, pj_through = None, pj_status = ''complete''\<rparr>)"

definition demo_history :: "obs_row list" where
  "demo_history = [demo_obs ''a'' ''adverse'' 0 0, demo_obs ''b'' ''state_snapshot'' 10000000 10000000,
     demo_obs ''c'' ''state_snapshot'' 20000000 20000000]"

lemmas demo_defs = demo_sha_def demo_source_def demo_policies_def demo_obs_def demo_projection_def

lemma demo_status:
  "sc_status (fst (judge_subject demo_sha (demo_policies 10) demo_projection 30000000 ''current'' ''s'' demo_history)) = Clear"
  by code_simp

lemma demo_known: "list_all known_kind demo_history"
  by code_simp


theorem present_needs_fresh_adverse_witness:
  "sc_status (fst (judge_subject demo_sha (demo_policies 10) demo_projection 5000000 ''current'' ''s'' (take 1 demo_history))) = Present
   \<and> p_kind (last (take 1 demo_history)) = PStr ''adverse''"
proof -
  let ?r = "judge_subject demo_sha (demo_policies 10) demo_projection 5000000 ''current'' ''s'' (take 1 demo_history)"
  obtain check rounds where j: "?r = (check, rounds)" by (cases ?r)
  have "sc_status (fst ?r) = Present" by code_simp
  moreover have "list_all known_kind (take 1 demo_history)" by code_simp
  note present_needs_fresh_adverse [OF this j]
  ultimately show ?thesis using j by simp
qed

theorem episodes_form_chain_witness:
  "\<exists>e. snd (judge_subject demo_sha (demo_policies 10) demo_projection 30000000 ''current'' ''s'' demo_history) = [e]
     \<and> rounds_ok None [e] \<and> ep_resolved e = Some 20000000"
proof -
  let ?r = "judge_subject demo_sha (demo_policies 10) demo_projection 30000000 ''current'' ''s'' demo_history"
  obtain check rounds where j: "?r = (check, rounds)" by (cases ?r)
  have "map ep_resolved (snd ?r) = [Some 20000000]" by code_simp
  with j obtain e where "rounds = [e]" "ep_resolved e = Some 20000000" by auto
  with episodes_form_chain [OF demo_known j] j show ?thesis by auto
qed

theorem node_clear_complete_witness:
  "\<exists>na. evaluate_node demo_sha (demo_policies 10) demo_projection [] True True ''cl'' ''n'' 30000000 ''current'' False demo_history = na
     \<and> na_status na = Clear \<and> applicable_checks (demo_policies 10) ''cl'' ''n'' \<noteq> []"
proof -
  let ?na = "evaluate_node demo_sha (demo_policies 10) demo_projection [] True True ''cl'' ''n'' 30000000 ''current'' False demo_history"
  let ?r = "judge_subject demo_sha (demo_policies 10) demo_projection 30000000 ''current'' ''s'' demo_history"
  have view: "filter (in_view 30000000 False) demo_history = demo_history" "remdups (map or_subject demo_history) = [''s'']"
    by (simp_all add: demo_history_def demo_obs_def in_view_def)
  have "subject_rows demo_history ''s'' = demo_history" by code_simp
  then have all: "judge_all demo_sha (demo_policies 10) demo_projection 30000000 ''current'' False demo_history = [?r]"
    by (simp add: judge_all_def view)
  have "applicable_checks (demo_policies 10) ''cl'' ''n'' = [(PStr ''unit'', PStr ''A'', PStr ''failed'')]" by code_simp
  moreover have "check_key (fst ?r) = (PStr ''unit'', PStr ''A'', PStr ''failed'')" by code_simp
  ultimately have "na_status ?na = Clear"
    unfolding evaluate_node_def Let_def node_assessment.simps all by (simp add: node_status_def demo_status)
  with node_clear_complete [OF refl, of demo_sha "demo_policies 10" demo_projection "[]" True True "''cl''" "''n''" 30000000 "''current''" False demo_history]
  show ?thesis by blast
qed

text \<open>C38: Unlike the coverage evidence, a state snapshot is not compared with the end of the adverse interval: with a hold of
  zero seconds, a snapshot taken half-way through an hour of adverse events clears the subject when that hour ends.\<close>

definition overlapping_history :: "obs_row list" where
  "overlapping_history = [demo_obs ''a'' ''adverse'' 0 40000000, demo_obs ''b'' ''state_snapshot'' 20000000 20000000]"

theorem snapshot_inside_adverse_clears:
  "sc_status (fst (judge_subject demo_sha (demo_policies 0) demo_projection 40000000 ''current'' ''s'' overlapping_history)) = Clear
   \<and> last_adverse (demo_policies 0) overlapping_history = Some (demo_obs ''a'' ''adverse'' 0 40000000)
   \<and> map ep_resolved (snd (judge_subject demo_sha (demo_policies 0) demo_projection 40000000 ''current'' ''s'' overlapping_history)) = [Some 20000000]
   \<and> map ep_last (snd (judge_subject demo_sha (demo_policies 0) demo_projection 40000000 ''current'' ''s'' overlapping_history)) = [40000000]"
  by code_simp

end
