(* ===== verification/Risk_Store_Props.thy ===== *)
theory Risk_Store_Props
  imports Risk_Store Risk_Props Replay
begin

text \<open>
  The store of observations: what a submission does to it, that a submission happens once, and that the store refines a
  plain map from facts to digests.
\<close>

lemma check_Inr [simp]: "check ok code = Inr u \<longleftrightarrow> ok"
  by (simp add: check_def)

subsection \<open>Persisting leaves the observations alone\<close>

lemma persist_keeps:
  "persist sha po legacy now mode cluster node db = Inr db' \<Longrightarrow>
   rd_observations db' = rd_observations db \<and> rd_projection db' = rd_projection db"
  by (auto simp: persist_def Let_def res_simps)

text \<open>The steps of the store; an assessment persists with any clock and mode.\<close>

definition assess_with where
  "assess_with sha po legacy now mode = (\<lambda>cluster node db. persist sha po legacy now mode cluster node db)"

lemma persist_nodes_keeps:
  "persist_nodes (assess_with sha po legacy now mode) ns db = Inr db' \<Longrightarrow>
   rd_observations db' = rd_observations db \<and> rd_projection db' = rd_projection db"
proof (induction ns arbitrary: db)
  case (Cons x ns)
  obtain c n where x: "x = (c, n)" by (cases x)
  with Cons.prems obtain db1 where "persist sha po legacy now mode c n db = Inr db1"
    "persist_nodes (assess_with sha po legacy now mode) ns db1 = Inr db'" by (auto simp: res_simps assess_with_def)
  with Cons.IH persist_keeps show ?case by metis
qed simp

definition persisting :: "(string \<Rightarrow> string) \<Rightarrow> (string \<Rightarrow> string \<Rightarrow> risk_db \<Rightarrow> risk_db res) option \<Rightarrow> bool" where
  "persisting sha assess = (assess = None \<or> (\<exists>po legacy now mode. assess = Some (assess_with sha po legacy now mode)))"

inductive risk_step :: "(string \<Rightarrow> string) \<Rightarrow> risk_db \<Rightarrow> risk_db \<Rightarrow> bool" for sha where
  submitted: "persisting sha assess \<Longrightarrow> submit sha known po assess now actor physical payload db = Inr (db', r) \<Longrightarrow> risk_step sha db db'"
| persisted: "persist sha po legacy now mode cluster node db = Inr db' \<Longrightarrow> risk_step sha db db'"

definition risk_empty :: risk_db where
  "risk_empty = \<lparr>rd_observations = [], rd_projection = (\<lambda>_. None), rd_episodes = [], rd_decisions = []\<rparr>"

subsection \<open>The transaction\<close>

text \<open>What a list of rows adds to the observations: those whose fact is new.\<close>

definition fact_key :: "obs_row \<Rightarrow> string \<times> string" where
  "fact_key row = (or_fact row, or_config row)"

fun new_rows :: "obs_row list \<Rightarrow> obs_row list \<Rightarrow> obs_row list" where
  "new_rows obs [] = obs"
| "new_rows obs (r # rs) = new_rows (if fact_key r \<in> fact_key ` set obs then obs else obs @ [r]) rs"

lemma store_item_Inr:
  "store_item row db = Inr db' \<Longrightarrow>
   rd_observations db' = (if fact_key row \<in> fact_key ` set (rd_observations db) then rd_observations db else rd_observations db @ [row])
   \<and> (fact_key row \<notin> fact_key ` set (rd_observations db) \<longrightarrow> or_id row \<notin> or_id ` set (rd_observations db))
   \<and> (\<forall>k. k \<noteq> ''fact:'' @ or_fact row \<longrightarrow> rd_projection db' k = rd_projection db k)
   \<and> rd_episodes db' = rd_episodes db \<and> rd_decisions db' = rd_decisions db"
  by (auto simp: store_item_def Let_def fact_key_def exists_where_iff upsert_fact_def find_None_iff image_iff
      split: option.split_asm if_split_asm dest!: find_Some_in)

lemma batch_key_not_fact: "batch_key sha a b \<noteq> ''fact:'' @ f"
  by (simp add: batch_key_def)

lemma store_items_Inr:
  "store_items rows db = Inr db' \<Longrightarrow> rd_observations db' = new_rows (rd_observations db) rows
   \<and> rd_projection db' (batch_key sha a b) = rd_projection db (batch_key sha a b)"
proof (induction rows arbitrary: db)
  case (Cons r rows)
  then obtain db1 where 1: "store_item r db = Inr db1" "store_items rows db1 = Inr db'" by (auto simp: res_simps)
  from store_item_Inr [OF 1(1)] Cons.IH [OF 1(2)] batch_key_not_fact [of sha a b "or_fact r"] show ?case by simp
qed simp

lemma new_rows_set: "set obs \<subseteq> set (new_rows obs rows)" "set (new_rows obs rows) \<subseteq> set obs \<union> set rows"
  by (induction obs rows rule: new_rows.induct) (auto split: if_splits)

lemma new_rows_keys:
  "fact_key ` set (new_rows obs rows) = fact_key ` set obs \<union> fact_key ` set rows"
  by (induction obs rows rule: new_rows.induct) (auto simp: insert_absorb)

lemma new_rows_distinct: "distinct (map fact_key obs) \<Longrightarrow> distinct (map fact_key (new_rows obs rows))"
  by (induction obs rows rule: new_rows.induct) (auto split: if_splits)

lemma admit_batchE:
  assumes "admit_batch assess (batch_key sha a b) d i rows db = Inr (db', r)" and "persisting sha assess"
  obtains (replay) saved where "rd_projection db (batch_key sha a b) = Some saved" "pj_revision saved = d" "db' = db"
      "r = replay_receipt i saved"
  | (admit) "rd_projection db (batch_key sha a b) = None" "rd_observations db' = new_rows (rd_observations db) rows"
      "\<And>x y. rd_projection db' (batch_key sha x y) = (if batch_key sha x y = batch_key sha a b
         then Some \<lparr>pj_revision = d, pj_fact = Some (or_id (last rows)), pj_through = Some (Max (set (map or_end rows))), pj_status = ''complete''\<rparr>
         else rd_projection db (batch_key sha x y))"
      "r = \<lparr>rc_batch = i, rc_replay = False, rc_accepted = Some (length rows), rc_complete = True\<rparr>"
proof (cases "rd_projection db (batch_key sha a b)")
  case (Some saved)
  show thesis by (rule replay [OF Some]) (use assms(1) Some in \<open>auto simp: admit_batch_def split: if_split_asm\<close>)
next
  case None
  let ?db0 = "db\<lparr>rd_projection := (rd_projection db)(batch_key sha a b \<mapsto>
    \<lparr>pj_revision = d, pj_fact = None, pj_through = None, pj_status = ''pending''\<rparr>)\<rparr>"
  let ?done = "\<lparr>pj_revision = d, pj_fact = Some (or_id (last rows)), pj_through = Some (Max (set (map or_end rows))), pj_status = ''complete''\<rparr>"
  from assms(1) None obtain db1 db3 where 1: "store_items rows ?db0 = Inr db1"
    and 2: "(case assess of None \<Rightarrow> Inr (db1\<lparr>rd_projection := (rd_projection db1)(batch_key sha a b \<mapsto> ?done)\<rparr>)
       | Some f \<Rightarrow> persist_nodes f (remdups (map node_key rows)) (db1\<lparr>rd_projection := (rd_projection db1)(batch_key sha a b \<mapsto> ?done)\<rparr>)) = Inr db3"
    and 3: "db' = db3" "r = \<lparr>rc_batch = i, rc_replay = False, rc_accepted = Some (length rows), rc_complete = True\<rparr>"
    by (auto simp: admit_batch_def Let_def res_simps simp del: set_map)
  have db3: "rd_observations db3 = rd_observations db1 \<and> rd_projection db3 = (rd_projection db1)(batch_key sha a b \<mapsto> ?done)"
  proof (cases assess)
    case (Some f)
    with assms(2) obtain po legacy now mode where "f = assess_with sha po legacy now mode" by (auto simp: persisting_def)
    with 2 Some persist_nodes_keeps show ?thesis by fastforce
  qed (use 2 in auto)
  show thesis
    by (rule admit [OF None]) (use db3 3 store_items_Inr [OF 1, where sha = sha] in \<open>auto simp del: set_map\<close>)
qed

subsection \<open>Every stored observation belongs to a completely processed batch\<close>

definition obs_ok :: "(string \<Rightarrow> string) \<Rightarrow> risk_db \<Rightarrow> bool" where
  "obs_ok sha db =
     (distinct (map fact_key (rd_observations db)) \<and> list_all (frontier_complete sha (rd_projection db)) (rd_observations db))"

lemma obs_ok_admit:
  assumes "admit_batch assess (batch_key sha a b) d i rows db = Inr (db', r)" and "persisting sha assess" and "obs_ok sha db"
    and "\<forall>row \<in> set rows. or_source row = a \<and> or_key row = b \<and> or_batch_digest row = d"
  shows "obs_ok sha db'"
  using assms(1,2)
proof (cases rule: admit_batchE)
  case replay
  with assms(3) show ?thesis by simp
next
  case admit
  have "frontier_complete sha (rd_projection db') row" if "row \<in> set (rd_observations db')" for row
  proof (cases "row \<in> set (rd_observations db)")
    case True
    with assms(3) have "frontier_complete sha (rd_projection db) row" by (auto simp: obs_ok_def list_all_iff)
    with admit(1,3) show ?thesis by (auto simp: frontier_complete_def split: option.splits)
  next
    case False
    with that admit(2) new_rows_set(2) have "row \<in> set rows" by fastforce
    with assms(4) admit(3) show ?thesis by (simp add: frontier_complete_def)
  qed
  with assms(3) admit(2) show ?thesis by (simp add: obs_ok_def list_all_iff new_rows_distinct)
qed

subsection \<open>Submissions\<close>

definition receipt_key :: "(string \<Rightarrow> string) \<Rightarrow> pv \<Rightarrow> string" where
  "receipt_key sha payload =
     batch_key sha (py_str (dget (entries payload) ''source_id'')) (py_str (dget (entries payload) ''idempotency_key''))"

lemma check_batch_Inr:
  "check_batch po actor payload = Inr (batch, src, items) \<Longrightarrow>
     payload = PDict batch \<and> policy_source po (py_str (dget batch ''source_id'')) = Inr src \<and> rs_id src = py_str (dget batch ''source_id'')
     \<and> dget batch ''config_revision'' = PStr (rs_config src) \<and> dget batch ''observations'' = PList items \<and> items \<noteq> []
     \<and> actor \<in> Some ` set (rs_actors src)"
  by (auto simp: check_batch_def res_simps strict_object_def split: if_split_asm dest: policy_source_Inr)

lemma submitE:
  assumes "submit sha known po assess now actor physical payload db = Inr (db', r)"
  obtains (replay) batch src items saved where "check_batch po actor payload = Inr (batch, src, items)"
      "rd_projection db (receipt_key sha payload) = Some saved" "pj_revision saved = risk_digest sha payload"
      "db' = db" "rc_replay r"
  | (admit) batch src items vs vs' where "check_batch po actor payload = Inr (batch, src, items)"
      "rd_projection db (receipt_key sha payload) = None"
      "map_res (validate sha known db batch src now) items = Inr vs" "with_physical sha src physical vs = Inr vs'"
      "distinct (map vo_fact vs')"
      "admit_batch assess (receipt_key sha payload) (risk_digest sha payload) (py_str (dget batch ''batch_id''))
         (map (row_of batch (risk_digest sha payload)) vs') db = Inr (db', r)"
proof -
  from assms obtain batch src items where c: "check_batch po actor payload = Inr (batch, src, items)"
    by (auto simp: submit_def res_simps)
  then have p: "payload = PDict batch" by (auto dest: check_batch_Inr)
  have k: "batch_key sha (py_str (dget batch ''source_id'')) (py_str (dget batch ''idempotency_key'')) = receipt_key sha payload"
    by (simp add: receipt_key_def p entries_def)
  show thesis
  proof (cases "rd_projection db (receipt_key sha payload)")
    case (Some saved)
    with assms c have "pj_revision saved = risk_digest sha payload" "db' = db" "rc_replay r"
      by (auto simp: submit_def Let_def k p [symmetric] replay_receipt_def split: if_split_asm)
    with c Some show thesis by (intro replay) simp_all
  next
    case None
    with assms c obtain vs vs' where "map_res (validate sha known db batch src now) items = Inr vs"
      "with_physical sha src physical vs = Inr vs'" "distinct (map vo_fact vs')"
      "admit_batch assess (receipt_key sha payload) (risk_digest sha payload) (py_str (dget batch ''batch_id''))
         (map (row_of batch (risk_digest sha payload)) vs') db = Inr (db', r)"
      by (auto simp: submit_def Let_def k p [symmetric] res_simps)
    with c None show thesis by (intro admit) simp_all
  qed
qed

lemma rows_of_batch:
  "\<forall>row \<in> set (map (row_of batch d) vs). or_source row = py_str (dget batch ''source_id'')
     \<and> or_key row = py_str (dget batch ''idempotency_key'') \<and> or_batch_digest row = d"
  by (simp add: row_of_def)

lemma obs_ok_step: "risk_step sha db db' \<Longrightarrow> obs_ok sha db \<Longrightarrow> obs_ok sha db'"
proof (induction rule: risk_step.induct)
  case (submitted assess known po now actor physical payload db db' r)
  from submitted(2) show ?case
  proof (cases rule: submitE)
    case (admit batch src items vs vs')
    then have p: "payload = PDict batch" by (auto dest: check_batch_Inr)
    from obs_ok_admit [OF admit(6) [unfolded receipt_key_def p entries_def pv.case] submitted(1,3)] rows_of_batch
    show ?thesis by simp
  qed (use submitted in simp)
next
  case (persisted po legacy now mode cluster node db db')
  with persist_keeps show ?case by (fastforce simp: obs_ok_def)
qed

text \<open>A receipt stays.\<close>

definition received :: "(string \<Rightarrow> string) \<Rightarrow> pv \<Rightarrow> risk_db \<Rightarrow> bool" where
  "received sha payload db = (\<exists>saved. rd_projection db (receipt_key sha payload) = Some saved \<and> pj_revision saved = risk_digest sha payload)"

lemma receipt_step:
  "risk_step sha db db' \<Longrightarrow> rd_projection db (batch_key sha a b) = Some saved \<Longrightarrow> rd_projection db' (batch_key sha a b) = Some saved"
proof (induction rule: risk_step.induct)
  case (submitted assess known po now actor physical payload db db' r)
  from submitted(2) show ?case
  proof (cases rule: submitE)
    case (admit batch src items vs vs')
    then have p: "payload = PDict batch" by (auto dest: check_batch_Inr)
    from admit(6) [unfolded receipt_key_def] submitted(1) show ?thesis
    proof (cases rule: admit_batchE)
      case admit': admit
      then show ?thesis using submitted(3) by (cases "batch_key sha a b = receipt_key sha payload") (auto simp: receipt_key_def)
    qed (use submitted in simp)
  qed (use submitted in simp)
next
  case (persisted po legacy now mode cluster node db db')
  with persist_keeps show ?case by metis
qed

interpretation submission: replay_log "received sha" "risk_step sha"
  "\<lambda>payload (known, po, assess, now, actor, physical). persisting sha assess \<and> \<not> isl (check_batch po actor payload)"
  "\<lambda>payload (known, po, assess, now, actor, physical) db. if \<not> persisting sha assess then Inl ValueErr
     else bind_res (submit sha known po assess now actor physical payload db) (\<lambda>(db', r). Inr (db', r, rc_replay r))" for sha
proof unfold_locales
  fix s s' k assume "risk_step sha s s'" "received sha k s"
  then show "received sha k s'" unfolding received_def receipt_key_def by (blast dest: receipt_step)
next
  fix k a s s' r b
  assume "(\<lambda>(known, po, assess, now, actor, physical) db. if \<not> persisting sha assess then Inl ValueErr
     else bind_res (submit sha known po assess now actor physical k db) (\<lambda>(db', r). Inr (db', r, rc_replay r))) a s = Inr (s', r, b)"
  then obtain known po assess now actor physical where per: "persisting sha assess"
    and sub: "submit sha known po assess now actor physical k s = Inr (s', r)"
    by (auto simp: res_simps split: prod.splits if_split_asm)
  from sub show "received sha k s'"
  proof (cases rule: submitE)
    case (admit batch src items vs vs')
    from admit(6) [unfolded receipt_key_def] per show ?thesis
      by (cases rule: admit_batchE) (auto simp: received_def receipt_key_def)
  qed (auto simp: received_def)
next
  fix k s and a :: "(string \<Rightarrow> bool) \<times> risk_policies \<times> (string \<Rightarrow> string \<Rightarrow> risk_db \<Rightarrow> risk_db res) option \<times> int \<times> string option \<times> string list option"
  assume seen: "received sha k s" and valid: "(\<lambda>(known, po, assess, now, actor, physical). persisting sha assess \<and> \<not> isl (check_batch po actor k)) a"
  obtain known po assess now actor physical where a: "a = (known, po, assess, now, actor, physical)" by (cases a) auto
  from valid a obtain batch src items where c: "check_batch po actor k = Inr (batch, src, items)" "persisting sha assess"
    by (cases "check_batch po actor k") auto
  from check_batch_Inr [OF c(1)] have p: "k = PDict batch" by simp
  from seen obtain saved where "rd_projection s (receipt_key sha k) = Some saved" "pj_revision saved = risk_digest sha k"
    by (auto simp: received_def)
  then show "\<exists>r. (\<lambda>(known, po, assess, now, actor, physical) db. if \<not> persisting sha assess then Inl ValueErr
     else bind_res (submit sha known po assess now actor physical k db) (\<lambda>(db', r). Inr (db', r, rc_replay r))) a s = Inr (s, r, True)"
    using c by (auto simp: a submit_def Let_def p receipt_key_def entries_def replay_receipt_def)
qed

subsection \<open>The store as a map from facts to digests\<close>

definition facts_of :: "risk_db \<Rightarrow> string \<times> string \<Rightarrow> string option" where
  "facts_of db = map_of (map (\<lambda>r. (fact_key r, or_digest r)) (rd_observations db))"

fun absorb :: "((string \<times> string) \<times> string) list \<Rightarrow> (string \<times> string \<Rightarrow> string option) \<Rightarrow> (string \<times> string \<Rightarrow> string option) option" where
  "absorb [] m = Some m"
| "absorb ((k, d) # xs) m =
     (case m k of None \<Rightarrow> absorb xs (m(k \<mapsto> d)) | Some d' \<Rightarrow> if d' = d then absorb xs m else None)"

definition ids_agree :: "obs_row list \<Rightarrow> bool" where
  "ids_agree rows = (\<forall>r \<in> set rows. \<forall>r' \<in> set rows. or_id r = or_id r' \<longrightarrow> fact_key r = fact_key r')"

lemma ids_agree_mono: "ids_agree xs \<Longrightarrow> set ys \<subseteq> set xs \<Longrightarrow> ids_agree ys"
  unfolding ids_agree_def by blast

lemma facts_of_append:
  "fact_key row \<notin> fact_key ` set (rd_observations db) \<Longrightarrow>
   facts_of (db\<lparr>rd_observations := rd_observations db @ [row], rd_projection := p\<rparr>) = (facts_of db)(fact_key row \<mapsto> or_digest row)"
proof -
  assume "fact_key row \<notin> fact_key ` set (rd_observations db)"
  then have "map_of (map (\<lambda>r. (fact_key r, or_digest r)) (rd_observations db)) (fact_key row) = None"
    by (simp add: map_of_eq_None_iff image_image)
  then show ?thesis by (simp add: facts_of_def map_add_upd_left [of "[]"] map_add_def fun_eq_iff split: option.split)
qed

lemma store_item_refines:
  assumes "ids_agree (row # rd_observations db)" and "distinct (map fact_key (rd_observations db))"
  shows "(case store_item row db of Inl _ \<Rightarrow> \<exists>d. facts_of db (fact_key row) = Some d \<and> d \<noteq> or_digest row
     | Inr db' \<Rightarrow> absorb [(fact_key row, or_digest row)] (facts_of db) = Some (facts_of db'))"
proof (cases "find (\<lambda>r. or_fact r = or_fact row \<and> or_config r = or_config row) (rd_observations db)")
  case None
  then have new: "fact_key row \<notin> fact_key ` set (rd_observations db)"
    by (auto simp: find_None_iff fact_key_def)
  then have "\<not> exists_where (\<lambda>r. or_id r = or_id row) (rd_observations db)"
    using assms(1) unfolding exists_where_iff ids_agree_def by (metis image_eqI list.set_intros)
  moreover have "facts_of db (fact_key row) = None"
    using new by (simp add: facts_of_def map_of_eq_None_iff image_image)
  ultimately show ?thesis using None facts_of_append [OF new] by (simp add: store_item_def Let_def)
next
  case (Some old)
  then have old: "old \<in> set (rd_observations db)" "fact_key old = fact_key row" by (auto dest!: find_Some_in simp: fact_key_def)
  have "facts_of db (fact_key old) = Some (or_digest old)"
    unfolding facts_of_def using old(1) assms(2) by (intro map_of_is_SomeI) (auto simp: comp_def)
  moreover have "facts_of (db\<lparr>rd_projection := p\<rparr>) = facts_of db" for p by (simp add: facts_of_def)
  ultimately show ?thesis using Some old(2) by (simp add: store_item_def Let_def risk_error_def)
qed

lemma absorb_Cons: "absorb (x # xs) m = (case absorb [x] m of None \<Rightarrow> None | Some m' \<Rightarrow> absorb xs m')"
  by (cases x) (simp split: option.split)

lemma store_items_refine:
  "ids_agree (rows @ rd_observations db) \<Longrightarrow> distinct (map fact_key (rd_observations db)) \<Longrightarrow>
   (case store_items rows db of Inl _ \<Rightarrow> absorb (map (\<lambda>r. (fact_key r, or_digest r)) rows) (facts_of db) = None
    | Inr db' \<Rightarrow> absorb (map (\<lambda>r. (fact_key r, or_digest r)) rows) (facts_of db) = Some (facts_of db'))"
proof (induction rows arbitrary: db)
  case (Cons r rows)
  have "ids_agree (r # rd_observations db)" using Cons.prems(1) by (simp add: ids_agree_def)
  note item = store_item_refines [OF this Cons.prems(2)]
  show ?case
  proof (cases "store_item r db")
    case (Inl e)
    with item obtain d where "facts_of db (fact_key r) = Some d" "d \<noteq> or_digest r" by auto
    with Inl show ?thesis by simp
  next
    case (Inr db1)
    note obs = store_item_Inr [OF Inr]
    have ids: "ids_agree (rows @ rd_observations db1)"
      by (rule ids_agree_mono [OF Cons.prems(1)]) (use obs in auto)
    have "distinct (map fact_key (rd_observations db1))" using Cons.prems(2) obs by simp
    note IH = Cons.IH [OF ids this]
    from item Inr have one: "absorb [(fact_key r, or_digest r)] (facts_of db) = Some (facts_of db1)" by simp
    have eq: "absorb (map (\<lambda>r. (fact_key r, or_digest r)) (r # rows)) (facts_of db)
        = absorb (map (\<lambda>r. (fact_key r, or_digest r)) rows) (facts_of db1)"
      unfolding list.map by (subst absorb_Cons) (simp only: one option.case)
    show ?thesis unfolding eq using IH Inr by simp
  qed
qed simp

subsection \<open>The properties\<close>

text \<open>C38: In every store reached by submissions and assessments each fact is stored at most once per configuration, and every
  stored observation belongs to a batch whose receipt is complete and carries the digest of the batch.\<close>

theorem stored_observations_verified:
  assumes "(risk_step sha)\<^sup>*\<^sup>* risk_empty db"
  shows "distinct (map fact_key (rd_observations db)) \<and> list_all (frontier_complete sha (rd_projection db)) (rd_observations db)"
proof -
  have "obs_ok sha db" using assms
    by (induction rule: rtranclp_induct) (auto simp: obs_ok_def risk_empty_def dest: obs_ok_step [unfolded obs_ok_def])
  then show ?thesis by (simp add: obs_ok_def)
qed

text \<open>C39: A batch is taken in once: after it was accepted, any later submission of the same payload that passes the checks of
  the batch is answered as a replay and changes nothing, whatever happened to the store in between.\<close>

theorem submission_happens_once:
  assumes "persisting sha assess" and "submit sha known po assess now actor physical payload db = Inr (db1, r)"
    and "(risk_step sha)\<^sup>*\<^sup>* db1 db2" and "persisting sha assess'" and "\<not> isl (check_batch po' actor' payload)"
  shows "\<exists>r'. submit sha known' po' assess' now' actor' physical' payload db2 = Inr (db2, r') \<and> rc_replay r'"
proof -
  have "(\<lambda>(known, po, assess, now, actor, physical) db. if \<not> persisting sha assess then Inl ValueErr
     else bind_res (submit sha known po assess now actor physical payload db) (\<lambda>(db', r). Inr (db', r, rc_replay r)))
     (known, po, assess, now, actor, physical) db = Inr (db1, r, rc_replay r)" using assms(1,2) by simp
  from submission.call_once [OF this assms(3), of "(known', po', assess', now', actor', physical')"] assms(4,5)
  show ?thesis by (auto simp: res_simps)
qed

text \<open>A key that was used with one payload refuses every payload of another digest, and the store stays as it is.\<close>

theorem submission_conflict_refused:
  assumes "received sha payload db" and "receipt_key sha payload' = receipt_key sha payload"
    and "risk_digest sha payload' \<noteq> risk_digest sha payload" and "\<not> isl (check_batch po actor payload')"
  shows "submit sha known po assess now actor physical payload' db = risk_error ''observation_idempotency_conflict''"
proof -
  from assms(4) obtain batch src items where c: "check_batch po actor payload' = Inr (batch, src, items)"
    by (cases "check_batch po actor payload'") auto
  from check_batch_Inr [OF c] have p: "payload' = PDict batch" by simp
  from assms(1-3) obtain saved where "rd_projection db (receipt_key sha payload') = Some saved" "pj_revision saved \<noteq> risk_digest sha payload'"
    by (auto simp: received_def)
  then show ?thesis using c by (simp add: submit_def Let_def p receipt_key_def entries_def)
qed

text \<open>C40: The store refines a map from facts to digests: admitting a new batch either absorbs its facts in order, a known fact
  with the same digest being skipped, or is refused because the map holds another digest for one of them. Identifiers are
  those of their facts, which holds unless SHA-256 collides.\<close>

theorem admission_refines_facts:
  assumes "rd_projection db (batch_key sha a b) = None" and "distinct (map fact_key (rd_observations db))"
    and "ids_agree (rows @ rd_observations db)" and "persisting sha assess"
  shows "(case admit_batch assess (batch_key sha a b) d i rows db of
     Inr (db', _) \<Rightarrow> absorb (map (\<lambda>r. (fact_key r, or_digest r)) rows) (facts_of db) = Some (facts_of db')
   | Inl _ \<Rightarrow> assess = None \<longrightarrow> absorb (map (\<lambda>r. (fact_key r, or_digest r)) rows) (facts_of db) = None)"
proof -
  let ?db0 = "db\<lparr>rd_projection := (rd_projection db)(batch_key sha a b \<mapsto>
    \<lparr>pj_revision = d, pj_fact = None, pj_through = None, pj_status = ''pending''\<rparr>)\<rparr>"
  have facts0: "facts_of ?db0 = facts_of db" by (simp add: facts_of_def)
  have r: "case store_items rows ?db0 of Inl _ \<Rightarrow> absorb (map (\<lambda>r. (fact_key r, or_digest r)) rows) (facts_of db) = None
    | Inr db' \<Rightarrow> absorb (map (\<lambda>r. (fact_key r, or_digest r)) rows) (facts_of db) = Some (facts_of db')"
    using store_items_refine [of rows ?db0] assms(2,3) unfolding facts0 by simp
  show ?thesis
  proof (cases "admit_batch assess (batch_key sha a b) d i rows db")
    case (Inl e)
    have "assess = None \<Longrightarrow> \<exists>e. store_items rows ?db0 = Inl e"
      using Inl assms(1) by (cases "store_items rows ?db0") (auto simp: admit_batch_def Let_def)
    with r Inl show ?thesis by auto
  next
    case (Inr x)
    obtain db' rc where x: "x = (db', rc)" by (cases x)
    from Inr x assms(1) obtain db1 where 1: "store_items rows ?db0 = Inr db1" by (auto simp: admit_batch_def Let_def res_simps)
    from Inr [unfolded x] assms(4) have "rd_observations db' = new_rows (rd_observations db) rows"
      by (cases rule: admit_batchE) (use assms(1) in auto)
    with store_items_Inr [OF 1] have "facts_of db' = facts_of db1" by (simp add: facts_of_def)
    with r 1 Inr x show ?thesis by simp
  qed
qed

subsection \<open>A submission\<close>

definition demo_item :: pv where
  "demo_item = PDict [(''identity'', PDict [(''cluster'', PStr ''cl''), (''node_id'', PStr ''n''), (''object_kind'', PStr ''unit''), (''object_id'', PStr ''A'')]),
     (''kind'', PStr ''state_snapshot''), (''signal_code'', PStr ''ok''), (''risk_type'', PStr ''failed''),
     (''occurred_at'', PStr ''1970-01-01T00:00:10Z''), (''source_sequence'', PInt 1), (''source_position_ref'', PStr ''p''),
     (''typed_fields'', PDict [(''ready'', PBool True)])]"

definition demo_batch :: "string \<Rightarrow> pv" where
  "demo_batch i = PDict [(''schema_version'', PStr ''server_risk_observation_batch_v1''), (''source_id'', PStr ''src''), (''source_epoch'', PStr ''e''),
     (''config_revision'', PStr ''c''), (''batch_id'', PStr i), (''idempotency_key'', PStr ''k''), (''mode'', PStr ''current''),
     (''observations'', PList [demo_item])]"

lemma demo_digest: "risk_digest demo_sha v = ''h''" and demo_key: "batch_key demo_sha a b = ''batch:h''"
  by (simp_all add: batch_key_def risk_digest_def demo_sha_def)

lemma demo_checked: "check_batch (demo_policies 10) (Some ''actor'') (demo_batch i) = Inr (entries (demo_batch i), demo_source, [demo_item])"
  if "i = ''b'' \<or> i = ''c''"
  using that
proof
  assume "i = ''b''"
  moreover have "check_batch (demo_policies 10) (Some ''actor'') (demo_batch ''b'') = Inr (entries (demo_batch ''b''), demo_source, [demo_item])"
    by code_simp
  ultimately show ?thesis by simp
next
  assume "i = ''c''"
  moreover have "check_batch (demo_policies 10) (Some ''actor'') (demo_batch ''c'') = Inr (entries (demo_batch ''c''), demo_source, [demo_item])"
    by code_simp
  ultimately show ?thesis by simp
qed

lemma demo_valid:
  "\<exists>v. validate demo_sha (\<lambda>_. True) risk_empty (entries (demo_batch ''b'')) demo_source 20000000 demo_item = Inr v \<and> vo_end v = 10000000"
proof -
  have "case validate demo_sha (\<lambda>_. True) risk_empty (entries (demo_batch ''b'')) demo_source 20000000 demo_item of
      Inl _ \<Rightarrow> False | Inr v \<Rightarrow> vo_end v = 10000000" by code_simp
  then show ?thesis unfolding res_witness .
qed

lemma risk_empty_simps [simp]:
  "rd_projection risk_empty k = None" "rd_observations risk_empty = []"
  by (simp_all add: risk_empty_def)

lemma demo_submit:
  "\<exists>db r. submit demo_sha (\<lambda>_. True) (demo_policies 10) None 20000000 (Some ''actor'') None (demo_batch ''b'') risk_empty = Inr (db, r)
     \<and> map or_end (rd_observations db) = [10000000] \<and> \<not> rc_replay r"
proof -
  obtain v where v: "validate demo_sha (\<lambda>_. True) risk_empty (entries (demo_batch ''b'')) demo_source 20000000 demo_item = Inr v" "vo_end v = 10000000"
    using demo_valid by blast
  show ?thesis
    by (simp add: submit_def demo_checked Let_def demo_digest demo_key v with_physical_def admit_batch_def store_item_def
        row_of_def exists_where_def check_def)
qed

lemma persisting_None: "persisting sha None"
  by (simp add: persisting_def)

theorem stored_observations_verified_witness:
  "\<exists>db :: risk_db. map or_end (rd_observations db) = [10000000] \<and> list_all (frontier_complete demo_sha (rd_projection db)) (rd_observations db)"
proof -
  obtain db r where s: "submit demo_sha (\<lambda>_. True) (demo_policies 10) None 20000000 (Some ''actor'') None (demo_batch ''b'') risk_empty = Inr (db, r)"
    "map or_end (rd_observations db) = [10000000]" using demo_submit by (elim exE conjE)
  from risk_step.submitted [OF persisting_None s(1)] have "(risk_step demo_sha)\<^sup>*\<^sup>* risk_empty db" by (rule r_into_rtranclp)
  note conjunct2 [OF stored_observations_verified [OF this]]
  with s(2) have "map or_end (rd_observations db) = [10000000] \<and> list_all (frontier_complete demo_sha (rd_projection db)) (rd_observations db)"
    by (rule conjI)
  then show ?thesis by (rule exI [of _ db])
qed

theorem submission_happens_once_witness:
  "\<exists>db r r'. submit demo_sha (\<lambda>_. True) (demo_policies 10) None 20000000 (Some ''actor'') None (demo_batch ''b'') risk_empty = Inr (db, r) \<and> \<not> rc_replay r
     \<and> submit demo_sha (\<lambda>_. True) (demo_policies 10) None 99000000 (Some ''actor'') None (demo_batch ''b'') db = Inr (db, r') \<and> rc_replay r'"
proof -
  obtain db r where s: "submit demo_sha (\<lambda>_. True) (demo_policies 10) None 20000000 (Some ''actor'') None (demo_batch ''b'') risk_empty = Inr (db, r)"
    "\<not> rc_replay r" using demo_submit by (elim exE conjE)
  have "\<not> isl (check_batch (demo_policies 10) (Some ''actor'') (demo_batch ''b''))" by (simp add: demo_checked)
  from submission_happens_once [OF persisting_None s(1) rtranclp.rtrancl_refl persisting_None this,
      where known' = "\<lambda>_. True" and now' = 99000000 and physical' = None] s
  show ?thesis by blast
qed

theorem submission_conflict_refused_witness:
  "\<exists>db. received (\<lambda>s. take 14 s) (demo_batch ''b'') db
     \<and> submit (\<lambda>s. take 14 s) (\<lambda>_. True) (demo_policies 10) None 99 (Some ''actor'') None (demo_batch ''c'') db
         = risk_error ''observation_idempotency_conflict''"
proof -
  let ?sha = "\<lambda>s :: string. take 14 s"
  define db where "db = risk_empty\<lparr>rd_projection := (\<lambda>_. Some \<lparr>pj_revision = risk_digest ?sha (demo_batch ''b''), pj_fact = None,
     pj_through = None, pj_status = ''complete''\<rparr>)\<rparr>"
  have r: "received ?sha (demo_batch ''b'') db" by (simp add: received_def db_def)
  have "receipt_key ?sha (demo_batch ''c'') = receipt_key ?sha (demo_batch ''b'')"
    by (simp add: receipt_key_def demo_batch_def entries_def dget_def)
  moreover have "take 14 (canonical_json (demo_batch ''c'')) \<noteq> take 14 (canonical_json (demo_batch ''b''))" by code_simp
  then have "risk_digest ?sha (demo_batch ''c'') \<noteq> risk_digest ?sha (demo_batch ''b'')" by (simp add: risk_digest_def)
  moreover have "\<not> isl (check_batch (demo_policies 10) (Some ''actor'') (demo_batch ''c''))" by (simp add: demo_checked)
  ultimately show ?thesis using submission_conflict_refused [OF r] r by blast
qed

theorem admission_refines_facts_witness:
  "\<exists>db r. admit_batch None (batch_key demo_sha ''s'' ''k'') ''d'' ''b'' [demo_obs ''a'' ''adverse'' 0 0] risk_empty = Inr (db, r)
     \<and> absorb [((''a'', ''c''), ''a'')] (facts_of risk_empty) = Some (facts_of db)"
proof -
  have "\<exists>db r. admit_batch None (batch_key demo_sha ''s'' ''k'') ''d'' ''b'' [demo_obs ''a'' ''adverse'' 0 0] risk_empty = Inr (db, r)"
    by (simp add: admit_batch_def risk_empty_def store_item_def exists_where_def Let_def)
  then obtain db r where a: "admit_batch None (batch_key demo_sha ''s'' ''k'') ''d'' ''b'' [demo_obs ''a'' ''adverse'' 0 0] risk_empty = Inr (db, r)"
    by blast
  have "rd_projection risk_empty (batch_key demo_sha ''s'' ''k'') = None" "distinct (map fact_key (rd_observations risk_empty))"
    "ids_agree ([demo_obs ''a'' ''adverse'' 0 0] @ rd_observations risk_empty)" by (simp_all add: risk_empty_def ids_agree_def)
  from admission_refines_facts [OF this persisting_None, of "''d''" "''b''"] a show ?thesis
    by (simp add: fact_key_def demo_obs_def)
qed

end
