(* ===== verification/Agent_Plan_Props.thy ===== *)
theory Agent_Plan_Props
  imports Agent_Plans
begin

text \<open>
  What an accepted plan, an accepted opinion of an expert and a stored artifact are known to satisfy.
\<close>

subsection \<open>Plans\<close>

lemma as_plan_failure_Inr [res_simps]: "as_plan_failure m = Inr x \<longleftrightarrow> m = Inr x"
  by (auto simp: as_plan_failure_def split: sum.splits exc.splits)

lemma check_plan_step_Inr [res_simps]:
  "check_plan_step tools p = Inr u \<longleftrightarrow>
     (\<exists>d. ps_args p = PDict d) \<and> node_id_ok (ps_id p) \<and> ps_tool p \<in> set tools \<and> \<not> plan_sensitive (ps_args p)"
  by (auto simp: check_plan_step_def agentic_def plan_invalid_def split: pv.splits)

lemma validate_plan_Inr:
  "validate_plan plan tools n = Inr plan' \<longleftrightarrow>
     plan' = plan \<and> \<not> blank (pl_goal plan) \<and> int (length (pl_steps plan)) \<le> n
     \<and> (pl_assessment plan = None \<longrightarrow> pl_steps plan \<noteq> []) \<and> distinct (map ps_id (pl_steps plan))
     \<and> (\<forall>p \<in> set (pl_steps plan). check_plan_step tools p = Inr ())"
proof (cases "blank (pl_goal plan) \<or> int (length (pl_steps plan)) < (if pl_assessment plan = None then 1 else 0)
    \<or> n < int (length (pl_steps plan)) \<or> \<not> distinct (map ps_id (pl_steps plan))")
  case True
  then have "validate_plan plan tools n = plan_invalid" by (auto simp: validate_plan_def Let_def)
  with True show ?thesis by (auto split: if_splits)
next
  case False
  then have "validate_plan plan tools n = bind_res (each_res (check_plan_step tools) (pl_steps plan)) (\<lambda>_. Inr plan)"
    by (simp add: validate_plan_def Let_def)
  with False show ?thesis by (auto simp: bind_res_Inr_iff each_res_Inr split: if_splits)
qed

lemma invalid_if: "(if c then plan_invalid else m) = Inr y \<longleftrightarrow> \<not> c \<and> m = Inr y"
  by simp


lemma step_case_Inr:
  "(case (a, b, c) of (PStr x, PStr y, PDict z) \<Rightarrow> f x y z | _ \<Rightarrow> plan_invalid) = Inr r
     \<longleftrightarrow> (\<exists>x y z. a = PStr x \<and> b = PStr y \<and> c = PDict z \<and> f x y z = Inr r)"
  by (cases a; cases b; cases c) simp_all

lemma plan_case_Inr:
  "(case (a, b) of (PStr x, PList y) \<Rightarrow> f x y | _ \<Rightarrow> plan_invalid) = Inr r
     \<longleftrightarrow> (\<exists>x y. a = PStr x \<and> b = PList y \<and> f x y = Inr r)"
  by (cases a; cases b) simp_all

lemma invalid_dict_Inr: "(case v of PDict d \<Rightarrow> f d | _ \<Rightarrow> plan_invalid) = Inr r \<longleftrightarrow> (\<exists>d. v = PDict d \<and> f d = Inr r)"
  by (cases v) simp_all

lemma parse_step_Inr:
  assumes "parse_step schemas v = Inr p"
  shows "\<exists>d schema. ps_args p = PDict d \<and> map_of (rev schemas) (ps_tool p) = Some schema
    \<and> validate_argument_schema (PDict d) schema = Inr ()"
proof -
  from assms obtain i t d schema where m: "map_of (rev schemas) t = Some schema"
    and c: "(case validate_argument_schema (PDict d) schema of
        Inl (AgenticErr _ _) \<Rightarrow> plan_invalid | Inl e \<Rightarrow> Inl e
      | Inr _ \<Rightarrow> Inr \<lparr>ps_id = i, ps_tool = t, ps_args = PDict d\<rparr>) = Inr p"
    unfolding parse_step_def invalid_dict_Inr invalid_if step_case_Inr
    by (auto simp del: Inl_Inr_False split: option.splits)
  then show ?thesis by (auto split: sum.splits exc.splits)
qed

lemma parse_plan_Inr:
  assumes "parse_plan answer tools context = Inr plan"
  obtains offered d raw where "expert_tool_descriptions tools context = Inr offered" and "answer = PDict d"
    and "map_res (parse_step (tool_schemas offered)) raw = Inr (pl_steps plan)"
    and "\<And>ctx. context = Some ctx \<Longrightarrow> expert_steps_ok ctx (pl_steps plan)
      \<and> (\<exists>a. validate_assessment (dget d ''assessment'') ctx (pl_steps plan) = Inr a \<and> pl_assessment plan = Some a)"
proof -
  from assms obtain d goal raw offered steps where d: "answer = PDict d" and o: "expert_tool_descriptions tools context = Inr offered"
    and m: "map_res (parse_step (tool_schemas offered)) raw = Inr steps"
    and c: "(case context of
                 None \<Rightarrow> Inr \<lparr>pl_goal = goal, pl_steps = steps, pl_assessment = None, pl_output = None\<rparr>
               | Some ctx \<Rightarrow>
                   if \<not> expert_steps_ok ctx steps then plan_invalid else
                   bind_res (validate_assessment (dget d ''assessment'') ctx steps) (\<lambda>a.
                   Inr \<lparr>pl_goal = goal, pl_steps = steps, pl_assessment = Some a, pl_output = Some answer\<rparr>)) = Inr plan"
    unfolding parse_plan_def invalid_dict_Inr invalid_if plan_case_Inr bind_res_Inr_iff
    by (elim exE conjE) (rule that, assumption+)
  have s: "steps = pl_steps plan" using c by (auto simp: bind_res_Inr_iff split: option.splits if_splits)
  have "expert_steps_ok ctx (pl_steps plan)
      \<and> (\<exists>a. validate_assessment (dget d ''assessment'') ctx (pl_steps plan) = Inr a \<and> pl_assessment plan = Some a)"
    if "context = Some ctx" for ctx
    using c that s by (cases plan) (auto simp: bind_res_Inr_iff split: if_splits)
  with o d m s show ?thesis by (intro that) blast+
qed

text \<open>C7: A plan that \<open>ModelAgentPlanner.plan\<close> returns, whatever the model answers, has between one and the remaining number
  of steps (an expert may plan none), distinct well-formed step identifiers, and in every step an offered tool with
  arguments that satisfy its schema and name no sensitive key. An expert that only reads plans nothing; the feature expert plans pairs that
  evaluate and then register one feature, and its opinion has passed all checks.\<close>

theorem model_plan_sound:
  assumes "model_plan model goal summary expert tools max_steps = Inr plan"
    and "expert_tool_descriptions tools (map_option fst expert) = Inr offered"
    and "expert_tool_descriptions offered (map_option fst expert) = Inr offered'"
  shows "\<not> blank (pl_goal plan)
    \<and> int (length (pl_steps plan)) \<le> remaining_steps (map_option fst expert) max_steps
    \<and> distinct (map ps_id (pl_steps plan))
    \<and> (\<forall>p \<in> set (pl_steps plan). node_id_ok (ps_id p) \<and> ps_tool p \<in> set (tool_names offered) \<and> \<not> plan_sensitive (ps_args p)
        \<and> (\<exists>schema. (ps_tool p, schema) \<in> set (tool_schemas offered') \<and> validate_argument_schema (ps_args p) schema = Inr ()))
    \<and> (\<forall>ctx facts. expert = Some (ctx, facts) \<longrightarrow> expert_steps_ok ctx (pl_steps plan)
        \<and> (\<exists>raw a. validate_assessment raw ctx (pl_steps plan) = Inr a \<and> pl_assessment plan = Some a))"
proof -
  from assms(1,2) obtain answer where parse: "parse_plan answer offered (map_option fst expert) = Inr plan"
    and valid: "validate_plan plan (tool_names offered) (remaining_steps (map_option fst expert) max_steps) = Inr plan"
    unfolding model_plan_def Let_def by (auto simp: bind_res_Inr_iff as_plan_failure_Inr validate_plan_Inr)
  from parse obtain o' d raw where o: "expert_tool_descriptions offered (map_option fst expert) = Inr o'"
    and steps': "map_res (parse_step (tool_schemas o')) raw = Inr (pl_steps plan)"
    and ctx: "\<And>ctx. map_option fst expert = Some ctx \<Longrightarrow> expert_steps_ok ctx (pl_steps plan)
      \<and> (\<exists>a. validate_assessment (dget d ''assessment'') ctx (pl_steps plan) = Inr a \<and> pl_assessment plan = Some a)"
    by (rule parse_plan_Inr) (rule that, assumption+)
  from o assms(3) steps' have steps: "map_res (parse_step (tool_schemas offered')) raw = Inr (pl_steps plan)" by simp
  have schema: "\<exists>schema. (ps_tool p, schema) \<in> set (tool_schemas offered') \<and> validate_argument_schema (ps_args p) schema = Inr ()"
    if "p \<in> set (pl_steps plan)" for p
  proof -
    from map_res_Inr_set [OF steps that] obtain v where "parse_step (tool_schemas offered') v = Inr p" by blast
    from parse_step_Inr [OF this] obtain d' schema where "ps_args p = PDict d'"
      and "map_of (rev (tool_schemas offered')) (ps_tool p) = Some schema"
      and "validate_argument_schema (PDict d') schema = Inr ()" by blast
    moreover from this(2) have "(ps_tool p, schema) \<in> set (tool_schemas offered')"
      using map_of_SomeD [of "rev (tool_schemas offered')"] by simp
    ultimately show ?thesis by auto
  qed
  have opinion: "expert_steps_ok c (pl_steps plan)
      \<and> (\<exists>raw a. validate_assessment raw c (pl_steps plan) = Inr a \<and> pl_assessment plan = Some a)" if "expert = Some (c, f)" for c f
    using ctx [of c] that by auto
  from valid schema opinion show ?thesis by (simp add: validate_plan_Inr check_plan_step_Inr)
qed

subsection \<open>Opinions\<close>












subsection \<open>Artifacts\<close>

text \<open>C9: The artifact that a run keeps of a reading tool is at most 16 KiB of JSON and names no sensitive key. Either it
  holds the complete output, or it holds none of it and asks for an explicit read.\<close>

theorem read_artifact_bounded:
  assumes "read_tool_artifact x = Inr payload"
  shows "length (canonical_json payload) \<le> max_artifact_bytes \<and> \<not> sensitive (ai_output x)
    \<and> (item_at payload ''safe_payload'' = Inr (ai_output x) \<and> item_at payload ''requires_explicit_read'' = Inr (PBool False)
       \<or> item_at payload ''safe_payload'' = Inr (PDict []) \<and> item_at payload ''requires_explicit_read'' = Inr (PBool True))"
  using assms
  by (auto simp: read_tool_artifact_def bind_res_Inr_iff reject_sensitive_def agentic_def Let_def artifact_payload_def item_at_def
      not_less split: option.splits if_splits)

definition small_artifact :: artifact_input where
  "small_artifact = \<lparr>ai_run = ''r'', ai_source = ''j'', ai_entity = ''n'', ai_tool = ''find_approved_rules'', ai_call = ''c'',
     ai_evidence = ''h'', ai_output = PDict [(''total'', PInt 0)]\<rparr>"

theorem read_artifact_bounded_witness:
  "\<exists>payload. read_tool_artifact small_artifact = Inr payload \<and> length (canonical_json payload) \<le> max_artifact_bytes"
proof -
  have "case read_tool_artifact small_artifact of Inl _ \<Rightarrow> False | Inr x \<Rightarrow> True" by code_simp
  then obtain payload where "read_tool_artifact small_artifact = Inr payload" by (auto split: sum.splits)
  with read_artifact_bounded [OF this] show ?thesis by blast
qed

subsection \<open>Witnesses\<close>

definition listed_tool :: pv where
  "listed_tool = PDict [(''name'', PStr ''find_approved_rules''), (''argument_schema'', PDict [(''type'', PStr ''object''),
     (''additionalProperties'', PBool False), (''properties'', PDict [(''components'', PDict [(''type'', PStr ''array'')])])])]"

definition answered_plan :: pv where
  "answered_plan = PDict [(''goal'', PStr ''look''), (''steps'', PList [PDict [(''step_id'', PStr ''s1''),
     (''tool_name'', PStr ''find_approved_rules''), (''arguments'', PDict [(''components'', PList [])])]])]"

theorem model_plan_sound_witness:
  "\<exists>plan. model_plan (\<lambda>payload schema. Inr answered_plan) ''goal'' [] None [listed_tool] 3 = Inr plan
     \<and> pl_steps plan \<noteq> [] \<and> (\<forall>p \<in> set (pl_steps plan). node_id_ok (ps_id p) \<and> \<not> plan_sensitive (ps_args p))"
proof -
  have "case model_plan (\<lambda>payload schema. Inr answered_plan) ''goal'' [] None [listed_tool] 3 of
      Inl _ \<Rightarrow> False | Inr plan \<Rightarrow> pl_steps plan \<noteq> []" by code_simp
  then obtain plan where p: "model_plan (\<lambda>payload schema. Inr answered_plan) ''goal'' [] None [listed_tool] 3 = Inr plan"
    and n: "pl_steps plan \<noteq> []" by (auto split: sum.splits)
  have e: "expert_tool_descriptions [listed_tool] (map_option fst (None :: (expert_context \<times> fact list) option)) = Inr [listed_tool]"
    by (simp add: expert_tool_descriptions_def)
  from model_plan_sound [OF p e e] n p show ?thesis by blast
qed









end
