(* ===== verification/Spec2Isabelle.thy ===== *)
theory Spec2Isabelle
  imports Node_Risk_Thms Workflow_Service_Props Streaming_Properties Streaming_Summary Agent_Compiler_Props Agent_Runs_Props Workflow_Thms Upload_Props Correlation_Props Risk_Store_Props Agent_Plan_Props Agent_Execute_Thms
begin

text \<open>
  A verification development for the log-analysis system under \<open>src/logrisk\<close>.

  \<^bold>\<open>The system.\<close> Logs are read in bounded batches by streaming tasks, compressed into windows of templates, correlated across
  sources and assessed into risks of servers. Agents, alone or as nodes of a workflow, examine the evidence of one entity: a planner
  (a fixed one or a language model) proposes steps, a runtime executes them with a small set of tools behind a human gate, and
  experts hand checked opinions to each other. Files reach the system through resumable uploads and a shared artifact directory.
  Everything durable lives in a relational store; the operations of a component are transactions on its tables.

  \<^bold>\<open>How code becomes definitions.\<close> A table is the list of its rows (a \<open>record\<close>), a database a record of tables. A method that may
  raise returns \<open>'a res\<close> (\<open>Inl\<close> the exception, \<open>Inr\<close> the value), and a method that writes returns the new database with its value;
  an exception leaves the database as it was, because the code rolls the transaction back. JSON-like values are \<open>pv\<close>; strings
  are their UTF-8 bytes. What the code takes from outside is an argument: clocks, fresh identifiers, SHA-256, the answers of
  tools and models, the files, and what other processes do between two transactions. Loops are structural recursion except
  where named below. Display texts of exceptions are dropped; machine-readable codes are kept.

  \<^bold>\<open>The prelude.\<close> \<open>Py_Prelude\<close> (Python values, \<open>res\<close>, JSON, tables), \<open>Py_Float\<close> (floats as exact decimals, infinities, NaN),
  \<open>Py_Regex\<close> (a backtracking matcher for the expressions the code uses), \<open>Iso_Time\<close> (\<open>datetime.fromisoformat\<close>), \<open>Iso_Format\<close>
  (\<open>isoformat\<close> and \<open>fromtimestamp\<close>, with the round trip), \<open>Event_Log\<close>
  (gapless event tables, locale \<open>sequenced_log\<close>) and \<open>Replay\<close> (operations with an idempotency key, locale \<open>replay_log\<close>).

  \<^bold>\<open>Streaming\<close> (\<open>streaming_state.py\<close>, cursors of \<open>incremental_sources.py\<close>). \<open>Source_Cursor\<close>, \<open>Streaming_Store\<close> (tasks, leases, miner
  generations), \<open>Streaming_Payload\<close> (what a batch stores, its hash), \<open>Streaming_Commit\<close> (\<open>commit_window\<close>), \<open>Streaming_Prefix\<close>
  (the evidence that a history is complete, \<open>complete_claim\<close>). \<open>Streaming_Reach\<close> names every writing operation (\<open>sop\<close>) and the
  stores they reach; \<open>Streaming_Facts\<close>, \<open>Streaming_History\<close> and \<open>Streaming_Steps\<close> are the invariants, \<open>Streaming_Demo\<close> a concrete
  run, \<open>Streaming_Properties\<close> and \<open>Streaming_Summary\<close> the theorems: a committed history always passes the evidence check,
  batches are committed once, a takeover fences the old worker, completion needs evidence, frontiers do not rewind, no raw log
  field is stored, hashes streamed in pages agree, summaries are the sums of their batches.

  \<^bold>\<open>Agent workflows\<close> (\<open>agentic/compiler.py\<close>, \<open>workflow_models.py\<close>, \<open>roles.py\<close>, \<open>workflow_repository.py\<close>, \<open>workflow_scheduler.py\<close>).
  \<open>Agent_Compiler\<close> compiles a document into layers of nodes; \<open>Agent_Compiler_Props\<close> shows that the layers are a topological
  order, that compilation succeeds exactly on acyclic graphs and respects the limits. \<open>Workflow_Runs\<close> is the store of runs and
  nodes, \<open>Workflow_Scheduler\<close> the loop (\<open>execute_wrun\<close> takes fuel; \<open>workflow_scheduler_terminates\<close> shows that one pass per node
  and remaining attempt is enough, whatever the environment returns). \<open>Workflow_Props\<close> and \<open>Workflow_Thms\<close>: budget, order of
  nodes, termination, the exhausted retries.

  \<^bold>\<open>Agent runs\<close> (\<open>agentic/repository.py\<close>, \<open>models.py\<close>, \<open>errors.py\<close>). \<open>Agent_Scope\<close> checks requests, \<open>Agent_Runs\<close> is the store,
  \<open>Agent_Steps\<close> its reachable states (\<open>areach\<close>), \<open>Agent_Runs_Props\<close> consistency, budgets, planning at most once, recovery.

  \<^bold>\<open>The agent runtime\<close> (\<open>agentic/runtime.py\<close>, \<open>tool_registry.py\<close>, \<open>tools.py\<close>, \<open>artifacts.py\<close>, \<open>planner.py\<close>, \<open>evidence_context.py\<close>,
  \<open>rule_scope_matches\<close> of \<open>approved_rules.py\<close>). \<open>Agent_Tools\<close>, \<open>Agent_Toolset\<close>, \<open>Agent_Plans\<close>, \<open>Expert_Context\<close>, \<open>Expert_Assessment\<close> and
  \<open>Expert_Build\<close> are the pure checks; \<open>Agent_Runtime\<close> the computations over a store that others interleave with (\<open>rt\<close>), and
  \<open>Agent_Execute\<close> is \<open>AgentRuntime.execute\<close>, with the one retry of a step written out. \<open>Agent_Gate\<close> has the program logic
  (\<open>keeps\<close>, \<open>triple\<close>); \<open>Agent_Gate_Props\<close>, \<open>Agent_Budget\<close>, \<open>Agent_Budget_Props\<close>, \<open>Agent_Plan_Props\<close> and \<open>Agent_Execute_Thms\<close>
  show that nothing is written without a passed evaluation, that no execution overspends and what accepted plans, opinions and
  artifacts satisfy; \<open>Agent_Views\<close> that the view an execution returns shows its cost within its maximum.

  \<^bold>\<open>The services\<close> (\<open>agentic/service.py\<close>, \<open>workflow_service.py\<close>, \<open>workflow_worker.py\<close>). \<open>Agent_Services\<close> and \<open>Workflow_Services\<close> are
  sequences of transactions; \<open>Workflow_Service_Props\<close> composes worker, services, repository and runtime: what a node charges
  is within the limit the scheduler reserved for it.

  \<^bold>\<open>Risks\<close> (\<open>server_risk/contracts.py\<close>, \<open>policies.py\<close>, \<open>assessment.py\<close>, \<open>observations.py\<close>, \<open>repository.py\<close>). \<open>Risk_Contracts\<close>,
  \<open>Risk_Assessment\<close> and \<open>Risk_Store\<close> are the code; \<open>Risk_Verdicts\<close> states when a subject may be called clear without the fold
  of the code, \<open>Risk_Props\<close> shows the verdicts equivalent to that, \<open>Risk_Store_Props\<close> refines the store of observations to a map.

  \<^bold>\<open>Node risks\<close> (\<open>node_risk.py\<close>). \<open>Node_Risk\<close> is the ledger: \<open>ingest\<close> with the merging of events and the replacement of revisions,
  the operators' transitions, the revisions that say whether a published score is current. \<open>Node_Risk_Props\<close> has the invariant of
  the reachable ledgers (\<open>risk_ledger\<close>, \<open>ledger_ok\<close>) and interprets \<open>replay_log\<close>; \<open>Node_Risk_Thms\<close>: counts are those of the current
  contributions, each is counted once, a revision is replaced only by a caller who knows it, a stale score is refused.

  \<^bold>\<open>Correlation\<close> (\<open>multi_source/correlation.py\<close>). \<open>Union_Find\<close>, \<open>Correlation\<close>, \<open>Correlation_Props\<close>: the search is complete within
  its budget, and the groups are the connected components.

  \<^bold>\<open>Files\<close> (\<open>artifact_storage.py\<close>, \<open>upload_sessions.py\<close>). \<open>Artifact_Store\<close>, \<open>Uploads\<close> and \<open>Upload_Props\<close>: an upload reassembles the
  bytes it was sent, and publishing never replaces a file.

  \<^bold>\<open>Not modelled.\<close> HTTP, rendering and argument marshalling (\<open>dashboard_server.py\<close>, \<open>application\<close>, the Django views), SQL migrations
  and connections, the log readers and the Drain3 miner, the clients of language models, Kafka and MCP, and the components that
  the manifest lists as not modelled: feature jobs, the approval queue, the problem resolver, ledgers and scores in
  floating-point arithmetic (the model compares floats but does not round sums and products), knowledge packages, benchmarks.
\<close>

end
